(* ===== verification/Prelude.thy ===== *)
theory Prelude
  imports Complex_Main "HOL-Library.AList"
begin

text \<open>
  The vocabulary every component shares: clock readings, Python's text operations on ASCII
  strings, the scalar values a Python dict holds, and the "events in the last \<open>W\<close> seconds"
  windows that the rate limiter, the sequence guard, the context manager and the policy engine
  all count.  The collections \<open>py_defs\<close> and \<open>window_simps\<close> gather what the component
  proofs unfold and rewrite with.
\<close>

named_theorems py_defs \<open>definitions of the Python primitives\<close>
named_theorems window_simps \<open>rewriting sliding windows\<close>

section \<open>Clock readings\<close>

text \<open>
  \<open>time.time()\<close> is a float.  A clock reading, like every other Python float of the model, is a
  rational number: comparisons, sums and differences are exact, and rounding is left out.
  Durations are seconds.
\<close>

type_synonym time = rat

section \<open>Text\<close>

text \<open>
  Text is \<open>string\<close> (a list of characters) and holds ASCII.  The definitions below are Python's
  \<open>str.strip\<close>, \<open>str.lower\<close>, \<open>str.upper\<close> and \<open>sub in text\<close> on such text.
\<close>

definition is_space :: "char \<Rightarrow> bool" where
  "is_space c = (let n = (of_char c :: nat) in (9 \<le> n \<and> n \<le> 13) \<or> (28 \<le> n \<and> n \<le> 32))"

definition strip :: "string \<Rightarrow> string" where
  "strip s = rev (dropWhile is_space (rev (dropWhile is_space s)))"

definition lower_char :: "char \<Rightarrow> char" where
  "lower_char c = (let n = (of_char c :: nat) in
     if 65 \<le> n \<and> n \<le> 90 then char_of (n + 32) else c)"

definition upper_char :: "char \<Rightarrow> char" where
  "upper_char c = (let n = (of_char c :: nat) in
     if 97 \<le> n \<and> n \<le> 122 then char_of (n - 32) else c)"

definition lower :: "string \<Rightarrow> string" where
  "lower s = List.map lower_char s"

definition upper :: "string \<Rightarrow> string" where
  "upper s = List.map upper_char s"

fun starts_with :: "string \<Rightarrow> string \<Rightarrow> bool" where
  "starts_with [] s = True"
| "starts_with (p # ps) [] = False"
| "starts_with (p # ps) (c # cs) = (p = c \<and> starts_with ps cs)"

fun contains :: "string \<Rightarrow> string \<Rightarrow> bool" where
  "contains p [] = (p = [])"
| "contains p (c # cs) = (starts_with p (c # cs) \<or> contains p cs)"

text \<open>\<open>str.splitlines()\<close>: ASCII line ends, with a carriage return and line feed as one.\<close>

definition line_break :: "char \<Rightarrow> bool" where
  "line_break c = (let n = (of_char c :: nat) in (10 \<le> n \<and> n \<le> 13) \<or> (28 \<le> n \<and> n \<le> 30))"

fun split_lines :: "string \<Rightarrow> string list" where
  "split_lines [] = []"
| "split_lines [c] = (if line_break c then [[]] else [[c]])"
| "split_lines (c # d # s) =
     (if c = CHR 0x0D \<and> d = CHR 0x0A then [] # split_lines s
      else if line_break c then [] # split_lines (d # s)
      else (case split_lines (d # s) of [] \<Rightarrow> [[c]] | y # ys \<Rightarrow> (c # y) # ys))"

text \<open>Decimal text of an integer, as \<open>str(n)\<close> and the f-strings render it.\<close>

definition digit_char :: "nat \<Rightarrow> char" where
  "digit_char d = char_of (48 + d)"

fun dec_nat :: "nat \<Rightarrow> string" where
  "dec_nat n = (if n < 10 then [digit_char n] else dec_nat (n div 10) @ [digit_char (n mod 10)])"

declare dec_nat.simps [simp del]

definition dec_int :: "int \<Rightarrow> string" where
  "dec_int i = (if i < 0 then ''-'' @ dec_nat (nat (- i)) else dec_nat (nat i))"

text \<open>The same digits over the integers, which evaluates quickly.\<close>

function dec_pos :: "int \<Rightarrow> string" where
  "dec_pos i = (if i < 10 then [char_of (48 + i)] else dec_pos (i div 10) @ [char_of (48 + i mod 10)])"
  by pat_completeness auto
termination by (relation "measure nat") auto

declare dec_pos.simps [simp del]

lemma digit_char_int: "char_of (48 + int d) = digit_char d"
  unfolding digit_char_def by (metis of_nat_add of_nat_numeral char_of_nat)

lemma dec_pos_eq: "dec_pos (int n) = dec_nat n"
proof (induction n rule: dec_nat.induct)
  case (1 n)
  then show ?case
    by (subst dec_pos.simps, subst dec_nat.simps)
      (auto simp: digit_char_int zdiv_int digit_char_int [of "n mod 10", unfolded zmod_int, simplified])
qed

lemma dec_int_code [code]: "dec_int i = (if i < 0 then ''-'' @ dec_pos (- i) else dec_pos i)"
  using dec_pos_eq [of "nat i"] dec_pos_eq [of "nat (- i)"] by (auto simp: dec_int_def split: if_splits)
lemma split_lines_end: "list_all (\<lambda>c. \<not> line_break c) u \<Longrightarrow> split_lines (u @ CHR 0x0A # v) = u # split_lines v"
proof (induction u)
  case Nil
  have "line_break CHR 0x0A" by (simp add: line_break_def)
  then show ?case by (cases v) simp_all
next
  case (Cons c u)
  have cr: "line_break CHR 0x0D" by (simp add: line_break_def)
  obtain d w where dw: "u @ CHR 0x0A # v = d # w" by (cases u) auto
  from Cons cr have "split_lines (d # w) = u # split_lines v" and "\<not> line_break c" by (simp_all add: dw)
  moreover have "c \<noteq> CHR 0x0D" using cr Cons.prems by auto
  ultimately show ?case by (simp add: dw)
qed

lemma length_strip: "length (strip s) \<le> length s"
proof -
  have "length (strip s) \<le> length (rev (dropWhile is_space s))"
    unfolding strip_def length_rev by (metis length_dropWhile_le length_rev)
  also have "\<dots> \<le> length s" by (simp add: length_dropWhile_le)
  finally show ?thesis .
qed

lemma dropWhile_idem: "dropWhile P (dropWhile P xs) = dropWhile P xs"
  by (induction xs) auto

lemma dropWhile_fixed: "xs = [] \<or> \<not> P (hd xs) \<Longrightarrow> dropWhile P xs = xs"
  by (cases xs) auto

lemma strip_strip [simp]: "strip (strip s) = strip s"
proof -
  define a where "a = dropWhile is_space s"
  define b where "b = dropWhile is_space (rev a)"
  have b: "b = [] \<or> \<not> is_space (hd b)" unfolding b_def by (metis hd_dropWhile)
  have a: "a = [] \<or> \<not> is_space (hd a)" unfolding a_def by (metis hd_dropWhile)
  obtain ws where ws: "rev a = ws @ b"
    unfolding b_def by (metis takeWhile_dropWhile_id)
  have "rev b = [] \<or> \<not> is_space (hd (rev b))"
  proof (cases "b = []")
    case False
    have "a = rev b @ rev ws" using ws by (metis rev_append rev_rev_ident)
    with False have "a \<noteq> []" and "hd a = hd (rev b)" by (auto simp: hd_append)
    with a show ?thesis by simp
  qed simp
  then have "dropWhile is_space (rev b) = rev b" by (rule dropWhile_fixed)
  moreover have "dropWhile is_space b = b" using b by (rule dropWhile_fixed)
  moreover have "strip s = rev b" by (simp add: strip_def a_def b_def)
  ultimately show ?thesis by (simp add: strip_def)
qed

lemma starts_with_append: "starts_with p (p @ s)"
  by (induction p) auto

lemma contains_append: "contains p (u @ p @ v)"
proof (induction u)
  case Nil
  show ?case
    using starts_with_append [of p v] by (cases "p @ v") auto
next
  case (Cons c u)
  then show ?case by simp
qed

lemma starts_with_set: "starts_with p s \<Longrightarrow> set p \<subseteq> set s"
  by (induction p s rule: starts_with.induct) auto

lemma contains_set: "contains p s \<Longrightarrow> set p \<subseteq> set s"
proof (induction p s rule: contains.induct)
  case (2 p c cs)
  then show ?case using starts_with_set [of p "c # cs"] by auto
qed simp

section \<open>Python values and dicts\<close>

text \<open>
  The values that the dicts of the program hold (threat contexts, action parameters, tool
  arguments): scalars, and lists of strings.  A dict is an association list in insertion order; \<open>d.get(k, x)\<close> is
  \<open>py_get d k x\<close> and \<open>a or b\<close> is \<open>py_or a b\<close>.
\<close>

datatype pyval = PyNone | PyBool bool | PyInt int | PyFloat rat | PyStr string
  | PyStrs "string list"

type_synonym pydict = "(string \<times> pyval) list"

fun truthy :: "pyval \<Rightarrow> bool" where
  "truthy PyNone = False"
| "truthy (PyBool b) = b"
| "truthy (PyInt i) = (i \<noteq> 0)"
| "truthy (PyFloat q) = (q \<noteq> 0)"
| "truthy (PyStr s) = (s \<noteq> [])"
| "truthy (PyStrs xs) = (xs \<noteq> [])"

definition py_get :: "pydict \<Rightarrow> string \<Rightarrow> pyval \<Rightarrow> pyval" where
  "py_get d k x = (case map_of d k of None \<Rightarrow> x | Some v \<Rightarrow> v)"

definition py_or :: "pyval \<Rightarrow> pyval \<Rightarrow> pyval" where
  "py_or a b = (if truthy a then a else b)"

definition py_set :: "string \<Rightarrow> pyval \<Rightarrow> pydict \<Rightarrow> pydict" where
  "py_set k v d = AList.update k v d"

definition has_key :: "pydict \<Rightarrow> string \<Rightarrow> bool" where
  "has_key d k = (map_of d k \<noteq> None)"

text \<open>
  Rendering a float needs Python's shortest-repr algorithm, and a list of strings the escapes of
  \<open>repr\<close>.  The model takes these renderings as a parameter: \<open>repr_strs\<close> is \<open>str\<close> of such a list, \<open>repr_float\<close> is \<open>str(x)\<close> of a float, and \<open>fixed2\<close> is
  the text \<open>f"{float(x or 0):.2f}"\<close> of a value (\<open>0.00\<close> when \<open>float\<close> raises).
\<close>

record text_env =
  repr_float :: "rat \<Rightarrow> string"
  fixed2 :: "pyval \<Rightarrow> string"
  repr_strs :: "string list \<Rightarrow> string"

fun py_str :: "text_env \<Rightarrow> pyval \<Rightarrow> string" where
  "py_str te PyNone = ''None''"
| "py_str te (PyBool b) = (if b then ''True'' else ''False'')"
| "py_str te (PyInt i) = dec_int i"
| "py_str te (PyFloat q) = repr_float te q"
| "py_str te (PyStr s) = s"
| "py_str te (PyStrs xs) = repr_strs te xs"

lemma py_or_truthy [simp]: "truthy (py_or a b) = (truthy a \<or> truthy b)"
  by (simp add: py_or_def)

lemma py_get_Nil [simp]: "py_get [] k x = x"
  by (simp add: py_get_def)

lemma py_get_Cons [simp]: "py_get ((k', v) # d) k x = (if k' = k then v else py_get d k x)"
  by (simp add: py_get_def)

lemma map_of_update [simp]: "map_of (AList.update k v d) = (map_of d)(k \<mapsto> v)"
  by (rule AList.update_conv')

lemma py_get_py_set [simp]:
  "py_get (py_set k v d) k' x = (if k = k' then v else py_get d k' x)"
  by (simp add: py_get_def py_set_def)

lemmas [py_defs] = py_get_def py_or_def py_set_def has_key_def

section \<open>Sliding windows\<close>

text \<open>\<open>[t for t in ts if (now - t) < W]\<close>, and its length.\<close>

definition in_window :: "time \<Rightarrow> time \<Rightarrow> time list \<Rightarrow> time list" where
  "in_window W now ts = filter (\<lambda>t. now - t < W) ts"

definition count_window :: "time \<Rightarrow> time \<Rightarrow> time list \<Rightarrow> nat" where
  "count_window W now ts = length (in_window W now ts)"

lemma in_window_Nil [simp, window_simps]: "in_window W now [] = []"
  by (simp add: in_window_def)

lemma in_window_append [window_simps]:
  "in_window W now (xs @ ys) = in_window W now xs @ in_window W now ys"
  by (simp add: in_window_def)

lemma in_window_single [window_simps]: "0 < W \<Longrightarrow> in_window W now [now] = [now]"
  by (simp add: in_window_def)

text \<open>Dropping what has left the window never changes a later window.\<close>

lemma in_window_shrink [window_simps]:
  "now \<le> later \<Longrightarrow> in_window W later (in_window W now ts) = in_window W later ts"
  unfolding in_window_def filter_filter
  by (rule filter_cong) auto

lemma set_in_window: "set (in_window W now ts) \<subseteq> set ts"
  by (auto simp: in_window_def)

lemma count_window_mono:
  "now \<le> later \<Longrightarrow> count_window W later ts \<le> count_window W now ts"
  unfolding count_window_def in_window_def
  by (induction ts) auto

lemma count_window_le: "count_window W now ts \<le> length ts"
  by (simp add: count_window_def in_window_def)

lemma filter_length_mono:
  "(\<And>x. x \<in> set xs \<Longrightarrow> P x \<Longrightarrow> Q x) \<Longrightarrow> length (filter P xs) \<le> length (filter Q xs)"
  by (induction xs) auto

section \<open>The last entries of a list\<close>

text \<open>\<open>xs[-n:]\<close> for a positive \<open>n\<close>, and what a bounded list keeps.\<close>

definition keep_last :: "nat \<Rightarrow> 'a list \<Rightarrow> 'a list" where
  "keep_last n xs = drop (length xs - n) xs"

lemma length_keep_last [simp]: "length (keep_last n xs) = min n (length xs)"
  by (simp add: keep_last_def)

lemma keep_last_append: "keep_last n (keep_last n xs @ ys) = keep_last n (xs @ ys)"
proof (cases "length xs \<le> n")
  case False
  then have "n + length ys - n = length ys" "length xs - n + length ys = length xs + length ys - n"
    by simp_all
  with False show ?thesis by (simp add: keep_last_def add.commute)
qed (simp add: keep_last_def)

lemma keep_last_short: "length xs \<le> n \<Longrightarrow> keep_last n xs = xs"
  by (simp add: keep_last_def)

end
