(* ===== verification/Actions.thy ===== *)
theory Actions
  imports Prelude "HOL-Library.Product_Lexorder"
begin

text \<open>
  The response action as the policies, the approval queue, the executor and the orchestrator
  pass it around: a dict with the keys \<open>action\<close> or \<open>name\<close> and \<open>params\<close>; and the batch
  summary an approval ticket keeps of an execution.
\<close>

record response_action =
  action_key :: "string option"
  name_key :: "string option"
  params :: pydict

definition named_action :: "string \<Rightarrow> pydict \<Rightarrow> response_action" where
  "named_action n ps = \<lparr>action_key = None, name_key = Some n, params = ps\<rparr>"

text \<open>\<open>a.get("name", "")\<close>, and \<open>action.get("action", action.get("name", ""))\<close>.\<close>

definition name_of :: "response_action \<Rightarrow> string" where
  "name_of a = (case name_key a of None \<Rightarrow> '''' | Some n \<Rightarrow> n)"

definition action_name_of :: "response_action \<Rightarrow> string" where
  "action_name_of a = (case action_key a of None \<Rightarrow> name_of a | Some n \<Rightarrow> n)"

text \<open>\<open>a.get("action") or a.get("name") or ""\<close>: an empty name counts as absent.\<close>

definition action_or_name :: "response_action \<Rightarrow> string" where
  "action_or_name a = (case action_key a of
     Some n \<Rightarrow> if n \<noteq> [] then n else name_of a | None \<Rightarrow> name_of a)"

record exec_summary =
  sum_succeeded :: nat
  sum_failed :: nat
  sum_token :: string

lemma action_names [simp]:
  "name_of (named_action n ps) = n"
  "action_name_of (named_action n ps) = n"
  "action_or_name (named_action n ps) = n"
  "params (named_action n ps) = ps"
  by (simp_all add: name_of_def action_name_of_def action_or_name_def named_action_def)

section \<open>Association lists as insertion-ordered dicts\<close>

text \<open>Updating the value under a key that is present, if it is.\<close>

definition alter :: "'k \<Rightarrow> ('v \<Rightarrow> 'v) \<Rightarrow> ('k \<times> 'v) list \<Rightarrow> ('k \<times> 'v) list" where
  "alter k f d = List.map (\<lambda>(k', v). (k', if k' = k then f v else v)) d"

lemma map_of_alter [simp]:
  "map_of (alter k f d) k' = (if k' = k then map_option f (map_of d k) else map_of d k')"
  unfolding alter_def by (induction d) auto

lemma alter_keys [simp]: "List.map fst (alter k f d) = List.map fst d"
  by (simp add: alter_def case_prod_beta comp_def)

lemma map_of_map_values:
  "map_of (List.map (\<lambda>(k, v). (k, f v)) d) k = map_option f (map_of d k)"
  by (induction d) auto

lemma map_of_filter_values:
  "distinct (List.map fst d) \<Longrightarrow>
   map_of (filter (\<lambda>(k, v). P v) d) k =
     (case map_of d k of None \<Rightarrow> None | Some v \<Rightarrow> if P v then Some v else None)"
proof (induction d)
  case Nil
  then show ?case by simp
next
  case (Cons x d)
  obtain k' v where x: "x = (k', v)" by (cases x)
  have "map_of (filter (\<lambda>(k, v). P v) d) k' = None" if "k' \<notin> fst ` set d"
    using that by (auto simp: map_of_eq_None_iff)
  with Cons x show ?case by (auto split: option.splits)
qed

lemma distinct_keys_filter:
  "distinct (List.map fst d) \<Longrightarrow> distinct (List.map fst (filter P d))"
  by (rule distinct_map_filter)

lemma alter_set_values:
  "v \<in> snd ` set (alter k f d) \<Longrightarrow> v \<in> snd ` set d \<or> (\<exists>u\<in>snd ` set d. v = f u)"
  by (force simp: alter_def split: if_splits)

end
