(* ===== verification/DecisionQueue.thy ===== *)
theory DecisionQueue
  imports Prelude
begin

text \<open>
  The contract both approval queues of the program keep towards the components that execute
  what was approved.  Events introduce tickets, decide them, expire or remove them; a ticket is
  approved only while it is pending and never becomes pending again.  The client lemma is the
  absence of replay: in any run that gives fresh ids to new tickets, each ticket is approved at
  most once.
\<close>

fun run_queue :: "('q \<Rightarrow> 'ev \<Rightarrow> 'q) \<Rightarrow> 'q \<Rightarrow> 'ev list \<Rightarrow> 'q" where
  "run_queue step q [] = q"
| "run_queue step q (e # es) = run_queue step (step q e) es"

text \<open>The ids approved along a run, in order.\<close>

fun approvals :: "('q \<Rightarrow> 'ev \<Rightarrow> 'q) \<Rightarrow> ('q \<Rightarrow> 'ev \<Rightarrow> 'id option) \<Rightarrow> 'q \<Rightarrow> 'ev list \<Rightarrow> 'id list" where
  "approvals step appr q [] = []"
| "approvals step appr q (e # es) =
     (case appr q e of None \<Rightarrow> approvals step appr (step q e) es
      | Some i \<Rightarrow> i # approvals step appr (step q e) es)"

text \<open>New tickets get ids that are fresh for the queue and distinct along the run.\<close>

fun fresh_ids :: "('q \<Rightarrow> 'id \<Rightarrow> 'st option) \<Rightarrow> ('ev \<Rightarrow> 'id option) \<Rightarrow> 'q \<Rightarrow> 'ev list \<Rightarrow> bool" where
  "fresh_ids status intro q [] = True"
| "fresh_ids status intro q (e # es) =
     ((case intro e of None \<Rightarrow> True | Some i \<Rightarrow>
         status q i = None \<and> list_all (\<lambda>e'. intro e' \<noteq> Some i) es) \<and>
      fresh_ids status intro q es)"

locale decision_queue =
  fixes status :: "'q \<Rightarrow> 'id \<Rightarrow> 'st option"
    and step :: "'q \<Rightarrow> 'ev \<Rightarrow> 'q"
    and appr :: "'q \<Rightarrow> 'ev \<Rightarrow> 'id option"
    and intro :: "'ev \<Rightarrow> 'id option"
    and pending :: 'st
    and inv :: "'q \<Rightarrow> bool"
  assumes approves_pending: "inv q \<Longrightarrow> appr q e = Some i \<Longrightarrow>
      status q i = Some pending \<and> status (step q e) i \<noteq> Some pending"
    and stays_settled: "inv q \<Longrightarrow> status q i \<noteq> Some pending \<Longrightarrow> intro e \<noteq> Some i \<Longrightarrow>
      status (step q e) i \<noteq> Some pending"
    and stays_unknown: "inv q \<Longrightarrow> status q i = None \<Longrightarrow> intro e \<noteq> Some i \<Longrightarrow>
      status (step q e) i = None"
    and inv_step: "inv q \<Longrightarrow> (case intro e of None \<Rightarrow> True | Some i \<Rightarrow> status q i = None) \<Longrightarrow>
      inv (step q e)"
begin

lemma fresh_step:
  assumes "inv q" and "fresh_ids status intro q (e # es)"
  shows "fresh_ids status intro (step q e) es"
proof -
  have keep: "\<And>j. status q j = None \<Longrightarrow> intro e \<noteq> Some j \<Longrightarrow> status (step q e) j = None"
    using assms(1) by (rule stays_unknown)
  have "list_all (\<lambda>e'. \<forall>i. intro e = Some i \<longrightarrow> intro e' \<noteq> Some i) es"
    using assms(2) by (cases "intro e") (auto simp: list_all_iff)
  moreover have "fresh_ids status intro q es" using assms(2) by simp
  ultimately show ?thesis
  proof (induction es)
    case Nil
    then show ?case by simp
  next
    case (Cons e' es)
    then show ?case
      by (cases "intro e'") (auto intro!: keep)
  qed
qed

lemma inv_next:
  "inv q \<Longrightarrow> fresh_ids status intro q (e # es) \<Longrightarrow> inv (step q e)"
  by (rule inv_step) (auto split: option.splits)

lemma settled_never_approved:
  "inv q \<Longrightarrow> fresh_ids status intro q es \<Longrightarrow> status q i \<noteq> Some pending \<Longrightarrow>
   list_all (\<lambda>e. intro e \<noteq> Some i) es \<Longrightarrow> i \<notin> set (approvals step appr q es)"
proof (induction es arbitrary: q)
  case Nil
  then show ?case by simp
next
  case (Cons e es)
  have st: "status (step q e) i \<noteq> Some pending"
    by (rule stays_settled [OF Cons.prems(1,3)]) (use Cons.prems(4) in simp)
  have "i \<notin> set (approvals step appr (step q e) es)"
    by (rule Cons.IH [OF inv_next [OF Cons.prems(1,2)] fresh_step [OF Cons.prems(1,2)] st])
      (use Cons.prems(4) in simp)
  moreover have "appr q e \<noteq> Some i"
    using approves_pending [OF Cons.prems(1)] Cons.prems(3) by blast
  ultimately show ?case by (auto split: option.splits)
qed

lemma known_approved_once:
  "inv q \<Longrightarrow> fresh_ids status intro q es \<Longrightarrow> list_all (\<lambda>e. intro e \<noteq> Some i) es \<Longrightarrow>
   count_list (approvals step appr q es) i \<le> 1"
proof (induction es arbitrary: q)
  case Nil
  then show ?case by simp
next
  case (Cons e es)
  note next_ok = inv_next [OF Cons.prems(1,2)] fresh_step [OF Cons.prems(1,2)]
  have rest: "list_all (\<lambda>e. intro e \<noteq> Some i) es" using Cons.prems(3) by simp
  show ?case
  proof (cases "appr q e = Some i")
    case True
    then have "status (step q e) i \<noteq> Some pending"
      using approves_pending [OF Cons.prems(1)] by blast
    then have "i \<notin> set (approvals step appr (step q e) es)"
      by (rule settled_never_approved [OF next_ok _ rest])
    with True show ?thesis by (simp add: count_list_0_iff)
  next
    case False
    with Cons.IH [OF next_ok rest] show ?thesis by (auto split: option.splits)
  qed
qed

lemma approved_at_most_once:
  "inv q \<Longrightarrow> fresh_ids status intro q es \<Longrightarrow> count_list (approvals step appr q es) i \<le> 1"
proof (induction es arbitrary: q)
  case Nil
  then show ?case by simp
next
  case (Cons e es)
  note next_ok = inv_next [OF Cons.prems(1,2)] fresh_step [OF Cons.prems(1,2)]
  show ?case
  proof (cases "intro e = Some i")
    case True
    then have none: "status q i = None" and rest: "list_all (\<lambda>e. intro e \<noteq> Some i) es"
      using Cons.prems(2) by auto
    have "appr q e \<noteq> Some i" using approves_pending [OF Cons.prems(1)] none by force
    with known_approved_once [OF next_ok rest] show ?thesis by (auto split: option.splits)
  next
    case False
    show ?thesis
    proof (cases "appr q e = Some i")
      case True
      then have pend: "status q i = Some pending"
        and st: "status (step q e) i \<noteq> Some pending"
        using approves_pending [OF Cons.prems(1)] by blast+
      have "list_all (\<lambda>e. intro e \<noteq> Some i) es"
      proof -
        have "fresh_ids status intro q es" using Cons.prems(2) by simp
        with pend show ?thesis by (induction es) (auto split: option.splits)
      qed
      then have "i \<notin> set (approvals step appr (step q e) es)"
        by (rule settled_never_approved [OF next_ok st])
      with True show ?thesis by (simp add: count_list_0_iff)
    next
      case False
      with Cons.IH [OF next_ok] show ?thesis by (auto split: option.splits)
    qed
  qed
qed

end

end
