(* ===== verification/McpApproval.thy ===== *)
theory McpApproval
  imports Actions DecisionQueue
begin

text \<open>
  The tool-call approval queue of the tool gateway
  (\<open>src/backend/mcp_guard/approval_queue.py\<close>): a list of tickets in creation order, decided
  under a lock.  Ids come from \<open>uuid4\<close> and are a parameter of \<open>create_ticket\<close>; the
  formatted local time is a parameter of every operation that reads it.  Every operation runs
  under the queue's lock, so a run is a sequence of operations (\<open>mcp_event\<close>).
\<close>

section \<open>The queue\<close>

datatype mcp_status = Pending | Approved | Denied

record mcp_ticket =
  ticket_id :: string
  tool_name :: string
  arguments :: pydict
  user_role :: string
  request_reason :: string
  decision_reason :: string
  trigger :: string
  signature_score :: "rat option"
  signature_reasons :: "string list"
  mcp_status :: mcp_status
  created_on :: string
  decided_at :: "string option"
  decided_by :: "string option"
  execution_result :: "pydict option"
  deny_reason :: "string option"

type_synonym mcp_queue = "mcp_ticket list"

definition create_ticket ::
  "string \<Rightarrow> string \<Rightarrow> string \<Rightarrow> pydict \<Rightarrow> string \<Rightarrow> string \<Rightarrow> string \<Rightarrow> string \<Rightarrow>
   rat option \<Rightarrow> string list \<Rightarrow> mcp_queue \<Rightarrow> mcp_ticket \<times> mcp_queue"
where
  "create_ticket uid now tool args role reason dreason trig score reasons q =
     (let t = \<lparr>ticket_id = ''TK-'' @ upper (take 8 uid), tool_name = tool, arguments = args,
               user_role = role, request_reason = reason, decision_reason = dreason,
               trigger = (if trig = [] then ''policy'' else trig),
               signature_score = score, signature_reasons = reasons, mcp_status = Pending,
               created_on = now, decided_at = None, decided_by = None, execution_result = None,
               deny_reason = None\<rparr>
      in (t, q @ [t]))"

definition mcp_list_pending :: "mcp_queue \<Rightarrow> mcp_ticket list" where
  "mcp_list_pending q = filter (\<lambda>t. mcp_status t = Pending) q"

text \<open>
  Python's slice \<open>xs[a:b]\<close> for non-negative bounds, and \<open>list_all\<close>: page numbers are
  clamped into \<open>1..total_pages\<close>.  A page size that is not positive is outside the model (zero
  raises \<open>ZeroDivisionError\<close>).
\<close>

definition slice :: "nat \<Rightarrow> nat \<Rightarrow> 'a list \<Rightarrow> 'a list" where
  "slice a b xs = take (b - a) (drop a xs)"

record page_result =
  items :: "mcp_ticket list"
  total :: nat
  page_no :: nat
  page_size :: nat
  total_pages :: nat

definition mcp_list_all :: "int \<Rightarrow> nat \<Rightarrow> mcp_queue \<Rightarrow> page_result" where
  "mcp_list_all page psize q =
     (let tot = length q;
          pages = max 1 ((tot + psize - 1) div psize);
          p = nat (max 1 (min page (int pages)));
          start = (p - 1) * psize
      in \<lparr>items = slice start (start + psize) (rev q), total = tot, page_no = p,
          page_size = psize, total_pages = pages\<rparr>)"

fun mcp_get_ticket :: "string \<Rightarrow> mcp_queue \<Rightarrow> mcp_ticket option" where
  "mcp_get_ticket i [] = None"
| "mcp_get_ticket i (t # q) = (if ticket_id t = i then Some t else mcp_get_ticket i q)"

text \<open>The loop of \<open>approve\<close> and \<open>deny\<close>: the first pending ticket with the id is decided.\<close>

fun decide_first ::
  "(mcp_ticket \<Rightarrow> mcp_ticket) \<Rightarrow> string \<Rightarrow> mcp_queue \<Rightarrow> mcp_ticket option \<times> mcp_queue"
where
  "decide_first f i [] = (None, [])"
| "decide_first f i (t # q) =
     (if ticket_id t = i \<and> mcp_status t = Pending then (Some (f t), f t # q)
      else (case decide_first f i q of (r, q') \<Rightarrow> (r, t # q')))"

definition mcp_approve ::
  "string \<Rightarrow> string \<Rightarrow> string \<Rightarrow> pydict option \<Rightarrow> mcp_queue \<Rightarrow> mcp_ticket option \<times> mcp_queue"
where
  "mcp_approve now i who result q =
     decide_first (\<lambda>t. t\<lparr>mcp_status := Approved, decided_at := Some now, decided_by := Some who,
                        execution_result := result\<rparr>) i q"

definition mcp_deny ::
  "string \<Rightarrow> string \<Rightarrow> string \<Rightarrow> string \<Rightarrow> mcp_queue \<Rightarrow> mcp_ticket option \<times> mcp_queue"
where
  "mcp_deny now i who reason q =
     decide_first (\<lambda>t. t\<lparr>mcp_status := Denied, decided_at := Some now, decided_by := Some who,
                        deny_reason := Some reason\<rparr>) i q"

definition mcp_clear :: "mcp_queue \<Rightarrow> mcp_queue" where
  "mcp_clear q = []"

section \<open>Runs of the queue\<close>

datatype mcp_event =
    Create string string string pydict string string string string "rat option" "string list"
  | McpApprove string string string "pydict option"
  | McpDeny string string string string
  | McpClear

fun mcp_step :: "mcp_queue \<Rightarrow> mcp_event \<Rightarrow> mcp_queue" where
  "mcp_step q (Create uid now tool args role reason dreason trig score reasons) =
     snd (create_ticket uid now tool args role reason dreason trig score reasons q)"
| "mcp_step q (McpApprove now i who result) = snd (mcp_approve now i who result q)"
| "mcp_step q (McpDeny now i who reason) = snd (mcp_deny now i who reason q)"
| "mcp_step q McpClear = mcp_clear q"

fun mcp_created :: "mcp_event \<Rightarrow> string option" where
  "mcp_created (Create uid now tool args role reason dreason trig score reasons) =
     Some (''TK-'' @ upper (take 8 uid))"
| "mcp_created _ = None"

fun mcp_approved :: "mcp_queue \<Rightarrow> mcp_event \<Rightarrow> string option" where
  "mcp_approved q (McpApprove now i who result) =
     map_option ticket_id (fst (mcp_approve now i who result q))"
| "mcp_approved q _ = None"

definition mcp_status_of :: "mcp_queue \<Rightarrow> string \<Rightarrow> mcp_status option" where
  "mcp_status_of q i = map_option mcp_status (mcp_get_ticket i q)"

definition mcp_ids_distinct :: "mcp_queue \<Rightarrow> bool" where
  "mcp_ids_distinct q \<longleftrightarrow> distinct (List.map ticket_id q)"

section \<open>Lemmas on the loop\<close>

lemma get_None_iff: "mcp_get_ticket i q = None \<longleftrightarrow> i \<notin> ticket_id ` set q"
  by (induction q) auto

lemma get_append:
  "mcp_get_ticket i (q @ r) =
     (case mcp_get_ticket i q of None \<Rightarrow> mcp_get_ticket i r | Some t \<Rightarrow> Some t)"
  by (induction q) auto

lemma decide_ids:
  assumes "\<And>t. ticket_id (f t) = ticket_id t"
  shows "List.map ticket_id (snd (decide_first f i q)) = List.map ticket_id q"
  by (induction q) (auto simp: assms split: prod.splits)

lemma decide_length: "length (snd (decide_first f i q)) = length q"
  by (induction q) (auto split: prod.splits)

text \<open>With distinct ids the loop decides the ticket \<open>get_ticket\<close> finds, and only while it is pending.\<close>

lemma decide_result:
  assumes "mcp_ids_distinct q"
  shows "fst (decide_first f i q) =
    (case mcp_get_ticket i q of
       Some t \<Rightarrow> if mcp_status t = Pending then Some (f t) else None | None \<Rightarrow> None)"
  using assms
proof (induction q)
  case Nil
  then show ?case by simp
next
  case (Cons t q)
  have "mcp_get_ticket i q = None" if "ticket_id t = i"
    using that Cons.prems by (auto simp: get_None_iff mcp_ids_distinct_def)
  with Cons show ?case by (auto simp: mcp_ids_distinct_def split: prod.splits)
qed

lemma decide_lookup:
  assumes "mcp_ids_distinct q" and "\<And>t. ticket_id (f t) = ticket_id t"
  shows "mcp_get_ticket j (snd (decide_first f i q)) =
    map_option (\<lambda>t. if j = i \<and> mcp_status t = Pending then f t else t) (mcp_get_ticket j q)"
  using assms(1)
proof (induction q)
  case Nil
  then show ?case by simp
next
  case (Cons t q)
  have none: "mcp_get_ticket i q = None" if "ticket_id t = i"
    using that Cons.prems by (auto simp: get_None_iff mcp_ids_distinct_def)
  then have same: "mcp_get_ticket j (snd (decide_first f i q)) = mcp_get_ticket j q"
    if "ticket_id t = i"
    using Cons that by (cases "j = i") (auto simp: mcp_ids_distinct_def option.map_ident)
  from Cons same none show ?case
    by (auto simp: assms(2) mcp_ids_distinct_def split: prod.splits)
qed

section \<open>The queue honours the decision contract\<close>

lemma mcp_distinct_step:
  assumes "mcp_ids_distinct q"
    and "case mcp_created e of None \<Rightarrow> True | Some i \<Rightarrow> mcp_status_of q i = None"
  shows "mcp_ids_distinct (mcp_step q e)"
  using assms
  by (cases e)
    (auto simp: mcp_ids_distinct_def create_ticket_def Let_def mcp_status_of_def get_None_iff
      mcp_approve_def mcp_deny_def decide_ids mcp_clear_def image_iff)

lemma mcp_status_step:
  assumes "mcp_ids_distinct q" and "mcp_created e \<noteq> Some i"
  shows "mcp_status_of (mcp_step q e) i = mcp_status_of q i
     \<or> (mcp_status_of q i \<noteq> None \<and> mcp_status_of (mcp_step q e) i \<noteq> Some Pending)"
  using assms
  by (cases e; cases "mcp_get_ticket i q")
    (auto simp: mcp_status_of_def create_ticket_def Let_def get_append mcp_approve_def
      mcp_deny_def decide_lookup mcp_clear_def split: option.splits)

interpretation mcp_approvals: decision_queue mcp_status_of mcp_step mcp_approved mcp_created
  Pending mcp_ids_distinct
proof unfold_locales
  fix q e i
  assume q: "mcp_ids_distinct q" and "mcp_approved q e = Some i"
  then show "mcp_status_of q i = Some Pending \<and> mcp_status_of (mcp_step q e) i \<noteq> Some Pending"
  proof (cases e)
    case (McpApprove now j who result)
    with \<open>mcp_approved q e = Some i\<close> obtain t where t: "mcp_get_ticket j q = Some t"
      and "mcp_status t = Pending" and "ticket_id t = i"
      by (auto simp: mcp_approve_def decide_result [OF q] split: option.splits if_splits)
    moreover have "j = i"
      using t \<open>ticket_id t = i\<close> by (induction q) (auto split: if_splits)
    ultimately show ?thesis
      by (auto simp: McpApprove mcp_status_of_def mcp_approve_def decide_lookup [OF q])
  qed auto
next
  fix q e i
  assume "mcp_ids_distinct q" and "mcp_status_of q i \<noteq> Some Pending" and "mcp_created e \<noteq> Some i"
  then show "mcp_status_of (mcp_step q e) i \<noteq> Some Pending" using mcp_status_step by metis
next
  fix q e i
  assume "mcp_ids_distinct q" and "mcp_status_of q i = None" and "mcp_created e \<noteq> Some i"
  then show "mcp_status_of (mcp_step q e) i = None" using mcp_status_step by metis
next
  fix q e
  assume "mcp_ids_distinct q"
    and "case mcp_created e of None \<Rightarrow> True | Some i \<Rightarrow> mcp_status_of q i = None"
  then show "mcp_ids_distinct (mcp_step q e)" by (rule mcp_distinct_step)
qed

section \<open>Properties\<close>

text \<open>
  A tool-call ticket is approved at most once, however creations, approvals, refusals, listings
  and clean-ups follow each other, in any run that gives fresh ids to new tickets (an id has the first
  eight digits of a random UUID).
\<close>

theorem mcp_approved_once:
  assumes "fresh_ids mcp_status_of mcp_created [] es"
  shows "count_list (approvals mcp_step mcp_approved [] es) i \<le> 1"
  by (rule mcp_approvals.approved_at_most_once [OF _ assms]) (simp add: mcp_ids_distinct_def)

definition mcp_demo :: "mcp_event list" where
  "mcp_demo =
     [Create ''0a1b2c3d4e'' ''t0'' ''block_ip'' [] ''admin'' '''' '''' '''' None [],
      McpApprove ''t1'' ''TK-0A1B2C3D'' ''admin'' None,
      McpDeny ''t2'' ''TK-0A1B2C3D'' ''admin'' '''',
      McpApprove ''t3'' ''TK-0A1B2C3D'' ''admin'' None]"

theorem mcp_approved_once_witness:
  "approvals mcp_step mcp_approved [] mcp_demo = [''TK-0A1B2C3D'']
   \<and> count_list (approvals mcp_step mcp_approved [] mcp_demo) ''TK-0A1B2C3D'' \<le> 1"
proof
  show "approvals mcp_step mcp_approved [] mcp_demo = [''TK-0A1B2C3D'']" by code_simp
  show "count_list (approvals mcp_step mcp_approved [] mcp_demo) ''TK-0A1B2C3D'' \<le> 1"
    by (rule mcp_approved_once) code_simp
qed

lemma concat_pages:
  assumes "0 < psize"
  shows "concat (List.map (\<lambda>k. slice (k * psize) (k * psize + psize) xs) [0..<n]) = take (n * psize) xs"
proof (induction n)
  case 0
  then show ?case by simp
next
  case (Suc n)
  have "take (Suc n * psize) xs = take (n * psize) xs @ take psize (drop (n * psize) xs)"
    by (metis add.commute mult_Suc take_add)
  with Suc show ?case by (simp add: slice_def)
qed

lemma pages_enough:
  assumes "0 < (psize::nat)"
  shows "tot \<le> (tot + psize - 1) div psize * psize"
proof -
  have "tot + psize - 1 < (tot + psize - 1) div psize * psize + psize"
    using assms by (metis add.commute dividend_less_div_times)
  with assms show ?thesis by linarith
qed

text \<open>
  C33. Paging loses and repeats nothing: the pages 1 to \<open>total_pages\<close>, put together, are the
  whole queue, newest first; and a page number out of range is clamped to the nearest page.
\<close>

theorem pagination_complete:
  assumes "0 < psize"
  shows "concat (List.map (\<lambda>p. items (mcp_list_all (int p) psize q))
           [1..<total_pages (mcp_list_all 1 psize q) + 1]) = rev q
     \<and> 1 \<le> page_no (mcp_list_all p psize q)
     \<and> page_no (mcp_list_all p psize q) \<le> total_pages (mcp_list_all p psize q)"
proof (intro conjI)
  let ?n = "max 1 ((length q + psize - 1) div psize)"
  have page: "items (mcp_list_all (int (Suc k)) psize q) = slice (k * psize) (k * psize + psize) (rev q)"
    if "k < ?n" for k
  proof -
    have "nat (max 1 (min (int (Suc k)) (int ?n))) = Suc k" using that by linarith
    then show ?thesis
      by (simp only: mcp_list_all_def Let_def page_result.simps diff_Suc_1)
  qed
  have "[1..<?n + 1] = List.map Suc [0..<?n]" by (simp only: map_Suc_upt) simp
  then have "List.map (\<lambda>p. items (mcp_list_all (int p) psize q)) [1..<?n + 1]
      = List.map (\<lambda>k. items (mcp_list_all (int (Suc k)) psize q)) [0..<?n]"
    by (simp only: list.map_comp comp_def)
  also have "\<dots> = List.map (\<lambda>k. slice (k * psize) (k * psize + psize) (rev q)) [0..<?n]"
    by (rule map_cong) (simp_all only: page set_upt atLeastLessThan_iff refl)
  finally have "List.map (\<lambda>p. items (mcp_list_all (int p) psize q)) [1..<?n + 1]
      = List.map (\<lambda>k. slice (k * psize) (k * psize + psize) (rev q)) [0..<?n]" .
  moreover have "length q \<le> ?n * psize"
    using pages_enough [OF assms, of "length q"]
    by (metis le_trans max.cobounded2 mult_le_mono1)
  moreover have "total_pages (mcp_list_all 1 psize q) = ?n"
    by (simp only: mcp_list_all_def Let_def page_result.simps)
  ultimately show "concat (List.map (\<lambda>p. items (mcp_list_all (int p) psize q))
      [1..<total_pages (mcp_list_all 1 psize q) + 1]) = rev q"
    by (simp only: concat_pages [OF assms] take_all length_rev)
qed (simp_all add: mcp_list_all_def Let_def)

theorem pagination_complete_witness:
  "concat (List.map (\<lambda>p. items (mcp_list_all (int p) 2 (run_queue mcp_step [] mcp_demo)))
     [1..<total_pages (mcp_list_all 1 2 (run_queue mcp_step [] mcp_demo)) + 1])
   = rev (run_queue mcp_step [] mcp_demo)"
  using conjunct1 [OF pagination_complete [of 2 "run_queue mcp_step [] mcp_demo" 1]] by simp

end
