(* ===== verification/Regex.thy ===== *)
theory Regex
  imports Prelude
begin

text \<open>
  Regular expressions as the command whitelist writes them (literals, character classes, groups,
  alternation, optional parts, \<open>+\<close> and bounded repetition), matched against a whole text: every
  pattern of the whitelist is anchored at both ends.  \<open>in_lang\<close> says which texts a pattern
  describes; \<open>re_match\<close> decides it by derivatives.
\<close>

datatype regex =
    Zero | One
  | Sat "char \<Rightarrow> bool"
  | Alt regex regex
  | Cat regex regex
  | Star regex

section \<open>What a pattern describes\<close>

inductive in_lang :: "regex \<Rightarrow> string \<Rightarrow> bool" where
  One: "in_lang One []"
| Sat: "p c \<Longrightarrow> in_lang (Sat p) [c]"
| AltL: "in_lang r s \<Longrightarrow> in_lang (Alt r q) s"
| AltR: "in_lang q s \<Longrightarrow> in_lang (Alt r q) s"
| Cat: "in_lang r s \<Longrightarrow> in_lang q t \<Longrightarrow> in_lang (Cat r q) (s @ t)"
| StarNil: "in_lang (Star r) []"
| StarCons: "in_lang r s \<Longrightarrow> in_lang (Star r) t \<Longrightarrow> in_lang (Star r) (s @ t)"

inductive_simps in_lang_simps:
  "in_lang Zero s" "in_lang One s" "in_lang (Sat p) s" "in_lang (Alt r q) s"

inductive_cases in_lang_CatE: "in_lang (Cat r q) s"

lemma in_lang_Cat: "in_lang (Cat r q) s \<longleftrightarrow> (\<exists>u v. s = u @ v \<and> in_lang r u \<and> in_lang q v)"
  by (metis in_lang.Cat in_lang_CatE)

section \<open>The matcher\<close>

fun nullable :: "regex \<Rightarrow> bool" where
  "nullable Zero = False"
| "nullable One = True"
| "nullable (Sat p) = False"
| "nullable (Alt r q) = (nullable r \<or> nullable q)"
| "nullable (Cat r q) = (nullable r \<and> nullable q)"
| "nullable (Star r) = True"

fun alt :: "regex \<Rightarrow> regex \<Rightarrow> regex" where
  "alt Zero q = q"
| "alt r Zero = r"
| "alt r q = Alt r q"

fun cat :: "regex \<Rightarrow> regex \<Rightarrow> regex" where
  "cat Zero q = Zero"
| "cat One q = q"
| "cat r q = Cat r q"

fun deriv :: "char \<Rightarrow> regex \<Rightarrow> regex" where
  "deriv c Zero = Zero"
| "deriv c One = Zero"
| "deriv c (Sat p) = (if p c then One else Zero)"
| "deriv c (Alt r q) = alt (deriv c r) (deriv c q)"
| "deriv c (Cat r q) =
     (if nullable r then alt (cat (deriv c r) q) (deriv c q) else cat (deriv c r) q)"
| "deriv c (Star r) = cat (deriv c r) (Star r)"

fun re_match :: "regex \<Rightarrow> string \<Rightarrow> bool" where
  "re_match r [] = nullable r"
| "re_match r (c # s) = (case deriv c r of Zero \<Rightarrow> False | d \<Rightarrow> re_match d s)"

section \<open>The matcher decides the language\<close>

lemma nullable_correct: "nullable r \<longleftrightarrow> in_lang r []"
  by (induction r) (auto simp: in_lang_simps in_lang_Cat intro: in_lang.StarNil)

lemma alt_correct: "in_lang (alt r q) s \<longleftrightarrow> in_lang r s \<or> in_lang q s"
  by (cases "(r, q)" rule: alt.cases) (auto simp: in_lang_simps)

lemma cat_correct: "in_lang (cat r q) s \<longleftrightarrow> in_lang (Cat r q) s"
  by (cases "(r, q)" rule: cat.cases) (auto simp: in_lang_simps in_lang_Cat)

lemma star_ConsD:
  "in_lang (Star r) w \<Longrightarrow> w = c # s \<Longrightarrow>
   \<exists>u v. s = u @ v \<and> in_lang r (c # u) \<and> in_lang (Star r) v"
proof (induction "Star r" w arbitrary: c s rule: in_lang.induct)
  case StarNil
  then show ?case by simp
next
  case (StarCons u v)
  show ?case
  proof (cases u)
    case Nil
    with StarCons show ?thesis by simp
  next
    case (Cons d u')
    with StarCons show ?thesis by auto
  qed
qed

lemma in_lang_star_Cons:
  "in_lang (Star r) (c # s) \<longleftrightarrow> (\<exists>u v. s = u @ v \<and> in_lang r (c # u) \<and> in_lang (Star r) v)"
  using star_ConsD in_lang.StarCons [of r "c # u" v for u v] by (metis append_Cons)

lemma in_lang_cat_Cons:
  "in_lang (Cat r q) (c # s) \<longleftrightarrow>
     (\<exists>u v. s = u @ v \<and> in_lang r (c # u) \<and> in_lang q v) \<or> (in_lang r [] \<and> in_lang q (c # s))"
  unfolding in_lang_Cat by (auto simp: Cons_eq_append_conv)

lemma deriv_correct: "in_lang (deriv c r) s \<longleftrightarrow> in_lang r (c # s)"
proof (induction r arbitrary: s)
  case (Cat r q)
  have "in_lang (Cat (deriv c r) q) s \<longleftrightarrow>
      (\<exists>u v. s = u @ v \<and> in_lang r (c # u) \<and> in_lang q v)"
    by (simp add: in_lang_Cat Cat)
  then show ?case
    by (simp add: alt_correct cat_correct nullable_correct in_lang_cat_Cons Cat)
next
  case (Star r)
  show ?case by (simp add: cat_correct in_lang_Cat in_lang_star_Cons Star)
qed (auto simp: in_lang_simps alt_correct)

lemma re_match_correct: "re_match r s \<longleftrightarrow> in_lang r s"
proof (induction s arbitrary: r)
  case Nil
  then show ?case by (simp add: nullable_correct)
next
  case (Cons c s)
  have "re_match r (c # s) = re_match (deriv c r) s"
    using Cons [of Zero] by (auto simp: in_lang_simps split: regex.splits)
  with Cons show ?case by (simp add: deriv_correct)
qed

section \<open>Combinators of the pattern syntax\<close>

definition chr :: "char \<Rightarrow> regex" where "chr c = Sat (\<lambda>x. x = c)"

fun lit :: "string \<Rightarrow> regex" where
  "lit [] = One"
| "lit [c] = chr c"
| "lit (c # s) = Cat (chr c) (lit s)"

fun seqs :: "regex list \<Rightarrow> regex" where
  "seqs [] = One"
| "seqs [r] = r"
| "seqs (r # rs) = Cat r (seqs rs)"

fun alts :: "regex list \<Rightarrow> regex" where
  "alts [] = Zero"
| "alts [r] = r"
| "alts (r # rs) = Alt r (alts rs)"

definition opt :: "regex \<Rightarrow> regex" where "opt r = Alt One r"

definition plus1 :: "regex \<Rightarrow> regex" where "plus1 r = Cat r (Star r)"

fun exactly :: "nat \<Rightarrow> regex \<Rightarrow> regex" where
  "exactly 0 r = One"
| "exactly (Suc n) r = Cat r (exactly n r)"

fun up_to :: "nat \<Rightarrow> regex \<Rightarrow> regex" where
  "up_to 0 r = One"
| "up_to (Suc n) r = opt (Cat r (up_to n r))"

section \<open>Which characters a described text can hold\<close>

fun confined :: "(char \<Rightarrow> bool) \<Rightarrow> regex \<Rightarrow> bool" where
  "confined P Zero = True"
| "confined P One = True"
| "confined P (Sat p) = (\<forall>c. p c \<longrightarrow> P c)"
| "confined P (Alt r q) = (confined P r \<and> confined P q)"
| "confined P (Cat r q) = (confined P r \<and> confined P q)"
| "confined P (Star r) = confined P r"

lemma confined_lang: "in_lang r s \<Longrightarrow> confined P r \<Longrightarrow> list_all P s"
  by (induction rule: in_lang.induct) auto

lemma confined_lit: "confined P (lit s) \<longleftrightarrow> list_all P s"
  by (induction s rule: lit.induct) (auto simp: chr_def)

lemma confined_seqs: "confined P (seqs rs) \<longleftrightarrow> list_all (confined P) rs"
  by (induction rs rule: seqs.induct) auto

lemma confined_alts: "confined P (alts rs) \<longleftrightarrow> list_all (confined P) rs"
  by (induction rs rule: alts.induct) auto

lemma confined_exactly: "confined P (exactly n r) \<longleftrightarrow> n = 0 \<or> confined P r"
  by (induction n) auto

lemma confined_up_to: "confined P (up_to n r) \<longleftrightarrow> n = 0 \<or> confined P r"
  by (induction n) (auto simp: opt_def)

lemma confined_opt: "confined P (opt r) \<longleftrightarrow> confined P r"
  by (simp add: opt_def)

lemma confined_plus1: "confined P (plus1 r) \<longleftrightarrow> confined P r"
  by (simp add: plus1_def)

lemmas confined_rules =
  confined_seqs confined_alts confined_exactly confined_up_to confined_opt confined_plus1
  confined.simps(4-6) list.pred_inject

section \<open>Building members of a pattern\<close>

lemma lang_lit [simp]: "in_lang (lit s) t \<longleftrightarrow> t = s"
proof (induction s arbitrary: t rule: lit.induct)
  case (3 c d s)
  have "in_lang (lit (c # d # s)) t \<longleftrightarrow> (\<exists>v. t = c # v \<and> in_lang (lit (d # s)) v)"
    by (auto simp: in_lang_Cat chr_def in_lang_simps)
  with 3 show ?case by simp
qed (auto simp: chr_def in_lang_simps)

lemma lang_seqs_Cons: "rs \<noteq> [] \<Longrightarrow> in_lang r u \<Longrightarrow> in_lang (seqs rs) v \<Longrightarrow> in_lang (seqs (r # rs)) (u @ v)"
  by (cases rs) (auto intro: in_lang.Cat)

lemma lang_star_all: "list_all p s \<Longrightarrow> in_lang (Star (Sat p)) s"
proof (induction s)
  case Nil
  then show ?case by (simp add: in_lang.StarNil)
next
  case (Cons c s)
  then have "in_lang (Sat p) [c]" and "in_lang (Star (Sat p)) s" by (auto intro: in_lang.Sat)
  from in_lang.StarCons [OF this] show ?case by simp
qed

lemma lang_plus_all: "s \<noteq> [] \<Longrightarrow> list_all p s \<Longrightarrow> in_lang (plus1 (Sat p)) s"
proof (cases s)
  case (Cons c t)
  assume "list_all p s"
  with Cons have "in_lang (Sat p) [c]" and "in_lang (Star (Sat p)) t"
    by (auto intro: in_lang.Sat lang_star_all)
  from in_lang.Cat [OF this] Cons show ?thesis by (simp add: plus1_def)
qed simp

lemma lang_opt_None: "in_lang (opt r) []"
  by (simp add: opt_def in_lang_simps)

lemma lang_opt_Some: "in_lang r s \<Longrightarrow> in_lang (opt r) s"
  by (simp add: opt_def in_lang_simps)

lemma lang_up_to: "list_all p s \<Longrightarrow> length s \<le> n \<Longrightarrow> in_lang (up_to n (Sat p)) s"
proof (induction n arbitrary: s)
  case 0
  then show ?case by (simp add: in_lang_simps)
next
  case (Suc n)
  show ?case
  proof (cases s)
    case Nil
    then show ?thesis by (simp add: lang_opt_None)
  next
    case (Cons c t)
    with Suc have "in_lang (Sat p) [c]" and "in_lang (up_to n (Sat p)) t"
      by (auto intro: in_lang.Sat)
    from in_lang.Cat [OF this] Cons show ?thesis by (simp add: lang_opt_Some)
  qed
qed


lemma lang_seqs: "list_all2 in_lang rs us \<Longrightarrow> in_lang (seqs rs) (concat us)"
proof (induction rs us rule: list_all2_induct)
  case Nil
  then show ?case by (simp add: in_lang.One)
next
  case (Cons r rs u us)
  show ?case
  proof (cases rs)
    case Nil
    with Cons show ?thesis by simp
  next
    case (Cons q qs)
    have "rs \<noteq> []" using Cons by simp
    from lang_seqs_Cons [OF this \<open>in_lang r u\<close> \<open>in_lang (seqs rs) (concat us)\<close>]
    show ?thesis by simp
  qed
qed

lemma lang_alts: "r \<in> set rs \<Longrightarrow> in_lang r s \<Longrightarrow> in_lang (alts rs) s"
  by (induction rs rule: alts.induct) (auto simp: in_lang_simps)

section \<open>Texts without a given pair of adjacent characters\<close>

fun pair_free :: "char \<Rightarrow> char \<Rightarrow> string \<Rightarrow> bool" where
  "pair_free a b (x # y # s) = (\<not> (x = a \<and> y = b) \<and> pair_free a b (y # s))"
| "pair_free a b [] = True"
| "pair_free a b [x] = True"

lemma pair_free_contains: "pair_free a b s \<Longrightarrow> \<not> contains (a # b # p) s"
proof (induction a b s rule: pair_free.induct)
  case (1 a b x y s)
  then show ?case by auto
qed simp_all

lemma pair_free_append:
  "pair_free a b (s @ t) \<longleftrightarrow>
     pair_free a b s \<and> pair_free a b t \<and> \<not> (s \<noteq> [] \<and> t \<noteq> [] \<and> last s = a \<and> hd t = b)"
proof (induction s)
  case Nil
  then show ?case by simp
next
  case (Cons x s)
  show ?case
  proof (cases s)
    case Nil
    then show ?thesis by (cases t) auto
  next
    case (Cons y u)
    with \<open>pair_free a b (s @ t) = _\<close> show ?thesis by auto
  qed
qed

lemma pair_free_Cons:
  "pair_free a b (x # s) \<longleftrightarrow> \<not> (x = a \<and> s \<noteq> [] \<and> hd s = b) \<and> pair_free a b s"
  by (cases s) auto

lemma pair_free_absent: "a \<notin> set s \<Longrightarrow> pair_free a b s"
  by (induction a b s rule: pair_free.induct) auto

lemma not_contains_char: "c \<in> set p \<Longrightarrow> c \<notin> set s \<Longrightarrow> \<not> contains p s"
  using contains_set by blast

end
