(* ===== verification/IpAddress.thy ===== *)
theory IpAddress
  imports Prelude
begin

unbundle bit_operations_syntax

text \<open>
  What the program uses of Python's \<open>ipaddress\<close> module: parsing of IPv4 and IPv6 addresses and
  networks (\<open>strict=False\<close>), and \<open>address in network\<close>.  Addresses are integers, as in the
  library's own \<open>_ip\<close>; the scope id of an IPv6 address plays no part in the containment test.
  Parsing follows CPython 3.11: four decimal octets without leading zeros for IPv4; up to eight
  hextets, one \<open>::\<close>, an optional IPv4 suffix and an optional \<open>%scope\<close> for IPv6.
\<close>

section \<open>Splitting text and reading digits\<close>

text \<open>\<open>s.split(c)\<close> for a one-character separator.\<close>

fun split_on :: "char \<Rightarrow> string \<Rightarrow> string list" where
  "split_on c [] = [[]]"
| "split_on c (x # xs) =
     (if x = c then [] # split_on c xs
      else (case split_on c xs of [] \<Rightarrow> [[x]] | y # ys \<Rightarrow> (x # y) # ys))"

lemma split_on_not_Nil [simp]: "split_on c s \<noteq> []"
  by (cases s) (auto split: list.splits)

lemma split_on_none: "c \<notin> set s \<Longrightarrow> split_on c s = [s]"
  by (induction s) auto

lemma split_on_append: "c \<notin> set s \<Longrightarrow> split_on c (s @ c # t) = s # split_on c t"
  by (induction s) auto

lemma length_split_on: "length (split_on c s) = Suc (length (filter (\<lambda>x. x = c) s))"
  by (induction s) (auto split: list.splits)

definition is_digit :: "char \<Rightarrow> bool" where
  "is_digit c = (48 \<le> (of_char c :: int) \<and> (of_char c :: int) \<le> 57)"

definition digit_value :: "char \<Rightarrow> int" where
  "digit_value c = of_char c - 48"

definition read_dec :: "string \<Rightarrow> int" where
  "read_dec s = fold (\<lambda>c n. 10 * n + digit_value c) s 0"

definition hex_value :: "char \<Rightarrow> int option" where
  "hex_value c =
     (let n = (of_char c :: int) in
      if 48 \<le> n \<and> n \<le> 57 then Some (n - 48)
      else if 97 \<le> n \<and> n \<le> 102 then Some (n - 87)
      else if 65 \<le> n \<and> n \<le> 70 then Some (n - 55) else None)"

section \<open>Addresses\<close>

text \<open>An IPv6 address carries its scope id, empty when it has none.\<close>

datatype ip_addr = IPv4 int | IPv6 int string

definition parse_octet :: "string \<Rightarrow> int option" where
  "parse_octet s =
     (if s = [] \<or> \<not> list_all is_digit s \<or> 3 < length s \<or> (s \<noteq> ''0'' \<and> hd s = CHR ''0'')
         \<or> 255 < read_dec s
      then None else Some (read_dec s))"

definition parse_ipv4 :: "string \<Rightarrow> int option" where
  "parse_ipv4 s =
     (case List.map parse_octet (split_on CHR ''.'' s) of
        [Some a, Some b, Some c, Some d] \<Rightarrow> Some (((a * 256 + b) * 256 + c) * 256 + d)
      | _ \<Rightarrow> None)"

definition parse_hextet :: "string \<Rightarrow> int option" where
  "parse_hextet s =
     (if s = [] \<or> 4 < length s then None
      else fold (\<lambda>c n. case (n, hex_value c) of (Some m, Some v) \<Rightarrow> Some (16 * m + v) | _ \<Rightarrow> None)
             s (Some 0))"

fun shift_in :: "int \<Rightarrow> string list \<Rightarrow> int option" where
  "shift_in n [] = Some n"
| "shift_in n (p # ps) =
     (case parse_hextet p of None \<Rightarrow> None | Some v \<Rightarrow> shift_in (65536 * n + v) ps)"

text \<open>
  The colon-separated parts: \<open>mids\<close> are the indices strictly inside whose part is empty (the
  place of \<open>::\<close>).  The IPv4 suffix has been turned into two numbers, kept apart from the text
  parts as \<open>tail\<close>.
\<close>

definition empty_mids :: "string list \<Rightarrow> nat list" where
  "empty_mids ps = filter (\<lambda>i. ps ! i = []) [1..<length ps - 1]"

definition parse_parts :: "string list \<Rightarrow> int option" where
  "parse_parts ps =
     (if length ps > 9 then None
      else (case empty_mids ps of
        [] \<Rightarrow> if length ps \<noteq> 8 then None else shift_in 0 ps
      | [i] \<Rightarrow>
          (let hi = take i ps; lo = drop (i + 1) ps;
               hi' = (if hd ps = [] then tl hi else hi);
               lo' = (if last ps = [] then butlast lo else lo);
               skipped = 8 - int (length hi' + length lo')
           in if (hd ps = [] \<and> hi' \<noteq> []) \<or> (last ps = [] \<and> lo' \<noteq> []) \<or> skipped < 1 then None
              else (case shift_in 0 hi' of None \<Rightarrow> None
                    | Some n \<Rightarrow> shift_in (n * 65536 ^ nat skipped) lo'))
      | _ \<Rightarrow> None))"

definition hex_digit :: "int \<Rightarrow> char" where
  "hex_digit d = char_of (if d < 10 then 48 + nat d else 87 + nat d)"

definition hextet_text :: "int \<Rightarrow> string" where
  "hextet_text n = List.map hex_digit
     [n div 4096 mod 16, n div 256 mod 16, n div 16 mod 16, n mod 16]"

definition parse_ipv6_digits :: "string \<Rightarrow> int option" where
  "parse_ipv6_digits s =
     (let ps = split_on CHR '':'' s in
      if length ps < 3 then None
      else if CHR ''.'' \<in> set (last ps) then
        (case parse_ipv4 (last ps) of None \<Rightarrow> None
         | Some v \<Rightarrow> parse_parts (butlast ps @ [hextet_text (v div 65536), hextet_text (v mod 65536)]))
      else parse_parts ps)"

text \<open>\<open>_split_scope_id\<close>: at most one \<open>%\<close>, and a non-empty scope after it.\<close>

definition parse_ipv6 :: "string \<Rightarrow> (int \<times> string) option" where
  "parse_ipv6 s =
     (let scoped = (\<lambda>scope. map_option (\<lambda>v. (v, scope))) in
      case split_on CHR ''%'' s of
        [a] \<Rightarrow> scoped [] (parse_ipv6_digits a)
      | [a, scope] \<Rightarrow> if scope = [] then None else scoped scope (parse_ipv6_digits a)
      | _ \<Rightarrow> None)"

text \<open>\<open>ipaddress.ip_address(s)\<close>; \<open>None\<close> stands for \<open>ValueError\<close>.\<close>

definition ip_address :: "string \<Rightarrow> ip_addr option" where
  "ip_address s =
     (if CHR ''/'' \<in> set s then None
      else case parse_ipv4 s of Some v \<Rightarrow> Some (IPv4 v)
        | None \<Rightarrow> map_option (\<lambda>(v, scope). IPv6 v scope) (parse_ipv6 s))"

text \<open>
  \<open>ip_address\<close> of a value that need not be text: an integer is taken as the address itself
  (IPv4 below \<open>2 ^ 32\<close>, IPv6 below \<open>2 ^ 128\<close>), and the text of anything else is no address.
\<close>

fun addr_of_val :: "pyval \<Rightarrow> ip_addr option" where
  "addr_of_val (PyStr s) = ip_address s"
| "addr_of_val (PyInt n) =
     (if 0 \<le> n \<and> n < 2 ^ 32 then Some (IPv4 n)
      else if 0 \<le> n \<and> n < 2 ^ 128 then Some (IPv6 n []) else None)"
| "addr_of_val (PyBool b) = Some (IPv4 (if b then 1 else 0))"
| "addr_of_val PyNone = None"
| "addr_of_val (PyFloat x) = None"
| "addr_of_val (PyStrs xs) = None"

section \<open>The text of an address\<close>

definition ipv4_text :: "int \<Rightarrow> string" where
  "ipv4_text v = dec_int (v div 16777216 mod 256) @ ''.'' @ dec_int (v div 65536 mod 256) @ ''.'' @
     dec_int (v div 256 mod 256) @ ''.'' @ dec_int (v mod 256)"

text \<open>\<open>'%x' % n\<close> for a hextet.\<close>

definition hextet_hex :: "int \<Rightarrow> string" where
  "hextet_hex n =
     (case dropWhile (\<lambda>c. c = CHR ''0'') (hextet_text n) of [] \<Rightarrow> ''0'' | s \<Rightarrow> s)"

text \<open>The leftmost longest run of zero hextets, as (start, length).\<close>

fun zero_run :: "nat \<Rightarrow> nat \<times> nat \<Rightarrow> nat \<times> nat \<Rightarrow> string list \<Rightarrow> nat \<times> nat" where
  "zero_run i cur best [] = best"
| "zero_run i (start, len) (bstart, blen) (h # hs) =
     (if h = ''0'' then
        (let cur = (if len = 0 then (i, 1) else (start, len + 1))
         in zero_run (Suc i) cur (if blen < snd cur then cur else (bstart, blen)) hs)
      else zero_run (Suc i) (0, 0) (bstart, blen) hs)"

definition compress_hextets :: "string list \<Rightarrow> string list" where
  "compress_hextets hs =
     (case zero_run 0 (0, 0) (0, 0) hs of (start, len) \<Rightarrow>
        if 1 < len then
          (let hs' = take start hs @ [[]] @ drop (start + len) hs @
                     (if start + len = length hs then [[]] else [])
           in if start = 0 then [] # hs' else hs')
        else hs)"

fun join :: "string \<Rightarrow> string list \<Rightarrow> string" where
  "join sep [] = []"
| "join sep [s] = s"
| "join sep (s # ss) = s @ sep @ join sep ss"

definition ipv6_text :: "int \<Rightarrow> string" where
  "ipv6_text v = join '':'' (compress_hextets
     (List.map (\<lambda>i. hextet_hex (v div 65536 ^ (7 - i) mod 65536)) [0..<8]))"

fun ip_text :: "ip_addr \<Rightarrow> string" where
  "ip_text (IPv4 v) = ipv4_text v"
| "ip_text (IPv6 v scope) = ipv6_text v @ (if scope = [] then [] else ''%'' @ scope)"

section \<open>Networks\<close>

text \<open>A network: its address (host bits cleared) and its prefix length.\<close>

datatype ip_network = Net4 int nat | Net6 int nat

definition netmask :: "nat \<Rightarrow> nat \<Rightarrow> int" where
  "netmask bits plen = 2 ^ bits - 2 ^ (bits - plen)"

definition parse_prefix :: "nat \<Rightarrow> string \<Rightarrow> nat option" where
  "parse_prefix bits s =
     (if s \<noteq> [] \<and> list_all is_digit s \<and> read_dec s \<le> int bits then Some (nat (read_dec s)) else None)"

text \<open>A dotted netmask, or a dotted host mask: the prefix length whose mask it is.\<close>

definition prefix_of_mask :: "int \<Rightarrow> nat option" where
  "prefix_of_mask m = find (\<lambda>p. netmask 32 p = m) [0..<33]"

definition parse_mask4 :: "string \<Rightarrow> nat option" where
  "parse_mask4 s =
     (case parse_prefix 32 s of Some p \<Rightarrow> Some p
      | None \<Rightarrow>
         (case parse_ipv4 s of None \<Rightarrow> None
          | Some m \<Rightarrow>
             (case prefix_of_mask m of Some p \<Rightarrow> Some p
              | None \<Rightarrow> prefix_of_mask (2 ^ 32 - 1 - m))))"

definition network4 :: "int \<Rightarrow> nat \<Rightarrow> ip_network" where
  "network4 a p = Net4 (a AND netmask 32 p) p"

definition network6 :: "int \<Rightarrow> nat \<Rightarrow> ip_network" where
  "network6 a p = Net6 (a AND netmask 128 p) p"

text \<open>\<open>ipaddress.ip_network(s, strict=False)\<close>; \<open>None\<close> stands for \<open>ValueError\<close>.\<close>

definition ip_network_of :: "string \<Rightarrow> ip_network option" where
  "ip_network_of s =
     (let v4 = (\<lambda>a m. case (parse_ipv4 a, m) of (Some v, Some p) \<Rightarrow> Some (network4 v p) | _ \<Rightarrow> None);
          v6 = (\<lambda>a m. case (parse_ipv6 a, m) of
                  (Some (v, scope), Some p) \<Rightarrow> Some (network6 v p) | _ \<Rightarrow> None)
      in case split_on CHR ''/'' s of
           [a] \<Rightarrow> (case v4 a (Some 32) of Some n \<Rightarrow> Some n | None \<Rightarrow> v6 a (Some 128))
         | [a, m] \<Rightarrow>
             (case v4 a (parse_mask4 m) of Some n \<Rightarrow> Some n | None \<Rightarrow> v6 a (parse_prefix 128 m))
         | _ \<Rightarrow> None)"

text \<open>\<open>address in network\<close>: false across versions.\<close>

fun in_network :: "ip_addr \<Rightarrow> ip_network \<Rightarrow> bool" where
  "in_network (IPv4 a) (Net4 n p) = (a AND netmask 32 p = n)"
| "in_network (IPv6 a scope) (Net6 n p) = (a AND netmask 128 p = n)"
| "in_network _ _ = False"

section \<open>Facts\<close>

lemma char_of_digit: "d < 10 \<Longrightarrow> is_digit (digit_char d)"
proof -
  assume "d < 10"
  have "(of_char (digit_char d) :: int) = int (of_char (digit_char d))"
    by (simp only: of_nat_of_char)
  also have "\<dots> = int (48 + d)" using \<open>d < 10\<close> by (simp add: digit_char_def)
  finally show ?thesis using \<open>d < 10\<close> by (simp add: is_digit_def)
qed

lemma dec_nat_digits: "list_all is_digit (dec_nat n)"
proof (induction n rule: less_induct)
  case (less n)
  show ?case
  proof (cases "n < 10")
    case True
    then show ?thesis by (simp add: dec_nat.simps [of n] char_of_digit)
  next
    case False
    with less [of "n div 10"] show ?thesis
      by (simp add: dec_nat.simps [of n] char_of_digit)
  qed
qed

lemma dec_nat_nonempty: "dec_nat n \<noteq> []"
  by (simp add: dec_nat.simps [of n])

lemma dec_nat_length: "n < 1000 \<Longrightarrow> length (dec_nat n) \<le> 3"
  by (simp add: dec_nat.simps [of n] dec_nat.simps [of "n div 10"]
      dec_nat.simps [of "n div 10 div 10"])

lemma digit_value_bounds: "is_digit c \<Longrightarrow> 0 \<le> digit_value c \<and> digit_value c \<le> 9"
  by (simp add: is_digit_def digit_value_def)

lemma parse_octet_range: "parse_octet s = Some v \<Longrightarrow> 0 \<le> v \<and> v \<le> 255"
proof -
  have pos: "0 \<le> n \<Longrightarrow> list_all is_digit s \<Longrightarrow> 0 \<le> fold (\<lambda>c n. 10 * n + digit_value c) s n"
    for s and n :: int
    using digit_value_bounds by (induction s arbitrary: n) auto
  assume "parse_octet s = Some v"
  then show ?thesis using pos [of 0 s]
    by (auto simp: parse_octet_def read_dec_def not_less split: if_splits)
qed

lemma parse_ipv4_cases:
  assumes "parse_ipv4 s = Some v"
  obtains a b c d where
    "List.map parse_octet (split_on CHR ''.'' s) = [Some a, Some b, Some c, Some d]"
    and "v = ((a * 256 + b) * 256 + c) * 256 + d"
  using assms by (auto simp: parse_ipv4_def split: list.splits option.splits)

lemma parse_ipv4_range:
  assumes "parse_ipv4 s = Some v"
  shows "0 \<le> v \<and> v < 2 ^ 32"
proof -
  obtain a b c d where
    *: "List.map parse_octet (split_on CHR ''.'' s) = [Some a, Some b, Some c, Some d]"
    and v: "v = ((a * 256 + b) * 256 + c) * 256 + d"
    using assms by (rule parse_ipv4_cases)
  have "\<forall>x \<in> {a, b, c, d}. 0 \<le> x \<and> x \<le> 255"
    using * parse_octet_range by (auto simp: map_eq_Cons_conv)
  with v show ?thesis by auto
qed

text \<open>Containment is agreement of the leading \<open>plen\<close> bits.\<close>

lemma and_netmask:
  assumes "p \<le> bits" and "0 \<le> a" and "a < 2 ^ bits"
  shows "a AND netmask bits p = a div 2 ^ (bits - p) * 2 ^ (bits - p)"
proof (rule bit_eqI)
  fix n
  have mask: "netmask bits p = push_bit (bits - p) (mask p)"
    using assms(1)
    by (simp add: netmask_def push_bit_eq_mult mask_eq_exp_minus_1 left_diff_distrib
        flip: power_add)
  have "a div 2 ^ (bits - p) * 2 ^ (bits - p) = push_bit (bits - p) (drop_bit (bits - p) a)"
    by (simp add: push_bit_eq_mult drop_bit_eq_div)
  moreover have "n - (bits - p) < p" if "bit a n" and "bits - p \<le> n"
  proof -
    have "bit (take_bit bits a) n" using that(1) take_bit_int_eq_self [OF assms(2,3)] by metis
    then have "n < bits" by (simp add: bit_take_bit_iff)
    with that(2) assms(1) show ?thesis by linarith
  qed
  ultimately show "bit (a AND netmask bits p) n = bit (a div 2 ^ (bits - p) * 2 ^ (bits - p)) n"
    by (auto simp: mask bit_and_iff bit_push_bit_iff bit_mask_iff bit_drop_bit_eq)
qed

lemma in_network4_iff:
  assumes "p \<le> 32" and "0 \<le> a" and "a < 2 ^ 32" and "0 \<le> b" and "b < 2 ^ 32"
  shows "in_network (IPv4 a) (network4 b p) \<longleftrightarrow> a div 2 ^ (32 - p) = b div 2 ^ (32 - p)"
  using assms by (simp add: network4_def and_netmask)

end
