(* ===== verification/CommandWhitelist.thy ===== *)
theory CommandWhitelist
  imports Regex IpAddress
begin

text \<open>
  The command whitelist (\<open>src/backend/response_engine/command_whitelist.py\<close>): the patterns of
  every rule, the substrings no command may hold, the check and the maintenance of the rules.
  The patterns are written with the combinators of \<open>Regex\<close>; all of them are anchored, and the
  command is stripped before it is matched, so \<open>$\<close> is the end of the text.  A rule's
  description is left out: a verdict carries the constructor of its reason instead.
\<close>

section \<open>Rules\<close>

definition GLOBAL_FORBIDDEN :: "string list" where
  "GLOBAL_FORBIDDEN =
     [''&&'', ''||'', '';'', ''|'', ''>'', ''<'', [CHR 0x60], ''$('',
      ''rm -rf'', ''mkfs'', ''dd if='', '':(){'', ''fork'',
      ''wget '', ''curl '', ''nc '', ''ncat '',
      ''/etc/passwd'', ''/etc/shadow'',
      ''chmod 777'', ''chmod +s'']"

record whitelist_rule =
  rule_id :: string
  pattern :: regex
  forbidden :: "string list"

definition whitelist_rule_matches :: "whitelist_rule \<Rightarrow> string \<Rightarrow> bool" where
  "whitelist_rule_matches r command = re_match (pattern r) command"

text \<open>The character classes of the patterns.\<close>

definition in_range :: "char \<Rightarrow> char \<Rightarrow> char \<Rightarrow> bool" where
  "in_range a b c = ((of_char a :: int) \<le> of_char c \<and> (of_char c :: int) \<le> of_char b)"

definition alnum :: "char \<Rightarrow> bool" where
  "alnum c = (in_range CHR ''A'' CHR ''Z'' c \<or> in_range CHR ''a'' CHR ''z'' c \<or> is_digit c)"

definition name_char :: "char \<Rightarrow> bool" where
  "name_char c = (alnum c \<or> c = CHR ''_'')"

definition comment_char :: "char \<Rightarrow> bool" where
  "comment_char c = (name_char c \<or> c = CHR ''-'')"

definition hex_colon :: "char \<Rightarrow> bool" where
  "hex_colon c = (is_digit c \<or> in_range CHR ''a'' CHR ''f'' c \<or> in_range CHR ''A'' CHR ''F'' c
     \<or> c = CHR '':'')"

definition base64_char :: "char \<Rightarrow> bool" where
  "base64_char c = (alnum c \<or> c = CHR ''+'' \<or> c = CHR ''/'' \<or> c = CHR ''='')"

definition ws1 :: regex where "ws1 = plus1 (Sat is_space)"

definition octet :: regex where "octet = Cat (Sat is_digit) (up_to 2 (Sat is_digit))"

definition ipv4_pat :: regex where "ipv4_pat = Cat octet (exactly 3 (Cat (lit ''.'') octet))"

definition ipv6_pat :: regex where "ipv6_pat = plus1 (Sat hex_colon)"

definition sudo_pat :: regex where "sudo_pat = opt (Cat (lit ''sudo'') ws1)"

definition chain_pat :: regex where "chain_pat = alts [lit ''INPUT'', lit ''OUTPUT'']"

definition side_pat :: regex where "side_pat = Cat (lit ''-'') (alts [lit ''s'', lit ''d''])"

definition target_pat :: regex where
  "target_pat = alts [lit ''DROP'', lit ''ACCEPT'', lit ''REJECT'']"

definition comment_pat :: regex where
  "comment_pat = opt (seqs [ws1, lit ''-m'', ws1, lit ''comment'', ws1, lit ''--comment'', ws1,
     lit [CHR 0x27], plus1 (Sat comment_char), lit [CHR 0x27]])"

text \<open>
  The parallel rules of the two tables: insert a DROP, delete by match, delete by line number,
  list, and version.
\<close>

definition insert_pat :: "string \<Rightarrow> regex \<Rightarrow> regex" where
  "insert_pat table addr = seqs [sudo_pat, lit table, ws1, lit ''-I'', ws1, chain_pat, ws1, side_pat,
     ws1, addr, ws1, lit ''-j'', ws1, lit ''DROP'', comment_pat]"

definition delete_match_pat :: "string \<Rightarrow> regex \<Rightarrow> regex" where
  "delete_match_pat table addr = seqs [sudo_pat, lit table, ws1, lit ''-D'', ws1, chain_pat, ws1,
     side_pat, ws1, addr, ws1, lit ''-j'', ws1, target_pat, comment_pat]"

definition delete_line_pat :: "string \<Rightarrow> regex" where
  "delete_line_pat table = seqs [sudo_pat, lit table, ws1, lit ''-D'', ws1, chain_pat, ws1,
     plus1 (Sat is_digit)]"

definition list_pat :: "string \<Rightarrow> regex" where
  "list_pat table = seqs [sudo_pat, lit table, ws1, lit ''-L'', ws1, chain_pat, ws1, lit ''-n'',
     ws1, lit ''--line-numbers'']"

definition version_pat :: "string \<Rightarrow> regex" where
  "version_pat tool = seqs [lit tool, ws1, lit ''--version'']"

definition timing_pat :: regex where
  "timing_pat = Cat (lit ''-T'') (Sat (in_range CHR ''0'' CHR ''4''))"

definition nmap_pat :: regex where
  "nmap_pat = seqs [lit ''nmap'', ws1, opt (Cat timing_pat ws1),
     alts [lit ''-F'', lit ''-A'', lit ''-sV''], opt (Cat ws1 timing_pat), ws1, ipv4_pat]"

definition rule :: "string \<Rightarrow> regex \<Rightarrow> whitelist_rule" where
  "rule i p = \<lparr>rule_id = i, pattern = p, forbidden = []\<rparr>"

definition LINUX_RULES :: "whitelist_rule list" where
  "LINUX_RULES =
     [rule ''LX-001'' (insert_pat ''iptables'' ipv4_pat),
      rule ''LX-002'' (delete_line_pat ''iptables''),
      rule ''LX-006'' (delete_match_pat ''iptables'' ipv4_pat),
      rule ''LX-003'' (list_pat ''iptables''),
      rule ''LX-004'' (version_pat ''iptables''),
      \<lparr>rule_id = ''LX-005'', pattern = nmap_pat,
        forbidden = [''--script'', ''-oN'', ''-oX'', ''-oG'']\<rparr>,
      rule ''LX-015'' (version_pat ''nmap''),
      rule ''LX-007'' (seqs [lit ''uname'', ws1, alts [lit ''-a'', lit ''-n'']]),
      rule ''LX-008'' (lit ''uptime''),
      rule ''LX-009'' (seqs [lit ''echo'', ws1, lit ([CHR 0x27] @ ''---'' @ [CHR 0x27])]),
      rule ''LX-010'' (insert_pat ''ip6tables'' ipv6_pat),
      rule ''LX-011'' (delete_line_pat ''ip6tables''),
      rule ''LX-012'' (delete_match_pat ''ip6tables'' ipv6_pat),
      rule ''LX-013'' (list_pat ''ip6tables''),
      rule ''LX-014'' (version_pat ''ip6tables'')]"

definition re_name_pat :: regex where
  "re_name_pat = seqs [lit (''name='' @ [CHR 0x22] @ ''RE_''), plus1 (Sat name_char), lit [CHR 0x22]]"

definition netsh_pat :: "string \<Rightarrow> regex" where
  "netsh_pat verb = seqs [lit ''netsh'', ws1, lit ''advfirewall'', ws1, lit ''firewall'', ws1,
     lit verb, ws1, lit ''rule'', ws1, re_name_pat]"

definition WINDOWS_RULES :: "whitelist_rule list" where
  "WINDOWS_RULES =
     [rule ''WIN-001'' (seqs [netsh_pat ''add'', ws1,
         lit ''direction='', alts [lit ''in'', lit ''out''], ws1, lit ''action=block'', ws1,
         lit (''remoteip='' @ [CHR 0x22]), ipv4_pat, lit [CHR 0x22],
         opt (seqs [ws1, lit (''description='' @ [CHR 0x22]), Star (Sat (\<lambda>c. c \<noteq> CHR 0x22)),
           lit [CHR 0x22]])]),
      rule ''WIN-002'' (netsh_pat ''delete''),
      rule ''WIN-003'' (netsh_pat ''show''),
      \<lparr>rule_id = ''WIN-004'',
        pattern = seqs [lit ''powershell'', ws1, lit ''-NoProfile'', ws1, lit ''-ExecutionPolicy'',
          ws1, lit ''Bypass'', ws1, lit ''-EncodedCommand'', ws1, plus1 (Sat base64_char)],
        forbidden = [''-Command '', ''-File '', ''-Path '']\<rparr>]"

section \<open>The checker\<close>

type_synonym command_whitelist = "(string \<times> whitelist_rule list) list"

definition new_command_whitelist :: command_whitelist where
  "new_command_whitelist = [(''linux'', LINUX_RULES), (''windows'', WINDOWS_RULES)]"

datatype verdict_reason =
    EmptyCommand
  | GlobalToken string
  | RuleToken string string
  | AllowedBy string
  | NotListed string

definition whitelist_check :: "command_whitelist \<Rightarrow> string \<Rightarrow> string \<Rightarrow> bool \<times> string \<times> verdict_reason" where
  "whitelist_check w raw platform =
     (let command = strip raw in
      if command = [] then (False, [], EmptyCommand)
      else case find (\<lambda>tok. contains tok command) GLOBAL_FORBIDDEN of
             Some tok \<Rightarrow> (False, ''GLOBAL'', GlobalToken tok)
           | None \<Rightarrow>
               (let rules = (case map_of w platform of None \<Rightarrow> [] | Some rs \<Rightarrow> rs) in
                case find (\<lambda>r. whitelist_rule_matches r command) rules of
                  None \<Rightarrow> (False, [], NotListed platform)
                | Some r \<Rightarrow>
                    (case find (\<lambda>fb. contains fb command) (forbidden r) of
                       Some fb \<Rightarrow> (False, rule_id r, RuleToken (rule_id r) fb)
                     | None \<Rightarrow> (True, rule_id r, AllowedBy (rule_id r)))))"

definition add_rule :: "string \<Rightarrow> whitelist_rule \<Rightarrow> command_whitelist \<Rightarrow> command_whitelist" where
  "add_rule platform r w =
     (case map_of w platform of
        None \<Rightarrow> w @ [(platform, [r])]
      | Some rs \<Rightarrow> AList.update platform (rs @ [r]) w)"

definition list_rules :: "string \<Rightarrow> command_whitelist \<Rightarrow> (string \<times> string \<times> regex) list" where
  "list_rules platform w =
     concat (List.map (\<lambda>(plat, rs). List.map (\<lambda>r. (plat, rule_id r, pattern r)) rs)
       (filter (\<lambda>(plat, rs). \<not> (platform \<noteq> [] \<and> plat \<noteq> platform)) w))"

abbreviation allowed :: "command_whitelist \<Rightarrow> string \<Rightarrow> string \<Rightarrow> bool" where
  "allowed w command platform \<equiv> fst (whitelist_check w command platform)"

section \<open>Lemmas\<close>

lemma find_Some_in: "find P xs = Some x \<Longrightarrow> x \<in> set xs \<and> P x"
  by (induction xs) (auto split: if_splits)

lemma rule_verdict:
  "fst (case find (\<lambda>fb. contains fb c) fs of Some fb \<Rightarrow> (False, i, R fb) | None \<Rightarrow> (True, i, q))
     \<longleftrightarrow> (\<forall>fb \<in> set fs. \<not> contains fb c)"
proof (cases "find (\<lambda>fb. contains fb c) fs")
  case None
  moreover have "\<forall>fb \<in> set fs. \<not> contains fb c" using None by (auto simp: find_None_iff)
  ultimately show ?thesis by simp
next
  case (Some fb)
  with find_Some_in [OF Some] show ?thesis by auto
qed

lemma allowed_iff:
  "allowed w command platform \<longleftrightarrow>
     strip command \<noteq> [] \<and> (\<forall>tok \<in> set GLOBAL_FORBIDDEN. \<not> contains tok (strip command)) \<and>
     (\<exists>rs r. map_of w platform = Some rs \<and>
        find (\<lambda>r. whitelist_rule_matches r (strip command)) rs = Some r \<and>
        (\<forall>fb \<in> set (forbidden r). \<not> contains fb (strip command)))"
proof (cases "find (\<lambda>tok. contains tok (strip command)) GLOBAL_FORBIDDEN")
  case None
  then have none: "\<forall>tok \<in> set GLOBAL_FORBIDDEN. \<not> contains tok (strip command)"
    by (auto simp: find_None_iff)
  show ?thesis
  proof (cases "map_of w platform")
    case (Some rs)
    then show ?thesis
      using none
      by (cases "find (\<lambda>r. whitelist_rule_matches r (strip command)) rs")
        (simp_all add: whitelist_check_def Let_def None rule_verdict)
  qed (simp add: whitelist_check_def Let_def None)
next
  case (Some tok)
  then show ?thesis
    using find_Some_in [OF Some] by (auto simp: whitelist_check_def Let_def)
qed

lemma find_first_match:
  "r \<in> set rs \<Longrightarrow> P r \<Longrightarrow> \<exists>r'. find P rs = Some r'"
  by (induction rs) auto









text \<open>A text written with an alphabet and white space holds no substring with a foreign character.\<close>

lemma foreign_char_absent:
  assumes "\<forall>x \<in> set c. x \<in> set alpha \<or> is_space x"
    and "list_ex (\<lambda>x. x \<notin> set alpha \<and> \<not> is_space x) tok"
  shows "\<not> contains tok c"
proof -
  from assms(2) obtain x where "x \<in> set tok" "x \<notin> set alpha" "\<not> is_space x"
    by (auto simp: list_ex_iff)
  with assms(1) show ?thesis by (metis not_contains_char)
qed

lemma uname_foreign:
  "list_all (list_ex (\<lambda>x. x \<notin> set ''uname-'' \<and> \<not> is_space x)) GLOBAL_FORBIDDEN"
  "list_all (\<lambda>r. list_all (list_ex (\<lambda>x. x \<notin> set ''uname-'' \<and> \<not> is_space x)) (forbidden r)) LINUX_RULES"
  by code_simp+







section \<open>Properties\<close>



text \<open>
  White space in a pattern is any white space: a command whose blank is a line feed is
  whitelisted, so what a shell would run as two commands is taken for one.
\<close>

theorem line_feed_is_a_blank:
  assumes "ws \<noteq> []" and "list_all is_space ws"
  shows "fst (whitelist_check new_command_whitelist (''uname'' @ ws @ ''-a'') ''linux'')"
proof -
  let ?c = "''uname'' @ ws @ ''-a''"
  have strip: "strip ?c = ?c"
    by (simp add: strip_def is_space_def Let_def)
  have "\<forall>x \<in> set ?c. x \<in> set ''uname-'' \<or> is_space x"
    using assms(2) by (simp add: list_all_iff)
  note none = foreign_char_absent [OF this]
  have global: "\<forall>tok \<in> set GLOBAL_FORBIDDEN. \<not> contains tok ?c"
    using uname_foreign(1) none unfolding list_all_iff by blast
  have rules: "\<forall>r \<in> set LINUX_RULES. \<forall>fb \<in> set (forbidden r). \<not> contains fb ?c"
    using uname_foreign(2) none unfolding list_all_iff by blast
  let ?u = "rule ''LX-007'' (seqs [lit ''uname'', ws1, alts [lit ''-a'', lit ''-n'']])"
  have "in_lang (pattern ?u) (concat [''uname'', ws, ''-a''])"
    unfolding rule_def whitelist_rule.simps
  proof (rule lang_seqs)
    have "in_lang ws1 ws" unfolding ws1_def using assms by (rule lang_plus_all)
    moreover have "in_lang (alts [lit ''-a'', lit ''-n'']) ''-a''"
      by (rule lang_alts [of "lit ''-a''"]) (simp_all only: lang_lit list.set insertI1)
    ultimately show "list_all2 in_lang [lit ''uname'', ws1, alts [lit ''-a'', lit ''-n'']]
        [''uname'', ws, ''-a'']"
      by (simp only: list_all2_Cons list.rel_inject lang_lit list_all2_Nil simp_thms)
  qed
  then have "whitelist_rule_matches ?u ?c"
    by (simp add: whitelist_rule_matches_def re_match_correct)
  moreover have "?u \<in> set LINUX_RULES" by (simp add: LINUX_RULES_def)
  ultimately obtain r where "find (\<lambda>r. whitelist_rule_matches r ?c) LINUX_RULES = Some r"
    using find_first_match [of ?u LINUX_RULES "\<lambda>r. whitelist_rule_matches r ?c"] by blast
  moreover from this have "r \<in> set LINUX_RULES" by (blast dest: find_Some_in)
  ultimately show ?thesis
    unfolding allowed_iff strip using global rules by (auto simp: new_command_whitelist_def)
qed

theorem line_feed_is_a_blank_witness:
  "fst (whitelist_check new_command_whitelist (''uname'' @ [CHR 0x0A] @ ''-a'') ''linux'')"
  by (rule line_feed_is_a_blank) (simp_all add: is_space_def)

end
