(* ===== verification/AssetWhitelist.thy ===== *)
theory AssetWhitelist
  imports IpAddress
begin

text \<open>
  The list of assets that response actions must not touch
  (\<open>src/backend/response_engine/asset_whitelist.py\<close>): initialisation from the settings, runtime
  additions and removals, and the check of a target.  A refusal carries what its message
  interpolates.
\<close>

section \<open>Definitions\<close>

record protected_asset =
  network :: ip_network
  label :: string
  source :: string

record asset_whitelist =
  assets :: "protected_asset list"
  initialized :: bool

definition new_asset_whitelist :: asset_whitelist where
  "new_asset_whitelist = \<lparr>assets = [], initialized = False\<rparr>"

definition BUILTIN_PROTECTED :: "(string \<times> string \<times> string) list" where
  "BUILTIN_PROTECTED =
     [(''127.0.0.0/8'', ''loopback'', ''builtin''),
      (''0.0.0.0/0'', ''default-route-placeholder'', ''builtin'')]"

definition add_network :: "string \<Rightarrow> string \<Rightarrow> string \<Rightarrow> protected_asset list \<Rightarrow> protected_asset list" where
  "add_network cidr lab src as =
     (case ip_network_of cidr of None \<Rightarrow> as
      | Some n \<Rightarrow> as @ [\<lparr>network = n, label = lab, source = src\<rparr>])"

fun add_builtin :: "(string \<times> string \<times> string) list \<Rightarrow> protected_asset list \<Rightarrow> protected_asset list" where
  "add_builtin [] as = as"
| "add_builtin ((cidr, lab, src) # bs) as =
     (if contains ''placeholder'' lab then add_builtin bs as
      else add_builtin bs (add_network cidr lab src as))"

text \<open>The loop over the configured addresses: the \<open>i\<close>-th takes the \<open>i\<close>-th label.\<close>

fun add_configured ::
  "nat \<Rightarrow> string list \<Rightarrow> string list \<Rightarrow> protected_asset list \<Rightarrow> protected_asset list"
where
  "add_configured i labels [] as = as"
| "add_configured i labels (ip # ips) as =
     (let lab = (if i < length labels then labels ! i else ''custom-'' @ dec_nat i)
      in add_configured (Suc i) labels ips (add_network ip lab ''env'' as))"

definition initialize :: "string \<Rightarrow> string \<Rightarrow> asset_whitelist" where
  "initialize assets_str labels_str =
     (let builtin = add_builtin BUILTIN_PROTECTED [];
          ips = List.map strip (filter (\<lambda>s. strip s \<noteq> []) (split_on CHR '','' assets_str));
          labels = (if labels_str = [] then [] else List.map strip (split_on CHR '','' labels_str))
      in \<lparr>assets = (if assets_str = [] then builtin else add_configured 0 labels ips builtin),
          initialized = True\<rparr>)"

definition add_asset :: "string \<Rightarrow> string \<Rightarrow> asset_whitelist \<Rightarrow> asset_whitelist" where
  "add_asset cidr lab w = w\<lparr>assets := add_network cidr lab ''runtime'' (assets w)\<rparr>"

definition remove_asset :: "string \<Rightarrow> asset_whitelist \<Rightarrow> nat \<times> asset_whitelist" where
  "remove_asset lab w =
     (let kept = filter (\<lambda>a. label a \<noteq> lab) (assets w)
      in (length (assets w) - length kept, w\<lparr>assets := kept\<rparr>))"

datatype asset_reason = NoReason | HitsAsset pyval string ip_network string string

text \<open>The first protected asset that contains the target decides.\<close>

definition asset_check :: "pyval \<Rightarrow> string \<Rightarrow> asset_whitelist \<Rightarrow> (bool \<times> asset_reason) \<times> asset_whitelist" where
  "asset_check target action w =
     (let w' = (if initialized w then w else initialize [] []) in
      if \<not> truthy target then ((False, NoReason), w')
      else case addr_of_val target of
             None \<Rightarrow> ((False, NoReason), w')
           | Some addr \<Rightarrow>
               (case find (\<lambda>a. in_network addr (network a)) (assets w') of
                  None \<Rightarrow> ((False, NoReason), w')
                | Some a \<Rightarrow>
                    ((True, HitsAsset target (label a) (network a) (source a) action), w')))"

definition list_assets :: "asset_whitelist \<Rightarrow> (ip_network \<times> string \<times> string) list" where
  "list_assets w = List.map (\<lambda>a. (network a, label a, source a)) (assets w)"

definition protected :: "pyval \<Rightarrow> asset_whitelist \<Rightarrow> bool" where
  "protected target w \<longleftrightarrow> fst (fst (asset_check target [] w))"

section \<open>Lemmas\<close>

lemma protected_iff:
  "protected target w \<longleftrightarrow>
     truthy target \<and> (\<exists>addr. addr_of_val target = Some addr \<and>
       (\<exists>a \<in> set (assets (if initialized w then w else initialize [] [])). in_network addr (network a)))"
  by (auto simp: protected_def asset_check_def Let_def find_None_iff split: option.splits)
    (auto simp: find_Some_iff)

lemma asset_check_fst: "fst (fst (asset_check target action w)) = protected target w"
  by (auto simp: protected_def asset_check_def Let_def split: option.splits)

lemma add_network_keeps: "set as \<subseteq> set (add_network cidr lab src as)"
  by (auto simp: add_network_def split: option.splits)

lemma add_configured_keeps: "set as \<subseteq> set (add_configured i labels ips as)"
proof (induction ips arbitrary: i as)
  case Nil
  then show ?case by simp
next
  case (Cons ip ips)
  show ?case using add_network_keeps Cons by (fastforce simp: Let_def)
qed

lemma add_configured_covers:
  "ip \<in> set ips \<Longrightarrow> ip_network_of ip = Some n \<Longrightarrow>
   \<exists>a \<in> set (add_configured i labels ips as). network a = n"
proof (induction ips arbitrary: i as)
  case Nil
  then show ?case by simp
next
  case (Cons jp ips)
  show ?case
  proof (cases "ip = jp")
    case True
    let ?lab = "if i < length labels then labels ! i else ''custom-'' @ dec_nat i"
    have "\<exists>a \<in> set (add_network jp ?lab ''env'' as). network a = n"
      using Cons.prems True by (auto simp: add_network_def)
    then show ?thesis using add_configured_keeps by (fastforce simp: Let_def)
  next
    case False
    with Cons show ?thesis by (auto simp: Let_def)
  qed
qed

lemma builtin_assets:
  "add_builtin BUILTIN_PROTECTED [] =
     [\<lparr>network = Net4 2130706432 8, label = ''loopback'', source = ''builtin''\<rparr>]"
  by code_simp

lemma builtin_kept:
  "\<lparr>network = Net4 2130706432 8, label = ''loopback'', source = ''builtin''\<rparr>
     \<in> set (assets (initialize assets_str labels_str))"
  using add_configured_keeps [of "add_builtin BUILTIN_PROTECTED []"]
  by (auto simp: initialize_def Let_def builtin_assets)

lemma initialized_initialize [simp]: "initialized (initialize a l)"
  by (simp add: initialize_def Let_def)

section \<open>Properties\<close>

text \<open>
  Whatever the configuration says, loopback is protected; every well-formed address or
  network of the configured list is protected too, and a check never changes an initialised list.
\<close>

theorem configured_assets_protected:
  assumes "target \<noteq> []" and "ip_address target = Some addr"
    and "in_network addr (Net4 2130706432 8)
      \<or> (\<exists>s \<in> set (split_on CHR '','' assets_str). \<exists>n. ip_network_of (strip s) = Some n \<and>
            strip s \<noteq> [] \<and> in_network addr n)"
  shows "fst (fst (asset_check (PyStr target) action (initialize assets_str labels_str)))"
proof -
  let ?w = "initialize assets_str labels_str"
  have "\<exists>a \<in> set (assets ?w). in_network addr (network a)"
    using assms(3)
  proof
    assume "in_network addr (Net4 2130706432 8)"
    then show ?thesis using builtin_kept by force
  next
    assume "\<exists>s \<in> set (split_on CHR '','' assets_str). \<exists>n. ip_network_of (strip s) = Some n \<and>
      strip s \<noteq> [] \<and> in_network addr n"
    then obtain s n where s: "s \<in> set (split_on CHR '','' assets_str)" "strip s \<noteq> []"
      and n: "ip_network_of (strip s) = Some n" "in_network addr n" by blast
    have nonempty: "assets_str \<noteq> []"
    proof
      assume "assets_str = []"
      with s have "strip [] \<noteq> ([] :: string)" by simp
      then show False by (simp add: strip_def)
    qed
    have "strip s \<in> set (List.map strip (filter (\<lambda>s. strip s \<noteq> []) (split_on CHR '','' assets_str)))"
      using s by auto
    from add_configured_covers [OF this n(1)] nonempty n(2) show ?thesis
      by (fastforce simp: initialize_def Let_def)
  qed
  with assms(1,2) show ?thesis by (auto simp: asset_check_fst protected_iff)
qed

theorem configured_assets_protected_witness:
  "fst (fst (asset_check (PyStr ''10.20.30.40'') ''block_ip''
     (initialize ''192.168.1.1, 10.20.0.0/16'' ''gw'')))"
proof (rule configured_assets_protected)
  show "(''10.20.30.40'' :: string) \<noteq> []" by simp
  show "ip_address ''10.20.30.40'' = Some (IPv4 169090600)" by code_simp
  show "in_network (IPv4 169090600) (Net4 2130706432 8) \<or>
    (\<exists>s \<in> set (split_on CHR '','' ''192.168.1.1, 10.20.0.0/16''). \<exists>n.
       ip_network_of (strip s) = Some n \<and> strip s \<noteq> [] \<and> in_network (IPv4 169090600) n)"
  proof (intro disjI2 bexI exI conjI)
    show "ip_network_of (strip '' 10.20.0.0/16'') = Some (Net4 169082880 16)" by code_simp
    show "strip '' 10.20.0.0/16'' \<noteq> []" by code_simp
    show "in_network (IPv4 169090600) (Net4 169082880 16)" by code_simp
    show "'' 10.20.0.0/16'' \<in> set (split_on CHR '','' ''192.168.1.1, 10.20.0.0/16'')" by code_simp
  qed
qed

text \<open>
  C17. A protected IPv4 address can be named so that the check misses it: as an IPv4-mapped IPv6
  address, or as a network (\<open>a.b.c.d/32\<close>).  No list of IPv4 assets protects either spelling.
\<close>

theorem spelling_escapes_protection:
  assumes "initialized w" and "\<forall>a \<in> set (assets w). \<exists>n p. network a = Net4 n p"
    and "(\<exists>v sc. ip_address target = Some (IPv6 v sc)) \<or> CHR ''/'' \<in> set target"
  shows "\<not> fst (fst (asset_check (PyStr target) action w))"
  using assms by (auto simp: asset_check_fst protected_iff ip_address_def)

theorem spelling_escapes_protection_witness:
  "fst (fst (asset_check (PyStr ''127.0.0.1'') ''block_ip'' (initialize [] [])))
   \<and> \<not> fst (fst (asset_check (PyStr ''::ffff:127.0.0.1'') ''block_ip'' (initialize [] [])))
   \<and> \<not> fst (fst (asset_check (PyStr ''127.0.0.1/32'') ''block_ip'' (initialize [] [])))"
proof (intro conjI)
  have v4: "\<forall>a \<in> set (assets (initialize [] [])). \<exists>n p. network a = Net4 n p"
    by (simp add: initialize_def Let_def builtin_assets)
  show "fst (fst (asset_check (PyStr ''127.0.0.1'') ''block_ip'' (initialize [] [])))" by code_simp
  have mapped: "ip_address ''::ffff:127.0.0.1'' = Some (IPv6 281472812449793 [])" by code_simp
  show "\<not> fst (fst (asset_check (PyStr ''::ffff:127.0.0.1'') ''block_ip'' (initialize [] [])))"
    by (rule spelling_escapes_protection) (use v4 mapped in auto)
  show "\<not> fst (fst (asset_check (PyStr ''127.0.0.1/32'') ''block_ip'' (initialize [] [])))"
    by (rule spelling_escapes_protection) (use v4 in auto)
qed

text \<open>
  An asset added before the list is initialised is lost: the first check initialises the
  list from scratch, so only loopback is protected afterwards.
\<close>

theorem early_asset_lost:
  assumes "target \<noteq> []" and "ip_address target = Some addr"
    and "\<not> in_network addr (Net4 2130706432 8)"
  shows "\<not> fst (fst (asset_check (PyStr target) action (add_asset cidr lab new_asset_whitelist)))"
  using assms
  by (auto simp: asset_check_fst protected_iff add_asset_def new_asset_whitelist_def
      initialize_def Let_def builtin_assets)

theorem early_asset_lost_witness:
  "\<not> fst (fst (asset_check (PyStr ''10.0.0.1'') ''block_ip''
       (add_asset ''10.0.0.1'' ''db'' new_asset_whitelist)))"
proof (rule early_asset_lost)
  show "ip_address ''10.0.0.1'' = Some (IPv4 167772161)" by code_simp
  show "\<not> in_network (IPv4 167772161) (Net4 2130706432 8)" by code_simp
qed simp

end
