(* ===== verification/SshFirewall.thy ===== *)
theory SshFirewall
  imports CommandWhitelist AssetWhitelist
begin

text \<open>
  The firewall adapter (\<open>src/backend/response_engine/ssh_firewall.py\<close>): execution of a command
  through the command whitelist and \<open>sudo\<close>, blocking an address, isolating a host with all its
  addresses, rolling a rule back on every table and chain, and the table of active rules.  The
  SSH session is the parameter \<open>ssh\<close>: it runs a command on the remote world \<open>'w\<close> and gives the
  return code, the output and the error output, or raises.  Random rule numbers are parameters;
  the connection set-up, the DNS sinkhole and the port scan are not modelled.
\<close>

section \<open>State\<close>

datatype ssh_out = SshDone int string string | SshRaised string

type_synonym 'w ssh = "string \<Rightarrow> 'w \<Rightarrow> ssh_out \<times> 'w"

datatype fw_status = Active | Isolated | Revoked

record fw_rule =
  fr_ip :: string
  fr_families :: "string list"
  fr_applied :: "string list"
  fr_missing :: "string list"
  fr_status :: fw_status

record 'w firewall =
  client_up :: bool
  use_sudo :: bool
  active_rules :: "(string \<times> fw_rule) list"
  fw_commands :: command_whitelist
  fw_assets :: asset_whitelist
  remote :: 'w

definition FAMILY_IPV4 :: string where "FAMILY_IPV4 = ''ipv4''"
definition FAMILY_IPV6 :: string where "FAMILY_IPV6 = ''ipv6''"

definition family_of_addr :: "ip_addr \<Rightarrow> string" where
  "family_of_addr a = (case a of IPv6 v sc \<Rightarrow> FAMILY_IPV6 | IPv4 v \<Rightarrow> FAMILY_IPV4)"

definition normalize_ip :: "string \<Rightarrow> (string \<times> string) option" where
  "normalize_ip s = map_option (\<lambda>a. (ip_text a, family_of_addr a)) (ip_address (strip s))"

definition table_for :: "string \<Rightarrow> string" where
  "table_for family = (if family = FAMILY_IPV6 then ''ip6tables'' else ''iptables'')"

section \<open>Executing a command\<close>

datatype fw_error =
    NotConnected
  | Refused verdict_reason
  | CommandFailed int string
  | SshFailed string

definition add_sudo :: "bool \<Rightarrow> string \<Rightarrow> string" where
  "add_sudo sudo cmd =
     (if sudo \<and> \<not> starts_with ''sudo'' cmd \<and>
         (starts_with ''iptables'' cmd \<or> starts_with ''ip6tables'' cmd)
      then ''sudo '' @ cmd else cmd)"

definition fw_exec :: "'w ssh \<Rightarrow> string \<Rightarrow> bool \<Rightarrow> 'w firewall \<Rightarrow> (fw_error + string) \<times> 'w firewall" where
  "fw_exec ssh cmd skip_whitelist fw =
     (if \<not> client_up fw then (Inl NotConnected, fw)
      else
        (let verdict = whitelist_check (fw_commands fw) cmd ''linux'' in
         if \<not> skip_whitelist \<and> \<not> fst verdict then (Inl (Refused (snd (snd verdict))), fw)
         else
           (case ssh (add_sudo (use_sudo fw) cmd) (remote fw) of
              (SshRaised e, w') \<Rightarrow> (Inl (SshFailed e), fw\<lparr>remote := w'\<rparr>)
            | (SshDone rc out err, w') \<Rightarrow>
                (if rc \<noteq> 0 \<and> strip err \<noteq> [] \<and> \<not> contains ''password for'' (lower err)
                 then (Inl (CommandFailed rc (strip err)), fw\<lparr>remote := w'\<rparr>)
                 else (Inr out, fw\<lparr>remote := w'\<rparr>)))))"

section \<open>Blocking an address\<close>

datatype fw_block =
    BadAddress string
  | BlockRefused asset_reason
  | BlockFailed string string string fw_error
  | BlockDone string string string int

definition drop_cmd :: "string \<Rightarrow> string \<Rightarrow> string \<Rightarrow> string \<Rightarrow> string \<Rightarrow> string" where
  "drop_cmd table chain flag ip comment =
     table @ '' -I '' @ chain @ '' '' @ flag @ '' '' @ ip @ '' -j DROP -m comment --comment '' @
     [CHR 0x27] @ comment @ [CHR 0x27]"

definition block_rule_id :: "nat \<Rightarrow> string" where "block_rule_id n = ''FW-RULE-'' @ dec_nat n"

definition isolation_id :: "nat \<Rightarrow> string" where "isolation_id n = ''EDR-ISO-'' @ dec_nat n"

definition fw_block_ip :: "'w ssh \<Rightarrow> nat \<Rightarrow> string \<Rightarrow> int \<Rightarrow> 'w firewall \<Rightarrow> fw_block \<times> 'w firewall" where
  "fw_block_ip ssh n ip duration fw =
     (case normalize_ip ip of
        None \<Rightarrow> (BadAddress ip, fw)
      | Some (nip, family) \<Rightarrow>
          (let (chk, assets') = asset_check (PyStr ip) ''block_ip'' (fw_assets fw);
               fw1 = fw\<lparr>fw_assets := assets'\<rparr>
           in if fst chk then (BlockRefused (snd chk), fw1)
              else
                (let rid = block_rule_id n in
                 case fw_exec ssh (drop_cmd (table_for family) ''INPUT'' ''-s'' nip rid) False fw1 of
                   (Inl e, fw2) \<Rightarrow> (BlockFailed rid nip family e, fw2)
                 | (Inr out, fw2) \<Rightarrow>
                     (BlockDone rid nip family duration,
                      fw2\<lparr>active_rules := AList.update rid
                        \<lparr>fr_ip = nip, fr_families = [family], fr_applied = [family], fr_missing = [],
                         fr_status = Active\<rparr> (active_rules fw2)\<rparr>))))"

section \<open>Isolating a host\<close>

record isolation =
  iso_success :: bool
  iso_complete :: bool
  iso_applied :: "string list"
  iso_missing :: "string list"
  iso_rule_ids :: "string list"
  iso_ip :: string

datatype fw_isolate =
    IsoBadAddress string
  | IsoRefused asset_reason
  | IsoNoTarget
  | IsoResult isolation

text \<open>
  The targets: the host and the other addresses, stripped, normalised and without repetition;
  \<open>Inl\<close> is the first one that is no address.
\<close>

fun collect_targets :: "string list \<Rightarrow> (string \<times> string) list \<Rightarrow> string + (string \<times> string) list" where
  "collect_targets [] acc = Inr acc"
| "collect_targets (raw # raws) acc =
     (if strip raw = [] then collect_targets raws acc
      else case normalize_ip (strip raw) of
             None \<Rightarrow> Inl (strip raw)
           | Some (nip, family) \<Rightarrow>
               collect_targets raws (if nip \<in> fst ` set acc then acc else acc @ [(nip, family)]))"

text \<open>Both chains of one target: whether both were written, and how many.\<close>

definition write_chains ::
  "'w ssh \<Rightarrow> string \<Rightarrow> string \<times> string \<Rightarrow> 'w firewall \<Rightarrow> (bool \<times> nat) \<times> 'w firewall"
where
  "write_chains ssh isoid tgt fw =
     (let (nip, family) = tgt;
          (r1, fw1) = fw_exec ssh (drop_cmd (table_for family) ''INPUT'' ''-s'' nip isoid) False fw;
          (r2, fw2) = fw_exec ssh (drop_cmd (table_for family) ''OUTPUT'' ''-d'' nip isoid) False fw1
      in ((\<not> isl r1 \<and> \<not> isl r2, (if isl r1 then 0 else 1) + (if isl r2 then 0 else 1)), fw2))"

text \<open>The loop over the targets: the families written in full by some target, and the count.\<close>

fun write_targets ::
  "'w ssh \<Rightarrow> string \<Rightarrow> (string \<times> string) list \<Rightarrow> string set \<times> nat \<Rightarrow> 'w firewall \<Rightarrow>
   (string set \<times> nat) \<times> 'w firewall"
where
  "write_targets ssh isoid [] acc fw = (acc, fw)"
| "write_targets ssh isoid (tgt # tgts) (ok, n) fw =
     (case write_chains ssh isoid tgt fw of
        ((full, k), fw') \<Rightarrow>
          write_targets ssh isoid tgts ((if full then insert (snd tgt) ok else ok), n + k) fw')"

definition families_in :: "string set \<Rightarrow> string list" where
  "families_in fs = filter (\<lambda>f. f \<in> fs) [FAMILY_IPV4, FAMILY_IPV6]"

definition fw_isolate_host ::
  "'w ssh \<Rightarrow> nat \<Rightarrow> string \<Rightarrow> string list \<Rightarrow> 'w firewall \<Rightarrow> fw_isolate \<times> 'w firewall"
where
  "fw_isolate_host ssh n host extra_ips fw =
     (case normalize_ip host of
        None \<Rightarrow> (IsoBadAddress host, fw)
      | Some (norm_host, host_family) \<Rightarrow>
          (let (chk, assets') = asset_check (PyStr host) ''isolate_host'' (fw_assets fw);
               fw1 = fw\<lparr>fw_assets := assets'\<rparr>
           in if fst chk then (IsoRefused (snd chk), fw1)
              else
                (case collect_targets (host # extra_ips) [] of
                   Inl bad \<Rightarrow> (IsoBadAddress bad, fw1)
                 | Inr [] \<Rightarrow> (IsoNoTarget, fw1)
                 | Inr targets \<Rightarrow>
                     (let requested = families_in (snd ` set targets);
                          isoid = isolation_id n;
                          ((ok, written), fw2) = write_targets ssh isoid targets ({}, 0) fw1;
                          applied = families_in ok;
                          missing = filter (\<lambda>f. f \<notin> ok) requested;
                          result = \<lparr>iso_success = (0 < written),
                                    iso_complete = (0 < written \<and> missing = []),
                                    iso_applied = applied, iso_missing = missing,
                                    iso_rule_ids = (if 0 < written then [isoid] else []),
                                    iso_ip = norm_host\<rparr>
                      in (IsoResult result,
                          if 0 < written then
                            fw2\<lparr>active_rules := AList.update isoid
                              \<lparr>fr_ip = norm_host, fr_families = requested, fr_applied = applied,
                               fr_missing = missing, fr_status = Isolated\<rparr> (active_rules fw2)\<rparr>
                          else fw2)))))"

section \<open>Rolling a rule back\<close>

definition fw_list_cmd :: "string \<Rightarrow> string \<Rightarrow> string" where
  "fw_list_cmd table chain = table @ '' -L '' @ chain @ '' -n --line-numbers''"

definition delete_cmd :: "string \<Rightarrow> string \<Rightarrow> nat \<Rightarrow> string" where
  "delete_cmd table chain n = table @ '' -D '' @ chain @ '' '' @ dec_nat n"

definition first_word :: "string \<Rightarrow> string" where
  "first_word line = takeWhile (\<lambda>c. \<not> is_space c) (dropWhile is_space line)"

definition line_number :: "string \<Rightarrow> nat option" where
  "line_number line =
     (let w = first_word line in
      if w \<noteq> [] \<and> list_all is_digit w then Some (nat (read_dec w)) else None)"

text \<open>The numbers of the lines of a listing that hold the rule id, highest first.\<close>

definition matching_lines :: "string \<Rightarrow> string \<Rightarrow> nat list" where
  "matching_lines rid out =
     rev (sort (List.map_filter line_number
       (filter (contains rid) (split_lines out))))"

fun delete_lines :: "'w ssh \<Rightarrow> string \<Rightarrow> string \<Rightarrow> nat list \<Rightarrow> nat \<Rightarrow> 'w firewall \<Rightarrow> nat \<times> 'w firewall" where
  "delete_lines ssh table chain [] deleted fw = (deleted, fw)"
| "delete_lines ssh table chain (n # ns) deleted fw =
     (case fw_exec ssh (delete_cmd table chain n) False fw of
        (Inl e, fw') \<Rightarrow> delete_lines ssh table chain ns deleted fw'
      | (Inr out, fw') \<Rightarrow> delete_lines ssh table chain ns (Suc deleted) fw')"

fun rollback_chains ::
  "'w ssh \<Rightarrow> string \<Rightarrow> (string \<times> string) list \<Rightarrow> nat \<Rightarrow> 'w firewall \<Rightarrow> nat \<times> 'w firewall"
where
  "rollback_chains ssh rid [] deleted fw = (deleted, fw)"
| "rollback_chains ssh rid ((table, chain) # tcs) deleted fw =
     (case fw_exec ssh (fw_list_cmd table chain) False fw of
        (Inl e, fw') \<Rightarrow> rollback_chains ssh rid tcs deleted fw'
      | (Inr out, fw') \<Rightarrow>
          (case delete_lines ssh table chain (matching_lines rid out) deleted fw' of
             (d, fw'') \<Rightarrow> rollback_chains ssh rid tcs d fw''))"

definition ALL_CHAINS :: "(string \<times> string) list" where
  "ALL_CHAINS = [(''iptables'', ''INPUT''), (''iptables'', ''OUTPUT''),
     (''ip6tables'', ''INPUT''), (''ip6tables'', ''OUTPUT'')]"

record rollback_result =
  rb_success :: bool
  rb_deleted :: nat
  rb_idempotent :: bool

definition revoke :: "string \<Rightarrow> (string \<times> fw_rule) list \<Rightarrow> (string \<times> fw_rule) list" where
  "revoke rid rs = List.map (\<lambda>(k, r). (k, if k = rid then r\<lparr>fr_status := Revoked\<rparr> else r)) rs"

definition fw_rollback :: "'w ssh \<Rightarrow> string \<Rightarrow> 'w firewall \<Rightarrow> rollback_result \<times> 'w firewall" where
  "fw_rollback ssh rid fw =
     (case rollback_chains ssh rid ALL_CHAINS 0 fw of
        (deleted, fw') \<Rightarrow>
          if 0 < deleted
          then (\<lparr>rb_success = True, rb_deleted = deleted, rb_idempotent = False\<rparr>,
                fw'\<lparr>active_rules := revoke rid (active_rules fw')\<rparr>)
          else (\<lparr>rb_success = True, rb_deleted = 0, rb_idempotent = True\<rparr>, fw'))"

definition get_active_rules :: "'w firewall \<Rightarrow> (string \<times> fw_rule) list" where
  "get_active_rules fw = filter (\<lambda>(k, r). fr_status r \<noteq> Revoked) (active_rules fw)"

section \<open>The commands the adapter writes are whitelisted\<close>

definition addr_char :: "char \<Rightarrow> bool" where
  "addr_char c = (hex_colon c \<or> c = CHR ''.'')"

lemma dec_int_digits: "0 \<le> n \<Longrightarrow> list_all is_digit (dec_int n) \<and> dec_int n \<noteq> []"
  by (simp add: dec_int_def dec_nat_digits dec_nat_nonempty)

lemma dec_int_octet: "0 \<le> n \<Longrightarrow> n < 256 \<Longrightarrow> in_lang octet (dec_int n)"
proof -
  assume n: "0 \<le> n" "n < 256"
  have d: "list_all is_digit (dec_int n)" "dec_int n \<noteq> []" "length (dec_int n) \<le> 3"
    using n dec_int_digits [of n] dec_nat_length [of "nat n"] by (auto simp: dec_int_def)
  then obtain c s where cs: "dec_int n = c # s" by (cases "dec_int n") auto
  have "in_lang (Sat is_digit) [c]" and "in_lang (up_to 2 (Sat is_digit)) s"
    using d cs by (auto intro: in_lang.Sat lang_up_to)
  from in_lang.Cat [OF this] show ?thesis by (simp add: octet_def cs)
qed

lemma ipv4_text_lang: "in_lang ipv4_pat (ipv4_text v)"
proof -
  have oct: "in_lang octet (dec_int (x mod 256))" for x by (rule dec_int_octet) simp_all
  have dot: "in_lang (Cat (lit ''.'') octet) (''.'' @ dec_int (x mod 256))" for x
    by (rule in_lang.Cat) (simp_all only: lang_lit oct)
  have "in_lang (exactly 3 (Cat (lit ''.'') octet))
      ((''.'' @ dec_int (v div 65536 mod 256)) @ (''.'' @ dec_int (v div 256 mod 256)) @
       (''.'' @ dec_int (v mod 256)) @ [])"
    unfolding numeral_3_eq_3 exactly.simps by (intro in_lang.Cat in_lang.One dot)
  from in_lang.Cat [OF oct [of "v div 16777216"] this] show ?thesis
    by (simp add: ipv4_pat_def ipv4_text_def)
qed

lemma dec_int_addr: "0 \<le> n \<Longrightarrow> list_all addr_char (dec_int n)"
  using dec_int_digits [of n] by (auto simp: addr_char_def hex_colon_def list_all_iff)

lemma ipv4_text_chars: "list_all addr_char (ipv4_text v)" "ipv4_text v \<noteq> []"
  by (simp_all add: ipv4_text_def dec_int_addr) (simp_all add: addr_char_def)

lemma hex_digit_char: "0 \<le> d \<Longrightarrow> d < 16 \<Longrightarrow> hex_colon (hex_digit d)"
proof -
  assume d: "0 \<le> d" "d < 16"
  then have "d \<in> set [0..15]" by simp
  moreover have "list_all (\<lambda>k. hex_colon (hex_digit k)) [0..15]" by code_simp
  ultimately show ?thesis unfolding list_all_iff by blast
qed

lemma hextet_hex_chars: "list_all hex_colon (hextet_hex n)"
proof -
  have "list_all hex_colon (hextet_text n)"
    by (simp add: hextet_text_def hex_digit_char)
  then have d: "list_all hex_colon (dropWhile P (hextet_text n))" for P
    by (auto simp: list_all_iff dest: set_dropWhileD)
  have zero: "hex_colon CHR ''0''" by code_simp
  have "list_all hex_colon (case s of [] \<Rightarrow> ''0'' | c # t \<Rightarrow> c # t)" if "list_all hex_colon s" for s
    using that zero by (cases s) simp_all
  from this [OF d] show ?thesis unfolding hextet_hex_def .
qed

lemma join_chars:
  "list_all P sep \<Longrightarrow> list_all (list_all P) ss \<Longrightarrow> list_all P (join sep ss)"
  by (induction sep ss rule: join.induct) auto

lemma compress_chars:
  "list_all (list_all P) hs \<Longrightarrow> list_all (list_all P) (compress_hextets hs)"
  by (auto simp: compress_hextets_def Let_def list_all_iff split: prod.splits
      dest: in_set_takeD in_set_dropD)

lemma ipv6_text_chars: "list_all hex_colon (ipv6_text v)"
  unfolding ipv6_text_def
proof (intro join_chars compress_chars)
  show "list_all hex_colon '':''" by code_simp
qed (simp add: list_all_iff hextet_hex_chars [unfolded list_all_iff])

lemma blank_lang: "in_lang ws1 '' ''"
  unfolding ws1_def by (rule lang_plus_all) (simp_all add: is_space_def)

lemma comment_lang:
  assumes "s \<noteq> []" and "list_all comment_char s"
  shows "in_lang comment_pat ('' -m comment --comment '' @ [CHR 0x27] @ s @ [CHR 0x27])"
proof -
  have "in_lang (seqs [ws1, lit ''-m'', ws1, lit ''comment'', ws1, lit ''--comment'', ws1,
      lit [CHR 0x27], plus1 (Sat comment_char), lit [CHR 0x27]])
    (concat ['' '', ''-m'', '' '', ''comment'', '' '', ''--comment'', '' '', [CHR 0x27], s, [CHR 0x27]])"
    by (rule lang_seqs) (simp only: list.rel_inject lang_lit blank_lang lang_plus_all [OF assms] simp_thms)
  then show ?thesis unfolding comment_pat_def by (intro lang_opt_Some) simp
qed

lemma insert_lang:
  assumes "in_lang addr ip" and "s \<noteq> []" and "list_all comment_char s"
    and "chain \<in> {''INPUT'', ''OUTPUT''}" and "flag \<in> {''-s'', ''-d''}"
  shows "in_lang (insert_pat table addr) (drop_cmd table chain flag ip s)"
proof -
  have chain: "in_lang chain_pat chain"
    unfolding chain_pat_def using assms(4) by (intro lang_alts [of "lit chain"]) auto
  have "in_lang side_pat (''-'' @ tl flag)"
    unfolding side_pat_def using assms(5)
  proof (intro in_lang.Cat)
    show "in_lang (lit ''-'') ''-''" by (simp only: lang_lit)
    show "in_lang (alts [lit ''s'', lit ''d'']) (tl flag)"
      using assms(5) by (intro lang_alts [of "lit (tl flag)"]) auto
  qed
  then have flag: "in_lang side_pat flag" using assms(5) by auto
  have sudo: "in_lang sudo_pat []" unfolding sudo_pat_def by (rule lang_opt_None)
  have "in_lang (insert_pat table addr)
     (concat [[], table, '' '', ''-I'', '' '', chain, '' '', flag, '' '', ip, '' '', ''-j'', '' '', ''DROP'',
        '' -m comment --comment '' @ [CHR 0x27] @ s @ [CHR 0x27]])"
    unfolding insert_pat_def
    by (rule lang_seqs)
      (simp only: list.rel_inject lang_lit blank_lang chain flag sudo assms(1)
        comment_lang [OF assms(2,3)] simp_thms)
  then show ?thesis by (simp add: drop_cmd_def)
qed

lemma nmap_not_i: "\<not> in_lang nmap_pat (CHR ''i'' # s)"
proof -
  have "deriv (CHR ''i'') nmap_pat = Zero" by code_simp
  then have "\<not> re_match nmap_pat (CHR ''i'' # s)" by simp
  then show ?thesis by (simp add: re_match_correct)
qed

text \<open>The characters of such a command, and why no forbidden substring can occur in it.\<close>

definition rid_char :: "char \<Rightarrow> bool" where
  "rid_char c = (is_digit c \<or> c \<in> set ''FW-RULEDISO'')"

definition drop_char :: "char \<Rightarrow> bool" where
  "drop_char c = (addr_char c \<or> rid_char c \<or> c \<in> set ''iptables6 -INPUTODRsdjmcoen'' \<or> c = CHR 0x27)"

lemma drop_cmd_chars:
  assumes "list_all addr_char ip" and "list_all rid_char s"
    and "table \<in> {''iptables'', ''ip6tables''}"
    and "chain \<in> {''INPUT'', ''OUTPUT''}" and "flag \<in> {''-s'', ''-d''}"
  shows "list_all drop_char (drop_cmd table chain flag ip s)"
proof -
  have "list_all drop_char ip" "list_all drop_char s"
    using assms(1,2) by (auto simp: drop_char_def list_all_iff)
  moreover have "list_all drop_char table" "list_all drop_char chain" "list_all drop_char flag"
    using assms(3-5) by (auto simp: drop_char_def)
  ultimately show ?thesis by (simp add: drop_cmd_def drop_char_def)
qed

lemma drop_cmd_pair_free:
  assumes "list_all addr_char ip" and "list_all rid_char s"
    and "table \<in> {''iptables'', ''ip6tables''}"
    and "chain \<in> {''INPUT'', ''OUTPUT''}" and "flag \<in> {''-s'', ''-d''}"
  shows "pair_free (CHR ''n'') (CHR ''c'') (drop_cmd table chain flag ip s)"
proof -
  have n: "\<not> addr_char (CHR ''n'')" "\<not> rid_char (CHR ''n'')" by code_simp+
  have "pair_free (CHR ''n'') (CHR ''c'') ip" "pair_free (CHR ''n'') (CHR ''c'') s"
    using assms(1,2) n by (auto simp: list_all_iff intro!: pair_free_absent)
  moreover have "ip = [] \<or> last ip \<noteq> CHR ''n''" "s = [] \<or> last s \<noteq> CHR ''n''"
    using assms(1,2) n last_in_set unfolding list_all_iff by metis+
  ultimately show ?thesis
    using assms(3-5) by (auto simp: drop_cmd_def pair_free_append pair_free_Cons)
qed

text \<open>A table command of these characters is allowed as soon as one rule matches it.\<close>

lemma table_cmd_allowed:
  assumes "c = CHR ''i'' # u" and "\<not> is_space (last c)" and "list_all drop_char c"
    and "pair_free (CHR ''n'') (CHR ''c'') c"
    and "r \<in> set LINUX_RULES" and "in_lang (pattern r) c"
  shows "allowed new_command_whitelist c ''linux''"
proof -
  have strip: "strip c = c"
    using assms(2) unfolding strip_def assms(1)
    by (cases u rule: rev_cases) (auto simp: is_space_def Let_def)
  have no: "\<not> contains tok c" if "list_ex (\<lambda>x. \<not> drop_char x) tok" for tok
    using that assms(3) not_contains_char unfolding list_ex_iff list_all_iff by metis
  have "list_all (\<lambda>tok. list_ex (\<lambda>x. \<not> drop_char x) tok \<or> take 2 tok = ''nc'') GLOBAL_FORBIDDEN"
    by code_simp
  moreover have "\<not> contains tok c" if "take 2 tok = ''nc''" for tok
  proof -
    have "tok = CHR ''n'' # CHR ''c'' # drop 2 tok" using append_take_drop_id [of 2 tok] that by simp
    then show ?thesis using pair_free_contains [OF assms(4)] by metis
  qed
  ultimately have global: "\<forall>tok \<in> set GLOBAL_FORBIDDEN. \<not> contains tok c"
    using no unfolding list_all_iff by blast
  have "whitelist_rule_matches r c"
    using assms(6) by (simp add: whitelist_rule_matches_def re_match_correct)
  with assms(5) obtain r' where r: "find (\<lambda>r. whitelist_rule_matches r c) LINUX_RULES = Some r'"
    using find_first_match [of r LINUX_RULES "\<lambda>r. whitelist_rule_matches r c"] by blast
  then have "r' \<in> set LINUX_RULES" and "in_lang (pattern r') c"
    by (auto dest!: find_Some_in simp: whitelist_rule_matches_def re_match_correct)
  then have "forbidden r' = []"
    unfolding assms(1) using nmap_not_i by (auto simp: LINUX_RULES_def rule_def)
  then show ?thesis
    unfolding allowed_iff strip using global r assms(1) by (auto simp: new_command_whitelist_def)
qed

lemma drop_cmd_allowed:
  assumes "list_all addr_char ip" and "in_lang addr ip" and "list_all rid_char s" and "s \<noteq> []"
    and "(table, addr) \<in> {(''iptables'', ipv4_pat), (''ip6tables'', ipv6_pat)}"
    and "chain \<in> {''INPUT'', ''OUTPUT''}" and "flag \<in> {''-s'', ''-d''}"
  shows "allowed new_command_whitelist (drop_cmd table chain flag ip s) ''linux''"
proof -
  let ?r = "rule (if table = ''iptables'' then ''LX-001'' else ''LX-010'') (insert_pat table addr)"
  have tab: "table \<in> {''iptables'', ''ip6tables''}" using assms(5) by auto
  obtain u where i: "drop_cmd table chain flag ip s = CHR ''i'' # u" using tab by (auto simp: drop_cmd_def)
  have cc: "list_all comment_char s"
    using assms(3) by (auto simp: list_all_iff rid_char_def comment_char_def name_char_def alnum_def in_range_def)
  show ?thesis
  proof (rule table_cmd_allowed [OF i])
    show "\<not> is_space (last (drop_cmd table chain flag ip s))" by (simp add: drop_cmd_def is_space_def Let_def)
    show "list_all drop_char (drop_cmd table chain flag ip s)" by (rule drop_cmd_chars) (use assms tab in auto)
    show "pair_free (CHR ''n'') (CHR ''c'') (drop_cmd table chain flag ip s)"
      by (rule drop_cmd_pair_free) (use assms tab in auto)
    show "?r \<in> set LINUX_RULES" using assms(5) by (auto simp: LINUX_RULES_def)
    have "in_lang (insert_pat table addr) (drop_cmd table chain flag ip s)"
      by (rule insert_lang) (use assms cc in auto)
    then show "in_lang (pattern ?r) (drop_cmd table chain flag ip s)" by (simp add: rule_def)
  qed
qed

lemma rule_ids_ok:
  "list_all rid_char (block_rule_id n)" "block_rule_id n \<noteq> []"
  "list_all rid_char (isolation_id n)" "isolation_id n \<noteq> []"
  using dec_nat_digits [of n]
  by (auto simp: block_rule_id_def isolation_id_def rid_char_def list_all_iff)

text \<open>The address texts the adapter puts into commands.\<close>

definition unscoped :: "ip_addr \<Rightarrow> bool" where
  "unscoped a = (case a of IPv4 v \<Rightarrow> True | IPv6 v sc \<Rightarrow> sc = [] \<and> ipv6_text v \<noteq> [])"

lemma addr_cmd_allowed:
  assumes "unscoped a" and "list_all rid_char s" and "s \<noteq> []"
    and "chain \<in> {''INPUT'', ''OUTPUT''}" and "flag \<in> {''-s'', ''-d''}"
  shows "allowed new_command_whitelist
    (drop_cmd (table_for (family_of_addr a)) chain flag (ip_text a) s) ''linux''"
proof (cases a)
  case (IPv4 v)
  have "allowed new_command_whitelist (drop_cmd ''iptables'' chain flag (ipv4_text v) s) ''linux''"
    by (rule drop_cmd_allowed [where addr = ipv4_pat])
      (use assms ipv4_text_chars ipv4_text_lang in auto)
  then show ?thesis
    by (simp add: IPv4 table_for_def family_of_addr_def FAMILY_IPV4_def FAMILY_IPV6_def)
next
  case (IPv6 v sc)
  have hex: "list_all hex_colon (ipv6_text v)" and ne: "ipv6_text v \<noteq> []"
    using ipv6_text_chars assms(1) by (auto simp: unscoped_def IPv6)
  then have "list_all addr_char (ipv6_text v)" by (auto simp: list_all_iff addr_char_def)
  moreover have "in_lang ipv6_pat (ipv6_text v)"
    unfolding ipv6_pat_def using ne hex by (rule lang_plus_all)
  ultimately have "allowed new_command_whitelist (drop_cmd ''ip6tables'' chain flag (ipv6_text v) s) ''linux''"
    by (intro drop_cmd_allowed [where addr = ipv6_pat]) (use assms in auto)
  then show ?thesis
    using assms(1) by (simp add: IPv6 table_for_def family_of_addr_def unscoped_def)
qed

lemma fw_exec_allowed:
  assumes "client_up fw" and "allowed (fw_commands fw) cmd ''linux''"
    and "ssh (add_sudo (use_sudo fw) cmd) (remote fw) = (SshDone 0 out err, w')"
  shows "fw_exec ssh cmd False fw = (Inr out, fw\<lparr>remote := w'\<rparr>)"
  using assms by (simp add: fw_exec_def Let_def)

section \<open>A remote host that logs\<close>

text \<open>
  A session on which exactly the commands in \<open>ok\<close> succeed; its state is the log of what ran.
\<close>

definition logging_ssh :: "(string \<Rightarrow> bool) \<Rightarrow> string list ssh" where
  "logging_ssh ok cmd w = (if ok cmd then (SshDone 0 [] [], w @ [cmd]) else (SshRaised [], w))"

definition exec_ok :: "(string \<Rightarrow> bool) \<Rightarrow> 'w firewall \<Rightarrow> string \<Rightarrow> bool" where
  "exec_ok ok fw cmd \<longleftrightarrow>
     client_up fw \<and> allowed (fw_commands fw) cmd ''linux'' \<and> ok (add_sudo (use_sudo fw) cmd)"

lemma fw_exec_logging:
  "isl (fst (fw_exec (logging_ssh ok) cmd False fw)) \<longleftrightarrow> \<not> exec_ok ok fw cmd"
  "snd (fw_exec (logging_ssh ok) cmd False fw) =
     (if exec_ok ok fw cmd then fw\<lparr>remote := remote fw @ [add_sudo (use_sudo fw) cmd]\<rparr> else fw)"
  by (auto simp: fw_exec_def exec_ok_def logging_ssh_def Let_def split: prod.splits)

lemma exec_ok_remote [simp]: "exec_ok ok (fw\<lparr>remote := w\<rparr>) = exec_ok ok fw"
  by (rule ext) (simp add: exec_ok_def)

definition target_cmds :: "string \<Rightarrow> string \<times> string \<Rightarrow> string list" where
  "target_cmds isoid tgt =
     [drop_cmd (table_for (snd tgt)) ''INPUT'' ''-s'' (fst tgt) isoid,
      drop_cmd (table_for (snd tgt)) ''OUTPUT'' ''-d'' (fst tgt) isoid]"

definition commands_run :: "(string \<Rightarrow> bool) \<Rightarrow> 'w firewall \<Rightarrow> string \<Rightarrow> (string \<times> string) list \<Rightarrow> string list" where
  "commands_run ok fw isoid tgts =
     filter (exec_ok ok fw) (concat (List.map (target_cmds isoid) tgts))"

lemma write_chains_logging:
  "write_chains (logging_ssh ok) isoid tgt fw =
     ((list_all (exec_ok ok fw) (target_cmds isoid tgt),
       length (filter (exec_ok ok fw) (target_cmds isoid tgt))),
      fw\<lparr>remote := remote fw @ List.map (add_sudo (use_sudo fw)) (filter (exec_ok ok fw) (target_cmds isoid tgt))\<rparr>)"
  by (cases tgt) (auto simp: write_chains_def Let_def split_beta fw_exec_logging target_cmds_def)

lemma write_targets_logging:
  "write_targets (logging_ssh ok) isoid tgts (fs, n) fw =
     ((fs \<union> snd ` {tgt \<in> set tgts. list_all (exec_ok ok fw) (target_cmds isoid tgt)},
       n + length (commands_run ok fw isoid tgts)),
      fw\<lparr>remote := remote fw @ List.map (add_sudo (use_sudo fw)) (commands_run ok fw isoid tgts)\<rparr>)"
proof (induction tgts arbitrary: fs n fw)
  case Nil
  then show ?case by (simp add: commands_run_def)
next
  case (Cons tgt tgts)
  show ?case
    by (auto simp: write_chains_logging Cons commands_run_def)
qed

definition full_families :: "(string \<Rightarrow> bool) \<Rightarrow> 'w firewall \<Rightarrow> string \<Rightarrow> (string \<times> string) list \<Rightarrow> string set" where
  "full_families ok fw isoid tgts =
     snd ` {tgt \<in> set tgts. list_all (exec_ok ok fw) (target_cmds isoid tgt)}"

lemma isolate_outcome:
  fixes ok :: "string \<Rightarrow> bool" and n :: nat
  assumes "normalize_ip host = Some (nip, family)" and "\<not> protected (PyStr host) (fw_assets fw)"
    and "collect_targets (host # extra_ips) [] = Inr targets" and "targets \<noteq> []"
  defines "cmds \<equiv> commands_run ok fw (isolation_id n) targets"
    and "full \<equiv> full_families ok fw (isolation_id n) targets"
  shows "\<exists>r. fst (fw_isolate_host (logging_ssh ok) n host extra_ips fw) = IsoResult r
       \<and> (iso_complete r \<longleftrightarrow> cmds \<noteq> [] \<and> (\<forall>f \<in> {FAMILY_IPV4, FAMILY_IPV6} \<inter> snd ` set targets. f \<in> full))"
    and "remote (snd (fw_isolate_host (logging_ssh ok) n host extra_ips fw)) =
       remote fw @ List.map (add_sudo (use_sudo fw)) cmds"
proof -
  let ?fw = "fw\<lparr>fw_assets := snd (asset_check (PyStr host) ''isolate_host'' (fw_assets fw))\<rparr>"
  have ok: "exec_ok ok ?fw = exec_ok ok fw" by (rule ext) (simp add: exec_ok_def)
  have cmds: "commands_run ok ?fw (isolation_id n) targets = cmds"
    by (simp add: commands_run_def ok cmds_def)
  have full: "snd ` {tgt \<in> set targets. list_all (exec_ok ok ?fw) (target_cmds (isolation_id n) tgt)} = full"
    by (simp add: ok full_def full_families_def)
  obtain t ts where t: "targets = t # ts" using assms(4) by (cases targets) auto
  have prot: "\<not> fst (fst (asset_check (PyStr host) ''isolate_host'' (fw_assets fw)))"
    using assms(2) by (simp add: asset_check_fst)
  note eval = fw_isolate_host_def Let_def split_beta assms(1,3) prot t
  have "write_targets (logging_ssh ok) (isolation_id n) targets ({}, 0) ?fw =
      (({} \<union> full, 0 + length cmds),
       ?fw\<lparr>remote := remote ?fw @ List.map (add_sudo (use_sudo ?fw)) cmds\<rparr>)"
    by (simp only: write_targets_logging full cmds)
  then have w: "write_targets (logging_ssh ok) (isolation_id n) (t # ts) ({}, 0) ?fw =
      ((full, length cmds), ?fw\<lparr>remote := remote fw @ List.map (add_sudo (use_sudo fw)) cmds\<rparr>)"
    unfolding t by simp
  have req: "filter (\<lambda>f. f \<notin> full) (families_in (snd ` set targets)) = [] \<longleftrightarrow>
      (\<forall>f \<in> {FAMILY_IPV4, FAMILY_IPV6} \<inter> snd ` set targets. f \<in> full)"
    by (auto simp: families_in_def filter_empty_conv)
  show "\<exists>r. fst (fw_isolate_host (logging_ssh ok) n host extra_ips fw) = IsoResult r
       \<and> (iso_complete r \<longleftrightarrow> cmds \<noteq> [] \<and> (\<forall>f \<in> {FAMILY_IPV4, FAMILY_IPV6} \<inter> snd ` set targets. f \<in> full))"
    using req unfolding t
    by (simp add: eval w del: write_targets.simps collect_targets.simps)
  show "remote (snd (fw_isolate_host (logging_ssh ok) n host extra_ips fw)) =
       remote fw @ List.map (add_sudo (use_sudo fw)) cmds"
    by (simp add: eval w del: write_targets.simps collect_targets.simps)
qed

section \<open>Properties\<close>

text \<open>
  A block does what it says: for an IPv4 address, or an IPv6 address without a scope, that is
  not protected, on a connected adapter, the command built from it passes the whitelist, is run
  exactly once, and its rule is recorded as active.
\<close>

theorem block_runs_its_command:
  assumes "client_up fw" and "fw_commands fw = new_command_whitelist"
    and "ip_address (strip ip) = Some a" and "unscoped a"
    and "\<not> protected (PyStr ip) (fw_assets fw)"
    and "ssh (add_sudo (use_sudo fw) (drop_cmd (table_for (family_of_addr a)) ''INPUT'' ''-s'' (ip_text a)
           (block_rule_id n))) (remote fw) = (SshDone 0 out err, w')"
  shows "fst (fw_block_ip ssh n ip duration fw) =
       BlockDone (block_rule_id n) (ip_text a) (family_of_addr a) duration
     \<and> remote (snd (fw_block_ip ssh n ip duration fw)) = w'
     \<and> map_option fr_status (map_of (active_rules (snd (fw_block_ip ssh n ip duration fw))) (block_rule_id n))
         = Some Active"
proof -
  let ?cmd = "drop_cmd (table_for (family_of_addr a)) ''INPUT'' ''-s'' (ip_text a) (block_rule_id n)"
  let ?fw = "fw\<lparr>fw_assets := snd (asset_check (PyStr ip) ''block_ip'' (fw_assets fw))\<rparr>"
  have "allowed new_command_whitelist ?cmd ''linux''"
    by (rule addr_cmd_allowed) (simp_all add: assms(4) rule_ids_ok)
  then have "fw_exec ssh ?cmd False ?fw = (Inr out, ?fw\<lparr>remote := w'\<rparr>)"
    using assms by (intro fw_exec_allowed) simp_all
  then show ?thesis
    using assms(3,5) asset_check_fst [of "PyStr ip" "''block_ip''" "fw_assets fw"]
    by (simp add: fw_block_ip_def normalize_ip_def Let_def split_beta)
qed

text \<open>
  The adapter protects the text it was given, not the address it blocks: when the padded text
  is no address for the asset list, no list of protected assets refuses the block.
\<close>

theorem padded_address_never_refused:
  assumes "ip_address ip = None" and "normalize_ip ip = Some (nip, family)"
  shows "\<forall>r. fst (fw_block_ip ssh n ip duration fw) \<noteq> BlockRefused r"
proof -
  have "\<not> protected (PyStr ip) (fw_assets fw)" using assms(1) by (simp add: protected_iff)
  then show ?thesis
    using assms(2) asset_check_fst [of "PyStr ip" "''block_ip''" "fw_assets fw"]
    by (auto simp: fw_block_ip_def Let_def split_beta split: sum.splits)
qed

text \<open>
  What "complete" means: an isolation is reported complete exactly when some rule was written
  and every requested family has one target with both its chains written.  It does not ask
  this of every target: the remaining addresses of the family may be untouched.
\<close>

theorem isolation_complete_iff:
  assumes "normalize_ip host = Some (nip, family)" and "\<not> protected (PyStr host) (fw_assets fw)"
    and "collect_targets (host # extra_ips) [] = Inr targets" and "targets \<noteq> []"
  shows "(\<exists>r. fst (fw_isolate_host (logging_ssh ok) n host extra_ips fw) = IsoResult r \<and> iso_complete r)
     \<longleftrightarrow> commands_run ok fw (isolation_id n) targets \<noteq> []
       \<and> (\<forall>f \<in> {FAMILY_IPV4, FAMILY_IPV6} \<inter> snd ` set targets. \<exists>tgt \<in> set targets. snd tgt = f
            \<and> list_all (exec_ok ok fw) (target_cmds (isolation_id n) tgt))"
proof -
  have mem: "f \<in> full_families ok fw (isolation_id n) targets \<longleftrightarrow>
      (\<exists>tgt \<in> set targets. snd tgt = f \<and> list_all (exec_ok ok fw) (target_cmds (isolation_id n) tgt))" for f
    unfolding full_families_def by blast
  show ?thesis
    using isolate_outcome(1) [OF assms, of ok n] unfolding mem by force
qed

text \<open>
  Only the host is checked against the protected assets: the other addresses of the call
  are isolated even when they are protected.
\<close>

theorem extra_addresses_unprotected:
  assumes "client_up fw" and "fw_commands fw = new_command_whitelist"
    and "normalize_ip host = Some (nip, family)" and "\<not> protected (PyStr host) (fw_assets fw)"
    and "collect_targets (host # extra_ips) [] = Inr targets"
    and "(ip_text a, family_of_addr a) \<in> set targets" and "unscoped a"
  shows "add_sudo (use_sudo fw) (drop_cmd (table_for (family_of_addr a)) ''INPUT'' ''-s'' (ip_text a) (isolation_id n))
     \<in> set (remote (snd (fw_isolate_host (logging_ssh (\<lambda>_. True)) n host extra_ips fw)))"
proof -
  let ?cmd = "drop_cmd (table_for (family_of_addr a)) ''INPUT'' ''-s'' (ip_text a) (isolation_id n)"
  have "allowed new_command_whitelist ?cmd ''linux''"
    by (rule addr_cmd_allowed) (simp_all add: assms(7) rule_ids_ok)
  then have "exec_ok (\<lambda>_. True) fw ?cmd" using assms(1,2) by (simp add: exec_ok_def)
  moreover have "?cmd \<in> set (target_cmds (isolation_id n) (ip_text a, family_of_addr a))"
    by (simp add: target_cmds_def)
  ultimately have "?cmd \<in> set (commands_run (\<lambda>_. True) fw (isolation_id n) targets)"
    using assms(6) unfolding commands_run_def by fastforce
  moreover have "targets \<noteq> []" using assms(6) by auto
  ultimately show ?thesis
    using isolate_outcome(2) [OF assms(3-5), of "\<lambda>_. True" n] by simp
qed

text \<open>
  A rollback that cannot reach the firewall reports success: with no connection, or when
  every command fails, nothing is deleted, the rule stays recorded as active, and the answer is
  an idempotent success.
\<close>

theorem unreachable_rollback_succeeds:
  assumes "\<not> client_up fw \<or> (\<forall>cmd w. \<exists>e. ssh cmd w = (SshRaised e, w))"
  shows "fw_rollback ssh rid fw =
     (\<lparr>rb_success = True, rb_deleted = 0, rb_idempotent = True\<rparr>, fw)"
proof -
  have fails: "\<exists>e. fw_exec ssh cmd False fw = (Inl e, fw)" for cmd
  proof (cases "client_up fw")
    case True
    with assms obtain e where "ssh (add_sudo (use_sudo fw) cmd) (remote fw) = (SshRaised e, remote fw)" by blast
    with True show ?thesis by (simp add: fw_exec_def Let_def)
  qed (simp add: fw_exec_def)
  have "rollback_chains ssh rid tcs d fw = (d, fw)" for tcs d
  proof (induction tcs)
    case (Cons tc tcs)
    obtain table chain where tc: "tc = (table, chain)" by (cases tc)
    from fails obtain e where "fw_exec ssh (fw_list_cmd table chain) False fw = (Inl e, fw)" by blast
    with Cons show ?case by (simp add: tc)
  qed simp
  then show ?thesis by (simp add: fw_rollback_def)
qed

section \<open>Applications\<close>

definition demo_fw :: "string list firewall" where
  "demo_fw = \<lparr>client_up = True, use_sudo = True, active_rules = [],
     fw_commands = new_command_whitelist, fw_assets = initialize [] [], remote = []\<rparr>"

lemma demo_fw_sel:
  "client_up demo_fw" "use_sudo demo_fw" "fw_commands demo_fw = new_command_whitelist" "remote demo_fw = []"
  by (simp_all add: demo_fw_def)

theorem block_runs_its_command_witness:
  "fst (fw_block_ip (logging_ssh (\<lambda>_. True)) 12345 ''203.0.113.9'' 3600 demo_fw) =
     BlockDone ''FW-RULE-12345'' ''203.0.113.9'' ''ipv4'' 3600"
proof -
  have a: "ip_address (strip ''203.0.113.9'') = Some (IPv4 3405803785)" by code_simp
  have prot: "\<not> protected (PyStr ''203.0.113.9'') (fw_assets demo_fw)" by code_simp
  have ssh: "logging_ssh (\<lambda>_. True) cmd w = (SshDone 0 [] [], w @ [cmd])" for cmd w
    by (simp add: logging_ssh_def)
  have u: "unscoped (IPv4 3405803785)" by (simp add: unscoped_def)
  have "fst (fw_block_ip (logging_ssh (\<lambda>_. True)) 12345 ''203.0.113.9'' 3600 demo_fw) =
      BlockDone (block_rule_id 12345) (ip_text (IPv4 3405803785)) (family_of_addr (IPv4 3405803785)) 3600"
    by (rule conjunct1 [OF block_runs_its_command [OF demo_fw_sel(1,3) a u prot ssh]])
  moreover have "block_rule_id 12345 = ''FW-RULE-12345''"
    by (simp add: block_rule_id_def dec_nat.simps digit_char_def) code_simp
  moreover have "ip_text (IPv4 3405803785) = ''203.0.113.9''" by code_simp
  moreover have "family_of_addr (IPv4 3405803785) = ''ipv4''" by code_simp
  ultimately show ?thesis by simp
qed

theorem padded_address_never_refused_witness:
  "fst (fw_block_ip (logging_ssh (\<lambda>_. True)) 1 ''127.0.0.1'' 60 demo_fw) =
     BlockRefused (HitsAsset (PyStr ''127.0.0.1'') ''loopback'' (Net4 2130706432 8) ''builtin'' ''block_ip'')
   \<and> (\<forall>r. fst (fw_block_ip (logging_ssh (\<lambda>_. True)) 1 '' 127.0.0.1'' 60 demo_fw) \<noteq> BlockRefused r)"
proof
  show "fst (fw_block_ip (logging_ssh (\<lambda>_. True)) 1 ''127.0.0.1'' 60 demo_fw) =
      BlockRefused (HitsAsset (PyStr ''127.0.0.1'') ''loopback'' (Net4 2130706432 8) ''builtin'' ''block_ip'')"
    by code_simp
  have none: "ip_address '' 127.0.0.1'' = None" by code_simp
  have "normalize_ip '' 127.0.0.1'' = Some (''127.0.0.1'', ''ipv4'')" by code_simp
  from padded_address_never_refused [OF none this]
  show "\<forall>r. fst (fw_block_ip (logging_ssh (\<lambda>_. True)) 1 '' 127.0.0.1'' 60 demo_fw) \<noteq> BlockRefused r" .
qed

text \<open>A session on which every command about one address fails.\<close>

definition demo_ok :: "string \<Rightarrow> bool" where
  "demo_ok cmd = (\<not> contains ''10.0.0.2'' cmd)"

theorem isolation_complete_iff_witness:
  "(\<exists>r. fst (fw_isolate_host (logging_ssh demo_ok) 7 ''10.0.0.1'' [''10.0.0.2''] demo_fw) = IsoResult r
      \<and> iso_complete r)
   \<and> \<not> list_all (exec_ok demo_ok demo_fw) (target_cmds ''EDR-ISO-7'' (''10.0.0.2'', ''ipv4''))"
proof
  have host: "normalize_ip ''10.0.0.1'' = Some (''10.0.0.1'', ''ipv4'')" by code_simp
  have prot: "\<not> protected (PyStr ''10.0.0.1'') (fw_assets demo_fw)" by code_simp
  have tgts: "collect_targets [''10.0.0.1'', ''10.0.0.2''] [] =
      Inr [(''10.0.0.1'', ''ipv4''), (''10.0.0.2'', ''ipv4'')]"
    by code_simp
  have full: "list_all (exec_ok demo_ok demo_fw) (target_cmds (isolation_id 7) (''10.0.0.1'', ''ipv4''))"
    by code_simp
  then have "commands_run demo_ok demo_fw (isolation_id 7)
      [(''10.0.0.1'', ''ipv4''), (''10.0.0.2'', ''ipv4'')] \<noteq> []"
    by (auto simp: commands_run_def filter_empty_conv list_all_iff target_cmds_def)
  moreover have "\<forall>f \<in> {FAMILY_IPV4, FAMILY_IPV6} \<inter> snd ` set [(''10.0.0.1'', ''ipv4''), (''10.0.0.2'', ''ipv4'')].
      \<exists>tgt \<in> set [(''10.0.0.1'', ''ipv4''), (''10.0.0.2'', ''ipv4'')]. snd tgt = f
        \<and> list_all (exec_ok demo_ok demo_fw) (target_cmds (isolation_id 7) tgt)"
    using full by (auto simp: FAMILY_IPV4_def FAMILY_IPV6_def)
  ultimately show "\<exists>r. fst (fw_isolate_host (logging_ssh demo_ok) 7 ''10.0.0.1'' [''10.0.0.2''] demo_fw) =
      IsoResult r \<and> iso_complete r"
    by (intro iffD2 [OF isolation_complete_iff [OF host prot tgts]] conjI) (simp_all only: list.distinct not_False_eq_True)
  show "\<not> list_all (exec_ok demo_ok demo_fw) (target_cmds ''EDR-ISO-7'' (''10.0.0.2'', ''ipv4''))"
    by code_simp
qed

theorem extra_addresses_unprotected_witness:
  "protected (PyStr ''127.0.0.1'') (fw_assets demo_fw)
   \<and> add_sudo True (drop_cmd ''iptables'' ''INPUT'' ''-s'' ''127.0.0.1'' ''EDR-ISO-7'')
       \<in> set (remote (snd (fw_isolate_host (logging_ssh (\<lambda>_. True)) 7 ''10.0.0.1'' [''127.0.0.1''] demo_fw)))"
proof
  show "protected (PyStr ''127.0.0.1'') (fw_assets demo_fw)" by code_simp
  have host: "normalize_ip ''10.0.0.1'' = Some (''10.0.0.1'', ''ipv4'')" by code_simp
  have prot: "\<not> protected (PyStr ''10.0.0.1'') (fw_assets demo_fw)" by code_simp
  have tgts: "collect_targets [''10.0.0.1'', ''127.0.0.1''] [] =
      Inr [(''10.0.0.1'', ''ipv4''), (''127.0.0.1'', ''ipv4'')]"
    by code_simp
  have a: "ip_text (IPv4 2130706433) = ''127.0.0.1''" "family_of_addr (IPv4 2130706433) = ''ipv4''"
    "table_for ''ipv4'' = ''iptables''" "isolation_id 7 = ''EDR-ISO-7''"
    by code_simp+
  show "add_sudo True (drop_cmd ''iptables'' ''INPUT'' ''-s'' ''127.0.0.1'' ''EDR-ISO-7'')
       \<in> set (remote (snd (fw_isolate_host (logging_ssh (\<lambda>_. True)) 7 ''10.0.0.1'' [''127.0.0.1''] demo_fw)))"
    using extra_addresses_unprotected [OF demo_fw_sel(1,3) host prot tgts, of "IPv4 2130706433" 7]
    unfolding a using demo_fw_sel(2) by (simp add: unscoped_def)
qed

theorem unreachable_rollback_succeeds_witness:
  "fw_rollback (logging_ssh (\<lambda>_. False)) ''FW-RULE-7'' demo_fw =
     (\<lparr>rb_success = True, rb_deleted = 0, rb_idempotent = True\<rparr>, demo_fw)"
  by (rule unreachable_rollback_succeeds) (simp add: logging_ssh_def)

end
