(* ===== verification/FirewallDns.thy ===== *)
theory FirewallDns
  imports SshFirewall
begin

text \<open>
  The rest of the firewall adapter (\<open>src/backend/response_engine/ssh_firewall.py\<close>): the DNS
  sinkhole and its removal, the removal of every rule of the program, and the queries (listing,
  health, port scan).  The SHA-1 marker of a domain is the parameter \<open>mk\<close>.  Messages are left out.
\<close>

section \<open>DNS sinkhole\<close>

definition dom_char :: "char \<Rightarrow> bool" where
  "dom_char c = (alnum c \<or> c = CHR ''.'' \<or> c = CHR ''-'')"

definition domain_pat :: regex where
  "domain_pat = Cat (Sat alnum) (opt (Cat (up_to 251 (Sat dom_char)) (Sat alnum)))"

definition marker_char :: "char \<Rightarrow> bool" where
  "marker_char c = (alnum c \<or> c = CHR ''-'')"

definition marker_pat :: regex where
  "marker_pat = Cat (lit ''SOC-SH-'') (Cat (Sat marker_char) (up_to 31 (Sat marker_char)))"

definition bad_domain :: "string \<Rightarrow> bool" where
  "bad_domain d = (\<not> re_match domain_pat d \<or> 253 < length d \<or> contains ''..'' d)"

definition sudo_cmd :: "'w firewall \<Rightarrow> string \<Rightarrow> string" where
  "sudo_cmd fw cmd = (if use_sudo fw \<and> \<not> starts_with ''sudo'' cmd then ''sudo '' @ cmd else cmd)"

datatype sink_mode = SinkUnconfigured | SinkInvalid | SinkError | SinkLive

record sinkhole =
  sk_mode :: sink_mode
  sk_domain :: string
  sk_marker :: string
  sk_backend :: string

definition sink_failure :: "sink_mode \<Rightarrow> string \<Rightarrow> string \<Rightarrow> sinkhole" where
  "sink_failure m d marker = \<lparr>sk_mode = m, sk_domain = d, sk_marker = marker, sk_backend = ''unconfigured''\<rparr>"

text \<open>\<open>None\<close> when a given address is no address; otherwise both texts, empty when not given.\<close>

definition norm_or_empty :: "string option \<Rightarrow> string option" where
  "norm_or_empty a = (case a of None \<Rightarrow> Some [] | Some s \<Rightarrow>
     if s = [] then Some [] else map_option fst (normalize_ip s))"

definition v4_mapped :: "ip_addr \<Rightarrow> bool" where
  "v4_mapped a = (case a of IPv6 v scope \<Rightarrow> v div 2 ^ 32 = 65535 | IPv4 v \<Rightarrow> False)"

text \<open>\<open>a.ipv4_mapped\<close> of an IPv4 address raises \<open>AttributeError\<close>, which no handler catches.\<close>

definition native_v6 :: "string \<Rightarrow> string option" where
  "native_v6 v6 =
     (if v6 = [] then Some []
      else (case ip_address v6 of
              None \<Rightarrow> Some []
            | Some (IPv4 v) \<Rightarrow> None
            | Some (IPv6 v sc) \<Rightarrow> Some (if v4_mapped (IPv6 v sc) then [] else v6)))"

definition quoted :: "string \<Rightarrow> string" where
  "quoted s = [CHR 0x27] @ s @ [CHR 0x27]"

definition printf_cmd :: "string list \<Rightarrow> string \<Rightarrow> string" where
  "printf_cmd ls pipe = ''printf '' @ quoted (''%s'' @ [CHR 0x5C] @ ''n'') @ '' '' @
     join '' '' (List.map quoted ls) @ '' | '' @ pipe"

definition dnsmasq_lines :: "string \<Rightarrow> string \<Rightarrow> string \<Rightarrow> string list" where
  "dnsmasq_lines d v4 v6 =
     List.map (\<lambda>ip. ''address=/'' @ d @ ''/'' @ ip) (filter (\<lambda>ip. ip \<noteq> []) [v4, v6])"

definition hosts_lines :: "string \<Rightarrow> string \<Rightarrow> string \<Rightarrow> string \<Rightarrow> string list" where
  "hosts_lines d marker v4 v6 =
     List.map (\<lambda>ip. ip @ '' '' @ d @ '' # '' @ marker) (filter (\<lambda>ip. ip \<noteq> []) [v4, v6])"

definition conf_path :: "string \<Rightarrow> string" where
  "conf_path marker = ''/etc/dnsmasq.d/soc-sinkhole-'' @ marker @ ''.conf''"

definition probe_cmd :: string where
  "probe_cmd = ''test -x /usr/sbin/dnsmasq && echo DNSMASQ_OK || echo NO_DNSMASQ''"

definition write_dnsmasq ::
  "'w ssh \<Rightarrow> string \<Rightarrow> string \<Rightarrow> string list \<Rightarrow> 'w firewall \<Rightarrow> bool \<times> 'w firewall"
where
  "write_dnsmasq ssh d marker ls fw =
     (case fw_exec ssh (printf_cmd ls (sudo_cmd fw (''tee '' @ conf_path marker))) True fw of
        (Inl e, fw1) \<Rightarrow> (False, fw1)
      | (Inr out, fw1) \<Rightarrow> (True, snd (fw_exec ssh (sudo_cmd fw ''pkill -HUP dnsmasq'') True fw1)))"

definition write_hosts ::
  "'w ssh \<Rightarrow> string \<Rightarrow> string list \<Rightarrow> 'w firewall \<Rightarrow> bool \<times> 'w firewall"
where
  "write_hosts ssh marker ls fw =
     (case fw_exec ssh ''cat /etc/hosts'' True fw of
        (r, fw1) \<Rightarrow>
          let hosts = (case r of Inl e \<Rightarrow> [] | Inr out \<Rightarrow> out) in
          if contains marker hosts then (True, fw1)
          else (case fw_exec ssh (printf_cmd ls (sudo_cmd fw ''tee -a /etc/hosts'')) True fw1 of
                  (Inl e, fw2) \<Rightarrow> (False, fw2)
                | (Inr out, fw2) \<Rightarrow> (True, fw2)))"

definition checked_marker :: "(string \<Rightarrow> string) \<Rightarrow> string \<Rightarrow> string \<Rightarrow> string" where
  "checked_marker mk d marker = (if re_match marker_pat marker then marker else mk d)"

text \<open>\<open>sinkhole_domain\<close>; \<open>None\<close> is the \<open>AttributeError\<close> of an IPv4 address given as \<open>ipv6\<close>.\<close>

definition fw_sinkhole ::
  "'w ssh \<Rightarrow> (string \<Rightarrow> string) \<Rightarrow> string \<Rightarrow> string option \<Rightarrow> string option \<Rightarrow> string \<Rightarrow> 'w firewall \<Rightarrow>
   sinkhole option \<times> 'w firewall"
where
  "fw_sinkhole ssh mk domain ipv4 ipv6 marker0 fw =
     (let d = strip domain; m0 = strip marker0 in
      if \<not> client_up fw then (Some (sink_failure SinkUnconfigured d m0), fw)
      else if bad_domain d then (Some (sink_failure SinkInvalid d m0), fw)
      else (let marker = checked_marker mk d m0 in
        case (norm_or_empty ipv4, norm_or_empty ipv6) of
          (Some v4, Some v6raw) \<Rightarrow>
            (case native_v6 v6raw of
               None \<Rightarrow> (None, fw)
             | Some v6 \<Rightarrow>
                 if v4 = [] \<and> v6 = [] then (Some (sink_failure SinkInvalid d marker), fw)
                 else (case fw_exec ssh probe_cmd True fw of
                   (r, fw1) \<Rightarrow>
                     let dnsmasq = (case r of Inl e \<Rightarrow> False | Inr out \<Rightarrow> contains ''DNSMASQ_OK'' out);
                         written = (if dnsmasq then write_dnsmasq ssh d marker (dnsmasq_lines d v4 v6) fw1
                                    else write_hosts ssh marker (hosts_lines d marker v4 v6) fw1)
                     in (if fst written
                         then Some \<lparr>sk_mode = SinkLive, sk_domain = d, sk_marker = marker,
                                    sk_backend = (if dnsmasq then ''dnsmasq'' else ''hosts'')\<rparr>
                         else Some (sink_failure SinkError d marker), snd written)))
        | _ \<Rightarrow> (Some (sink_failure SinkInvalid d marker), fw)))"

definition fw_unsinkhole ::
  "'w ssh \<Rightarrow> (string \<Rightarrow> string) \<Rightarrow> string \<Rightarrow> string \<Rightarrow> 'w firewall \<Rightarrow> sinkhole \<times> 'w firewall"
where
  "fw_unsinkhole ssh mk domain marker0 fw =
     (let d = strip domain; m0 = strip marker0 in
      if \<not> client_up fw then (sink_failure SinkUnconfigured d m0, fw)
      else if d \<noteq> [] \<and> bad_domain d then (sink_failure SinkInvalid d m0, fw)
      else if \<not> re_match marker_pat m0 \<and> d = [] then (sink_failure SinkInvalid d m0, fw)
      else (let marker = checked_marker mk d m0;
                (r1, fw1) = fw_exec ssh (sudo_cmd fw (''sed -i '' @ quoted (''/'' @ marker @ ''/d'') @ '' /etc/hosts'')) True fw;
                (r2, fw2) = fw_exec ssh (sudo_cmd fw (''rm -f '' @ conf_path marker)) True fw1
            in if isl r1 \<and> isl r2 then (sink_failure SinkError d marker, fw2)
               else (\<lparr>sk_mode = SinkLive, sk_domain = d, sk_marker = marker,
                      sk_backend = (if isl r2 then ''hosts'' else ''dnsmasq'')\<rparr>, fw2)))"

section \<open>Removing every rule\<close>

definition program_lines :: "string \<Rightarrow> nat list" where
  "program_lines out =
     rev (List.map_filter line_number
       (filter (\<lambda>l. contains ''FW-RULE-'' l \<or> contains ''EDR-ISO-'' l) (drop 2 (split_lines out))))"

fun clear_chains :: "'w ssh \<Rightarrow> (string \<times> string) list \<Rightarrow> nat \<Rightarrow> 'w firewall \<Rightarrow> nat \<times> 'w firewall" where
  "clear_chains ssh [] n fw = (n, fw)"
| "clear_chains ssh ((table, chain) # tcs) n fw =
     (case fw_exec ssh (fw_list_cmd table chain) False fw of
        (Inl e, fw') \<Rightarrow> clear_chains ssh tcs n fw'
      | (Inr out, fw') \<Rightarrow>
          (case delete_lines ssh table chain (program_lines out) n fw' of
             (m, fw'') \<Rightarrow> clear_chains ssh tcs m fw''))"

definition fw_rollback_all :: "'w ssh \<Rightarrow> 'w firewall \<Rightarrow> (nat \<times> bool) \<times> 'w firewall" where
  "fw_rollback_all ssh fw =
     (case clear_chains ssh ALL_CHAINS 0 fw of
        (n, fw') \<Rightarrow>
          ((n, n = 0), fw'\<lparr>active_rules := List.map (\<lambda>(k, r). (k, r\<lparr>fr_status := Revoked\<rparr>)) (active_rules fw')\<rparr>))"

section \<open>Queries\<close>

definition list_fw_rules :: "'w ssh \<Rightarrow> 'w firewall \<Rightarrow> (fw_error + string) \<times> 'w firewall" where
  "list_fw_rules ssh fw = fw_exec ssh (fw_list_cmd ''iptables'' ''INPUT'') False fw"

text \<open>\<open>health_check\<close>: the two texts and the number of rules in force, or the error.\<close>

definition health_check :: "'w ssh \<Rightarrow> 'w firewall \<Rightarrow> (fw_error + string \<times> string \<times> nat) \<times> 'w firewall" where
  "health_check ssh fw =
     (case fw_exec ssh ''uname -n'' False fw of
        (Inl e, fw1) \<Rightarrow> (Inl e, fw1)
      | (Inr host, fw1) \<Rightarrow>
          (case fw_exec ssh ''uptime'' False fw1 of
             (Inl e, fw2) \<Rightarrow> (Inl e, fw2)
           | (Inr up, fw2) \<Rightarrow> (Inr (strip host, strip up, length (get_active_rules fw2)), fw2)))"

definition scan_flags :: "string \<Rightarrow> string" where
  "scan_flags kind = (case map_of [(''fast'', ''-T4 -F''), (''full'', ''-A -T4''), (''custom'', ''-sV'')] kind of
     None \<Rightarrow> ''-T4 -F'' | Some f \<Rightarrow> f)"

text \<open>\<open>vulnerability_scan\<close>: \<open>None\<close> when nmap is missing; an error of the scan itself is raised.\<close>

definition vulnerability_scan ::
  "'w ssh \<Rightarrow> string \<Rightarrow> string \<Rightarrow> 'w firewall \<Rightarrow> (fw_error + string list) option \<times> 'w firewall"
where
  "vulnerability_scan ssh target kind fw =
     (case fw_exec ssh ''nmap --version'' False fw of
        (Inl e, fw1) \<Rightarrow> (None, fw1)
      | (Inr out, fw1) \<Rightarrow>
          if \<not> contains ''Nmap'' out then (None, fw1)
          else (case fw_exec ssh (''nmap '' @ scan_flags kind @ '' '' @ target) False fw1 of
                  (Inl e, fw2) \<Rightarrow> (Some (Inl e), fw2)
                | (Inr text, fw2) \<Rightarrow>
                    (Some (Inr (List.map strip
                       (filter (\<lambda>l. contains ''/tcp'' l \<and> contains ''open'' l) (split_lines text)))), fw2)))"


section \<open>Lemmas\<close>

abbreviation quote_char :: char where "quote_char \<equiv> CHR 0x27"

lemma alnum_no_quote: "alnum c \<Longrightarrow> c \<noteq> quote_char"
  by (auto simp: alnum_def in_range_def is_digit_def)

lemma domain_no_quote: "\<not> bad_domain d \<Longrightarrow> quote_char \<notin> set d"
proof -
  assume "\<not> bad_domain d"
  then have "in_lang domain_pat d" by (simp add: bad_domain_def re_match_correct)
  moreover have "confined (\<lambda>c. c \<noteq> quote_char) domain_pat"
    using alnum_no_quote by (auto simp: domain_pat_def confined_rules dom_char_def)
  ultimately have "list_all (\<lambda>c. c \<noteq> quote_char) d" by (rule confined_lang)
  then show ?thesis by (auto simp: list_all_iff)
qed

lemma address_no_quote: "quote_char \<notin> set (ipv4_text v)" "quote_char \<notin> set (ipv6_text v)"
proof -
  have no: "\<not> addr_char quote_char" by code_simp
  then show "quote_char \<notin> set (ipv4_text v)"
    using ipv4_text_chars(1) [of v] by (auto simp: list_all_iff)
  from no show "quote_char \<notin> set (ipv6_text v)"
    using ipv6_text_chars [of v] by (auto simp: list_all_iff addr_char_def)
qed

lemma ipv4_text_nonempty: "ipv4_text v \<noteq> []" by (rule ipv4_text_chars(2))

section \<open>Properties\<close>

text \<open>
  The lines the sinkhole writes to the hosts file, which it puts between single quotes in a
  shell command that skips the command whitelist, hold a single quote exactly when the scope id of
  the IPv6 address does.
\<close>

theorem sinkhole_lines_quote_iff:
  assumes "\<not> bad_domain d" and "quote_char \<notin> set marker"
  shows "(\<exists>l \<in> set (hosts_lines d marker (ip_text (IPv4 a)) (ip_text (IPv6 b scope))). quote_char \<in> set l)
    \<longleftrightarrow> quote_char \<in> set scope"
proof -
  have line: "quote_char \<in> set (ip @ '' '' @ d @ '' # '' @ marker) \<longleftrightarrow> quote_char \<in> set ip" for ip
    using domain_no_quote [OF assms(1)] assms(2) by simp
  have "(\<exists>l \<in> set (hosts_lines d marker v4 v6). quote_char \<in> set l) \<longleftrightarrow>
      quote_char \<in> set v4 \<or> quote_char \<in> set v6" for v4 v6
    unfolding hosts_lines_def set_map bex_simps(7) line by auto
  then show ?thesis using address_no_quote by simp
qed

definition sink_fw :: "string list firewall" where
  "sink_fw = demo_fw\<lparr>use_sudo := False\<rparr>"

definition scoped_sink :: string where
  "scoped_sink = ''::1%'' @ [quote_char] @ '';reboot;'' @ [quote_char]"

lemma evil_domain: "\<not> bad_domain ''evil.example''"
proof -
  have parts: "list_all dom_char ''vil.exampl''" "alnum CHR ''e''" "\<not> contains ''..'' ''evil.example''" by code_simp+
  have "in_lang (Cat (up_to 251 (Sat dom_char)) (Sat alnum)) (''vil.exampl'' @ ''e'')"
    using parts by (intro in_lang.Cat lang_up_to in_lang.Sat) simp_all
  then have "in_lang domain_pat (''e'' @ ''vil.exampl'' @ ''e'')"
    unfolding domain_pat_def
    using in_lang.Cat [OF in_lang.Sat [where p = alnum and c = "CHR ''e''"] lang_opt_Some] parts(2) by simp
  with parts(3) show ?thesis by (simp add: bad_domain_def re_match_correct)
qed

lemma sink_fw_sel [simp]:
  "client_up sink_fw" "\<not> use_sudo sink_fw" "remote sink_fw = []"
  by (simp_all add: sink_fw_def demo_fw_def)

lemma skipped_logging:
  "client_up fw \<Longrightarrow> \<not> use_sudo fw \<Longrightarrow>
   fw_exec (logging_ssh (\<lambda>_. True)) cmd True fw = (Inr [], fw\<lparr>remote := remote fw @ [cmd]\<rparr>)"
  by (simp add: fw_exec_def logging_ssh_def add_sudo_def Let_def)

theorem sinkhole_lines_quote_iff_witness:
  "normalize_ip scoped_sink = Some (scoped_sink, FAMILY_IPV6) \<and>
   (\<exists>l \<in> set (hosts_lines ''evil.example'' ''SOC-SH-1'' (ip_text (IPv4 0)) scoped_sink). quote_char \<in> set l)"
proof
  show "normalize_ip scoped_sink = Some (scoped_sink, FAMILY_IPV6)" by code_simp
  have "ip_text (IPv6 1 (drop 4 scoped_sink)) = scoped_sink" and "quote_char \<in> set (drop 4 scoped_sink)"
    and "quote_char \<notin> set ''SOC-SH-1''"
    by code_simp+
  with evil_domain show "\<exists>l \<in> set (hosts_lines ''evil.example'' ''SOC-SH-1'' (ip_text (IPv4 0)) scoped_sink). quote_char \<in> set l"
    using sinkhole_lines_quote_iff [of "''evil.example''" "''SOC-SH-1''" 0 1 "drop 4 scoped_sink"] by simp
qed

text \<open>
  Such an address takes over the shell: a sinkhole towards the scoped address above is
  accepted, and the command the session runs has \<open>;reboot;\<close> outside the quotes.
\<close>

theorem sinkhole_injection:
  "List.last (remote (snd (fw_sinkhole (logging_ssh (\<lambda>_. True)) (\<lambda>d. ''SOC-SH-1'') ''evil.example'' None
      (Some scoped_sink) [] sink_fw))) =
   ''printf '' @ quoted (''%s'' @ [CHR 0x5C] @ ''n'') @ '' '' @ quoted ''::1%'' @ '';reboot;'' @
   quoted '' evil.example # SOC-SH-1'' @ '' | tee -a /etc/hosts''"
proof -
  have facts: "strip ''evil.example'' = ''evil.example''" "strip [] = []" "norm_or_empty None = Some []"
    "norm_or_empty (Some scoped_sink) = Some scoped_sink" "native_v6 scoped_sink = Some scoped_sink"
    "checked_marker (\<lambda>d. ''SOC-SH-1'') ''evil.example'' [] = ''SOC-SH-1''" "scoped_sink \<noteq> []"
    "\<not> contains ''DNSMASQ_OK'' []" "\<not> contains ''SOC-SH-1'' []"
    "printf_cmd (hosts_lines ''evil.example'' ''SOC-SH-1'' [] scoped_sink) ''tee -a /etc/hosts'' =
       ''printf '' @ quoted (''%s'' @ [CHR 0x5C] @ ''n'') @ '' '' @ quoted ''::1%'' @ '';reboot;'' @
       quoted '' evil.example # SOC-SH-1'' @ '' | tee -a /etc/hosts''"
    by code_simp+
  show ?thesis
    by (simp add: fw_sinkhole_def facts evil_domain write_hosts_def skipped_logging sudo_cmd_def Let_def
        del: contains.simps append.simps)
qed

text \<open>
  Removing every rule forgets them even when none can be reached: with no connection nothing is
  executed, the answer is an idempotent success, and every recorded rule becomes revoked, so that
  no later restoration finds it.
\<close>

theorem rollback_all_forgets_unreached:
  assumes "\<not> client_up fw"
  shows "fst (fw_rollback_all ssh fw) = (0, True) \<and> remote (snd (fw_rollback_all ssh fw)) = remote fw \<and>
    get_active_rules (snd (fw_rollback_all ssh fw)) = []"
proof -
  have "clear_chains ssh tcs n fw = (n, fw)" for tcs n
    by (induction tcs) (auto simp: fw_exec_def assms)
  then show ?thesis by (auto simp: fw_rollback_all_def get_active_rules_def filter_empty_conv)
qed

theorem rollback_all_forgets_unreached_witness:
  "get_active_rules (snd (fw_rollback_all (logging_ssh (\<lambda>_. True)) (sink_fw\<lparr>client_up := False\<rparr>))) = []"
  using rollback_all_forgets_unreached [of "sink_fw\<lparr>client_up := False\<rparr>"] by simp

end
