(* ===== verification/Iptables.thy ===== *)
theory Iptables
  imports FirewallDns
begin

text \<open>
  What the firewall adapter relies on of the remote host's \<open>iptables\<close> and \<open>ip6tables\<close>: the
  numbered listing of a chain, the deletion of a rule by its number and the insertion of a rule at
  the head, stated as a locale over the SSH session, with an in-memory host that satisfies it.
  Over such a host the adapter's rollback is proved to refine "remove every rule that carries the
  id", on all tables and chains.
\<close>

section \<open>Listings\<close>

type_synonym chains = "string \<times> string \<Rightarrow> string list"

fun number_from :: "nat \<Rightarrow> string list \<Rightarrow> string list" where
  "number_from n [] = []"
| "number_from n (r # rs) = (dec_nat n @ '' '' @ r) # number_from (Suc n) rs"

fun unlines :: "string list \<Rightarrow> string" where
  "unlines [] = []"
| "unlines (l # ls) = l @ CHR 0x0A # unlines ls"

definition chain_header :: "string \<Rightarrow> string list" where
  "chain_header chain = [''Chain '' @ chain @ '' (policy ACCEPT)'',
     ''num  target     prot opt source               destination'']"

definition listing :: "string \<Rightarrow> string list \<Rightarrow> string" where
  "listing chain rs = unlines (chain_header chain @ number_from 1 rs)"

definition one_line :: "string \<Rightarrow> bool" where
  "one_line s = list_all (\<lambda>c. \<not> line_break c) s"

text \<open>Deleting the \<open>n\<close>-th rule, counted from 1.\<close>

definition delete_nth :: "nat \<Rightarrow> string list \<Rightarrow> string list" where
  "delete_nth n rs = take (n - 1) rs @ drop n rs"

section \<open>The host\<close>

locale iptables_host =
  fixes ssh :: "'w ssh" and view :: "'w \<Rightarrow> chains" and sudo :: bool
  assumes list_chain: "tc \<in> set ALL_CHAINS \<Longrightarrow>
      ssh (add_sudo sudo (fw_list_cmd (fst tc) (snd tc))) w = (SshDone 0 (listing (snd tc) (view w tc)) [], w)"
    and delete_rule: "tc \<in> set ALL_CHAINS \<Longrightarrow> 1 \<le> n \<Longrightarrow> n \<le> length (view w tc) \<Longrightarrow>
      \<exists>w'. ssh (add_sudo sudo (delete_cmd (fst tc) (snd tc) n)) w = (SshDone 0 [] [], w') \<and>
        view w' = (view w)(tc := delete_nth n (view w tc))"
    and insert_rule: "tc \<in> set ALL_CHAINS \<Longrightarrow> one_line flag \<Longrightarrow> one_line ip \<Longrightarrow> one_line comment \<Longrightarrow>
      \<exists>w' r. ssh (add_sudo sudo (drop_cmd (fst tc) (snd tc) flag ip comment)) w = (SshDone 0 [] [], w') \<and>
        contains comment r \<and> view w' = (view w)(tc := r # view w tc)"
    and view_lines: "r \<in> set (view w tc) \<Longrightarrow> one_line r"

section \<open>Reading a listing\<close>

text \<open>An id the program makes starts with a letter.\<close>

definition lettered :: "string \<Rightarrow> bool" where
  "lettered rid \<longleftrightarrow> rid \<noteq> [] \<and> \<not> is_digit (hd rid) \<and> \<not> is_space (hd rid)"

lemma digit_no_break: "is_digit c \<Longrightarrow> \<not> line_break c \<and> \<not> is_space c"
proof -
  assume d: "is_digit c"
  have "(of_char c :: int) = int (of_char c)" by (simp only: of_nat_of_char)
  with d have "48 \<le> (of_char c :: nat)" by (simp add: is_digit_def)
  then show ?thesis by (simp add: line_break_def is_space_def Let_def)
qed

lemma dec_nat_one_line: "one_line (dec_nat n)"
  using dec_nat_digits [of n] digit_no_break by (auto simp: one_line_def list_all_iff)

lemma split_unlines: "list_all one_line ls \<Longrightarrow> split_lines (unlines ls) = ls"
  by (induction ls) (simp_all add: split_lines_end one_line_def)

lemma number_from_one_line: "list_all one_line rs \<Longrightarrow> list_all one_line (number_from n rs)"
proof (induction rs arbitrary: n)
  case (Cons r rs)
  have "one_line '' ''" by (simp add: one_line_def line_break_def)
  with Cons dec_nat_one_line [of n] show ?case by (simp add: one_line_def)
qed simp

lemma blank_space: "is_space CHR '' ''"
  by (simp add: is_space_def Let_def)

lemma contains_skip: "lettered rid \<Longrightarrow> c \<noteq> hd rid \<Longrightarrow> contains rid (c # s) = contains rid s"
  by (cases rid) (auto simp: lettered_def)

lemma contains_after_number:
  assumes "lettered rid"
  shows "contains rid (dec_nat n @ '' '' @ r) = contains rid r"
proof -
  have "list_all is_digit u \<Longrightarrow> contains rid (u @ '' '' @ r) = contains rid r" for u
  proof (induction u)
    case Nil
    have "CHR '' '' \<noteq> hd rid" using assms blank_space unfolding lettered_def by metis
    from contains_skip [OF assms this] show ?case by (simp del: contains.simps)
  next
    case (Cons c u)
    then have "c \<noteq> hd rid" using assms by (auto simp: lettered_def)
    from contains_skip [OF assms this] Cons show ?case by (simp del: contains.simps)
  qed
  then show ?thesis using dec_nat_digits by blast
qed

text \<open>The number in front of a listed rule is read back.\<close>

lemma fold_digits_append:
  "fold (\<lambda>c n. 10 * n + digit_value c) (u @ v) (k :: int) =
   fold (\<lambda>c n. 10 * n + digit_value c) v (fold (\<lambda>c n. 10 * n + digit_value c) u k)"
  by simp

lemma digit_value_char: "d < 10 \<Longrightarrow> digit_value (digit_char d) = int d"
proof -
  assume "d < 10"
  have "(of_char (digit_char d) :: int) = int (of_char (digit_char d))" by (simp only: of_nat_of_char)
  then show ?thesis using \<open>d < 10\<close> by (simp add: digit_value_def digit_char_def)
qed

lemma read_dec_nat: "read_dec (dec_nat n) = int n"
proof (induction n rule: less_induct)
  case (less n)
  show ?case
  proof (cases "n < 10")
    case True
    then show ?thesis by (simp add: dec_nat.simps [of n] read_dec_def digit_value_char)
  next
    case False
    have "int (n div 10) * 10 + int (n mod 10) = int n"
      by (metis div_mult_mod_eq mult.commute of_nat_add of_nat_mult of_nat_numeral)
    with less [of "n div 10"] False show ?thesis
      by (simp add: dec_nat.simps [of n] read_dec_def digit_value_char)
  qed
qed

lemma takeWhile_digits_blank: "list_all is_digit u \<Longrightarrow> takeWhile (\<lambda>c. \<not> is_space c) (u @ '' '' @ r) = u"
  by (induction u) (simp_all add: digit_no_break blank_space)

lemma line_number_of: "line_number (dec_nat n @ '' '' @ r) = Some n"
proof -
  have "dropWhile is_space (dec_nat n @ '' '' @ r) = dec_nat n @ '' '' @ r"
    using dec_nat_digits [of n] dec_nat_nonempty [of n] digit_no_break
    by (cases "dec_nat n") auto
  then have "first_word (dec_nat n @ '' '' @ r) = dec_nat n"
    unfolding first_word_def using takeWhile_digits_blank [OF dec_nat_digits] by simp
  then show ?thesis
    using dec_nat_digits [of n] dec_nat_nonempty [of n] by (simp add: line_number_def Let_def read_dec_nat)
qed

lemma header_line_number: "l \<in> set (chain_header chain) \<Longrightarrow> line_number l = None"
  by (auto simp: chain_header_def line_number_def first_word_def Let_def is_space_def is_digit_def)

text \<open>The numbers of the rules that carry an id, from 1.\<close>

fun hits_from :: "nat \<Rightarrow> string \<Rightarrow> string list \<Rightarrow> nat list" where
  "hits_from n rid [] = []"
| "hits_from n rid (r # rs) = (if contains rid r then n # hits_from (Suc n) rid rs else hits_from (Suc n) rid rs)"

lemma map_filter_none: "\<forall>l \<in> set ls. f l = None \<Longrightarrow> List.map_filter f ls = []"
  by (induction ls) (simp_all add: List.map_filter_simps)

lemma map_filter_append: "List.map_filter f (xs @ ys) = List.map_filter f xs @ List.map_filter f ys"
  by (simp add: List.map_filter_def)

lemma hits_numbered:
  "lettered rid \<Longrightarrow>
   List.map_filter line_number (filter (contains rid) (number_from n rs)) = hits_from n rid rs"
proof (induction rs arbitrary: n)
  case (Cons r rs)
  have "contains rid (dec_nat n @ '' '' @ r) = contains rid r" by (rule contains_after_number) fact
  moreover have "line_number (dec_nat n @ '' '' @ r) = Some n" by (rule line_number_of)
  ultimately show ?case using Cons
    by (simp add: List.map_filter_simps del: append.simps append_Cons)
qed (simp add: List.map_filter_simps)

lemma hits_bounds: "x \<in> set (hits_from n rid rs) \<Longrightarrow> n \<le> x \<and> x < n + length rs"
  by (induction n rid rs rule: hits_from.induct) (auto split: if_splits)

lemma hits_sorted: "sorted (hits_from n rid rs)"
proof (induction n rid rs rule: hits_from.induct)
  case (2 n rid r rs)
  then show ?case using hits_bounds [of _ "Suc n" rid rs] by (auto dest!: hits_bounds)
qed simp

lemma matching_lines_listing:
  assumes "lettered rid" and "list_all one_line rs" and "one_line chain"
  shows "matching_lines rid (listing chain rs) = rev (hits_from 1 rid rs)"
proof -
  have hd: "list_all one_line (chain_header chain)"
    using assms(3) by (simp add: chain_header_def one_line_def line_break_def Let_def)
  have split: "split_lines (listing chain rs) = chain_header chain @ number_from 1 rs"
    unfolding listing_def by (rule split_unlines) (use hd number_from_one_line [OF assms(2)] in simp)
  have "List.map_filter line_number (filter (contains rid) (chain_header chain)) = []"
    by (rule map_filter_none) (use header_line_number in auto)
  then have "List.map_filter line_number (filter (contains rid) (split_lines (listing chain rs))) = hits_from 1 rid rs"
    unfolding split by (simp add: map_filter_append hits_numbered [OF assms(1)])
  then show ?thesis by (simp add: matching_lines_def sorted_sort_id hits_sorted)
qed

section \<open>Deleting from the bottom up\<close>

lemma delete_hits:
  "fold delete_nth (rev (hits_from (Suc (length pre)) rid rs)) (pre @ rs) =
   pre @ filter (\<lambda>r. \<not> contains rid r) rs"
proof (induction rs arbitrary: pre)
  case (Cons r rs)
  from Cons [of "pre @ [r]"] show ?case
    by (simp add: fold_append delete_nth_def)
qed simp

lemma delete_all_hits: "fold delete_nth (rev (hits_from 1 rid rs)) rs = filter (\<lambda>r. \<not> contains rid r) rs"
  using delete_hits [of "[]" rid rs] by simp

lemma length_hits: "length (hits_from n rid rs) = length (filter (contains rid) rs)"
  by (induction n rid rs rule: hits_from.induct) auto

lemma hits_descending: "sorted_wrt (>) (rev (hits_from n rid rs))"
proof (induction n rid rs rule: hits_from.induct)
  case (2 n rid r rs)
  then show ?case using hits_bounds [of _ "Suc n" rid rs] by (force simp: sorted_wrt_append)
qed simp

section \<open>The commands are allowed\<close>

lemma list_cmds_allowed:
  "tc \<in> set ALL_CHAINS \<Longrightarrow> allowed new_command_whitelist (fw_list_cmd (fst tc) (snd tc)) ''linux''"
proof -
  have "list_all (\<lambda>tc. allowed new_command_whitelist (fw_list_cmd (fst tc) (snd tc)) ''linux'') ALL_CHAINS"
    by code_simp
  then show "tc \<in> set ALL_CHAINS \<Longrightarrow> ?thesis" by (auto simp: list_all_iff)
qed

lemma delete_cmds_allowed:
  assumes "tc \<in> set ALL_CHAINS"
  shows "allowed new_command_whitelist (delete_cmd (fst tc) (snd tc) n) ''linux''"
proof -
  obtain table chain where tc: "tc = (table, chain)" by (cases tc)
  have t: "table \<in> {''iptables'', ''ip6tables''}" and c: "chain \<in> {''INPUT'', ''OUTPUT''}"
    using assms by (auto simp: tc ALL_CHAINS_def)
  let ?d = "delete_cmd table chain n"
  let ?r = "rule (if table = ''iptables'' then ''LX-002'' else ''LX-011'') (delete_line_pat table)"
  have digits: "list_all is_digit (dec_nat n)" "dec_nat n \<noteq> []" by (rule dec_nat_digits, rule dec_nat_nonempty)
  obtain u where i: "?d = CHR ''i'' # u" using t by (auto simp: delete_cmd_def)
  have last_digit: "is_digit (last (dec_nat n))" using digits last_in_set [of "dec_nat n"] by (auto simp: list_all_iff)
  have "allowed new_command_whitelist ?d ''linux''"
  proof (rule table_cmd_allowed [OF i])
    show "\<not> is_space (last ?d)" using last_digit digits digit_no_break by (simp add: delete_cmd_def)
    have "list_all drop_char table" "list_all drop_char chain" "list_all drop_char (dec_nat n)"
      using t c digits by (auto simp: drop_char_def list_all_iff rid_char_def)
    then show "list_all drop_char ?d" by (simp add: delete_cmd_def drop_char_def rid_char_def)
    have "pair_free CHR ''n'' CHR ''c'' (dec_nat n)"
      using digits by (intro pair_free_absent) (auto simp: list_all_iff is_digit_def)
    then show "pair_free CHR ''n'' CHR ''c'' ?d"
      using t c by (auto simp: delete_cmd_def pair_free_append pair_free_Cons)
    show "?r \<in> set LINUX_RULES" using t by (auto simp: LINUX_RULES_def)
    have chain: "in_lang chain_pat chain"
      unfolding chain_pat_def using c by (intro lang_alts [of "lit chain"]) auto
    have sudo: "in_lang sudo_pat []" unfolding sudo_pat_def by (rule lang_opt_None)
    have "in_lang (delete_line_pat table) (concat [[], table, '' '', ''-D'', '' '', chain, '' '', dec_nat n])"
      unfolding delete_line_pat_def
      by (rule lang_seqs)
        (simp only: list.rel_inject lang_lit blank_lang chain sudo lang_plus_all [OF digits(2,1)] simp_thms)
    then show "in_lang (pattern ?r) ?d" by (simp add: rule_def delete_cmd_def)
  qed
  then show ?thesis by (simp add: tc)
qed

section \<open>Rolling back on such a host\<close>

text \<open>An adapter that is connected with the program's own whitelist.\<close>

definition ready :: "bool \<Rightarrow> 'w firewall \<Rightarrow> bool" where
  "ready sudo fw \<longleftrightarrow> client_up fw \<and> fw_commands fw = new_command_whitelist \<and> use_sudo fw = sudo"

lemma ready_remote [simp]: "ready sudo (fw\<lparr>remote := w\<rparr>) = ready sudo fw"
  by (simp add: ready_def)

definition purge :: "string \<Rightarrow> (string \<times> string) list \<Rightarrow> chains \<Rightarrow> chains" where
  "purge rid tcs v = (\<lambda>tc. if tc \<in> set tcs then filter (\<lambda>r. \<not> contains rid r) (v tc) else v tc)"

definition hit_count :: "string \<Rightarrow> (string \<times> string) list \<Rightarrow> chains \<Rightarrow> nat" where
  "hit_count rid tcs v = sum_list (List.map (\<lambda>tc. length (filter (contains rid) (v tc))) tcs)"

context iptables_host
begin

lemma exec_list:
  assumes "ready sudo fw" and "tc \<in> set ALL_CHAINS"
  shows "fw_exec ssh (fw_list_cmd (fst tc) (snd tc)) False fw =
    (Inr (listing (snd tc) (view (remote fw) tc)), fw)"
proof -
  have "fw_exec ssh (fw_list_cmd (fst tc) (snd tc)) False fw =
      (Inr (listing (snd tc) (view (remote fw) tc)), fw\<lparr>remote := remote fw\<rparr>)"
    by (rule fw_exec_allowed [where err = "[]"])
      (use assms list_cmds_allowed list_chain in \<open>auto simp: ready_def\<close>)
  then show ?thesis by simp
qed

lemma exec_delete:
  assumes "ready sudo fw" and "tc \<in> set ALL_CHAINS" and "1 \<le> n" and "n \<le> length (view (remote fw) tc)"
  shows "\<exists>w'. fw_exec ssh (delete_cmd (fst tc) (snd tc) n) False fw = (Inr [], fw\<lparr>remote := w'\<rparr>) \<and>
    view w' = (view (remote fw))(tc := delete_nth n (view (remote fw) tc))"
proof -
  obtain w' where w': "ssh (add_sudo sudo (delete_cmd (fst tc) (snd tc) n)) (remote fw) = (SshDone 0 [] [], w')"
    "view w' = (view (remote fw))(tc := delete_nth n (view (remote fw) tc))"
    using delete_rule [OF assms(2-4)] by blast
  moreover have "fw_exec ssh (delete_cmd (fst tc) (snd tc) n) False fw = (Inr [], fw\<lparr>remote := w'\<rparr>)"
    by (rule fw_exec_allowed [where err = "[]"])
      (use assms delete_cmds_allowed w' in \<open>auto simp: ready_def\<close>)
  ultimately show ?thesis by blast
qed

lemma delete_lines_host:
  assumes "ready sudo fw" and "tc \<in> set ALL_CHAINS" and "sorted_wrt (>) ns"
    and "\<forall>n \<in> set ns. 1 \<le> n \<and> n \<le> length (view (remote fw) tc)"
  shows "\<exists>w'. delete_lines ssh (fst tc) (snd tc) ns d fw = (d + length ns, fw\<lparr>remote := w'\<rparr>) \<and>
    view w' = (view (remote fw))(tc := fold delete_nth ns (view (remote fw) tc))"
  using assms(1,3,4)
proof (induction ns arbitrary: d fw)
  case Nil
  show ?case by (rule exI [of _ "remote fw"]) simp
next
  case (Cons n ns)
  obtain w1 where e: "fw_exec ssh (delete_cmd (fst tc) (snd tc) n) False fw = (Inr [], fw\<lparr>remote := w1\<rparr>)"
    and v: "view w1 = (view (remote fw))(tc := delete_nth n (view (remote fw) tc))"
    using exec_delete [OF Cons.prems(1) assms(2), of n] Cons.prems(3) by auto
  have "length (delete_nth n (view (remote fw) tc)) = length (view (remote fw) tc) - 1"
    using Cons.prems(3) by (auto simp: delete_nth_def)
  then have "\<forall>m \<in> set ns. 1 \<le> m \<and> m \<le> length (view (remote (fw\<lparr>remote := w1\<rparr>)) tc)"
    using Cons.prems(2,3) by (fastforce simp: v)
  moreover have "ready sudo (fw\<lparr>remote := w1\<rparr>)" and "sorted_wrt (>) ns" using Cons.prems by simp_all
  ultimately have "\<exists>w'. delete_lines ssh (fst tc) (snd tc) ns (Suc d) (fw\<lparr>remote := w1\<rparr>) =
      (Suc d + length ns, (fw\<lparr>remote := w1\<rparr>)\<lparr>remote := w'\<rparr>) \<and>
      view w' = (view (remote (fw\<lparr>remote := w1\<rparr>)))(tc := fold delete_nth ns (view (remote (fw\<lparr>remote := w1\<rparr>)) tc))"
    using Cons.IH [of "fw\<lparr>remote := w1\<rparr>" "Suc d"] by blast
  then show ?case by (auto simp: e v fun_eq_iff)
qed

lemma chain_host:
  assumes "ready sudo fw" and "tc \<in> set ALL_CHAINS" and "lettered rid"
  shows "\<exists>w'. delete_lines ssh (fst tc) (snd tc) (matching_lines rid (listing (snd tc) (view (remote fw) tc))) d fw =
      (d + length (filter (contains rid) (view (remote fw) tc)), fw\<lparr>remote := w'\<rparr>) \<and>
    view w' = purge rid [tc] (view (remote fw))"
proof -
  let ?rs = "view (remote fw) tc"
  have chain: "one_line (snd tc)"
    using assms(2) by (auto simp: ALL_CHAINS_def one_line_def line_break_def Let_def)
  have lines: "matching_lines rid (listing (snd tc) ?rs) = rev (hits_from 1 rid ?rs)"
    by (rule matching_lines_listing) (use assms(3) chain view_lines in \<open>auto simp: list_all_iff\<close>)
  have "\<forall>n \<in> set (rev (hits_from 1 rid ?rs)). 1 \<le> n \<and> n \<le> length ?rs"
    using hits_bounds [of _ 1 rid ?rs] by fastforce
  from delete_lines_host [OF assms(1,2) hits_descending this, of d] show ?thesis
    unfolding lines delete_all_hits length_rev length_hits
    by (auto simp: purge_def fun_eq_iff)
qed

lemma rollback_chains_host:
  assumes "ready sudo fw" and "set tcs \<subseteq> set ALL_CHAINS" and "distinct tcs" and "lettered rid"
  shows "\<exists>w'. rollback_chains ssh rid tcs d fw = (d + hit_count rid tcs (view (remote fw)), fw\<lparr>remote := w'\<rparr>) \<and>
    view w' = purge rid tcs (view (remote fw))"
  using assms(1-3)
proof (induction tcs arbitrary: d fw)
  case Nil
  show ?case by (rule exI [of _ "remote fw"]) (simp add: purge_def hit_count_def)
next
  case (Cons tc tcs)
  have tc: "tc \<in> set ALL_CHAINS" using Cons.prems(2) by simp
  let ?n = "length (filter (contains rid) (view (remote fw) tc))"
  obtain w1 where e: "delete_lines ssh (fst tc) (snd tc)
        (matching_lines rid (listing (snd tc) (view (remote fw) tc))) d fw = (d + ?n, fw\<lparr>remote := w1\<rparr>)"
    and v: "view w1 = purge rid [tc] (view (remote fw))"
    using chain_host [OF Cons.prems(1) tc assms(4)] by blast
  have "ready sudo (fw\<lparr>remote := w1\<rparr>)" and "set tcs \<subseteq> set ALL_CHAINS" and "distinct tcs"
    using Cons.prems by simp_all
  from Cons.IH [OF this, of "d + ?n"] obtain w' where
    "rollback_chains ssh rid tcs (d + ?n) (fw\<lparr>remote := w1\<rparr>) =
       (d + ?n + hit_count rid tcs (view w1), fw\<lparr>remote := w'\<rparr>)"
    "view w' = purge rid tcs (view w1)"
    by auto
  moreover have "hit_count rid tcs (view w1) = hit_count rid tcs (view (remote fw))"
    unfolding hit_count_def v purge_def using Cons.prems(3) by (intro arg_cong [where f = sum_list] map_cong) auto
  moreover have "purge rid tcs (view w1) = purge rid (tc # tcs) (view (remote fw))"
    unfolding v by (auto simp: purge_def fun_eq_iff)
  moreover have "rollback_chains ssh rid (tc # tcs) d fw = rollback_chains ssh rid tcs (d + ?n) (fw\<lparr>remote := w1\<rparr>)"
    using exec_list [OF Cons.prems(1) tc] e by (cases tc) simp
  ultimately show ?case by (auto simp: hit_count_def add.assoc)
qed

lemma all_chains_distinct: "distinct ALL_CHAINS"
  by (simp add: ALL_CHAINS_def)

lemma rollback_host:
  assumes "ready sudo fw" and "lettered rid"
  shows "\<exists>w'. view w' = purge rid ALL_CHAINS (view (remote fw)) \<and>
    fst (fw_rollback ssh rid fw) =
      \<lparr>rb_success = True, rb_deleted = hit_count rid ALL_CHAINS (view (remote fw)),
       rb_idempotent = (hit_count rid ALL_CHAINS (view (remote fw)) = 0)\<rparr> \<and>
    remote (snd (fw_rollback ssh rid fw)) = w'"
  using rollback_chains_host [OF assms(1) subset_refl all_chains_distinct assms(2), of 0]
  by (auto simp: fw_rollback_def)

end


section \<open>An in-memory host\<close>

definition clean_view :: "chains \<Rightarrow> chains" where
  "clean_view w tc = List.map (filter (\<lambda>c. \<not> line_break c)) (w tc)"

definition cmd_prefix :: "bool \<Rightarrow> string \<Rightarrow> string \<times> string \<Rightarrow> string" where
  "cmd_prefix sudo flag tc = add_sudo sudo (fst tc @ flag @ snd tc @ '' '')"

definition mem_ssh :: "bool \<Rightarrow> chains ssh" where
  "mem_ssh sudo cmd w =
     (case find (\<lambda>tc. cmd = add_sudo sudo (fw_list_cmd (fst tc) (snd tc))) ALL_CHAINS of
        Some tc \<Rightarrow> (SshDone 0 (listing (snd tc) (clean_view w tc)) [], w)
      | None \<Rightarrow>
          (case find (\<lambda>tc. starts_with (cmd_prefix sudo '' -D '' tc) cmd) ALL_CHAINS of
             Some tc \<Rightarrow> (SshDone 0 [] [],
               w(tc := delete_nth (nat (read_dec (drop (length (cmd_prefix sudo '' -D '' tc)) cmd))) (w tc)))
           | None \<Rightarrow>
               (case find (\<lambda>tc. starts_with (cmd_prefix sudo '' -I '' tc) cmd) ALL_CHAINS of
                  Some tc \<Rightarrow> (SshDone 0 [] [], w(tc := drop (length (cmd_prefix sudo '' -I '' tc)) cmd # w tc))
                | None \<Rightarrow> (SshDone 127 [] ''not found'', w))))"

lemma clean_delete: "clean_view (w(tc := delete_nth n (w tc))) = (clean_view w)(tc := delete_nth n (clean_view w tc))"
  by (auto simp: fun_eq_iff clean_view_def delete_nth_def take_map drop_map)

lemma clean_insert: "one_line r \<Longrightarrow> clean_view (w(tc := r # w tc)) = (clean_view w)(tc := r # clean_view w tc)"
  by (auto simp: fun_eq_iff clean_view_def one_line_def list_all_iff filter_id_conv)

lemma chain_cases:
  assumes "tc \<in> set ALL_CHAINS"
  obtains "tc = (''iptables'', ''INPUT'')" | "tc = (''iptables'', ''OUTPUT'')"
    | "tc = (''ip6tables'', ''INPUT'')" | "tc = (''ip6tables'', ''OUTPUT'')"
  using assms by (auto simp: ALL_CHAINS_def)

lemmas chain_texts = fw_list_cmd_def cmd_prefix_def add_sudo_def ALL_CHAINS_def

lemma mem_list:
  "tc \<in> set ALL_CHAINS \<Longrightarrow>
   find (\<lambda>x. add_sudo sudo (fw_list_cmd (fst tc) (snd tc)) = add_sudo sudo (fw_list_cmd (fst x) (snd x))) ALL_CHAINS
     = Some tc"
  by (erule chain_cases; cases sudo; simp add: chain_texts)

lemma mem_edit:
  assumes "tc \<in> set ALL_CHAINS" and "flag = '' -D '' \<or> flag = '' -I ''"
  shows "find (\<lambda>x. cmd_prefix sudo flag tc @ s = add_sudo sudo (fw_list_cmd (fst x) (snd x))) ALL_CHAINS = None"
    and "find (\<lambda>x. starts_with (cmd_prefix sudo '' -D '' x) (cmd_prefix sudo flag tc @ s)) ALL_CHAINS =
      (if flag = '' -D '' then Some tc else None)"
    and "find (\<lambda>x. starts_with (cmd_prefix sudo '' -I '' x) (cmd_prefix sudo flag tc @ s)) ALL_CHAINS =
      (if flag = '' -I '' then Some tc else None)"
proof -
  show "find (\<lambda>x. cmd_prefix sudo flag tc @ s = add_sudo sudo (fw_list_cmd (fst x) (snd x))) ALL_CHAINS = None"
    using assms(2) by (rule disjE; cases rule: chain_cases [OF assms(1)]; cases sudo; simp add: chain_texts)
  show "find (\<lambda>x. starts_with (cmd_prefix sudo '' -D '' x) (cmd_prefix sudo flag tc @ s)) ALL_CHAINS =
      (if flag = '' -D '' then Some tc else None)"
    using assms(2) by (rule disjE; cases rule: chain_cases [OF assms(1)]; cases sudo; simp add: chain_texts)
  show "find (\<lambda>x. starts_with (cmd_prefix sudo '' -I '' x) (cmd_prefix sudo flag tc @ s)) ALL_CHAINS =
      (if flag = '' -I '' then Some tc else None)"
    using assms(2) by (rule disjE; cases rule: chain_cases [OF assms(1)]; cases sudo; simp add: chain_texts)
qed

lemma edit_commands:
  assumes "tc \<in> set ALL_CHAINS"
  shows "add_sudo sudo (delete_cmd (fst tc) (snd tc) n) = cmd_prefix sudo '' -D '' tc @ dec_nat n"
    and "add_sudo sudo (drop_cmd (fst tc) (snd tc) flag ip comment) = cmd_prefix sudo '' -I '' tc @
      flag @ '' '' @ ip @ '' -j DROP -m comment --comment '' @ [CHR 0x27] @ comment @ [CHR 0x27]"
  by (cases rule: chain_cases [OF assms]; cases sudo; simp add: chain_texts delete_cmd_def drop_cmd_def)+

interpretation mem_host: iptables_host "mem_ssh sudo" clean_view sudo
proof
  fix tc w
  assume "tc \<in> set ALL_CHAINS"
  then show "mem_ssh sudo (add_sudo sudo (fw_list_cmd (fst tc) (snd tc))) w =
      (SshDone 0 (listing (snd tc) (clean_view w tc)) [], w)"
    by (simp add: mem_ssh_def mem_list)
next
  fix tc n w
  assume "tc \<in> set ALL_CHAINS"
  then show "\<exists>w'. mem_ssh sudo (add_sudo sudo (delete_cmd (fst tc) (snd tc) n)) w = (SshDone 0 [] [], w') \<and>
      clean_view w' = (clean_view w)(tc := delete_nth n (clean_view w tc))"
    by (simp add: mem_ssh_def edit_commands mem_edit clean_delete read_dec_nat)
next
  fix tc flag ip comment w
  assume tc: "tc \<in> set ALL_CHAINS" and one: "one_line flag" "one_line ip" "one_line comment"
  let ?r = "flag @ '' '' @ ip @ '' -j DROP -m comment --comment '' @ [CHR 0x27] @ comment @ [CHR 0x27]"
  have "contains comment ?r"
    using contains_append [of comment "flag @ '' '' @ ip @ '' -j DROP -m comment --comment '' @ [CHR 0x27]" "[CHR 0x27]"]
    by simp
  moreover have "one_line ?r" using one by (simp add: one_line_def line_break_def Let_def)
  ultimately show "\<exists>w' r. mem_ssh sudo (add_sudo sudo (drop_cmd (fst tc) (snd tc) flag ip comment)) w = (SshDone 0 [] [], w') \<and>
      contains comment r \<and> clean_view w' = (clean_view w)(tc := r # clean_view w tc)"
    using tc by (simp add: mem_ssh_def edit_commands mem_edit clean_insert del: append.simps(2) append_Cons) blast
next
  fix r w tc
  assume "r \<in> set (clean_view w tc)"
  then show "one_line r" by (auto simp: clean_view_def one_line_def list_all_iff)
qed


section \<open>Properties\<close>

text \<open>
  C8. A rollback refines "remove every rule that carries the id": on a host whose \<open>iptables\<close>
  lists, deletes and inserts as documented, every chain of both tables ends up as the rules that do
  not carry the id, in their order, and the answer counts the removed ones.
\<close>

theorem rollback_removes_exactly:
  assumes "iptables_host ssh view (use_sudo fw)" and "client_up fw"
    and "fw_commands fw = new_command_whitelist" and "lettered rid"
  shows "(\<forall>tc \<in> set ALL_CHAINS. view (remote (snd (fw_rollback ssh rid fw))) tc =
      filter (\<lambda>r. \<not> contains rid r) (view (remote fw) tc)) \<and>
    rb_deleted (fst (fw_rollback ssh rid fw)) =
      (\<Sum>tc \<leftarrow> ALL_CHAINS. length (filter (contains rid) (view (remote fw) tc)))"
  using iptables_host.rollback_host [OF assms(1) _ assms(4)] assms(2,3)
  by (auto simp: ready_def purge_def hit_count_def)

definition demo_chains :: chains where
  "demo_chains tc = (if tc = (''iptables'', ''OUTPUT'') then [''DROP EDR-ISO-7'', ''ACCEPT'', ''DROP EDR-ISO-7'']
     else if tc = (''ip6tables'', ''INPUT'') then [''DROP FW-RULE-7'', ''DROP EDR-ISO-7''] else [])"

definition chains_fw :: "chains firewall" where
  "chains_fw = \<lparr>client_up = True, use_sudo = True, active_rules = [],
     fw_commands = new_command_whitelist, fw_assets = initialize [] [], remote = demo_chains\<rparr>"

theorem rollback_removes_exactly_witness:
  "clean_view (remote (snd (fw_rollback (mem_ssh True) ''EDR-ISO-7'' chains_fw))) (''iptables'', ''OUTPUT'') = [''ACCEPT''] \<and>
   rb_deleted (fst (fw_rollback (mem_ssh True) ''EDR-ISO-7'' chains_fw)) = 3"
proof -
  have host: "iptables_host (mem_ssh True) clean_view (use_sudo chains_fw)"
    by (simp add: chains_fw_def mem_host.iptables_host_axioms)
  have rid: "lettered ''EDR-ISO-7''" by code_simp
  have before: "filter (\<lambda>r. \<not> contains ''EDR-ISO-7'' r) (clean_view (remote chains_fw) (''iptables'', ''OUTPUT'')) = [''ACCEPT'']"
    "(\<Sum>tc \<leftarrow> ALL_CHAINS. length (filter (contains ''EDR-ISO-7'') (clean_view (remote chains_fw) tc))) = 3"
    by code_simp+
  have mem: "(''iptables'', ''OUTPUT'') \<in> set ALL_CHAINS" by (simp add: ALL_CHAINS_def)
  have "client_up chains_fw" and "fw_commands chains_fw = new_command_whitelist" by (simp_all add: chains_fw_def)
  from rollback_removes_exactly [OF host this rid] before mem show ?thesis by simp
qed

lemma unscoped_one_line: "unscoped a \<Longrightarrow> one_line (ip_text a)"
proof -
  assume "unscoped a"
  then have "list_all addr_char (ip_text a)"
    using ipv4_text_chars ipv6_text_chars
    by (cases a) (auto simp: unscoped_def list_all_iff addr_char_def)
  moreover have "\<not> line_break c" if "addr_char c" for c
  proof -
    have "46 \<le> (of_char c :: int)"
      using that by (auto simp: addr_char_def hex_colon_def in_range_def is_digit_def)
    moreover have "(of_char c :: int) = int (of_char c)" by (simp only: of_nat_of_char)
    ultimately have "46 \<le> (of_char c :: nat)" by simp
    then show ?thesis by (simp add: line_break_def Let_def)
  qed
  ultimately show ?thesis by (auto simp: one_line_def list_all_iff)
qed

lemma block_rule_id_facts: "lettered (block_rule_id n)" "one_line (block_rule_id n)"
proof -
  show "lettered (block_rule_id n)" by (simp add: block_rule_id_def lettered_def is_digit_def is_space_def)
  show "one_line (block_rule_id n)"
    using dec_nat_one_line [of n] by (simp add: block_rule_id_def one_line_def line_break_def Let_def)
qed

lemma family_chain: "(table_for (family_of_addr a), ''INPUT'') \<in> set ALL_CHAINS"
  by (simp add: table_for_def ALL_CHAINS_def)

text \<open>What a block that was done has done on such a host.\<close>

lemma fw_exec_keeps:
  "client_up (snd (fw_exec ssh cmd skip fw)) = client_up fw"
  "fw_commands (snd (fw_exec ssh cmd skip fw)) = fw_commands fw"
  "use_sudo (snd (fw_exec ssh cmd skip fw)) = use_sudo fw"
  "active_rules (snd (fw_exec ssh cmd skip fw)) = active_rules fw"
  by (auto simp: fw_exec_def Let_def split: prod.splits ssh_out.splits)

lemma fw_exec_ran:
  assumes "fst (fw_exec ssh cmd False fw) = Inr out" and "ssh (add_sudo (use_sudo fw) cmd) (remote fw) = (SshDone 0 o1 [], w')"
  shows "client_up fw \<and> snd (fw_exec ssh cmd False fw) = fw\<lparr>remote := w'\<rparr>"
  using assms by (auto simp: fw_exec_def Let_def split: if_splits)

lemma block_done:
  assumes "iptables_host ssh view (use_sudo fw)" and "ip_address (strip ip) = Some a" and "unscoped a"
    and "fst (fw_block_ip ssh n ip duration fw) = BlockDone rid nip family d"
    and "fw' = snd (fw_block_ip ssh n ip duration fw)"
  shows "rid = block_rule_id n \<and> client_up fw' \<and> fw_commands fw' = fw_commands fw \<and> use_sudo fw' = use_sudo fw \<and>
    (\<exists>r. contains rid r \<and> view (remote fw') = (view (remote fw))
       ((table_for (family_of_addr a), ''INPUT'') := r # view (remote fw) (table_for (family_of_addr a), ''INPUT'')))"
proof -
  let ?tc = "(table_for (family_of_addr a), ''INPUT'')"
  let ?rid = "block_rule_id n"
  let ?cmd = "drop_cmd (fst ?tc) (snd ?tc) ''-s'' (ip_text a) ?rid"
  let ?fw1 = "fw\<lparr>fw_assets := snd (asset_check (PyStr ip) ''block_ip'' (fw_assets fw))\<rparr>"
  have flag: "one_line ''-s''" by (simp add: one_line_def line_break_def Let_def)
  obtain w' r where ins: "ssh (add_sudo (use_sudo fw) ?cmd) (remote fw) = (SshDone 0 [] [], w')"
    "contains ?rid r" "view w' = (view (remote fw))(?tc := r # view (remote fw) ?tc)"
    using iptables_host.insert_rule [OF assms(1) family_chain flag unscoped_one_line [OF assms(3)] block_rule_id_facts(2)]
    by blast
  have norm: "normalize_ip ip = Some (ip_text a, family_of_addr a)" using assms(2) by (simp add: normalize_ip_def)
  obtain out where ran: "fst (fw_exec ssh ?cmd False ?fw1) = Inr out" and rid: "rid = ?rid"
    and fw': "fw' = (snd (fw_exec ssh ?cmd False ?fw1))
        \<lparr>active_rules := AList.update ?rid \<lparr>fr_ip = ip_text a, fr_families = [family_of_addr a],
           fr_applied = [family_of_addr a], fr_missing = [], fr_status = Active\<rparr>
           (active_rules (snd (fw_exec ssh ?cmd False ?fw1)))\<rparr>"
    using assms(4,5) norm
    by (auto simp: fw_block_ip_def Let_def split: prod.splits if_splits sum.splits)
  from fw_exec_ran [OF ran] ins(1) have "client_up fw" and "snd (fw_exec ssh ?cmd False ?fw1) = ?fw1\<lparr>remote := w'\<rparr>"
    by simp_all
  with fw' rid ins(2,3) show ?thesis by auto
qed

text \<open>
  Blocking and rolling back is the identity on the host: after a block that was done, the
  rollback of its rule restores every chain, provided the new id occurred in no rule before.
\<close>

theorem block_then_rollback:
  assumes "iptables_host ssh view (use_sudo fw)" and "fw_commands fw = new_command_whitelist"
    and "ip_address (strip ip) = Some a" and "unscoped a"
    and "fst (fw_block_ip ssh n ip duration fw) = BlockDone rid nip family d"
    and "\<forall>tc \<in> set ALL_CHAINS. \<forall>r \<in> set (view (remote fw) tc). \<not> contains rid r"
  shows "\<forall>tc \<in> set ALL_CHAINS.
    view (remote (snd (fw_rollback ssh rid (snd (fw_block_ip ssh n ip duration fw))))) tc = view (remote fw) tc"
proof
  let ?fw' = "snd (fw_block_ip ssh n ip duration fw)"
  fix tc assume tc: "tc \<in> set ALL_CHAINS"
  from block_done [OF assms(1,3,4,5) refl] obtain r where
    done_: "rid = block_rule_id n" "client_up ?fw'" "fw_commands ?fw' = fw_commands fw" "use_sudo ?fw' = use_sudo fw"
    and r: "contains rid r" "view (remote ?fw') = (view (remote fw))
       ((table_for (family_of_addr a), ''INPUT'') := r # view (remote fw) (table_for (family_of_addr a), ''INPUT''))"
    by blast
  have "ready (use_sudo fw) ?fw'" using done_ assms(2) by (simp add: ready_def)
  moreover have "lettered rid" using done_(1) block_rule_id_facts by simp
  ultimately have "view (remote (snd (fw_rollback ssh rid ?fw'))) = purge rid ALL_CHAINS (view (remote ?fw'))"
    using iptables_host.rollback_host [OF assms(1)] by blast
  moreover have "filter (\<lambda>r. \<not> contains rid r) (view (remote fw) tc') = view (remote fw) tc'" if "tc' \<in> set ALL_CHAINS" for tc'
    using assms(6) that by (simp add: filter_id_conv)
  ultimately show "view (remote (snd (fw_rollback ssh rid ?fw'))) tc = view (remote fw) tc"
    using tc r family_chain [of a] by (simp add: purge_def)
qed

theorem block_then_rollback_witness:
  "clean_view (remote (snd (fw_rollback (mem_ssh True) ''FW-RULE-9''
     (snd (fw_block_ip (mem_ssh True) 9 ''203.0.113.9'' 60 chains_fw))))) (''iptables'', ''INPUT'') = []"
proof -
  have host: "iptables_host (mem_ssh True) clean_view (use_sudo chains_fw)"
    by (simp add: chains_fw_def mem_host.iptables_host_axioms)
  have a: "ip_address (strip ''203.0.113.9'') = Some (IPv4 3405803785)" by code_simp
  have u: "unscoped (IPv4 3405803785)" by (simp add: unscoped_def)
  have cmds: "fw_commands chains_fw = new_command_whitelist" by (simp add: chains_fw_def)
  have done_: "fst (fw_block_ip (mem_ssh True) 9 ''203.0.113.9'' 60 chains_fw) =
      BlockDone ''FW-RULE-9'' ''203.0.113.9'' ''ipv4'' 60" by code_simp
  have "list_all (\<lambda>tc. list_all (\<lambda>r. \<not> contains ''FW-RULE-9'' r) (clean_view (remote chains_fw) tc)) ALL_CHAINS"
    by code_simp
  then have "\<forall>tc \<in> set ALL_CHAINS. \<forall>r \<in> set (clean_view (remote chains_fw) tc). \<not> contains ''FW-RULE-9'' r"
    by (simp add: list_all_iff)
  with host cmds a u done_ have "\<forall>tc \<in> set ALL_CHAINS. clean_view (remote (snd (fw_rollback (mem_ssh True) ''FW-RULE-9''
     (snd (fw_block_ip (mem_ssh True) 9 ''203.0.113.9'' 60 chains_fw))))) tc = clean_view (remote chains_fw) tc"
    using block_then_rollback [of "mem_ssh True" clean_view chains_fw "''203.0.113.9''" "IPv4 3405803785" 9 60
      "''FW-RULE-9''" "''203.0.113.9''" "''ipv4''" 60] by blast
  moreover have "(''iptables'', ''INPUT'') \<in> set ALL_CHAINS" by (simp add: ALL_CHAINS_def)
  moreover have "clean_view (remote chains_fw) (''iptables'', ''INPUT'') = []" by code_simp
  ultimately show ?thesis by simp
qed

end
