(* ===== verification/RedisService.thy ===== *)
theory RedisService
  imports Prelude
begin

text \<open>
  The Redis operations the response engine uses, as a parameter of the components that call
  them: string keys with an expiry, and sorted sets.  The server's state is \<open>'r\<close>; commands that
  look at expiry take the server's clock.  The locale states the documented behaviour those
  components rely on; the store at the end satisfies it, so the laws can hold together.
\<close>

record ('v, 'r) redis =
  r_get :: "time \<Rightarrow> string \<Rightarrow> 'r \<Rightarrow> 'v option"
  r_set :: "time \<Rightarrow> string \<Rightarrow> 'v \<Rightarrow> rat \<Rightarrow> 'r \<Rightarrow> 'r"
  r_delete :: "string \<Rightarrow> 'r \<Rightarrow> 'r"
  r_zadd :: "string \<Rightarrow> string \<Rightarrow> rat \<Rightarrow> 'r \<Rightarrow> 'r"
  r_zrem :: "string \<Rightarrow> string \<Rightarrow> 'r \<Rightarrow> 'r"
  r_zset :: "string \<Rightarrow> 'r \<Rightarrow> (string \<times> rat) list"

text \<open>
  \<open>SET k v EX d\<close> makes the value readable for \<open>d\<close> seconds and no longer; \<open>DEL\<close> removes it;
  sorted-set commands change only their own set and member, and none of them touches a string key.
\<close>

definition redis_laws :: "('v, 'r) redis \<Rightarrow> bool" where
  "redis_laws R \<longleftrightarrow>
     (\<forall>t t' k v d s. r_get R t' k (r_set R t k v d s) =
        (if t \<le> t' \<and> t' < t + d then Some v else None)) \<and>
     (\<forall>t t' k k' v d s. k \<noteq> k' \<longrightarrow> r_get R t' k' (r_set R t k v d s) = r_get R t' k' s) \<and>
     (\<forall>t k k' s. r_get R t k (r_delete R k' s) = (if k = k' then None else r_get R t k s)) \<and>
     (\<forall>t k z m x s. r_get R t k (r_zadd R z m x s) = r_get R t k s) \<and>
     (\<forall>t k z m s. r_get R t k (r_zrem R z m s) = r_get R t k s) \<and>
     (\<forall>z t k v d s. r_zset R z (r_set R t k v d s) = r_zset R z s) \<and>
     (\<forall>z k s. r_zset R z (r_delete R k s) = r_zset R z s) \<and>
     (\<forall>z z' m x s. set (r_zset R z' (r_zadd R z m x s)) =
        (if z = z' then insert (m, x) {e \<in> set (r_zset R z' s). fst e \<noteq> m}
         else set (r_zset R z' s))) \<and>
     (\<forall>z z' m s. set (r_zset R z' (r_zrem R z m s)) =
        (if z = z' then {e \<in> set (r_zset R z' s). fst e \<noteq> m} else set (r_zset R z' s)))"

locale redis_service =
  fixes R :: "('v, 'r) redis"
  assumes laws: "redis_laws R"
begin

lemma get_set: "r_get R t' k (r_set R t k v d s) = (if t \<le> t' \<and> t' < t + d then Some v else None)"
  using laws unfolding redis_laws_def by meson

lemma get_set_other: "k \<noteq> k' \<Longrightarrow> r_get R t' k' (r_set R t k v d s) = r_get R t' k' s"
  using laws unfolding redis_laws_def by meson

lemma get_delete: "r_get R t k (r_delete R k' s) = (if k = k' then None else r_get R t k s)"
  using laws unfolding redis_laws_def by meson

lemma get_zadd: "r_get R t k (r_zadd R z m x s) = r_get R t k s"
  using laws unfolding redis_laws_def by meson

lemma get_zrem: "r_get R t k (r_zrem R z m s) = r_get R t k s"
  using laws unfolding redis_laws_def by meson

lemma zset_set: "r_zset R z (r_set R t k v d s) = r_zset R z s"
  using laws unfolding redis_laws_def by meson

lemma zset_delete: "r_zset R z (r_delete R k s) = r_zset R z s"
  using laws unfolding redis_laws_def by meson

lemma zset_zadd: "set (r_zset R z' (r_zadd R z m x s)) =
    (if z = z' then insert (m, x) {e \<in> set (r_zset R z' s). fst e \<noteq> m} else set (r_zset R z' s))"
  using laws unfolding redis_laws_def by meson

lemma zset_zrem: "set (r_zset R z' (r_zrem R z m s)) =
    (if z = z' then {e \<in> set (r_zset R z' s). fst e \<noteq> m} else set (r_zset R z' s))"
  using laws unfolding redis_laws_def by meson

lemmas zset_laws = zset_set zset_delete zset_zadd zset_zrem
lemmas get_laws = get_set get_set_other get_delete get_zadd get_zrem

end

section \<open>A store that satisfies the laws\<close>

text \<open>Keys with the interval in which they are readable, and sorted sets as association lists.\<close>

record 'v mem_store =
  cells :: "(string \<times> (time \<times> time \<times> 'v)) list"
  zsets :: "(string \<times> (string \<times> rat) list) list"

definition mem_zset :: "string \<Rightarrow> 'v mem_store \<Rightarrow> (string \<times> rat) list" where
  "mem_zset z s = (case map_of (zsets s) z of None \<Rightarrow> [] | Some es \<Rightarrow> es)"

definition mem_get :: "time \<Rightarrow> string \<Rightarrow> 'v mem_store \<Rightarrow> 'v option" where
  "mem_get t k s =
     (case map_of (cells s) k of None \<Rightarrow> None
      | Some (a, b, v) \<Rightarrow> if a \<le> t \<and> t < b then Some v else None)"

definition mem_redis :: "('v, 'v mem_store) redis" where
  "mem_redis =
     \<lparr>r_get = mem_get,
      r_set = (\<lambda>t k v d s. s\<lparr>cells := (k, (t, t + d, v)) # cells s\<rparr>),
      r_delete = (\<lambda>k s. s\<lparr>cells := filter (\<lambda>c. fst c \<noteq> k) (cells s)\<rparr>),
      r_zadd = (\<lambda>z m x s. s\<lparr>zsets := (z, filter (\<lambda>e. fst e \<noteq> m) (mem_zset z s) @ [(m, x)]) # zsets s\<rparr>),
      r_zrem = (\<lambda>z m s. s\<lparr>zsets := (z, filter (\<lambda>e. fst e \<noteq> m) (mem_zset z s)) # zsets s\<rparr>),
      r_zset = mem_zset\<rparr>"

definition empty_store :: "'v mem_store" where
  "empty_store = \<lparr>cells = [], zsets = []\<rparr>"

lemma map_of_filter_key:
  "map_of (filter (\<lambda>c. fst c \<noteq> k') cs) k = (if k = k' then None else map_of cs k)"
  by (induction cs) auto

lemma mem_redis_laws: "redis_laws mem_redis"
  unfolding redis_laws_def mem_redis_def
  by (auto simp: mem_get_def mem_zset_def map_of_filter_key split: option.splits)

interpretation mem: redis_service mem_redis
  by unfold_locales (rule mem_redis_laws)

end
