(* ===== verification/ResponseExecutor.thy ===== *)
theory ResponseExecutor
  imports Actions RedisService
begin

text \<open>
  The response executor (\<open>src/backend/response_engine/response_executor.py\<close>) and the execution
  and rollback entry points of the action registry (\<open>response_registry.py\<close>).  The registry's
  functions are a parameter here, acting on a state \<open>'s\<close>; the theory of the actions supplies
  them.  An action returns a dict, of which the keys the executor reads are kept, or raises.
  Batches run one action after the other: the parallel mode, which nothing calls, is left out,
  and so are durations and log lines.
\<close>

section \<open>The registry's entry points\<close>

record action_out =
  ao_success :: "bool option"
  ao_idempotent :: bool
  ao_status :: string
  ao_mode :: string
  ao_deleted :: nat
  ao_error :: string
  ao_complete :: "bool option"

definition plain_out :: action_out where
  "plain_out = \<lparr>ao_success = None, ao_idempotent = False, ao_status = [], ao_mode = [],
     ao_deleted = 0, ao_error = [], ao_complete = None\<rparr>"

type_synonym 's action_fn = "pydict \<Rightarrow> 's \<Rightarrow> (string + action_out) \<times> 's"

record 's registry =
  exec_fns :: "(string \<times> 's action_fn) list"
  rollback_fns :: "(string \<times> 's action_fn) list"

text \<open>
  What \<open>execute\<close> and \<open>rollback\<close> return: the inner result with a success flag and (for
  \<open>execute\<close>) a token, or a failure with its text.  \<open>None\<close> stands for the \<open>ValueError\<close>
  of an unknown action, and for the \<open>TypeError\<close> of a parameter called \<open>name\<close>.
\<close>

datatype registry_out = Ran bool action_out string | RanFailed string

definition rollback_token_for :: "text_env \<Rightarrow> string \<Rightarrow> pydict \<Rightarrow> time \<Rightarrow> string" where
  "rollback_token_for te name d t =
     ''rb_'' @ name @ ''_'' @
     py_str te (py_get d ''src_ip'' (py_get d ''target'' (PyStr ''unknown''))) @ ''_'' @ dec_int \<lfloor>t\<rfloor>"

definition registry_execute ::
  "text_env \<Rightarrow> 's registry \<Rightarrow> time \<Rightarrow> string \<Rightarrow> pydict \<Rightarrow> 's \<Rightarrow> registry_out option \<times> 's"
where
  "registry_execute te reg t name d s =
     (if has_key d ''name'' then (None, s)
      else (case map_of (exec_fns reg) name of
              None \<Rightarrow> (None, s)
            | Some f \<Rightarrow>
                (case f d s of
                   (Inl e, s') \<Rightarrow> (Some (RanFailed e), s')
                 | (Inr out, s') \<Rightarrow>
                     (Some (Ran (ao_success out \<noteq> Some False) out (rollback_token_for te name d t)), s'))))"

definition registry_rollback :: "'s registry \<Rightarrow> string \<Rightarrow> pydict \<Rightarrow> 's \<Rightarrow> registry_out option \<times> 's" where
  "registry_rollback reg name d s =
     (if has_key d ''name'' then (None, s)
      else (case map_of (rollback_fns reg) name of
              None \<Rightarrow> (Some (RanFailed (''No rollback for action: '' @ name)), s)
            | Some f \<Rightarrow>
                (case f d s of
                   (Inl e, s') \<Rightarrow> (Some (RanFailed e), s')
                 | (Inr out, s') \<Rightarrow> (Some (Ran True out []), s'))))"

section \<open>Preparing the actions\<close>

definition SNAPSHOT_BEFORE :: "string list" where
  "SNAPSHOT_BEFORE = [''isolate_host'', ''kill_process'', ''quarantine_file'']"

definition snapshot_host :: "pydict \<Rightarrow> response_action list \<Rightarrow> pyval" where
  "snapshot_host info as =
     fold (\<lambda>a h. py_or (py_or (py_get (params a) ''host_ip'' PyNone) (py_get (params a) ''src_ip'' PyNone)) h) as
       (py_or (py_or (py_get info ''host_ip'' PyNone) (py_get info ''src_ip'' PyNone)) (PyStr []))"

definition snapshot_pid :: "pydict \<Rightarrow> response_action list \<Rightarrow> pyval" where
  "snapshot_pid info as =
     fold (\<lambda>a pid. if py_get (params a) ''pid'' PyNone \<noteq> PyNone then py_get (params a) ''pid'' PyNone else pid) as
       (py_or (py_get info ''process_id'' PyNone) (py_get info ''pid'' PyNone))"

definition maybe_prepend_snapshot :: "response_action list \<Rightarrow> pydict \<Rightarrow> response_action list" where
  "maybe_prepend_snapshot as info =
     (if list_ex (\<lambda>a. name_of a = ''forensic_snapshot'') as then as
      else if \<not> list_ex (\<lambda>a. name_of a \<in> set SNAPSHOT_BEFORE) as then as
      else if list_ex (\<lambda>a. truthy (py_get (params a) ''skip_snapshot'' PyNone)) as then as
      else (let pid = snapshot_pid info as
            in named_action ''forensic_snapshot''
                 ([(''host_ip'', snapshot_host info as), (''reason'', PyStr ''pre-containment snapshot'')] @
                  (if pid = PyNone \<or> pid = PyStr [] then [] else [(''pid'', pid)])) # as))"

text \<open>\<open>if key not in params and threat_info.get(field): params[key] = threat_info[field]\<close>.\<close>

definition fill_in :: "pydict \<Rightarrow> string \<Rightarrow> string \<Rightarrow> pydict \<Rightarrow> pydict" where
  "fill_in info key field d =
     (if \<not> has_key d key \<and> truthy (py_get info field PyNone)
      then py_set key (py_get info field PyNone) d else d)"

definition inject_target :: "pydict \<Rightarrow> string \<Rightarrow> pydict \<Rightarrow> pydict" where
  "inject_target info name d =
     (if name \<in> {''block_ip'', ''rate_limit'', ''unblock_ip'', ''remove_rate_limit''}
      then fill_in info ''src_ip'' ''src_ip'' d
      else if name \<in> {''isolate_host'', ''restore_host''} then fill_in info ''host_ip'' ''src_ip'' d
      else if name = ''kill_session'' then fill_in info ''session_id'' ''session_id'' d
      else if name \<in> {''kill_process'', ''quarantine_file'', ''clean_persistence'', ''forensic_snapshot''} then
        (let d1 = (if has_key d ''host_ip'' then d
                   else py_set ''host_ip'' (py_or (py_or (py_get info ''host_ip'' PyNone)
                          (py_get info ''src_ip'' PyNone)) (PyStr [])) d);
             d2 = (if name = ''kill_process''
                   then fill_in info ''sha256'' ''image_hash'' (fill_in info ''pid'' ''process_id'' d1) else d1)
         in if name = ''quarantine_file'' then fill_in info ''path'' ''file_path'' d2 else d2)
      else if name = ''disable_account'' then fill_in info ''account'' ''user_name'' d
      else if name = ''dns_sinkhole'' then fill_in info ''domain'' ''domain'' d
      else if name = ''recall_email'' then
        (let i = py_or (py_get info ''internet_message_id'' PyNone) (py_get info ''message_id'' PyNone)
         in if \<not> has_key d ''internet_message_id'' \<and> truthy i then py_set ''internet_message_id'' i d else d)
      else d)"

text \<open>\<open>f"{v:.2f}"\<close>, which raises on anything that is no number.\<close>

fun two_digits :: "text_env \<Rightarrow> pyval \<Rightarrow> string option" where
  "two_digits te (PyInt n) = Some (fixed2 te (PyInt n))"
| "two_digits te (PyFloat x) = Some (fixed2 te (PyFloat x))"
| "two_digits te (PyBool b) = Some (fixed2 te (PyBool b))"
| "two_digits te PyNone = None"
| "two_digits te (PyStr s) = None"
| "two_digits te (PyStrs xs) = None"

text \<open>
  The parameters an action is called with, from its own and the threat context; \<open>None\<close> when
  the confidence cannot be formatted, which raises outside the handler's \<open>try\<close>.  The
  generated reason is in Chinese; the model has the same fields in English.
\<close>

definition inject_params :: "text_env \<Rightarrow> pydict \<Rightarrow> string \<Rightarrow> pydict \<Rightarrow> pydict option" where
  "inject_params te info name d =
     (if info = [] then Some d
      else (let d1 = inject_target info name d in
            if has_key d1 ''reason'' then Some d1
            else map_option (\<lambda>conf. py_set ''reason''
                   (PyStr (''threat='' @ py_str te (py_get info ''threat_type'' (PyStr ''?'')) @
                           '' confidence='' @ conf)) d1)
                   (two_digits te (py_get info ''confidence'' (PyInt 0)))))"

section \<open>Executing a batch\<close>

record action_result =
  ar_name :: string
  ar_success :: bool
  ar_out :: "action_out option"
  ar_error :: string
  ar_token :: string
  ar_idempotent :: bool

definition failed_result :: "string \<Rightarrow> string \<Rightarrow> action_result" where
  "failed_result name e = \<lparr>ar_name = name, ar_success = False, ar_out = None, ar_error = e,
     ar_token = [], ar_idempotent = False\<rparr>"

text \<open>
  \<open>_execute_one\<close>.  The flag \<open>idempotent\<close> is looked up in the registry's dict, which never
  has it.  The text of a raised exception is its kind.
\<close>

definition execute_one ::
  "text_env \<Rightarrow> 's registry \<Rightarrow> time \<Rightarrow> pydict \<Rightarrow> response_action \<Rightarrow> 's \<Rightarrow> action_result option \<times> 's"
where
  "execute_one te reg t info a s =
     (case inject_params te info (name_of a) (params a) of
        None \<Rightarrow> (None, s)
      | Some d \<Rightarrow>
          (case registry_execute te reg t (name_of a) d s of
             (None, s') \<Rightarrow> (Some (failed_result (name_of a) ''unknown action''), s')
           | (Some (Ran ok out tok), s') \<Rightarrow>
               (Some \<lparr>ar_name = name_of a, ar_success = ok, ar_out = Some out, ar_error = [],
                      ar_token = tok, ar_idempotent = False\<rparr>, s')
           | (Some (RanFailed e), s') \<Rightarrow>
               (Some \<lparr>ar_name = name_of a, ar_success = False,
                      ar_out = Some (plain_out\<lparr>ao_success := Some False, ao_error := e\<rparr>), ar_error = [],
                      ar_token = [], ar_idempotent = False\<rparr>, s')))"

text \<open>\<open>clock i\<close> is the time of the \<open>i\<close>-th action.\<close>

fun run_actions ::
  "text_env \<Rightarrow> 's registry \<Rightarrow> (nat \<Rightarrow> time) \<Rightarrow> nat \<Rightarrow> pydict \<Rightarrow> response_action list \<Rightarrow> 's \<Rightarrow>
   action_result list option \<times> 's"
where
  "run_actions te reg clock i info [] s = (Some [], s)"
| "run_actions te reg clock i info (a # as) s =
     (case execute_one te reg (clock i) info a s of
        (None, s') \<Rightarrow> (None, s')
      | (Some r, s') \<Rightarrow>
          (case run_actions te reg clock (Suc i) info as s' of
             (rs, s'') \<Rightarrow> (map_option (Cons r) rs, s'')))"

record batch_result =
  br_total :: nat
  br_succeeded :: nat
  br_failed :: nat
  br_results :: "action_result list"
  br_token :: string
  br_error :: string

definition count_success :: "action_result list \<Rightarrow> nat" where
  "count_success rs = length (filter ar_success rs)"

definition batch_of :: "string \<Rightarrow> action_result list \<Rightarrow> batch_result" where
  "batch_of token rs =
     \<lparr>br_total = length rs, br_succeeded = count_success rs, br_failed = length rs - count_success rs,
      br_results = rs, br_token = token, br_error = []\<rparr>"

definition empty_batch :: batch_result where
  "empty_batch = batch_of [] []"

section \<open>The rollback store\<close>

record action_record =
  rec_action :: string
  rec_success :: bool
  rec_token :: string
  rec_params :: pydict

datatype rollback_value = Records "action_record list" | Done

record 'r rollback_store =
  st_records :: "(string \<times> action_record list) list"
  st_rolled :: "string list"
  st_redis :: "(rollback_value, 'r) redis option"
  st_server :: 'r

definition REDIS_TTL_SEC :: rat where "REDIS_TTL_SEC = 7 * 24 * 3600"

definition records_key :: "string \<Rightarrow> string" where "records_key token = ''rollback:'' @ token"
definition rolled_key :: "string \<Rightarrow> string" where "rolled_key token = ''rollback:done:'' @ token"

definition store_record :: "time \<Rightarrow> string \<Rightarrow> action_record list \<Rightarrow> 'r rollback_store \<Rightarrow> 'r rollback_store" where
  "store_record t token rs st =
     st\<lparr>st_records := AList.update token rs (st_records st),
        st_server := (case st_redis st of None \<Rightarrow> st_server st
          | Some R \<Rightarrow> r_set R t (records_key token) (Records rs) REDIS_TTL_SEC (st_server st))\<rparr>"

definition store_get ::
  "time \<Rightarrow> string \<Rightarrow> 'r rollback_store \<Rightarrow> action_record list option \<times> 'r rollback_store"
where
  "store_get t token st =
     (case map_of (st_records st) token of
        Some (r # rs) \<Rightarrow> (Some (r # rs), st)
      | _ \<Rightarrow>
          (case st_redis st of
             None \<Rightarrow> (None, st)
           | Some R \<Rightarrow>
               (case r_get R t (records_key token) (st_server st) of
                  Some (Records rs) \<Rightarrow> (Some rs, st\<lparr>st_records := AList.update token rs (st_records st)\<rparr>)
                | _ \<Rightarrow> (None, st))))"

definition store_remove :: "string \<Rightarrow> 'r rollback_store \<Rightarrow> 'r rollback_store" where
  "store_remove token st =
     st\<lparr>st_records := AList.delete token (st_records st),
        st_server := (case st_redis st of None \<Rightarrow> st_server st
          | Some R \<Rightarrow> r_delete R (records_key token) (st_server st))\<rparr>"

definition mark_rolled :: "time \<Rightarrow> string \<Rightarrow> 'r rollback_store \<Rightarrow> 'r rollback_store" where
  "mark_rolled t token st =
     st\<lparr>st_rolled := List.insert token (st_rolled st),
        st_server := (case st_redis st of None \<Rightarrow> st_server st
          | Some R \<Rightarrow> r_set R t (rolled_key token) Done REDIS_TTL_SEC (st_server st))\<rparr>"

definition is_rolled :: "time \<Rightarrow> string \<Rightarrow> 'r rollback_store \<Rightarrow> bool \<times> 'r rollback_store" where
  "is_rolled t token st =
     (if token \<in> set (st_rolled st) then (True, st)
      else (case st_redis st of
              None \<Rightarrow> (False, st)
            | Some R \<Rightarrow>
                if r_get R t (rolled_key token) (st_server st) \<noteq> None
                then (True, st\<lparr>st_rolled := List.insert token (st_rolled st)\<rparr>)
                else (False, st)))"

text \<open>
  \<open>execute_actions\<close>: \<open>None\<close> when an action's injection raises; the batch is then not
  recorded.  \<open>token\<close> is the random batch token, \<open>t\<close> the time of the record.  The parameters
  recorded are the action's own.
\<close>

definition records_of :: "response_action list \<Rightarrow> action_result list \<Rightarrow> action_record list" where
  "records_of as rs = List.map (\<lambda>(a, r).
     \<lparr>rec_action = ar_name r, rec_success = ar_success r, rec_token = ar_token r, rec_params = params a\<rparr>)
     (zip as rs)"

definition execute_actions ::
  "text_env \<Rightarrow> 's registry \<Rightarrow> (nat \<Rightarrow> time) \<Rightarrow> time \<Rightarrow> string \<Rightarrow> response_action list \<Rightarrow> pydict \<Rightarrow>
   's \<times> 'r rollback_store \<Rightarrow> batch_result option \<times> ('s \<times> 'r rollback_store)"
where
  "execute_actions te reg clock t token as info ss =
     (if as = [] then (Some empty_batch, ss)
      else (let as' = maybe_prepend_snapshot as info in
            case run_actions te reg clock 0 info as' (fst ss) of
              (None, s') \<Rightarrow> (None, (s', snd ss))
            | (Some rs, s') \<Rightarrow>
                (Some (batch_of token rs), (s', store_record t token (records_of as' rs) (snd ss)))))"

section \<open>Rolling a batch back\<close>

definition undo_result :: "string \<Rightarrow> registry_out option \<Rightarrow> action_result" where
  "undo_result name r =
     (case r of
        None \<Rightarrow> failed_result (''rollback_'' @ name) ''unknown action''
      | Some (RanFailed e) \<Rightarrow>
          (failed_result (''rollback_'' @ name) [])
            \<lparr>ar_out := Some (plain_out\<lparr>ao_success := Some False, ao_error := e\<rparr>)\<rparr>
      | Some (Ran ok out tok) \<Rightarrow>
          \<lparr>ar_name = ''rollback_'' @ name,
           ar_success = (ok \<or> ao_status out = ''not_found'' \<or> ao_idempotent out),
           ar_out = Some out, ar_error = [], ar_token = [],
           ar_idempotent = (ao_idempotent out \<or> ao_status out = ''not_found'')\<rparr>)"

fun undo_records :: "'s registry \<Rightarrow> action_record list \<Rightarrow> 's \<Rightarrow> action_result list \<times> 's" where
  "undo_records reg [] s = ([], s)"
| "undo_records reg (r # rs) s =
     (case registry_rollback reg (rec_action r) (rec_params r) s of
        (out, s') \<Rightarrow>
          (case undo_records reg rs s' of
             (outs, s'') \<Rightarrow> (undo_result (rec_action r) out # outs, s'')))"

definition replayed_result :: "action_record \<Rightarrow> action_result" where
  "replayed_result r =
     \<lparr>ar_name = ''rollback_'' @ rec_action r, ar_success = True,
      ar_out = Some (plain_out\<lparr>ao_idempotent := True\<rparr>), ar_error = [], ar_token = [], ar_idempotent = True\<rparr>"

text \<open>\<open>t1\<close>, \<open>t2\<close> and \<open>t3\<close> are the times of the three Redis calls.\<close>

definition rollback_batch ::
  "'s registry \<Rightarrow> time \<Rightarrow> time \<Rightarrow> time \<Rightarrow> string \<Rightarrow> 's \<times> 'r rollback_store \<Rightarrow>
   batch_result \<times> ('s \<times> 'r rollback_store)"
where
  "rollback_batch reg t1 t2 t3 token ss =
     (case store_get t1 token (snd ss) of
        (None, st) \<Rightarrow> (empty_batch\<lparr>br_error := ''Rollback token not found: '' @ token\<rparr>, (fst ss, st))
      | (Some [], st) \<Rightarrow> (empty_batch\<lparr>br_error := ''Rollback token not found: '' @ token\<rparr>, (fst ss, st))
      | (Some rs, st) \<Rightarrow>
          (case is_rolled t2 token st of
             (True, st') \<Rightarrow> (batch_of token (List.map replayed_result (rev rs)), (fst ss, st'))
           | (False, st') \<Rightarrow>
               (case undo_records reg (rev rs) (fst ss) of
                  (outs, s') \<Rightarrow>
                    (batch_of token outs,
                     (s', if br_failed (batch_of token outs) = 0 then mark_rolled t3 token st' else st')))))"

definition get_rollback_status ::
  "time \<Rightarrow> string \<Rightarrow> 'r rollback_store \<Rightarrow> (string \<times> bool) list option \<times> 'r rollback_store"
where
  "get_rollback_status t token st =
     (case store_get t token st of
        (Some (r # rs), st') \<Rightarrow> (Some (List.map (\<lambda>x. (rec_action x, rec_success x)) (r # rs)), st')
      | (x, st') \<Rightarrow> (None, st'))"


section \<open>Lemmas\<close>

lemma execute_one_name: "fst (execute_one te reg t info a s) = Some r \<Longrightarrow> ar_name r = name_of a"
  by (auto simp: execute_one_def failed_result_def split: option.splits prod.splits registry_out.splits)

lemma run_actions_names:
  "fst (run_actions te reg clock i info as s) = Some rs \<Longrightarrow> List.map ar_name rs = List.map name_of as"
proof (induction as arbitrary: i s rs)
  case (Cons a as)
  obtain r s' where one: "execute_one te reg (clock i) info a s = (Some r, s')"
    using Cons.prems by (auto split: option.splits prod.splits)
  with Cons.prems obtain rs' where
    "fst (run_actions te reg clock (Suc i) info as s') = Some rs'" "rs = r # rs'"
    by (auto split: prod.splits)
  with Cons.IH [of "Suc i" s' rs'] execute_one_name [of te reg "clock i" info a s r] one
  show ?case by simp
qed simp

lemma count_success_le: "count_success rs \<le> length rs"
  by (simp add: count_success_def)

lemma undo_Cons:
  "fst (undo_records reg (r # rs) s) = undo_result (rec_action r) (fst (registry_rollback reg (rec_action r) (rec_params r) s))
     # fst (undo_records reg rs (snd (registry_rollback reg (rec_action r) (rec_params r) s)))"
  "snd (undo_records reg (r # rs) s) =
     snd (undo_records reg rs (snd (registry_rollback reg (rec_action r) (rec_params r) s)))"
  by (simp_all add: split_beta)

lemma snd_undo_append:
  "snd (undo_records reg (xs @ ys) s) = snd (undo_records reg ys (snd (undo_records reg xs s)))"
  by (induction xs arbitrary: s) (simp_all add: undo_Cons del: undo_records.simps(2))

lemma undo_length: "length (fst (undo_records reg rs s)) = length rs"
  by (induction rs arbitrary: s) (simp_all add: undo_Cons del: undo_records.simps(2))

lemma no_failure_all_success: "br_failed (batch_of token rs) = 0 \<longleftrightarrow> (\<forall>r \<in> set rs. ar_success r)"
proof -
  have "length rs - length (filter ar_success rs) = 0 \<longleftrightarrow> length (filter ar_success rs) = length rs"
    using length_filter_le [of ar_success rs] by linarith
  also have "\<dots> \<longleftrightarrow> filter ar_success rs = rs"
    by (metis filter_id_conv length_filter_less order_less_irrefl)
  finally show ?thesis by (simp add: batch_of_def count_success_def filter_id_conv)
qed

lemma inject_none [simp]: "inject_params te [] name d = Some d"
  by (simp add: inject_params_def)

text \<open>With no threat context an action runs with its own parameters.\<close>

lemma execute_one_plain:
  "snd (execute_one te reg t [] a s) = snd (registry_execute te reg t (name_of a) (params a) s)"
  "\<exists>r. fst (execute_one te reg t [] a s) = Some r"
  by (auto simp: execute_one_def split: option.splits prod.splits registry_out.splits)

lemma run_actions_plain: "\<exists>rs s'. run_actions te reg clock i [] as s = (Some rs, s') \<and> length rs = length as"
proof (induction as arbitrary: i s)
  case (Cons a as)
  obtain r s' where "execute_one te reg (clock i) [] a s = (Some r, s')"
    using execute_one_plain(2) [of te reg "clock i" a s] by (metis prod.collapse)
  with Cons.IH [of "Suc i" s'] show ?case by (auto split: prod.splits)
qed simp

text \<open>An execution that returns ran the action with the injected parameters.\<close>

lemma execute_one_injected:
  assumes "execute_one te reg t info a s = (Some r, s')"
  obtains d where "inject_params te info (name_of a) (params a) = Some d"
    and "s' = snd (registry_execute te reg t (name_of a) d s)"
  using assms by (auto simp: execute_one_def split: option.splits prod.splits registry_out.splits)

text \<open>
  Undoing the records of a run, last first, step by step: an action was called with the injected
  parameters and is undone with its own, which are all that its record has.
\<close>

definition undone_by_own :: "text_env \<Rightarrow> 's registry \<Rightarrow> pydict \<Rightarrow> response_action \<Rightarrow> bool" where
  "undone_by_own te reg info a \<longleftrightarrow>
     (\<forall>d t s. inject_params te info (name_of a) (params a) = Some d \<longrightarrow>
        snd (registry_rollback reg (name_of a) (params a) (snd (registry_execute te reg t (name_of a) d s))) = s)"

lemma undo_run:
  assumes "\<forall>a \<in> set as. undone_by_own te reg info a"
    and "run_actions te reg clock i info as s = (Some rs, s')"
  shows "snd (undo_records reg (rev (records_of as rs)) s') = s"
  using assms
proof (induction as arbitrary: i s rs)
  case Nil
  then show ?case by (simp add: records_of_def)
next
  case (Cons a as)
  obtain r s1 rs' where one: "execute_one te reg (clock i) info a s = (Some r, s1)"
    and more: "run_actions te reg clock (Suc i) info as s1 = (Some rs', s')" and rs: "rs = r # rs'"
    using Cons.prems(2) by (auto split: option.splits prod.splits)
  have "snd (undo_records reg (rev (records_of as rs')) s') = s1"
    by (rule Cons.IH [OF _ more]) (use Cons.prems(1) in simp)
  moreover have "snd (registry_rollback reg (name_of a) (params a) s1) = s"
    using execute_one_injected [OF one] Cons.prems(1) by (metis undone_by_own_def list.set_intros(1))
  moreover have "ar_name r = name_of a" using execute_one_name [of te reg "clock i" info a s r] one by simp
  ultimately show ?case
    by (simp add: rs records_of_def snd_undo_append split_beta)
qed

lemma records_length: "length rs = length as \<Longrightarrow> length (records_of as rs) = length as"
  by (simp add: records_of_def)

lemma store_get_recorded:
  "rs \<noteq> [] \<Longrightarrow> store_get t' token (store_record t token rs st) = (Some rs, store_record t token rs st)"
  by (cases rs) (simp_all add: store_get_def store_record_def)

lemma rollback_keys_differ: "records_key token \<noteq> rolled_key token"
  by (simp add: records_key_def rolled_key_def)

lemma rolled_after_record:
  assumes "token \<notin> set (st_rolled st)"
    and "\<forall>R. st_redis st = Some R \<longrightarrow> redis_laws R \<and> r_get R t2 (rolled_key token) (st_server st) = None"
  shows "is_rolled t2 token (store_record t token rs st) = (False, store_record t token rs st)"
proof (cases "st_redis st")
  case None
  then show ?thesis using assms(1) by (simp add: is_rolled_def store_record_def)
next
  case (Some R)
  have "r_get R t2 (rolled_key token) (r_set R t (records_key token) (Records rs) REDIS_TTL_SEC (st_server st)) = None"
    using assms(2) Some redis_service.get_set_other [OF redis_service.intro rollback_keys_differ] by metis
  then show ?thesis using assms(1) Some by (simp add: is_rolled_def store_record_def)
qed


section \<open>Properties\<close>

lemma execute_actions_run:
  assumes "execute_actions te reg clock t token as info (s, st) = (Some b, ss')" and "as \<noteq> []"
  obtains rs s' where "run_actions te reg clock 0 info (maybe_prepend_snapshot as info) s = (Some rs, s')"
    and "b = batch_of token rs"
    and "ss' = (s', store_record t token (records_of (maybe_prepend_snapshot as info) rs) st)"
  using assms by (auto simp: execute_actions_def Let_def split: prod.splits option.splits)

lemma prepend_Nil [simp]: "maybe_prepend_snapshot as info = [] \<longleftrightarrow> as = []"
  by (auto simp: maybe_prepend_snapshot_def Let_def)

lemma store_get_keeps:
  assumes "store_get t token st = (Some (r # rs), st')"
  shows "store_get t' token st' = (Some (r # rs), st') \<and> st_rolled st' = st_rolled st"
  using assms by (auto simp: store_get_def split: option.splits list.splits rollback_value.splits)

lemma is_rolled_keeps: "st_records (snd (is_rolled t token st)) = st_records st"
  by (auto simp: is_rolled_def split: option.splits)

lemma store_get_memory:
  "map_of (st_records st) token = Some (r # rs) \<Longrightarrow> store_get t token st = (Some (r # rs), st)"
  by (simp add: store_get_def)

lemma store_get_memory_after:
  "store_get t token st = (Some (r # rs), st') \<Longrightarrow> map_of (st_records st') token = Some (r # rs)"
  by (auto simp: store_get_def split: option.splits list.splits rollback_value.splits)

lemma is_rolled_false: "fst (is_rolled t token st) = False \<Longrightarrow> is_rolled t token st = (False, st)"
  by (auto simp: is_rolled_def split: option.splits if_splits)

text \<open>The cases of a rollback that finds its records.\<close>

lemma rollback_batch_fresh:
  assumes "store_get t1 token st = (Some (r # rs), st')" and "is_rolled t2 token st' = (False, st')"
    and "undo_records reg (rev (r # rs)) s = (outs, s')"
  shows "rollback_batch reg t1 t2 t3 token (s, st) = (batch_of token outs,
    (s', if br_failed (batch_of token outs) = 0 then mark_rolled t3 token st' else st'))"
  using assms by (simp add: rollback_batch_def)

lemma rollback_batch_replay:
  assumes "store_get t1 token st = (Some (r # rs), st')" and "is_rolled t2 token st' = (True, st'')"
  shows "rollback_batch reg t1 t2 t3 token (s, st) =
    (batch_of token (List.map replayed_result (rev (r # rs))), (s, st''))"
  using assms by (simp add: rollback_batch_def)

lemma replay_all_success: "br_failed (batch_of token (List.map replayed_result rs)) = 0"
  unfolding no_failure_all_success by (auto simp: replayed_result_def)

text \<open>
  A batch accounts for every action: one result per action (the forensic snapshot included),
  in order, under the action's name, and the successes and failures add up to the total.
\<close>

theorem batch_accounts_for_every_action:
  assumes "execute_actions te reg clock t token as info (s, st) = (Some b, ss')"
  shows "List.map ar_name (br_results b) = List.map name_of (maybe_prepend_snapshot as info) \<and>
    br_total b = length (maybe_prepend_snapshot as info) \<and>
    br_succeeded b + br_failed b = br_total b \<and> br_succeeded b = length (filter ar_success (br_results b))"
proof (cases "as = []")
  case True
  with assms show ?thesis
    by (auto simp: execute_actions_def empty_batch_def batch_of_def count_success_def maybe_prepend_snapshot_def)
next
  case False
  from execute_actions_run [OF assms False] obtain rs s' where
    run: "run_actions te reg clock 0 info (maybe_prepend_snapshot as info) s = (Some rs, s')"
    and b: "b = batch_of token rs" by blast
  have "List.map ar_name rs = List.map name_of (maybe_prepend_snapshot as info)"
    using run_actions_names [of te reg clock 0 info "maybe_prepend_snapshot as info" s rs] run by simp
  with b count_success_le [of rs] map_eq_imp_length_eq [OF this] show ?thesis
    by (simp add: batch_of_def count_success_def)
qed

definition demo_text :: text_env where
  "demo_text = \<lparr>repr_float = (\<lambda>_. ''f''), fixed2 = (\<lambda>_. ''f''), repr_strs = (\<lambda>_. [])\<rparr>"

text \<open>A registry over the set of blocked addresses, as a list: blocking and unblocking.\<close>

definition demo_block :: "string list action_fn" where
  "demo_block d s = (case py_get d ''src_ip'' PyNone of
     PyStr ip \<Rightarrow> (Inr (plain_out\<lparr>ao_success := Some True\<rparr>), ip # s) | _ \<Rightarrow> (Inl ''src_ip'', s))"

definition demo_unblock :: "string list action_fn" where
  "demo_unblock d s = (case py_get d ''src_ip'' PyNone of
     PyStr ip \<Rightarrow> (Inr (plain_out\<lparr>ao_success := Some (s \<noteq> [])\<rparr>), tl s) | _ \<Rightarrow> (Inl ''src_ip'', s))"

definition demo_registry :: "string list registry" where
  "demo_registry =
     \<lparr>exec_fns = [(''block_ip'', demo_block), (''send_alert'', (\<lambda>d s. (Inr plain_out, s)))],
      rollback_fns = [(''block_ip'', demo_unblock)]\<rparr>"

definition demo_store :: "(rollback_value mem_store) rollback_store" where
  "demo_store = \<lparr>st_records = [], st_rolled = [], st_redis = Some mem_redis, st_server = empty_store\<rparr>"

definition demo_batch :: "response_action list" where
  "demo_batch = [named_action ''block_ip'' [(''src_ip'', PyStr ''1.1.1.1''), (''reason'', PyStr ''x'')],
     named_action ''block_ip'' [(''src_ip'', PyStr ''2.2.2.2''), (''reason'', PyStr ''x'')]]"

theorem batch_accounts_for_every_action_witness:
  "\<exists>b. fst (execute_actions demo_text demo_registry (\<lambda>_. 0) 0 ''b1'' demo_batch [] ([], demo_store)) = Some b
     \<and> br_succeeded b + br_failed b = 2"
proof -
  obtain b ss where run: "execute_actions demo_text demo_registry (\<lambda>_. 0) 0 ''b1'' demo_batch [] ([], demo_store)
      = (Some b, ss)"
    using run_actions_plain [of demo_text demo_registry "\<lambda>_. 0" 0 demo_batch "[]"]
    by (auto simp: execute_actions_def demo_batch_def maybe_prepend_snapshot_def SNAPSHOT_BEFORE_def)
  from batch_accounts_for_every_action [OF run] run show ?thesis
    by (simp add: demo_batch_def maybe_prepend_snapshot_def SNAPSHOT_BEFORE_def)
qed

text \<open>
  C14. Rolling a batch back undoes it, under any threat context: executing a batch and rolling it
  back restores the state, because the actions are undone last first - provided each undo, called
  with the parameters the action has by itself, reverts what the action did with those the context
  filled in. The records keep the former only: for an action that takes its target from the context,
  as the blocks of the policies do, the proviso fails, and so does the rollback
  (\<open>policy_block_cannot_be_rolled_back\<close>).
\<close>

theorem rollback_restores:
  assumes "execute_actions te reg clock t token as info (s, st) = (Some b, ss')" and "as \<noteq> []"
    and "\<forall>a \<in> set (maybe_prepend_snapshot as info). \<forall>d t' s'.
      inject_params te info (name_of a) (params a) = Some d \<longrightarrow>
      snd (registry_rollback reg (name_of a) (params a) (snd (registry_execute te reg t' (name_of a) d s'))) = s'"
    and "token \<notin> set (st_rolled st)"
    and "\<forall>R. st_redis st = Some R \<longrightarrow> redis_laws R \<and> r_get R t2 (rolled_key token) (st_server st) = None"
  shows "fst (snd (rollback_batch reg t1 t2 t3 token ss')) = s"
proof -
  let ?as = "maybe_prepend_snapshot as info"
  obtain rs s' where run: "run_actions te reg clock 0 info ?as s = (Some rs, s')"
    and ss': "ss' = (s', store_record t token (records_of ?as rs) st)"
    using execute_actions_run [OF assms(1,2)] by blast
  have "length rs = length ?as"
    using run_actions_names [of te reg clock 0 info ?as s rs] run by (metis fst_conv length_map)
  from records_length [OF this] assms(2) obtain x xs where xs: "records_of ?as rs = x # xs"
    by (metis length_0_conv neq_Nil_conv prepend_Nil)
  obtain outs s2 where undo: "undo_records reg (rev (x # xs)) s' = (outs, s2)" by (metis prod.collapse)
  have "s2 = s" using undo_run [of ?as te reg info clock 0 s rs s'] run undo xs assms(3) unfolding undone_by_own_def
    by (metis snd_conv)
  moreover have "store_get t1 token (store_record t token (x # xs) st) = (Some (x # xs), store_record t token (x # xs) st)"
    by (rule store_get_recorded) simp
  ultimately show ?thesis
    unfolding ss' xs using rollback_batch_fresh [OF _ rolled_after_record [OF assms(4,5)] undo] by simp
qed

definition demo_threat_context :: pydict where
  "demo_threat_context = [(''src_ip'', PyStr ''3.3.3.3''), (''threat_type'', PyStr ''C2''), (''confidence'', PyInt 1)]"

definition demo_own_targets :: "response_action list" where
  "demo_own_targets = [named_action ''block_ip'' [(''src_ip'', PyStr ''1.1.1.1'')],
     named_action ''block_ip'' [(''src_ip'', PyStr ''2.2.2.2'')]]"

theorem rollback_restores_witness:
  "fst (snd (rollback_batch demo_registry 1 2 3 ''b1''
     (snd (execute_actions demo_text demo_registry (\<lambda>_. 0) 0 ''b1'' demo_own_targets demo_threat_context ([''9.9.9.9''], demo_store)))))
   = [''9.9.9.9'']"
proof -
  let ?x = "execute_actions demo_text demo_registry (\<lambda>_. 0) 0 ''b1'' demo_own_targets demo_threat_context ([''9.9.9.9''], demo_store)"
  have "fst ?x \<noteq> None" by code_simp
  then obtain b where x: "?x = (Some b, snd ?x)" by (metis not_None_eq prod.collapse)
  have injected: "inject_params demo_text demo_threat_context ''block_ip'' [(''src_ip'', PyStr ip)] =
      Some [(''src_ip'', PyStr ip), (''reason'', PyStr ''threat=C2 confidence=f'')]" for ip
    by (simp add: inject_params_def inject_target_def fill_in_def demo_threat_context_def has_key_def py_set_def demo_text_def)
  show ?thesis
  proof (rule rollback_restores [OF x])
    show "\<forall>a \<in> set (maybe_prepend_snapshot demo_own_targets demo_threat_context). \<forall>d t s.
        inject_params demo_text demo_threat_context (name_of a) (params a) = Some d \<longrightarrow>
        snd (registry_rollback demo_registry (name_of a) (params a)
          (snd (registry_execute demo_text demo_registry t (name_of a) d s))) = s"
      using injected
      by (simp add: demo_own_targets_def maybe_prepend_snapshot_def SNAPSHOT_BEFORE_def registry_rollback_def
          registry_execute_def demo_registry_def demo_block_def demo_unblock_def has_key_def)
  qed (simp_all add: demo_store_def demo_own_targets_def mem_redis_laws, simp add: mem_redis_def mem_get_def empty_store_def)
qed

text \<open>
  A rollback without failures is never repeated: a second rollback under the same token, at
  any time and with any registry, leaves the world as it is and reports success.
\<close>

theorem rollback_not_repeated:
  assumes "rollback_batch reg t1 t2 t3 token (s, st) = (b, (s', st'))"
    and "br_total b \<noteq> 0" and "br_failed b = 0"
  shows "fst (snd (rollback_batch reg' u1 u2 u3 token (s2, st'))) = s2 \<and>
    br_failed (fst (rollback_batch reg' u1 u2 u3 token (s2, st'))) = 0"
proof -
  obtain r rs st1 where got: "store_get t1 token st = (Some (r # rs), st1)"
    using assms(1,2) by (auto simp: rollback_batch_def empty_batch_def batch_of_def split: prod.splits option.splits list.splits)
  have mem: "map_of (st_records st1) token = Some (r # rs)" using store_get_memory_after [OF got] .
  have st': "map_of (st_records st') token = Some (r # rs) \<and> token \<in> set (st_rolled st')"
  proof (cases "fst (is_rolled t2 token st1)")
    case True
    then obtain st2 where rolled: "is_rolled t2 token st1 = (True, st2)" by (metis prod.collapse)
    have "st' = st2" using rollback_batch_replay [OF got rolled, of reg t3 s] assms(1) by simp
    with rolled mem show ?thesis by (auto simp: is_rolled_def split: option.splits if_splits)
  next
    case False
    then have rolled: "is_rolled t2 token st1 = (False, st1)" by (simp add: is_rolled_false)
    obtain outs s1 where undo: "undo_records reg (rev (r # rs)) s = (outs, s1)" by (metis prod.collapse)
    have "b = batch_of token outs" and "st' = (if br_failed b = 0 then mark_rolled t3 token st1 else st1)"
      using rollback_batch_fresh [OF got rolled undo, of t3] assms(1) by simp_all
    with assms(3) mem show ?thesis by (simp add: mark_rolled_def)
  qed
  then have "store_get u1 token st' = (Some (r # rs), st')" and "is_rolled u2 token st' = (True, st')"
    by (auto simp: store_get_memory is_rolled_def)
  from rollback_batch_replay [OF this, of reg' u3 s2] show ?thesis
    unfolding prod.sel by (simp only: prod.sel replay_all_success)
qed

theorem rollback_not_repeated_witness:
  "fst (snd (rollback_batch demo_registry 4 5 6 ''b1'' ([''7.7.7.7''],
     snd (snd (rollback_batch demo_registry 1 2 3 ''b1''
       (snd (execute_actions demo_text demo_registry (\<lambda>_. 0) 0 ''b1'' demo_batch [] ([], demo_store)))))))) = [''7.7.7.7'']"
proof -
  let ?x = "rollback_batch demo_registry 1 2 3 ''b1''
    (snd (execute_actions demo_text demo_registry (\<lambda>_. 0) 0 ''b1'' demo_batch [] ([], demo_store)))"
  have "br_total (fst ?x) \<noteq> 0" and "br_failed (fst ?x) = 0" by code_simp+
  then show ?thesis
    using rollback_not_repeated [of demo_registry 1 2 3 "''b1''"
      "fst (snd (execute_actions demo_text demo_registry (\<lambda>_. 0) 0 ''b1'' demo_batch [] ([], demo_store)))"
      "snd (snd (execute_actions demo_text demo_registry (\<lambda>_. 0) 0 ''b1'' demo_batch [] ([], demo_store)))"
      "fst ?x" "fst (snd ?x)" "snd (snd ?x)" demo_registry 4 5 6] by simp
qed


text \<open>
  Records survive a restart: when the memory of the process is lost, the records of a batch
  are still found through Redis for seven days after they were written, and no longer.
\<close>

theorem records_survive_restart:
  assumes "redis_laws R" and "st_redis st = Some R" and "t \<le> t'"
  shows "fst (store_get t' token ((store_record t token rs st)\<lparr>st_records := [], st_rolled := []\<rparr>)) =
    (if t' < t + REDIS_TTL_SEC then Some rs else None)"
proof -
  have "r_get R t' (records_key token) (r_set R t (records_key token) (Records rs) REDIS_TTL_SEC (st_server st)) =
      (if t \<le> t' \<and> t' < t + REDIS_TTL_SEC then Some (Records rs) else None)"
    by (rule redis_service.get_set [OF redis_service.intro [OF assms(1)]])
  with assms(2,3) show ?thesis by (simp add: store_get_def store_record_def)
qed

theorem records_survive_restart_witness:
  "fst (store_get 604799 ''b'' ((store_record 0 ''b'' [] demo_store)\<lparr>st_records := [], st_rolled := []\<rparr>)) = Some []"
  using records_survive_restart [of mem_redis demo_store 0 604799 "''b''" "[]"]
  by (simp add: mem_redis_laws demo_store_def REDIS_TTL_SEC_def)

lemma undo_records_normal:
  assumes "\<forall>r \<in> set rs. \<not> has_key (rec_params r) ''name'' \<and>
      (\<exists>f. map_of (rollback_fns reg) (rec_action r) = Some f \<and> (\<forall>s. \<exists>out s'. f (rec_params r) s = (Inr out, s')))"
  shows "\<forall>r \<in> set (fst (undo_records reg rs s)). ar_success r"
  using assms
proof (induction rs arbitrary: s)
  case (Cons r rs)
  then obtain f out s' where "map_of (rollback_fns reg) (rec_action r) = Some f" and "f (rec_params r) s = (Inr out, s')"
    by (metis list.set_intros(1))
  with Cons show ?case
    by (simp add: undo_Cons registry_rollback_def undo_result_def del: undo_records.simps(2))
qed simp

text \<open>
  A rollback never looks at whether the undo functions succeeded: when each of them returns
  (whatever its success flag says), no failure is counted and the batch is marked as rolled back,
  so that it cannot be retried.
\<close>

theorem rollback_ignores_inner_success:
  assumes "store_get t1 token st = (Some rs, st')" and "rs \<noteq> []" and "\<not> fst (is_rolled t2 token st')"
    and "\<forall>r \<in> set rs. \<not> has_key (rec_params r) ''name'' \<and>
      (\<exists>f. map_of (rollback_fns reg) (rec_action r) = Some f \<and> (\<forall>s. \<exists>out s'. f (rec_params r) s = (Inr out, s')))"
  shows "br_failed (fst (rollback_batch reg t1 t2 t3 token (s, st))) = 0 \<and>
    token \<in> set (st_rolled (snd (snd (rollback_batch reg t1 t2 t3 token (s, st)))))"
proof -
  obtain x xs where rs: "rs = x # xs" using assms(2) by (cases rs) auto
  obtain outs s' where undo: "undo_records reg (rev (x # xs)) s = (outs, s')" by (metis prod.collapse)
  have "\<forall>r \<in> set outs. ar_success r" using undo_records_normal [of "rev rs" reg s] assms(4) undo rs by simp
  then have "br_failed (batch_of token outs) = 0" unfolding no_failure_all_success .
  moreover have "is_rolled t2 token st' = (False, st')" using assms(3) by (simp add: is_rolled_false)
  ultimately show ?thesis
    using rollback_batch_fresh [OF assms(1) [unfolded rs] _ undo, of t2 t3] by (simp add: mark_rolled_def)
qed

definition refusing_registry :: "string list registry" where
  "refusing_registry = \<lparr>exec_fns = [], rollback_fns =
     [(''block_ip'', (\<lambda>d s. (Inr (plain_out\<lparr>ao_success := Some False\<rparr>), s)))]\<rparr>"

definition one_record :: action_record where
  "one_record = \<lparr>rec_action = ''block_ip'', rec_success = True, rec_token = [],
     rec_params = [(''src_ip'', PyStr ''1.1.1.1'')]\<rparr>"

theorem rollback_ignores_inner_success_witness:
  "br_failed (fst (rollback_batch refusing_registry 1 2 3 ''b'' ([], store_record 0 ''b'' [one_record] demo_store))) = 0"
  using rollback_ignores_inner_success [of 1 "''b''" "store_record 0 ''b'' [one_record] demo_store" "[one_record]"
      "store_record 0 ''b'' [one_record] demo_store" 2 refusing_registry 3 "[]"]
    store_get_recorded [of "[one_record]" 1 "''b''" 0 demo_store]
  by (simp add: one_record_def refusing_registry_def has_key_def is_rolled_def store_record_def demo_store_def
      mem_redis_def mem_get_def rolled_key_def records_key_def empty_store_def)

lemma undo_without_function:
  assumes "r \<in> set rs" and "map_of (rollback_fns reg) (rec_action r) = None"
  shows "\<exists>x \<in> set (fst (undo_records reg rs s)). \<not> ar_success x"
  using assms(1)
proof (induction rs arbitrary: s)
  case (Cons x xs)
  have "\<not> ar_success (undo_result (rec_action r) (fst (registry_rollback reg (rec_action r) (rec_params r) s)))" for s
    using assms(2) by (simp add: registry_rollback_def undo_result_def failed_result_def)
  with Cons show ?case by (auto simp: undo_Cons simp del: undo_records.simps(2))
qed simp

text \<open>
  A batch with one action that has no undo function (an alert, for instance) always reports a
  failed rollback and is never marked as rolled back, so that every repetition undoes the other
  actions again.
\<close>

theorem irreversible_action_never_marked:
  assumes "store_get t1 token st = (Some rs, st')" and "\<not> fst (is_rolled t2 token st')"
    and "r \<in> set rs" and "map_of (rollback_fns reg) (rec_action r) = None"
  shows "br_failed (fst (rollback_batch reg t1 t2 t3 token (s, st))) \<noteq> 0 \<and>
    snd (snd (rollback_batch reg t1 t2 t3 token (s, st))) = st'"
proof -
  obtain x xs where rs: "rs = x # xs" using assms(3) by (cases rs) auto
  obtain outs s' where undo: "undo_records reg (rev (x # xs)) s = (outs, s')" by (metis prod.collapse)
  have "\<exists>x \<in> set outs. \<not> ar_success x"
    using undo_without_function [of r "rev rs" reg s] assms(3,4) undo rs by simp
  then have "br_failed (batch_of token outs) \<noteq> 0" unfolding no_failure_all_success by blast
  moreover have "is_rolled t2 token st' = (False, st')" using assms(2) by (simp add: is_rolled_false)
  ultimately show ?thesis
    using rollback_batch_fresh [OF assms(1) [unfolded rs] _ undo, of t2 t3] by simp
qed

theorem irreversible_action_never_marked_witness:
  "br_failed (fst (rollback_batch demo_registry 1 2 3 ''b''
     ([], store_record 0 ''b'' [one_record\<lparr>rec_action := ''send_alert''\<rparr>] demo_store))) \<noteq> 0"
  using irreversible_action_never_marked [of 1 "''b''"
      "store_record 0 ''b'' [one_record\<lparr>rec_action := ''send_alert''\<rparr>] demo_store" "[one_record\<lparr>rec_action := ''send_alert''\<rparr>]"
      "store_record 0 ''b'' [one_record\<lparr>rec_action := ''send_alert''\<rparr>] demo_store" 2
      "one_record\<lparr>rec_action := ''send_alert''\<rparr>" demo_registry 3 "[]"]
    store_get_recorded [of "[one_record\<lparr>rec_action := ''send_alert''\<rparr>]" 1 "''b''" 0 demo_store]
  by (simp add: one_record_def demo_registry_def is_rolled_def store_record_def demo_store_def
      mem_redis_def mem_get_def rolled_key_def records_key_def empty_store_def)

text \<open>A batch of one block leaves one record, with the action's own parameters.\<close>

lemma one_block_recorded:
  assumes "name_of a = ''block_ip''"
    and "execute_actions te reg clock t token [a] info (s, st) = (Some b, (s', st'))"
  shows "\<exists>ok tok. store_get t' token st' =
      (Some [\<lparr>rec_action = ''block_ip'', rec_success = ok, rec_token = tok, rec_params = params a\<rparr>], st')"
    and "run_actions te reg clock 0 info [a] s \<noteq> (None, s')"
    and "st_rolled st' = st_rolled st"
proof -
  have as: "maybe_prepend_snapshot [a] info = [a]"
    using assms(1) by (simp add: maybe_prepend_snapshot_def SNAPSHOT_BEFORE_def)
  from execute_actions_run [OF assms(2)] obtain rs where
    run: "run_actions te reg clock 0 info [a] s = (Some rs, s')"
    and st': "st' = store_record t token (records_of [a] rs) st" unfolding as by auto
  have nm: "List.map ar_name rs = [''block_ip'']"
    using run_actions_names [of te reg clock 0 info "[a]" s rs] run assms(1) by simp
  then obtain r where r: "rs = [r]" "ar_name r = ''block_ip''" by auto
  have recs: "records_of [a] rs = [\<lparr>rec_action = ''block_ip'', rec_success = ar_success r,
      rec_token = ar_token r, rec_params = params a\<rparr>]" using r by (simp add: records_of_def)
  have "store_get t' token st' = (Some (records_of [a] rs), st')"
    unfolding st' by (rule store_get_recorded) (simp add: recs)
  then show "\<exists>ok tok. store_get t' token st' =
      (Some [\<lparr>rec_action = ''block_ip'', rec_success = ok, rec_token = tok, rec_params = params a\<rparr>], st')"
    unfolding recs by blast
  show "run_actions te reg clock 0 info [a] s \<noteq> (None, s')" unfolding run by simp
  show "st_rolled st' = st_rolled st" by (simp add: st' store_record_def)
qed

text \<open>
  The target an action receives from the threat context is not recorded: a block whose policy
  names no address runs against the address of the threat, and its rollback record has none.
\<close>

theorem injected_target_not_recorded:
  assumes "name_of a = ''block_ip''" and "\<not> has_key (params a) ''src_ip''"
    and "truthy (py_get info ''src_ip'' PyNone)"
    and "execute_actions te reg clock t token [a] info (s, st) = (Some b, (s', st'))"
  shows "(\<exists>d. inject_params te info ''block_ip'' (params a) = Some d \<and>
      py_get d ''src_ip'' PyNone = py_get info ''src_ip'' PyNone) \<and>
    (\<exists>r. fst (store_get t' token st') = Some [r] \<and> rec_action r = ''block_ip'' \<and>
      rec_params r = params a \<and> \<not> has_key (rec_params r) ''src_ip'')"
proof
  show "\<exists>r. fst (store_get t' token st') = Some [r] \<and> rec_action r = ''block_ip'' \<and>
      rec_params r = params a \<and> \<not> has_key (rec_params r) ''src_ip''"
    using one_block_recorded(1) [OF assms(1,4), of t'] assms(2) by auto
  have "inject_params te info ''block_ip'' (params a) \<noteq> None"
    using one_block_recorded(2) [OF assms(1,4)] execute_actions_run [OF assms(4)] assms(1)
    by (auto simp: execute_one_def maybe_prepend_snapshot_def SNAPSHOT_BEFORE_def split: option.splits prod.splits)
  then obtain d where d: "inject_params te info ''block_ip'' (params a) = Some d" by blast
  have "info \<noteq> []" using assms(3) by auto
  with d assms(2,3) have "py_get d ''src_ip'' PyNone = py_get info ''src_ip'' PyNone"
    by (auto simp: inject_params_def inject_target_def fill_in_def Let_def split: if_splits)
  with d show "\<exists>d. inject_params te info ''block_ip'' (params a) = Some d \<and>
      py_get d ''src_ip'' PyNone = py_get info ''src_ip'' PyNone" by blast
qed

theorem injected_target_not_recorded_witness:
  "\<exists>r. fst (store_get 5 ''b'' (snd (snd (execute_actions demo_text demo_registry (\<lambda>_. 0) 0 ''b''
     [named_action ''block_ip'' []] [(''src_ip'', PyStr ''1.1.1.1'')] ([], demo_store))))) = Some [r] \<and>
   \<not> has_key (rec_params r) ''src_ip''"
proof -
  let ?x = "execute_actions demo_text demo_registry (\<lambda>_. 0) 0 ''b''
     [named_action ''block_ip'' []] [(''src_ip'', PyStr ''1.1.1.1'')] ([], demo_store)"
  have "fst ?x \<noteq> None" by code_simp
  then obtain b s' st' where x: "?x = (Some b, (s', st'))" by (metis option.exhaust prod.collapse)
  from injected_target_not_recorded [OF _ _ _ x, of 5] x show ?thesis by (auto simp: has_key_def)
qed

end
