(* ===== verification/ResponseRegistry.thy ===== *)
theory ResponseRegistry
  imports Actions
begin

text \<open>
  The registered response actions (\<open>src/backend/response_engine/response_registry.py\<close> and the
  registrations of \<open>src/backend/response_engine/containment/\<close>): their severities, and the decisions
  that depend on them.  What an action does is a parameter of the executor.
\<close>

datatype action_severity = LowAction | MediumAction | HighAction | CriticalAction

fun severity_index :: "action_severity \<Rightarrow> nat" where
  "severity_index LowAction = 0"
| "severity_index MediumAction = 1"
| "severity_index HighAction = 2"
| "severity_index CriticalAction = 3"

lemma severity_index_inj: "severity_index a = severity_index b \<Longrightarrow> a = b"
  by (cases a; cases b) auto

text \<open>The order of \<open>_SEVERITY_ORDER\<close>.\<close>

instantiation action_severity :: linorder
begin

definition less_eq_action_severity :: "action_severity \<Rightarrow> action_severity \<Rightarrow> bool" where
  "a \<le> b \<longleftrightarrow> severity_index a \<le> severity_index b"

definition less_action_severity :: "action_severity \<Rightarrow> action_severity \<Rightarrow> bool" where
  "a < b \<longleftrightarrow> severity_index a < severity_index b"

instance
  by standard
    (auto simp: less_eq_action_severity_def less_action_severity_def intro: severity_index_inj)

end

record action_def =
  def_severity :: action_severity
  def_category :: string
  def_reversible :: bool

definition REGISTERED :: "(string \<times> action_def) list" where
  "REGISTERED =
     [(''block_ip'', \<lparr>def_severity = HighAction, def_category = ''network'', def_reversible = True\<rparr>),
      (''isolate_host'', \<lparr>def_severity = CriticalAction, def_category = ''host'', def_reversible = True\<rparr>),
      (''dns_sinkhole'', \<lparr>def_severity = HighAction, def_category = ''network'', def_reversible = True\<rparr>),
      (''rate_limit'', \<lparr>def_severity = MediumAction, def_category = ''network'', def_reversible = True\<rparr>),
      (''kill_session'', \<lparr>def_severity = HighAction, def_category = ''session'', def_reversible = False\<rparr>),
      (''send_alert'', \<lparr>def_severity = LowAction, def_category = ''notification'', def_reversible = False\<rparr>),
      (''kill_process'', \<lparr>def_severity = HighAction, def_category = ''host'', def_reversible = False\<rparr>),
      (''quarantine_file'', \<lparr>def_severity = HighAction, def_category = ''host'', def_reversible = True\<rparr>),
      (''clean_persistence'', \<lparr>def_severity = HighAction, def_category = ''host'', def_reversible = True\<rparr>),
      (''forensic_snapshot'', \<lparr>def_severity = MediumAction, def_category = ''host'', def_reversible = False\<rparr>),
      (''disable_account'', \<lparr>def_severity = CriticalAction, def_category = ''identity'', def_reversible = True\<rparr>),
      (''recall_email'', \<lparr>def_severity = HighAction, def_category = ''mail'', def_reversible = False\<rparr>)]"

definition get_action :: "string \<Rightarrow> action_def option" where
  "get_action name = map_of REGISTERED name"

definition list_actions :: "string \<Rightarrow> action_def list" where
  "list_actions category =
     (let all_defs = List.map snd REGISTERED in
      if category \<noteq> [] then filter (\<lambda>d. def_category d = category) all_defs else all_defs)"

text \<open>An unknown action is treated as needing approval, and as critical.\<close>

definition registry_needs_approval :: "string \<Rightarrow> bool" where
  "registry_needs_approval name =
     (case get_action name of None \<Rightarrow> True
      | Some d \<Rightarrow> def_severity d \<in> {HighAction, CriticalAction})"

definition severity_of_action :: "response_action \<Rightarrow> action_severity" where
  "severity_of_action a =
     (case get_action (name_of a) of None \<Rightarrow> CriticalAction | Some d \<Rightarrow> def_severity d)"

fun max_severity_from :: "action_severity \<Rightarrow> response_action list \<Rightarrow> action_severity" where
  "max_severity_from best [] = best"
| "max_severity_from best (a # as) =
     max_severity_from (if best < severity_of_action a then severity_of_action a else best) as"

definition max_action_severity :: "response_action list \<Rightarrow> action_severity" where
  "max_action_severity as = max_severity_from LowAction as"

definition has_critical_action :: "response_action list \<Rightarrow> bool" where
  "has_critical_action as \<longleftrightarrow> max_action_severity as = CriticalAction"

section \<open>Lemmas\<close>

lemma critical_top [simp]: "s \<le> CriticalAction"
  by (cases s) (auto simp: less_eq_action_severity_def)

lemma max_severity_from_Max: "max_severity_from b as = Max (insert b (severity_of_action ` set as))"
proof (induction as arbitrary: b)
  case Nil
  then show ?case by simp
next
  case (Cons a as)
  have "(if b < severity_of_action a then severity_of_action a else b) = max b (severity_of_action a)"
    by (simp add: max_def not_less less_le_not_le)
  then show ?case
    by (cases "as = []") (auto simp: Cons Max_insert max.assoc max.left_commute max.commute)
qed

lemma has_critical_iff: "has_critical_action as \<longleftrightarrow> (\<exists>a \<in> set as. severity_of_action a = CriticalAction)"
proof -
  have "(Max (insert LowAction (severity_of_action ` set as)) = CriticalAction) \<longleftrightarrow>
      CriticalAction \<in> severity_of_action ` set as"
    by (subst Max_eq_iff) auto
  then show ?thesis
    unfolding has_critical_action_def max_action_severity_def max_severity_from_Max by (metis imageE imageI)
qed

lemma isolate_critical: "severity_of_action (named_action ''isolate_host'' ps) = CriticalAction"
  by (simp add: severity_of_action_def get_action_def REGISTERED_def)

lemma needs_approval_severity:
  "registry_needs_approval (name_of a) \<longleftrightarrow> HighAction \<le> severity_of_action a"
proof (cases "get_action (name_of a)")
  case None
  then show ?thesis by (simp add: registry_needs_approval_def severity_of_action_def)
next
  case (Some d)
  then show ?thesis
    by (cases "def_severity d")
      (simp_all add: registry_needs_approval_def severity_of_action_def less_eq_action_severity_def)
qed

end
