(* ===== verification/ExecutionModes.thy ===== *)
theory ExecutionModes
  imports Prelude
begin

text \<open>
  The routing of commands by the global execution mode
  (\<open>src/backend/response_engine/execution_modes.py\<close>): the mode and its setter, the dry-run
  preview, the simulated results of the mock mode, and the route.  A live command runs on a
  remote host: \<open>live\<close> is a parameter that threads the state \<open>'w\<close> of the remote world, so
  "not executed" is "the world is unchanged".  The texts of messages are left out.
\<close>

section \<open>Results of commands\<close>

text \<open>
  What an executor returns: a dict with the keys the program reads (the \<open>success\<close> value, the
  \<open>mode\<close>, the output), another value rendered as text, or an exception.
\<close>

record shell_dict =
  sh_success :: "pyval option"
  sh_mode :: "string option"
  sh_stdout :: string

datatype shell_out = ShDict shell_dict | ShOther string | ShRaise string

type_synonym 'w shell = "string \<Rightarrow> 'w \<Rightarrow> shell_out \<times> 'w"

section \<open>The mode\<close>

definition MODE_LIVE :: string where "MODE_LIVE = ''live''"
definition MODE_DRY_RUN :: string where "MODE_DRY_RUN = ''dry_run''"
definition MODE_MOCK :: string where "MODE_MOCK = ''mock''"

definition VALID_MODES :: "string list" where
  "VALID_MODES = [MODE_LIVE, MODE_DRY_RUN, MODE_MOCK]"

record mode_router = router_mode :: string

definition new_router :: "string \<Rightarrow> mode_router" where
  "new_router mode = \<lparr>router_mode = (if mode \<in> set VALID_MODES then mode else MODE_LIVE)\<rparr>"

text \<open>The setter raises \<open>ValueError\<close> on an unknown mode.\<close>

datatype mode_error = InvalidMode string

definition set_mode :: "string \<Rightarrow> mode_router \<Rightarrow> mode_error + mode_router" where
  "set_mode value r =
     (if value \<notin> set VALID_MODES then Inl (InvalidMode value) else Inr (r\<lparr>router_mode := value\<rparr>))"

section \<open>Simulated results\<close>

text \<open>
  A template: its standard output, standard error and return code where it has them, the
  snapshot status and the open ports of the two actions that report them.
\<close>

record mock_template =
  mt_stdout :: "string option"
  mt_stderr :: "string option"
  mt_returncode :: "int option"
  mt_snapshot_status :: "string option"
  mt_open_ports :: "string list"

definition shell_template :: "string \<Rightarrow> mock_template" where
  "shell_template out = \<lparr>mt_stdout = Some out, mt_stderr = Some [], mt_returncode = Some 0,
     mt_snapshot_status = None, mt_open_ports = []\<rparr>"

definition plain_template :: mock_template where
  "plain_template = \<lparr>mt_stdout = None, mt_stderr = None, mt_returncode = None,
     mt_snapshot_status = None, mt_open_ports = []\<rparr>"

definition MOCK_TEMPLATES :: "(string \<times> mock_template) list" where
  "MOCK_TEMPLATES =
     [(''block_ip'', shell_template ''Ok.''),
      (''unblock_ip'', shell_template ''Ok.''),
      (''isolate_host'', shell_template ''Ok.''),
      (''restore_host'', shell_template ''Ok.''),
      (''rate_limit'', shell_template ''QoS policy created''),
      (''remove_rate_limit'', shell_template ''QoS policy removed''),
      (''kill_session'', shell_template ''Session logged off''),
      (''kill_process'', shell_template ''KILLED''),
      (''quarantine_file'', plain_template),
      (''clean_persistence'', plain_template),
      (''forensic_snapshot'', plain_template\<lparr>mt_snapshot_status := Some ''ok''\<rparr>),
      (''disable_account'', plain_template),
      (''recall_email'', plain_template),
      (''dns_sinkhole'', plain_template),
      (''send_alert'', plain_template),
      (''vulnerability_scan'',
        (shell_template (''Nmap scan report for target'' @ [CHR 0x0A] @ ''22/tcp open ssh'' @
           [CHR 0x0A] @ ''80/tcp open http''))
        \<lparr>mt_open_ports := [''22/tcp open ssh'', ''80/tcp open http'']\<rparr>)]"

definition DEFAULT_MOCK :: mock_template where
  "DEFAULT_MOCK = shell_template ''[MOCK] Command executed successfully''"

datatype routed =
    DryRun string string string pydict time
  | Mocked string pydict mock_template time
  | Live shell_out

definition dry_run :: "string \<Rightarrow> string \<Rightarrow> pydict \<Rightarrow> string \<Rightarrow> time \<Rightarrow> routed" where
  "dry_run action command ps platform now = DryRun action command platform ps now"

definition mock :: "string \<Rightarrow> pydict \<Rightarrow> time \<Rightarrow> routed" where
  "mock action ps now =
     Mocked action ps
       (case map_of MOCK_TEMPLATES action of None \<Rightarrow> DEFAULT_MOCK | Some t \<Rightarrow> t) now"

section \<open>The route\<close>

definition route ::
  "mode_router \<Rightarrow> string \<Rightarrow> string \<Rightarrow> pydict \<Rightarrow> 'w shell \<Rightarrow> string \<Rightarrow> time \<Rightarrow> 'w \<Rightarrow> routed \<times> 'w"
where
  "route r action command ps live platform now w =
     (if router_mode r = MODE_DRY_RUN then (dry_run action command ps platform now, w)
      else if router_mode r = MODE_MOCK then (mock action ps now, w)
      else (case live command w of (out, w') \<Rightarrow> (Live out, w')))"

section \<open>Lemmas\<close>

lemma valid_modes [simp]:
  "MODE_LIVE \<in> set VALID_MODES" "MODE_DRY_RUN \<in> set VALID_MODES" "MODE_MOCK \<in> set VALID_MODES"
  by (simp_all add: VALID_MODES_def)

lemma modes_distinct [simp]:
  "MODE_LIVE \<noteq> MODE_DRY_RUN" "MODE_LIVE \<noteq> MODE_MOCK" "MODE_DRY_RUN \<noteq> MODE_MOCK"
  by (simp_all add: MODE_LIVE_def MODE_DRY_RUN_def MODE_MOCK_def)

definition router_ok :: "mode_router \<Rightarrow> bool" where
  "router_ok r \<longleftrightarrow> router_mode r \<in> set VALID_MODES"

lemma router_ok_new [simp]: "router_ok (new_router m)"
  by (simp add: router_ok_def new_router_def)

lemma router_ok_set: "set_mode v r = Inr r' \<Longrightarrow> router_ok r'"
  by (auto simp: set_mode_def router_ok_def split: if_splits)

lemma route_simulated:
  "router_mode r \<noteq> MODE_LIVE \<Longrightarrow> router_ok r \<Longrightarrow> snd (route r a c ps live pl now w) = w"
  by (auto simp: route_def router_ok_def VALID_MODES_def)

lemma route_live:
  "router_mode r = MODE_LIVE \<Longrightarrow>
   route r a c ps live pl now w = (Live (fst (live c w)), snd (live c w))"
  by (simp add: route_def split_beta)

end
