(* ===== verification/PostValidator.thy ===== *)
theory PostValidator
  imports ExecutionModes IpAddress
begin

text \<open>
  The verification of an action after it ran (\<open>src/backend/response_engine/post_validator.py\<close>): each
  verifier queries the remote host through the executor it is given and looks for a token in the
  output.  The verifiers read text parameters; \<open>families\<close> is the list under
  \<open>families_applied\<close> (or \<open>families\<close>).  The base64 PowerShell command of the rate-limit query is
  the parameter \<open>ps_cmd\<close>.  An exception of the executor ends the verification.
\<close>

section \<open>Definitions\<close>

definition text_param :: "pydict \<Rightarrow> string \<Rightarrow> string" where
  "text_param d k = (case map_of d k of Some (PyStr s) \<Rightarrow> s | _ \<Rightarrow> [])"

definition text_or :: "string \<Rightarrow> string \<Rightarrow> string" where
  "text_or a b = (if a \<noteq> [] then a else b)"

definition family_of :: "string \<Rightarrow> string" where
  "family_of ip =
     (case ip_address (strip ip) of
        None \<Rightarrow> [] | Some (IPv6 v sc) \<Rightarrow> ''ipv6'' | Some (IPv4 v) \<Rightarrow> ''ipv4'')"

definition tables_for :: "string list \<Rightarrow> string \<Rightarrow> string list" where
  "tables_for families ip =
     (if ''ipv4'' \<in> set families \<and> ''ipv6'' \<in> set families then [''iptables'', ''ip6tables'']
      else if family_of ip = ''ipv6'' then [''ip6tables''] else [''iptables''])"

datatype evidence =
    NoVerifier
  | Found string string
  | NotFound "string list"
  | StillThere string
  | Gone string
  | PartlyFound nat
  | Unsupported
  | VerifyError string

record verify_report =
  verified :: bool
  evidence :: evidence

text \<open>A computation on the remote world that may raise.\<close>

type_synonym ('a, 'w) remote = "'w \<Rightarrow> (string + 'a) \<times> 'w"

definition ret :: "'a \<Rightarrow> ('a, 'w) remote" where "ret a w = (Inr a, w)"

definition andThen :: "('a, 'w) remote \<Rightarrow> ('a \<Rightarrow> ('b, 'w) remote) \<Rightarrow> ('b, 'w) remote" where
  "andThen m f w = (case m w of (Inl e, w') \<Rightarrow> (Inl e, w') | (Inr a, w') \<Rightarrow> f a w')"

definition query :: "'w shell \<Rightarrow> string \<Rightarrow> (string, 'w) remote" where
  "query sh cmd w =
     (case sh cmd w of
        (ShDict d, w') \<Rightarrow> (Inr (sh_stdout d), w')
      | (ShOther s, w') \<Rightarrow> (Inr s, w')
      | (ShRaise e, w') \<Rightarrow> (Inl e, w'))"

definition list_cmd :: "string \<Rightarrow> string \<Rightarrow> string" where
  "list_cmd table chain = table @ '' -L '' @ chain @ '' -n --line-numbers''"

definition report :: "bool \<Rightarrow> evidence \<Rightarrow> verify_report" where
  "report b e = \<lparr>verified = b, evidence = e\<rparr>"

text \<open>Whether the token occurs in a listing: an empty token never does.\<close>

definition listed :: "string \<Rightarrow> string \<Rightarrow> bool" where
  "listed tok out \<longleftrightarrow> tok \<noteq> [] \<and> contains tok out"

fun first_table :: "'w shell \<Rightarrow> string \<Rightarrow> string list \<Rightarrow> (string option, 'w) remote" where
  "first_table sh tok [] = ret None"
| "first_table sh tok (t # ts) =
     andThen (query sh (list_cmd t ''INPUT''))
       (\<lambda>out. if listed tok out then ret (Some t) else first_table sh tok ts)"

text \<open>The netsh query of a rule; \<open>None\<close> output means the rule does not exist.\<close>

definition show_rule_cmd :: "string \<Rightarrow> string" where
  "show_rule_cmd name =
     ''netsh advfirewall firewall show rule name='' @ [CHR 0x22] @ name @ [CHR 0x22]"

definition rule_absent :: "string \<Rightarrow> bool" where
  "rule_absent out \<longleftrightarrow> contains ''No rules'' out \<or> strip out = []"

definition underscored :: "string \<Rightarrow> string" where
  "underscored ip = List.map (\<lambda>c. if c = CHR ''.'' then CHR ''_'' else c) ip"

definition verify_block_ip :: "pydict \<Rightarrow> string list \<Rightarrow> 'w shell \<Rightarrow> string \<Rightarrow> (verify_report, 'w) remote" where
  "verify_block_ip d families sh platform =
     (let src = text_param d ''src_ip'' in
      if platform = ''linux'' then
        (let tok = text_or (text_param d ''rule_id'') src;
             tables = tables_for families src
         in andThen (first_table sh tok tables)
              (\<lambda>r. ret (case r of Some t \<Rightarrow> report True (Found t tok) | None \<Rightarrow> report False (NotFound tables))))
      else
        (let name = text_or (text_param d ''rule_name'') (''RE_Block_'' @ underscored src)
         in andThen (query sh (show_rule_cmd name))
              (\<lambda>out. ret (if rule_absent out then report False (NotFound [name])
                          else report True (Found name name)))))"

definition verify_unblock_ip :: "pydict \<Rightarrow> string list \<Rightarrow> 'w shell \<Rightarrow> string \<Rightarrow> (verify_report, 'w) remote" where
  "verify_unblock_ip d families sh platform =
     (let src = text_param d ''src_ip'' in
      if platform = ''linux'' then
        (let tok = text_or (text_param d ''rule_id'') src
         in andThen (first_table sh tok (tables_for families src))
              (\<lambda>r. ret (case r of Some t \<Rightarrow> report False (StillThere tok) | None \<Rightarrow> report True (Gone tok))))
      else
        (let name = text_or (text_param d ''rule_name'') (''RE_Block_'' @ underscored src)
         in andThen (query sh (show_rule_cmd name))
              (\<lambda>out. ret (if rule_absent out then report True (Gone name)
                          else report False (StillThere name)))))"

text \<open>The tables and chains whose listing lacks the token.\<close>

fun missing_chains :: "'w shell \<Rightarrow> string \<Rightarrow> (string \<times> string) list \<Rightarrow> (string list, 'w) remote" where
  "missing_chains sh tok [] = ret []"
| "missing_chains sh tok ((t, c) # tcs) =
     andThen (query sh (list_cmd t c))
       (\<lambda>out. andThen (missing_chains sh tok tcs)
          (\<lambda>ms. ret (if listed tok out then ms else (t @ '':'' @ c) # ms)))"

definition chains_of :: "string list \<Rightarrow> (string \<times> string) list" where
  "chains_of tables = concat (List.map (\<lambda>t. [(t, ''INPUT''), (t, ''OUTPUT'')]) tables)"

definition host_param :: "pydict \<Rightarrow> string" where
  "host_param d = (if has_key d ''host_ip'' then text_param d ''host_ip'' else text_param d ''host'')"

fun found_rules :: "'w shell \<Rightarrow> string list \<Rightarrow> (nat, 'w) remote" where
  "found_rules sh [] = ret 0"
| "found_rules sh (n # ns) =
     andThen (query sh (show_rule_cmd n))
       (\<lambda>out. andThen (found_rules sh ns) (\<lambda>k. ret (if rule_absent out then k else Suc k)))"

definition verify_isolate_host :: "pydict \<Rightarrow> string list \<Rightarrow> 'w shell \<Rightarrow> string \<Rightarrow> (verify_report, 'w) remote" where
  "verify_isolate_host d families sh platform =
     (let host = host_param d in
      if platform = ''linux'' then
        andThen (missing_chains sh (text_or (text_param d ''isolation_id'') host)
                   (chains_of (tables_for families host)))
          (\<lambda>ms. ret (if ms = [] then report True (Found host host) else report False (NotFound ms)))
      else
        andThen (found_rules sh [''RE_Isolate_In_'' @ underscored host, ''RE_Isolate_Out_'' @ underscored host])
          (\<lambda>n. ret (if n = 2 then report True (Found host host) else report False (PartlyFound n))))"

fun still_listed :: "'w shell \<Rightarrow> string \<Rightarrow> (string \<times> string) list \<Rightarrow> (bool, 'w) remote" where
  "still_listed sh tok [] = ret False"
| "still_listed sh tok ((t, c) # tcs) =
     andThen (query sh (list_cmd t c))
       (\<lambda>out. if listed tok out then ret True else still_listed sh tok tcs)"

definition verify_restore_host :: "pydict \<Rightarrow> string list \<Rightarrow> 'w shell \<Rightarrow> string \<Rightarrow> (verify_report, 'w) remote" where
  "verify_restore_host d families sh platform =
     (let host = host_param d in
      if platform = ''linux'' then
        andThen (still_listed sh host (chains_of (tables_for families host)))
          (\<lambda>b. ret (if b then report False (StillThere host) else report True (Gone host)))
      else
        andThen (query sh (show_rule_cmd (''RE_Isolate_In_'' @ underscored host)))
          (\<lambda>out. ret (if rule_absent out then report True (Gone host) else report False (StillThere host))))"

definition verify_rate_limit :: "(string \<Rightarrow> string) \<Rightarrow> pydict \<Rightarrow> 'w shell \<Rightarrow> string \<Rightarrow> (verify_report, 'w) remote" where
  "verify_rate_limit ps_cmd d sh platform =
     (if platform \<noteq> ''windows'' then ret (report True Unsupported)
      else
        (let name = ''RE_RateLimit_'' @ underscored (text_param d ''src_ip'')
         in andThen (query sh (ps_cmd (''Get-NetQosPolicy -Name '' @ [CHR 0x27] @ name @ [CHR 0x27] @
                '' -ErrorAction SilentlyContinue'')))
              (\<lambda>out. ret (if contains name out then report True (Found name name)
                          else report False (NotFound [name])))))"

text \<open>\<open>_VERIFIERS\<close> and \<open>verify\<close>.\<close>

definition verifier_of ::
  "(string \<Rightarrow> string) \<Rightarrow> string \<Rightarrow>
   (pydict \<Rightarrow> string list \<Rightarrow> 'w shell \<Rightarrow> string \<Rightarrow> (verify_report, 'w) remote) option"
where
  "verifier_of ps_cmd action =
     map_of [(''block_ip'', verify_block_ip), (''unblock_ip'', verify_unblock_ip),
        (''isolate_host'', verify_isolate_host), (''restore_host'', verify_restore_host),
        (''rate_limit'', \<lambda>d families. verify_rate_limit ps_cmd d)] action"

definition verify ::
  "(string \<Rightarrow> string) \<Rightarrow> string \<Rightarrow> pydict \<Rightarrow> string list \<Rightarrow> 'w shell \<Rightarrow> string \<Rightarrow> 'w \<Rightarrow> verify_report \<times> 'w"
where
  "verify ps_cmd action d families sh platform w =
     (case verifier_of ps_cmd action of
        None \<Rightarrow> (report True NoVerifier, w)
      | Some v \<Rightarrow>
          (case v d families sh platform w of
             (Inl e, w') \<Rightarrow> (report False (VerifyError e), w')
           | (Inr r, w') \<Rightarrow> (r, w')))"

section \<open>Lemmas\<close>

lemma report_sel [simp]: "verified (report b e) = b" "evidence (report b e) = e"
  by (simp_all add: report_def)

lemma remote_simps [simp]:
  "ret a w = (Inr a, w)"
  "andThen m f w = (case m w of (Inl e, w') \<Rightarrow> (Inl e, w') | (Inr a, w') \<Rightarrow> f a w')"
  by (simp_all add: ret_def andThen_def)

text \<open>A host whose listings are fixed texts: queries do not change it.\<close>

definition listing_host :: "(string \<Rightarrow> string) \<Rightarrow> 'w shell" where
  "listing_host out cmd w =
     (ShDict \<lparr>sh_success = Some (PyBool True), sh_mode = None, sh_stdout = out cmd\<rparr>, w)"

lemma query_listing [simp]: "query (listing_host out) cmd w = (Inr (out cmd), w)"
  by (simp add: query_def listing_host_def)

lemma missing_chains_listing:
  "missing_chains (listing_host out) tok tcs w =
     (Inr (List.map (\<lambda>(t, c). t @ '':'' @ c) (filter (\<lambda>(t, c). \<not> listed tok (out (list_cmd t c))) tcs)), w)"
  by (induction sh\<equiv>"listing_host out :: 'a shell" tok tcs arbitrary: w rule: missing_chains.induct) auto

lemma first_table_listing:
  "first_table (listing_host out) tok ts w =
     (Inr (find (\<lambda>t. listed tok (out (list_cmd t ''INPUT''))) ts), w)"
  by (induction ts arbitrary: w) auto

section \<open>Properties\<close>

text \<open>
  An isolation is verified exactly when every chain of every table concerned lists the
  token: all four chains when both families were requested, the two of its own table otherwise.
\<close>

theorem isolation_verified_iff:
  "verified (fst (verify ps_cmd ''isolate_host'' d families (listing_host out) ''linux'' w)) \<longleftrightarrow>
     (\<forall>table \<in> set (tables_for families (host_param d)). \<forall>chain \<in> {''INPUT'', ''OUTPUT''}.
        listed (text_or (text_param d ''isolation_id'') (host_param d)) (out (list_cmd table chain)))"
  by (auto simp: verify_def verifier_of_def verify_isolate_host_def missing_chains_listing
      chains_of_def Let_def filter_empty_conv split: if_splits)

theorem isolation_verified_iff_witness:
  "verified (fst (verify id ''isolate_host'' [(''host_ip'', PyStr ''10.0.0.1'')] [] (listing_host (\<lambda>_. ''1 DROP 10.0.0.1''))
     ''linux'' ()))"
  unfolding isolation_verified_iff by code_simp

text \<open>
  The token is looked for as a substring: a block of one address is reported as verified
  when the table only holds a longer address that it is a part of.
\<close>

theorem longer_address_verifies:
  assumes "src \<noteq> []" and "out (list_cmd ''iptables'' ''INPUT'') = before @ src @ after"
    and "family_of src \<noteq> ''ipv6''"
  shows "verified (fst (verify ps_cmd ''block_ip'' [(''src_ip'', PyStr src)] [] (listing_host out) ''linux'' w))"
  using assms
  by (simp add: verify_def verifier_of_def verify_block_ip_def first_table_listing Let_def
      text_param_def text_or_def tables_for_def listed_def contains_append)

theorem longer_address_verifies_witness:
  "verified (fst (verify id ''block_ip'' [(''src_ip'', PyStr ''10.0.0.1'')] []
     (listing_host (\<lambda>_. ''1 DROP all -- 110.0.0.15'')) ''linux'' ()))"
  by (rule longer_address_verifies [where before = "''1 DROP all -- 1''" and after = "''5''"]) code_simp+

end
