(* ===== verification/TtlManager.thy ===== *)
theory TtlManager
  imports RedisService
begin

text \<open>
  The automatic undoing of blocks (\<open>src/backend/response_engine/ttl_manager.py\<close>): registration of
  a rule with a lifetime, cancellation, the scan that rolls expired rules back, and the recovery
  at start-up.  The Redis client is a parameter (\<open>None\<close>: not injected); the JSON text of an
  entry is the record it encodes.  The rollback callback acts on the remote world \<open>'w\<close>; its
  result is only logged.  Reading the clock and each Redis command happen at times given as
  parameters.
\<close>

section \<open>Definitions\<close>

record ttl_payload =
  ttl_rule :: string
  ttl_action :: string
  ttl_params :: pydict
  registered_at :: time
  ttl_expires :: time

datatype redis_value = TtlEntry ttl_payload | Flag string

definition KEY_PREFIX :: string where "KEY_PREFIX = ''soc:ttl:''"
definition INDEX_KEY :: string where "INDEX_KEY = ''soc:ttl:index''"

definition ttl_key :: "string \<Rightarrow> string" where "ttl_key rid = KEY_PREFIX @ rid"

type_synonym 'r ttl_redis = "(redis_value, 'r) redis option"

datatype ttl_result = Registered string time | NotRegistered string string

text \<open>
  \<open>now\<close> and \<open>now'\<close> are the two clock readings, \<open>served\<close> is when the server executes \<open>SET\<close>.
\<close>

definition ttl_register ::
  "'r ttl_redis \<Rightarrow> time \<Rightarrow> time \<Rightarrow> time \<Rightarrow> string \<Rightarrow> string \<Rightarrow> pydict \<Rightarrow> int \<Rightarrow> 'r \<Rightarrow> ttl_result \<times> 'r"
where
  "ttl_register client now now' served rid action ps ttl s =
     (case client of
        None \<Rightarrow> (NotRegistered rid ''redis_unavailable'', s)
      | Some R \<Rightarrow>
          if ttl \<le> 0 then (NotRegistered rid ''invalid_ttl'', s)
          else
            (let expires = now + of_int ttl;
                 payload = \<lparr>ttl_rule = rid, ttl_action = action, ttl_params = ps,
                            registered_at = now', ttl_expires = expires\<rparr>;
                 s1 = r_set R served (ttl_key rid) (TtlEntry payload) (of_int ttl) s;
                 s2 = r_zadd R INDEX_KEY rid expires s1
             in (Registered rid expires, s2)))"

definition ttl_cancel :: "'r ttl_redis \<Rightarrow> string \<Rightarrow> 'r \<Rightarrow> bool \<times> 'r" where
  "ttl_cancel client rid s =
     (case client of None \<Rightarrow> (False, s)
      | Some R \<Rightarrow> (True, r_zrem R INDEX_KEY rid (r_delete R (ttl_key rid) s)))"

definition read_entry :: "(redis_value, 'r) redis \<Rightarrow> time \<Rightarrow> string \<Rightarrow> 'r \<Rightarrow> ttl_payload option" where
  "read_entry R t rid s =
     (case r_get R t (ttl_key rid) s of Some (TtlEntry p) \<Rightarrow> Some p | _ \<Rightarrow> None)"

definition ttl_get :: "'r ttl_redis \<Rightarrow> time \<Rightarrow> string \<Rightarrow> 'r \<Rightarrow> ttl_payload option" where
  "ttl_get client t rid s = (case client of None \<Rightarrow> None | Some R \<Rightarrow> read_entry R t rid s)"

text \<open>\<open>zrangebyscore\<close> from \<open>now\<close> up, and the entries that can still be read, with what is left.\<close>

definition live_index :: "(redis_value, 'r) redis \<Rightarrow> time \<Rightarrow> 'r \<Rightarrow> (string \<times> time) list" where
  "live_index R now s = filter (\<lambda>(rid, x). now \<le> x) (r_zset R INDEX_KEY s)"

definition list_active :: "'r ttl_redis \<Rightarrow> time \<Rightarrow> (string \<Rightarrow> time) \<Rightarrow> 'r \<Rightarrow> (ttl_payload \<times> time) list" where
  "list_active client now read_time s =
     (case client of None \<Rightarrow> []
      | Some R \<Rightarrow>
          List.map_filter (\<lambda>(rid, x). map_option (\<lambda>p. (p, max 0 (x - now))) (read_entry R (read_time rid) rid s))
            (live_index R now s))"

type_synonym 'w rollback = "string \<Rightarrow> string \<Rightarrow> pydict \<Rightarrow> 'w \<Rightarrow> 'w"

text \<open>One entry of the scan; \<open>t\<close> is when its key is read.\<close>

definition expire_entry ::
  "(redis_value, 'r) redis \<Rightarrow> 'w rollback option \<Rightarrow> time \<Rightarrow> string \<Rightarrow> 'r \<times> 'w \<Rightarrow> 'r \<times> 'w"
where
  "expire_entry R cb t rid sw =
     (case sw of (s, w) \<Rightarrow>
        let w' = (case read_entry R t rid s of None \<Rightarrow> w
                  | Some p \<Rightarrow> (case cb of None \<Rightarrow> w | Some f \<Rightarrow> f rid (ttl_action p) (ttl_params p) w))
        in (r_delete R (ttl_key rid) (r_zrem R INDEX_KEY rid s), w'))"

definition expired_ids :: "(redis_value, 'r) redis \<Rightarrow> time \<Rightarrow> 'r \<Rightarrow> string list" where
  "expired_ids R now s = List.map fst (filter (\<lambda>(rid, x). x \<le> now) (r_zset R INDEX_KEY s))"

definition process_expired ::
  "'r ttl_redis \<Rightarrow> 'w rollback option \<Rightarrow> time \<Rightarrow> (string \<Rightarrow> time) \<Rightarrow> 'r \<times> 'w \<Rightarrow> 'r \<times> 'w"
where
  "process_expired client cb now read_time sw =
     (case client of None \<Rightarrow> sw
      | Some R \<Rightarrow>
          fold (\<lambda>rid. expire_entry R cb (read_time rid) rid) (expired_ids R now (fst sw)) sw)"

definition recover_entry ::
  "(redis_value, 'r) redis \<Rightarrow> 'w rollback option \<Rightarrow> time \<Rightarrow> string \<Rightarrow> 'r \<times> 'w \<Rightarrow> 'r \<times> 'w"
where
  "recover_entry R cb t rid sw =
     (case sw of (s, w) \<Rightarrow>
        if r_get R t (ttl_key rid) s = None
        then (r_zrem R INDEX_KEY rid s,
              case cb of None \<Rightarrow> w | Some f \<Rightarrow> f rid ''unknown'' [] w)
        else (s, w))"

definition recover_on_startup ::
  "'r ttl_redis \<Rightarrow> 'w rollback option \<Rightarrow> time \<Rightarrow> (string \<Rightarrow> time) \<Rightarrow> 'r \<times> 'w \<Rightarrow> 'r \<times> 'w"
where
  "recover_on_startup client cb now read_time sw =
     (case client of None \<Rightarrow> sw
      | Some R \<Rightarrow>
          fold (\<lambda>rid. recover_entry R cb (read_time rid) rid)
            (List.map fst (live_index R now (fst sw))) sw)"

section \<open>Lemmas over any Redis\<close>

text \<open>The rollback callback that logs its calls, and the calls made for one rule.\<close>

type_synonym calls = "(string \<times> string \<times> pydict) list"

definition log_call :: "calls rollback" where
  "log_call rid action ps w = w @ [(rid, action, ps)]"

definition calls_for :: "string \<Rightarrow> calls \<Rightarrow> calls" where
  "calls_for rid w = filter (\<lambda>c. fst c = rid) w"

lemma ttl_key_inj [simp]: "ttl_key a = ttl_key b \<longleftrightarrow> a = b"
  by (simp add: ttl_key_def)

locale ttl_store = redis_service R for R :: "(redis_value, 'r) redis"
begin

abbreviation scan :: "(string \<Rightarrow> time) \<Rightarrow> string list \<Rightarrow> 'r \<times> calls \<Rightarrow> 'r \<times> calls" where
  "scan rt xs sw \<equiv> fold (\<lambda>rid. expire_entry R (Some log_call) (rt rid) rid) xs sw"

lemma expire_index:
  "set (r_zset R INDEX_KEY (fst (expire_entry R cb t rid sw))) =
     {e \<in> set (r_zset R INDEX_KEY (fst sw)). fst e \<noteq> rid}"
  by (cases sw) (simp add: expire_entry_def Let_def zset_laws)

lemma expire_read:
  "read_entry R t' rid' (fst (expire_entry R cb t rid sw)) =
     (if rid' = rid then None else read_entry R t' rid' (fst sw))"
  by (cases sw) (simp add: expire_entry_def Let_def read_entry_def get_laws)

lemma expire_calls:
  "calls_for rid' (snd (expire_entry R (Some log_call) t rid sw)) =
     calls_for rid' (snd sw) @
       (if rid' = rid then (case read_entry R t rid (fst sw) of None \<Rightarrow> []
          | Some p \<Rightarrow> [(rid, ttl_action p, ttl_params p)]) else [])"
  by (cases sw) (auto simp: expire_entry_def Let_def log_call_def calls_for_def split: option.splits)

lemma scan_index:
  "set (r_zset R INDEX_KEY (fst (scan rt xs sw))) =
     {e \<in> set (r_zset R INDEX_KEY (fst sw)). fst e \<notin> set xs}"
  by (induction xs arbitrary: sw) (auto simp: expire_index)

lemma scan_calls:
  "calls_for rid (snd (scan rt xs sw)) =
     calls_for rid (snd sw) @
       (if rid \<in> set xs then (case read_entry R (rt rid) rid (fst sw) of None \<Rightarrow> []
          | Some p \<Rightarrow> [(rid, ttl_action p, ttl_params p)]) else [])"
  by (induction xs arbitrary: sw) (auto simp: expire_calls expire_read)

lemma registered_state:
  fixes now now' served :: rat and rid action :: string and ps :: pydict and ttl :: int and s :: 'r
  assumes "0 < ttl"
  defines "s1 \<equiv> snd (ttl_register (Some R) now now' served rid action ps ttl s)"
  shows "(rid, now + of_int ttl) \<in> set (r_zset R INDEX_KEY s1)"
    and "e \<in> set (r_zset R INDEX_KEY s1) \<Longrightarrow> fst e = rid \<Longrightarrow> e = (rid, now + of_int ttl)"
    and "read_entry R t rid s1 =
      (if served \<le> t \<and> t < served + of_int ttl
       then Some \<lparr>ttl_rule = rid, ttl_action = action, ttl_params = ps, registered_at = now',
                  ttl_expires = now + of_int ttl\<rparr> else None)"
  using assms by (auto simp: ttl_register_def Let_def zset_laws read_entry_def get_laws)

lemma scan_after_register:
  assumes "0 < ttl" and "now + of_int ttl \<le> later" and "served \<le> rt rid"
  shows "calls_for rid (snd (process_expired (Some R) (Some log_call) later rt
           (snd (ttl_register (Some R) now now' served rid action ps ttl s), []))) =
         (if rt rid < served + of_int ttl then [(rid, action, ps)] else [])
     \<and> rid \<notin> fst ` set (r_zset R INDEX_KEY (fst (process_expired (Some R) (Some log_call) later rt
           (snd (ttl_register (Some R) now now' served rid action ps ttl s), []))))"
proof -
  let ?s = "snd (ttl_register (Some R) now now' served rid action ps ttl s)"
  have "rid \<in> set (expired_ids R later ?s)"
    using registered_state(1) [OF assms(1)] assms(2)
    by (force simp: expired_ids_def)
  then show ?thesis
    using assms(3) registered_state(3) [OF assms(1)]
    by (auto simp: process_expired_def scan_calls scan_index) (auto simp: calls_for_def)
qed

lemma scan_before_expiry:
  assumes "0 < ttl" and "later < now + of_int ttl"
  shows "calls_for rid (snd (process_expired (Some R) (Some log_call) later rt
           (snd (ttl_register (Some R) now now' served rid action ps ttl s), []))) = []
     \<and> (rid, now + of_int ttl) \<in> set (r_zset R INDEX_KEY
           (fst (process_expired (Some R) (Some log_call) later rt
           (snd (ttl_register (Some R) now now' served rid action ps ttl s), []))))"
proof -
  let ?s = "snd (ttl_register (Some R) now now' served rid action ps ttl s)"
  have "rid \<notin> set (expired_ids R later ?s)"
    using registered_state(2) [OF assms(1)] assms(2) unfolding expired_ids_def by fastforce
  then show ?thesis
    using registered_state(1) [OF assms(1)]
    by (auto simp: process_expired_def scan_calls scan_index) (auto simp: calls_for_def)
qed

end

interpretation mem_ttl: ttl_store mem_redis
  by (rule ttl_store.intro) unfold_locales

section \<open>Properties\<close>

text \<open>
  C40. When a registered rule is rolled back: the scan that finds its lifetime over calls the
  rollback for it, once and with the registered parameters, only if it reads the entry before
  the entry's own expiry, which the server counts from the moment it stored it.  A scan that
  reads the entry later drops the rule from the index without undoing it.
\<close>

theorem ttl_rollback_iff_read_in_time:
  assumes "redis_laws R" and "0 < ttl" and "now + of_int ttl \<le> scan_time"
    and "served \<le> read_time rid"
  shows "calls_for rid (snd (process_expired (Some R) (Some log_call) scan_time read_time
           (snd (ttl_register (Some R) now now' served rid action ps ttl s), []))) =
         (if read_time rid < served + of_int ttl then [(rid, action, ps)] else [])
     \<and> rid \<notin> fst ` set (r_zset R INDEX_KEY
           (fst (process_expired (Some R) (Some log_call) scan_time read_time
           (snd (ttl_register (Some R) now now' served rid action ps ttl s), []))))"
  by (rule ttl_store.scan_after_register)
    (use assms in \<open>auto intro: ttl_store.intro redis_service.intro\<close>)

theorem ttl_rollback_iff_read_in_time_witness:
  "calls_for ''R1'' (snd (process_expired (Some mem_redis) (Some log_call) 3630 (\<lambda>_. 3630)
     (snd (ttl_register (Some mem_redis) 0 0 (1/1000) ''R1'' ''block_ip'' [] 3600 empty_store), []))) = []"
  using ttl_rollback_iff_read_in_time [OF mem_redis_laws, of 3600 0 3630 "1/1000" "\<lambda>_. 3630" "''R1''"]
  by simp

text \<open>
  A scan before the end of a rule's lifetime leaves the rule alone: it is not rolled back and
  stays in the index.
\<close>

theorem ttl_not_early:
  assumes "redis_laws R" and "0 < ttl" and "scan_time < now + of_int ttl"
  shows "calls_for rid (snd (process_expired (Some R) (Some log_call) scan_time read_time
           (snd (ttl_register (Some R) now now' served rid action ps ttl s), []))) = []
     \<and> (rid, now + of_int ttl) \<in> set (r_zset R INDEX_KEY
           (fst (process_expired (Some R) (Some log_call) scan_time read_time
           (snd (ttl_register (Some R) now now' served rid action ps ttl s), []))))"
  by (rule ttl_store.scan_before_expiry)
    (use assms in \<open>auto intro: ttl_store.intro redis_service.intro\<close>)

theorem ttl_not_early_witness:
  "calls_for ''R1'' (snd (process_expired (Some mem_redis) (Some log_call) 60 (\<lambda>_. 60)
     (snd (ttl_register (Some mem_redis) 0 0 0 ''R1'' ''block_ip'' [] 3600 empty_store), []))) = []"
  using ttl_not_early [OF mem_redis_laws, of 3600 60 0 "''R1''" "\<lambda>_. 60"] by simp

end
