(* ===== verification/SafeExecutor.thy ===== *)
theory SafeExecutor
  imports CommandWhitelist AssetWhitelist PostValidator TtlManager
begin

text \<open>
  The safe executor (\<open>src/backend/response_engine/safe_executor.py\<close>): the checks every command
  of the shell transport passes (grounding, command whitelist, parameters, protected assets,
  idempotence, execution mode), then the live execution, its verification, the registration of
  the automatic undo and the idempotence mark.  The modules it calls are the definitions of
  their theories; Redis, the remote shell and the hash of the parameters are parameters.
  Durations and the command preview of the audit are left out.
\<close>

section \<open>Parameter validation\<close>

definition ip_fields :: "string list" where
  "ip_fields = [''src_ip'', ''host_ip'', ''host'', ''ip'', ''target'']"

definition int_fields :: "(string \<times> rat \<times> rat) list" where
  "int_fields =
     [(''duration'', 0, 2592000), (''duration_minutes'', 0, 43200),
      (''bandwidth_kbps'', 1, 10000000), (''ttl_seconds'', 0, 2592000)]"

definition str_fields :: "string list" where
  "str_fields = [''reason'', ''rule_name'', ''rule_id'', ''session_id'', ''user'']"

text \<open>\<open>isinstance(v, (int, float))\<close>, with the number.\<close>

fun py_number :: "pyval \<Rightarrow> rat option" where
  "py_number (PyInt n) = Some (of_int n)"
| "py_number (PyFloat x) = Some x"
| "py_number (PyBool b) = Some (if b then 1 else 0)"
| "py_number PyNone = None"
| "py_number (PyStr s) = None"
| "py_number (PyStrs xs) = None"

datatype param_fault =
    NotAnAddress string string
  | NotANumber string
  | OutOfRange string pyval rat rat
  | TooLong string nat

definition ip_fault :: "string \<Rightarrow> pydict \<Rightarrow> string \<Rightarrow> param_fault option" where
  "ip_fault action d f =
     (case py_get d f PyNone of
        PyStr s \<Rightarrow>
          if s = [] \<or> (action = ''kill_session'' \<and> f = ''host'') \<or> ip_address s \<noteq> None
             \<or> ip_network_of s \<noteq> None
          then None else Some (NotAnAddress f s)
      | _ \<Rightarrow> None)"

definition int_fault :: "pydict \<Rightarrow> string \<times> rat \<times> rat \<Rightarrow> param_fault option" where
  "int_fault d = (\<lambda>(f, lo, hi).
     let v = py_get d f PyNone in
     if v = PyNone then None
     else (case py_number v of
        None \<Rightarrow> Some (NotANumber f)
      | Some x \<Rightarrow> if x < lo \<or> x > hi then Some (OutOfRange f v lo hi) else None))"

definition str_fault :: "pydict \<Rightarrow> string \<Rightarrow> param_fault option" where
  "str_fault d f =
     (case py_get d f PyNone of
        PyStr s \<Rightarrow> if length s > 512 then Some (TooLong f (length s)) else None
      | _ \<Rightarrow> None)"

text \<open>The first fault in the order of the loops.\<close>

definition validate_params :: "string \<Rightarrow> pydict \<Rightarrow> param_fault option" where
  "validate_params action d =
     (case List.map_filter (ip_fault action d) ip_fields @ List.map_filter (int_fault d) int_fields @
           List.map_filter (str_fault d) str_fields of
        [] \<Rightarrow> None | f # fs \<Rightarrow> Some f)"

section \<open>Idempotence\<close>

definition IDEM_PREFIX :: string where "IDEM_PREFIX = ''soc:idem:''"

record ('r, 'w) exec_env =
  idem_client :: "(redis_value, 'r) redis option"
  ttl_client :: "(redis_value, 'r) redis option"
  hash_params :: "pydict \<Rightarrow> string"
  floats :: text_env
  ps_command :: "string \<Rightarrow> string"

definition idem_key :: "('r, 'w) exec_env \<Rightarrow> string \<Rightarrow> pydict \<Rightarrow> string \<Rightarrow> string" where
  "idem_key env action d rid =
     (let event_id = py_get d ''event_id'' (py_get d ''eventId'' (PyStr []));
          event = py_str (floats env) event_id in
      if rid \<noteq> [] \<and> truthy event_id then IDEM_PREFIX @ action @ '':'' @ rid @ '':'' @ event
      else if rid \<noteq> [] then IDEM_PREFIX @ action @ '':'' @ rid
      else IDEM_PREFIX @ action @ '':'' @ hash_params env d)"

definition idempotency_check :: "('r, 'w) exec_env \<Rightarrow> time \<Rightarrow> string \<Rightarrow> pydict \<Rightarrow> string \<Rightarrow> 'r \<Rightarrow> bool" where
  "idempotency_check env t action d rid s =
     (case idem_client env of None \<Rightarrow> False
      | Some R \<Rightarrow> r_get R t (idem_key env action d rid) s \<noteq> None)"

definition idempotency_mark ::
  "('r, 'w) exec_env \<Rightarrow> time \<Rightarrow> string \<Rightarrow> pydict \<Rightarrow> string \<Rightarrow> 'r \<Rightarrow> 'r"
where
  "idempotency_mark env t action d rid s =
     (case idem_client env of None \<Rightarrow> s
      | Some R \<Rightarrow> r_set R t (idem_key env action d rid) (Flag ''1'') 86400 s)"

section \<open>The pipeline\<close>

record ('r, 'w) exec_state =
  rules :: command_whitelist
  asset_list :: asset_whitelist
  router :: mode_router
  redis_state :: 'r
  world :: 'w

datatype block_reason =
    LowGrounding rat
  | Unlisted verdict_reason
  | BadParam param_fault
  | ProtectedAsset asset_reason
  | NoExecutor

text \<open>\<open>NotDone\<close> keeps the result's own success value, \<open>None\<close> when it has none.\<close>

datatype outcome =
    TypeError
  | Blocked string block_reason
  | IdempotentSkip string
  | Simulated string routed
  | LiveError string string
  | NotDone string "pyval option" string
  | Executed string string "verify_report option" "ttl_result option"

text \<open>
  \<open>params.get("src_ip", params.get("host_ip", params.get("host", "")))\<close>: a key that is present
  decides, whatever its value.
\<close>

definition asset_target :: "pydict \<Rightarrow> pyval" where
  "asset_target d = py_get d ''src_ip'' (py_get d ''host_ip'' (py_get d ''host'' (PyStr [])))"

definition asset_gate ::
  "string \<Rightarrow> pydict \<Rightarrow> asset_whitelist \<Rightarrow> (bool \<times> asset_reason) \<times> asset_whitelist"
where
  "asset_gate action d w =
     (if truthy (asset_target d) then asset_check (asset_target d) action w else ((False, NoReason), w))"

text \<open>The clock readings of one call: the idempotence check and mark, the route and the TTL.\<close>

record exec_times =
  t_check :: time
  t_route :: time
  t_ttl :: time
  t_ttl' :: time
  t_served :: time
  t_mark :: time

definition finish_live ::
  "('r, 'w) exec_env \<Rightarrow> exec_times \<Rightarrow> string \<Rightarrow> pydict \<Rightarrow> string list \<Rightarrow> string \<Rightarrow> int \<Rightarrow> string \<Rightarrow>
   'w shell \<Rightarrow> shell_out \<Rightarrow> ('r, 'w) exec_state \<Rightarrow> outcome \<times> ('r, 'w) exec_state"
where
  "finish_live env ts action d families platform ttl rid live out st =
     (let raw = (case out of ShDict r \<Rightarrow> sh_success r | _ \<Rightarrow> Some (PyBool True));
          ok = (case raw of None \<Rightarrow> False | Some v \<Rightarrow> truthy v);
          mode = (case out of ShDict r \<Rightarrow> (case sh_mode r of None \<Rightarrow> ''live'' | Some m \<Rightarrow> m) | _ \<Rightarrow> ''live'')
      in if \<not> ok then (NotDone action raw mode, st)
         else
           (case verify (ps_command env) action d families live platform (world st) of (rep, w') \<Rightarrow>
              let (ttl_out, s') =
                    (if 0 < ttl \<and> rid \<noteq> [] then
                       (case ttl_register (ttl_client env) (t_ttl ts) (t_ttl' ts) (t_served ts)
                               rid action d ttl (redis_state st) of (r, s1) \<Rightarrow> (Some r, s1))
                     else (None, redis_state st));
                  s'' = idempotency_mark env (t_mark ts) action d rid s'
              in (Executed action mode (Some rep) ttl_out,
                  st\<lparr>redis_state := s'', world := w'\<rparr>)))"

definition run_command ::
  "('r, 'w) exec_env \<Rightarrow> exec_times \<Rightarrow> string \<Rightarrow> string \<Rightarrow> pydict \<Rightarrow> string list \<Rightarrow> string \<Rightarrow>
   'w shell option \<Rightarrow> int \<Rightarrow> string \<Rightarrow> ('r, 'w) exec_state \<Rightarrow> outcome \<times> ('r, 'w) exec_state"
where
  "run_command env ts action command d families platform live ttl rid st =
     (if router_mode (router st) \<noteq> MODE_LIVE then
        (let fn = (case live of Some f \<Rightarrow> f
                   | None \<Rightarrow> (\<lambda>c w. (ShDict \<lparr>sh_success = Some (PyBool False), sh_mode = None,
                                            sh_stdout = []\<rparr>, w)))
         in case route (router st) action command d fn platform (t_route ts) (world st) of (r, w') \<Rightarrow>
              (Simulated action r, st\<lparr>world := w'\<rparr>))
      else
        (case live of
           None \<Rightarrow> (Blocked action NoExecutor, st)
         | Some f \<Rightarrow>
             (case f command (world st) of
                (ShRaise e, w') \<Rightarrow> (LiveError action e, st\<lparr>world := w'\<rparr>)
              | (out, w') \<Rightarrow>
                  finish_live env ts action d families platform ttl rid f out (st\<lparr>world := w'\<rparr>))))"

text \<open>The checks ahead of the execution, as the code orders them.\<close>

definition safe_execute ::
  "('r, 'w) exec_env \<Rightarrow> exec_times \<Rightarrow> string \<Rightarrow> string \<Rightarrow> pydict \<Rightarrow> string list \<Rightarrow> string \<Rightarrow>
   'w shell option \<Rightarrow> int \<Rightarrow> string \<Rightarrow> bool \<Rightarrow> ('r, 'w) exec_state \<Rightarrow> outcome \<times> ('r, 'w) exec_state"
where
  "safe_execute env ts action command d families platform live ttl rid skip_whitelist st =
     (case py_number (py_get d ''grounding_score'' (PyFloat 1)) of
        None \<Rightarrow> (TypeError, st)
      | Some score \<Rightarrow>
     if score < 4 / 10 then (Blocked action (LowGrounding score), st)
     else
       (let verdict = whitelist_check (rules st) command platform in
        if \<not> skip_whitelist \<and> \<not> fst verdict then (Blocked action (Unlisted (snd (snd verdict))), st)
        else
          (case validate_params action d of
             Some f \<Rightarrow> (Blocked action (BadParam f), st)
           | None \<Rightarrow>
               (let chk = asset_gate action d (asset_list st);
                    st1 = st\<lparr>asset_list := snd chk\<rparr>
                in if fst (fst chk) then (Blocked action (ProtectedAsset (snd (fst chk))), st1)
                   else if idempotency_check env (t_check ts) action d rid (redis_state st1)
                   then (IdempotentSkip action, st1)
                   else run_command env ts action command d families platform live ttl rid st1))))"

section \<open>Lemmas\<close>

fun succeeded :: "outcome \<Rightarrow> bool" where
  "succeeded (Executed a m v t) = True"
| "succeeded _ = False"

text \<open>What the checks ask before anything reaches the host.\<close>

definition cleared ::
  "('r, 'w) exec_env \<Rightarrow> exec_times \<Rightarrow> string \<Rightarrow> string \<Rightarrow> pydict \<Rightarrow> string \<Rightarrow> string \<Rightarrow> bool \<Rightarrow>
   ('r, 'w) exec_state \<Rightarrow> bool"
where
  "cleared env ts action command d platform rid skip st \<longleftrightarrow>
     (\<exists>score. py_number (py_get d ''grounding_score'' (PyFloat 1)) = Some score \<and> 4 / 10 \<le> score) \<and>
     (skip \<or> fst (whitelist_check (rules st) command platform)) \<and>
     validate_params action d = None \<and>
     \<not> protected (asset_target d) (asset_list st) \<and>
     \<not> idempotency_check env (t_check ts) action d rid (redis_state st)"

lemma protected_falsy: "\<not> truthy v \<Longrightarrow> \<not> protected v w"
  by (simp add: protected_iff)


definition asset_step :: "string \<Rightarrow> pydict \<Rightarrow> ('r, 'w) exec_state \<Rightarrow> ('r, 'w) exec_state" where
  "asset_step action d st = st\<lparr>asset_list := snd (asset_gate action d (asset_list st))\<rparr>"

lemma asset_step_sel [simp]:
  "rules (asset_step a d st) = rules st" "router (asset_step a d st) = router st"
  "redis_state (asset_step a d st) = redis_state st" "world (asset_step a d st) = world st"
  by (simp_all add: asset_step_def)

lemma gate_protected: "fst (fst (asset_gate action d w)) = protected (asset_target d) w"
  by (simp add: asset_gate_def asset_check_fst protected_falsy)

lemma cleared_runs:
  assumes "cleared env ts action command d platform rid skip st"
  shows "safe_execute env ts action command d families platform live ttl rid skip st =
     run_command env ts action command d families platform live ttl rid (asset_step action d st)"
  using assms unfolding safe_execute_def cleared_def Let_def gate_protected asset_step_def
  by (elim conjE exE) auto

lemma not_cleared_stops:
  assumes "\<not> cleared env ts action command d platform rid skip st"
  shows "snd (safe_execute env ts action command d families platform live ttl rid skip st)
       \<in> {st, asset_step action d st}
     \<and> fst (safe_execute env ts action command d families platform live ttl rid skip st)
       \<in> {TypeError, IdempotentSkip action} \<union> range (Blocked action)"
  using assms unfolding safe_execute_def cleared_def Let_def gate_protected asset_step_def
  by (cases "py_number (py_get d ''grounding_score'' (PyFloat 1))"; cases "validate_params action d")
    auto

lemma asset_step_protected:
  "protected v (asset_list (asset_step action d st)) = protected v (asset_list st)"
  by (auto simp: asset_step_def asset_gate_def asset_check_def Let_def protected_iff
      split: option.splits)

lemma cleared_asset_step:
  "cleared env ts action command d platform rid skip (asset_step a d' st) =
   cleared env ts action command d platform rid skip st"
  by (simp add: cleared_def asset_step_protected)

lemma finish_live_keeps:
  "rules (snd (finish_live env ts action d fams pl ttl rid f out st)) = rules st"
  "asset_list (snd (finish_live env ts action d fams pl ttl rid f out st)) = asset_list st"
  "router (snd (finish_live env ts action d fams pl ttl rid f out st)) = router st"
  by (simp_all add: finish_live_def Let_def split_beta)

lemma run_command_keeps:
  "rules (snd (run_command env ts action command d fams pl live ttl rid st)) = rules st"
  "asset_list (snd (run_command env ts action command d fams pl live ttl rid st)) = asset_list st"
  "router (snd (run_command env ts action command d fams pl live ttl rid st)) = router st"
  by (auto simp: run_command_def Let_def split_beta finish_live_keeps split: option.splits shell_out.splits)

lemma run_command_simulated:
  assumes "router_mode (router st) \<noteq> MODE_LIVE" and "router_ok (router st)"
  shows "snd (run_command env ts action command d fams pl live ttl rid st) = st"
    and "\<exists>r. fst (run_command env ts action command d fams pl live ttl rid st) = Simulated action r"
  using assms by (simp_all add: run_command_def Let_def split_beta route_simulated)

lemma run_command_no_executor:
  "router_mode (router st) = MODE_LIVE \<Longrightarrow>
   run_command env ts action command d fams pl None ttl rid st = (Blocked action NoExecutor, st)"
  by (simp add: run_command_def)

lemma run_command_marks:
  assumes "succeeded (fst (run_command env ts action command d fams pl live ttl rid st))"
    and "idem_client env = Some R"
  shows "\<exists>s. redis_state (snd (run_command env ts action command d fams pl live ttl rid st)) =
    r_set R (t_mark ts) (idem_key env action d rid) (Flag ''1'') 86400 s"
  using assms
  by (auto simp: run_command_def finish_live_def Let_def split_beta idempotency_mark_def
      split: option.splits shell_out.splits if_splits)

section \<open>Properties\<close>

text \<open>
  C1. The gates hold: when a call changes anything on the remote host, the mode is live, an
  executor was given, the grounding score was at least 0.4, the command was whitelisted (or the
  caller opted out), the parameters were valid, the target was no protected asset and the call
  was not a replay.
\<close>

theorem nothing_reaches_host_uncleared:
  assumes "router_ok (router st)"
    and "world (snd (safe_execute env ts action command d families platform live ttl rid skip st)) \<noteq> world st"
  shows "router_mode (router st) = MODE_LIVE \<and> live \<noteq> None
     \<and> (\<exists>score. py_number (py_get d ''grounding_score'' (PyFloat 1)) = Some score \<and> 4 / 10 \<le> score)
     \<and> (skip \<or> fst (whitelist_check (rules st) command platform))
     \<and> validate_params action d = None
     \<and> \<not> protected (asset_target d) (asset_list st)
     \<and> \<not> idempotency_check env (t_check ts) action d rid (redis_state st)"
proof -
  have c: "cleared env ts action command d platform rid skip st"
    using assms(2) not_cleared_stops [of env ts action command d platform rid skip st families live ttl]
    by fastforce
  let ?st = "asset_step action d st"
  have changed: "world (snd (run_command env ts action command d families platform live ttl rid ?st)) \<noteq> world ?st"
    using assms(2) by (simp add: cleared_runs [OF c])
  then have "router_mode (router st) = MODE_LIVE"
    using run_command_simulated(1) [of ?st] assms(1) by fastforce
  moreover from this changed have "live \<noteq> None"
    by (cases live) (simp_all add: run_command_no_executor)
  ultimately show ?thesis using c unfolding cleared_def by blast
qed

text \<open>
  Dry run and mock are dry: outside the live mode no call changes the remote host or the
  Redis store, whatever its arguments.
\<close>

theorem simulated_modes_change_nothing:
  assumes "router_ok (router st)" and "router_mode (router st) \<noteq> MODE_LIVE"
  shows "world (snd (safe_execute env ts action command d families platform live ttl rid skip st)) = world st
     \<and> redis_state (snd (safe_execute env ts action command d families platform live ttl rid skip st))
         = redis_state st"
proof (cases "cleared env ts action command d platform rid skip st")
  case True
  then show ?thesis
    using assms run_command_simulated(1) [of "asset_step action d st"] by (simp add: cleared_runs)
next
  case False
  from not_cleared_stops [OF this] show ?thesis
    by (metis asset_step_sel(3,4) insertE singletonD)
qed

text \<open>
  Replays are skipped: after a successful live execution, the same call within the next
  86400 seconds is answered as an idempotent skip and changes nothing.
\<close>

theorem replay_skipped:
  assumes "redis_laws R" and "idem_client env = Some R"
    and "succeeded (fst (safe_execute env ts action command d families platform live ttl rid skip st))"
    and "t_mark ts \<le> t_check ts'" and "t_check ts' < t_mark ts + 86400"
  defines "st1 \<equiv> snd (safe_execute env ts action command d families platform live ttl rid skip st)"
  shows "fst (safe_execute env ts' action command d families' platform live' ttl' rid skip st1) =
       IdempotentSkip action
     \<and> world (snd (safe_execute env ts' action command d families' platform live' ttl' rid skip st1)) = world st1"
proof -
  have c: "cleared env ts action command d platform rid skip st"
    using assms(3) not_cleared_stops [of env ts action command d platform rid skip st families live ttl]
    by fastforce
  note run = cleared_runs [OF c, of families live ttl]
  obtain s where s: "redis_state st1 =
      r_set R (t_mark ts) (idem_key env action d rid) (Flag ''1'') 86400 s"
    using run_command_marks [OF _ assms(2)] assms(3) unfolding st1_def run by blast
  have hit: "idempotency_check env (t_check ts') action d rid (redis_state st1)"
    unfolding idempotency_check_def s assms(2)
    using redis_service.get_set [OF redis_service.intro [OF assms(1)]] assms(4,5) by simp
  have same: "rules st1 = rules st" "protected v (asset_list st1) = protected v (asset_list st)" for v
    unfolding st1_def run run_command_keeps by (simp_all add: asset_step_protected)
  let ?r = "safe_execute env ts' action command d families' platform live' ttl' rid skip st1"
  have "?r = (IdempotentSkip action, asset_step action d st1)"
    using c hit
    unfolding safe_execute_def cleared_def Let_def gate_protected asset_step_def same
    by (elim conjE exE) auto
  then show ?thesis by simp
qed

text \<open>
  C28. An empty \<open>src_ip\<close> turns the asset protection off: the target is then the empty text, so a
  call that passes the other gates runs its command although \<open>host_ip\<close> is protected.
\<close>

theorem empty_src_ip_disarms_protection:
  assumes "map_of d ''src_ip'' = Some (PyStr [])"
    and "py_number (py_get d ''grounding_score'' (PyFloat 1)) = Some score" and "4 / 10 \<le> score"
    and "fst (whitelist_check (rules st) command platform)" and "validate_params action d = None"
    and "\<not> idempotency_check env (t_check ts) action d rid (redis_state st)"
  shows "safe_execute env ts action command d families platform live ttl rid False st =
     run_command env ts action command d families platform live ttl rid st"
proof -
  have t: "asset_target d = PyStr []" using assms(1) by (simp add: asset_target_def py_get_def)
  then have "cleared env ts action command d platform rid False st"
    using assms by (simp add: cleared_def protected_falsy)
  from cleared_runs [OF this] show ?thesis by (simp add: asset_step_def asset_gate_def t)
qed

section \<open>Applications\<close>

definition demo_env :: "(redis_value mem_store, nat) exec_env" where
  "demo_env = \<lparr>idem_client = Some mem_redis, ttl_client = Some mem_redis, hash_params = (\<lambda>_. ''h''),
     floats = \<lparr>repr_float = (\<lambda>_. ''f''), fixed2 = (\<lambda>_. ''f''), repr_strs = (\<lambda>_. ''l'')\<rparr>, ps_command = id\<rparr>"

definition demo_state :: "string \<Rightarrow> (redis_value mem_store, nat) exec_state" where
  "demo_state mode = \<lparr>rules = new_command_whitelist, asset_list = new_asset_whitelist,
     router = new_router mode, redis_state = empty_store, world = 0\<rparr>"

definition demo_times :: "time \<Rightarrow> exec_times" where
  "demo_times t = \<lparr>t_check = t, t_route = t, t_ttl = t, t_ttl' = t, t_served = t, t_mark = t\<rparr>"

definition demo_shell :: "nat shell" where
  "demo_shell c w = (ShDict \<lparr>sh_success = Some (PyBool True), sh_mode = None, sh_stdout = c\<rparr>, Suc w)"

definition demo_call :: "time \<Rightarrow> string \<Rightarrow> (redis_value mem_store, nat) exec_state \<Rightarrow>
    outcome \<times> (redis_value mem_store, nat) exec_state" where
  "demo_call t pref st = safe_execute demo_env (demo_times t) ''vulnerability_scan''
     ''nmap -F 10.0.0.9'' [(''target'', PyStr ''10.0.0.9'')] [] ''linux'' (Some demo_shell) 0 pref False st"

lemma demo_runs:
  "world (snd (demo_call 5 ''r'' (demo_state ''live''))) = 1 \<and>
   succeeded (fst (demo_call 5 ''r'' (demo_state ''live'')))"
  by code_simp

lemma demo_router: "router_ok (router (demo_state m))"
  by (simp add: demo_state_def)

theorem nothing_reaches_host_uncleared_witness:
  "world (snd (demo_call 5 ''r'' (demo_state ''live''))) \<noteq> world (demo_state ''live'')
   \<and> fst (whitelist_check (rules (demo_state ''live'')) ''nmap -F 10.0.0.9'' ''linux'')"
proof
  show ran: "world (snd (demo_call 5 ''r'' (demo_state ''live''))) \<noteq> world (demo_state ''live'')"
    using demo_runs by (simp add: demo_state_def)
  show "fst (whitelist_check (rules (demo_state ''live'')) ''nmap -F 10.0.0.9'' ''linux'')"
    using nothing_reaches_host_uncleared [OF demo_router ran [unfolded demo_call_def]] by simp
qed

theorem simulated_modes_change_nothing_witness:
  "router_mode (router (demo_state ''dry_run'')) \<noteq> MODE_LIVE
   \<and> world (snd (demo_call 5 ''r'' (demo_state ''dry_run''))) = 0"
proof
  show dry: "router_mode (router (demo_state ''dry_run'')) \<noteq> MODE_LIVE" by code_simp
  show "world (snd (demo_call 5 ''r'' (demo_state ''dry_run''))) = 0"
    unfolding demo_call_def
    by (subst conjunct1 [OF simulated_modes_change_nothing [OF demo_router dry]])
      (simp add: demo_state_def)
qed

theorem replay_skipped_witness:
  "fst (demo_call 90 ''r'' (snd (demo_call 5 ''r'' (demo_state ''live'')))) =
     IdempotentSkip ''vulnerability_scan''"
  unfolding demo_call_def
  by (rule conjunct1 [OF replay_skipped [OF mem_redis_laws]])
    (use demo_runs in \<open>simp_all add: demo_env_def demo_times_def demo_call_def\<close>)

theorem empty_src_ip_disarms_protection_witness:
  "fst (fst (asset_check (PyStr ''127.0.0.1'') ''isolate_host'' (asset_list (demo_state ''live''))))
   \<and> safe_execute demo_env (demo_times 5) ''isolate_host'' ''iptables -I INPUT -s 127.0.0.1 -j DROP''
       [(''src_ip'', PyStr []), (''host_ip'', PyStr ''127.0.0.1'')] [] ''linux'' (Some demo_shell) 0 ''r''
       False (demo_state ''live'') =
     run_command demo_env (demo_times 5) ''isolate_host'' ''iptables -I INPUT -s 127.0.0.1 -j DROP''
       [(''src_ip'', PyStr []), (''host_ip'', PyStr ''127.0.0.1'')] [] ''linux'' (Some demo_shell) 0 ''r''
       (demo_state ''live'')"
proof
  show "fst (fst (asset_check (PyStr ''127.0.0.1'') ''isolate_host'' (asset_list (demo_state ''live''))))"
    by code_simp
  have "fst (whitelist_check (rules (demo_state ''live'')) ''iptables -I INPUT -s 127.0.0.1 -j DROP'' ''linux'')"
    by code_simp
  moreover have "validate_params ''isolate_host'' [(''src_ip'', PyStr []), (''host_ip'', PyStr ''127.0.0.1'')] = None"
    by code_simp
  moreover have "\<not> idempotency_check demo_env (t_check (demo_times 5)) ''isolate_host''
      [(''src_ip'', PyStr []), (''host_ip'', PyStr ''127.0.0.1'')] ''r'' (redis_state (demo_state ''live''))"
    by code_simp
  ultimately show "safe_execute demo_env (demo_times 5) ''isolate_host''
       ''iptables -I INPUT -s 127.0.0.1 -j DROP''
       [(''src_ip'', PyStr []), (''host_ip'', PyStr ''127.0.0.1'')] [] ''linux'' (Some demo_shell) 0 ''r''
       False (demo_state ''live'') =
     run_command demo_env (demo_times 5) ''isolate_host'' ''iptables -I INPUT -s 127.0.0.1 -j DROP''
       [(''src_ip'', PyStr []), (''host_ip'', PyStr ''127.0.0.1'')] [] ''linux'' (Some demo_shell) 0 ''r''
       (demo_state ''live'')"
    by (intro empty_src_ip_disarms_protection [where score = 1]) simp_all
qed

end
