(* ===== verification/ResponseActions.thy ===== *)
theory ResponseActions
  imports ResponseExecutor ResponseRegistry SafeExecutor FirewallDns
begin

text \<open>
  The actions of the registry (\<open>src/backend/response_engine/response_registry.py\<close>): blocking,
  isolation and the DNS sinkhole, which drive the firewall adapter directly, and rate limiting,
  session kills and alerts, which build a PowerShell script and go through the safe executor; their
  undo functions; the automatic rollback; and the preview (\<open>preview.py\<close>).  The SSH connection,
  the shell transport and the webhook are parameters.  Addresses and texts are passed as text;
  another value where the code calls a text method raises.  The result dicts keep the keys that
  the executor reads; Chinese message texts are in English.
\<close>

section \<open>State and environment\<close>

text \<open>
  The firewall and the safe executor use the same whitelist and asset list: the executor's copy is
  the one kept, and a firewall call works on it.  \<open>rw_mode\<close> is \<open>settings.execution_mode\<close> and
  \<open>rw_preview\<close> the preview flag; \<open>rw_timers\<close> are the scheduled rollbacks; \<open>rw_draws\<close> counts
  the random draws.
\<close>

record ('r, 'v, 'w) response_world =
  rw_fw :: "'w firewall"
  rw_exec :: "('r, 'v) exec_state"
  rw_timers :: "(string \<times> int) list"
  rw_mode :: string
  rw_preview :: bool
  rw_draws :: nat
  rw_alerts :: "(string \<times> string \<times> string \<times> string) list"

record transport_out =
  to_success :: bool
  to_stdout :: string
  to_stderr :: string

record ('r, 'v, 'w) action_env =
  ae_ssh :: "'w ssh"
  ae_connect :: "'w firewall \<Rightarrow> string option \<times> 'w firewall"
  ae_draw :: "nat \<Rightarrow> nat"
  ae_marker :: "string \<Rightarrow> string"
  ae_exec :: "('r, 'v) exec_env"
  ae_times :: "nat \<Rightarrow> exec_times"
  ae_transport_mode :: string
  ae_transport_enabled :: bool
  ae_run :: "bool \<Rightarrow> string \<Rightarrow> 'v \<Rightarrow> transport_out \<times> 'v"
  ae_post :: "string \<Rightarrow> string \<times> string \<times> string \<Rightarrow> string + int"
  ae_sink4 :: string
  ae_sink6 :: string

definition execution_mode :: "('r, 'v, 'w) response_world \<Rightarrow> string" where
  "execution_mode st = (if rw_preview st then ''dry_run'' else if rw_mode st = [] then ''live'' else rw_mode st)"

definition with_fw ::
  "('w firewall \<Rightarrow> 'a \<times> 'w firewall) \<Rightarrow> ('r, 'v, 'w) response_world \<Rightarrow> 'a \<times> ('r, 'v, 'w) response_world"
where
  "with_fw f st =
     (case f ((rw_fw st)\<lparr>fw_assets := asset_list (rw_exec st), fw_commands := rules (rw_exec st)\<rparr>) of
        (x, fw') \<Rightarrow> (x, st\<lparr>rw_fw := fw', rw_exec := (rw_exec st)\<lparr>asset_list := fw_assets fw'\<rparr>\<rparr>))"

text \<open>\<open>_ensure_firewall_connected\<close>: an error text, or ready.\<close>

definition ensure_connected ::
  "('r, 'v, 'w) action_env \<Rightarrow> ('r, 'v, 'w) response_world \<Rightarrow> string option \<times> ('r, 'v, 'w) response_world"
where
  "ensure_connected env st =
     (if client_up (rw_fw st) then (None, st) else with_fw (ae_connect env) st)"

section \<open>Checking arguments\<close>

definition validated_ip :: "pydict \<Rightarrow> string \<Rightarrow> string option" where
  "validated_ip d k =
     (case py_get d k PyNone of PyStr s \<Rightarrow> if ip_address s \<noteq> None then Some s else None | _ \<Rightarrow> None)"

definition positive_int :: "pydict \<Rightarrow> string \<Rightarrow> int \<Rightarrow> int option" where
  "positive_int d k dflt =
     (case py_get d k (PyInt dflt) of
        PyInt n \<Rightarrow> if n < 0 then None else Some n
      | PyBool b \<Rightarrow> Some (if b then 1 else 0)
      | _ \<Rightarrow> None)"

definition safe_char :: "char \<Rightarrow> bool" where
  "safe_char c = (alnum c \<or> c \<in> set ''_.-:/ '')"

definition validate_alphanumeric :: "string \<Rightarrow> nat \<Rightarrow> string" where
  "validate_alphanumeric s n = take n (filter safe_char s)"

definition backtick :: char where "backtick = CHR 0x60"
definition dquote :: char where "dquote = CHR 0x22"
definition dollar :: char where "dollar = CHR ''$''"

text \<open>The five replacements act on different characters, so they can be read character by character.\<close>

definition ps_escape :: "char \<Rightarrow> string" where
  "ps_escape c =
     (if c \<in> {backtick, dquote, dollar} then [backtick, c]
      else if c = CHR 0x0A \<or> c = CHR 0x0D then '' '' else [c])"

definition sanitize_powershell :: "string \<Rightarrow> string" where
  "sanitize_powershell s = concat (List.map ps_escape s)"

definition validate_domain :: "string \<Rightarrow> string option" where
  "validate_domain domain =
     (let d = strip domain in
      if d = [] \<or> 253 < length d \<or> \<not> list_all dom_char d \<or> contains ''..'' d
         \<or> hd d \<in> set ''-.'' \<or> last d \<in> set ''-.''
      then None else Some d)"

definition insert_family :: "string list \<Rightarrow> string \<Rightarrow> string list" where
  "insert_family fs f = (if f \<in> set fs then fs else fs @ [f])"

text \<open>\<open>_families_for\<close>; \<open>None\<close> when one of the addresses is none.\<close>

fun families_for :: "string list \<Rightarrow> string list \<Rightarrow> string list option" where
  "families_for [] fs = Some (filter (\<lambda>f. f \<in> set fs) [FAMILY_IPV4, FAMILY_IPV6])"
| "families_for (raw # raws) fs =
     (if strip raw = [] then families_for raws fs
      else (case ip_address (strip raw) of
              None \<Rightarrow> None
            | Some a \<Rightarrow> families_for raws (insert_family fs (family_of_addr a))))"

definition same_host :: "string \<Rightarrow> string \<Rightarrow> bool" where
  "same_host record_ip target =
     (let a = strip record_ip; b = strip target in
      if a = [] \<or> b = [] then False
      else if a = b then True
      else (case (ip_address a, ip_address b) of (Some x, Some y) \<Rightarrow> x = y | _ \<Rightarrow> False))"

text \<open>\<open>str(v or "")\<close>.\<close>

definition text_or_empty :: "text_env \<Rightarrow> pyval \<Rightarrow> string" where
  "text_or_empty te v = py_str te (py_or v (PyStr []))"

section \<open>Results\<close>

definition done_out :: "string \<Rightarrow> action_out" where
  "done_out mode = plain_out\<lparr>ao_success := Some True, ao_mode := mode\<rparr>"

definition fail_out :: "string \<Rightarrow> string \<Rightarrow> action_out" where
  "fail_out mode e = plain_out\<lparr>ao_success := Some False, ao_mode := mode, ao_error := e\<rparr>"

definition fw_mode :: string where "fw_mode = ''ssh_firewall_paramiko''"

section \<open>block_ip and unblock_ip\<close>

definition schedule :: "string \<Rightarrow> int \<Rightarrow> ('r, 'v, 'w) response_world \<Rightarrow> ('r, 'v, 'w) response_world" where
  "schedule rid minutes st =
     (if 0 < minutes then st\<lparr>rw_timers := rw_timers st @ [(rid, minutes * 60)]\<rparr> else st)"

definition draw :: "('r, 'v, 'w) action_env \<Rightarrow> ('r, 'v, 'w) response_world \<Rightarrow> nat \<times> ('r, 'v, 'w) response_world" where
  "draw env st = (ae_draw env (rw_draws st), st\<lparr>rw_draws := Suc (rw_draws st)\<rparr>)"

type_synonym ('r, 'v, 'w) act = "('r, 'v, 'w) response_world action_fn"

definition block_ip :: "('r, 'v, 'w) action_env \<Rightarrow> ('r, 'v, 'w) act" where
  "block_ip env d st =
     (case (validated_ip d ''src_ip'', positive_int d ''duration_minutes'' 60) of
        (Some ip, Some minutes) \<Rightarrow>
          if execution_mode st \<noteq> ''live'' then (Inr (done_out (execution_mode st)), st)
          else (case ensure_connected env st of
                  (Some e, st1) \<Rightarrow> (Inr (fail_out ''error'' e), st1)
                | (None, st1) \<Rightarrow>
                    (case draw env st1 of (n, st2) \<Rightarrow>
                       (case with_fw (fw_block_ip (ae_ssh env) n ip (minutes * 60)) st2 of
                          (BlockDone rid nip family dur, st3) \<Rightarrow> (Inr (done_out fw_mode), schedule rid minutes st3)
                        | (_, st3) \<Rightarrow> (Inr (fail_out fw_mode []), st3))))
      | _ \<Rightarrow> (Inl ''ValueError'', st))"

fun undo_rules ::
  "('r, 'v, 'w) action_env \<Rightarrow> (string \<times> fw_rule) list \<Rightarrow> nat \<Rightarrow> ('r, 'v, 'w) response_world \<Rightarrow>
   nat \<times> ('r, 'v, 'w) response_world"
where
  "undo_rules env [] n st = (n, st)"
| "undo_rules env ((rid, r) # rs) n st =
     (case with_fw (fw_rollback (ae_ssh env) rid) st of
        (rb, st') \<Rightarrow> undo_rules env rs (n + (if rb_success rb then rb_deleted rb else 0)) st')"

definition unblock_ip :: "('r, 'v, 'w) action_env \<Rightarrow> ('r, 'v, 'w) act" where
  "unblock_ip env d st =
     (case map_of d ''src_ip'' of
        None \<Rightarrow> (Inl ''TypeError'', st)
      | Some v \<Rightarrow>
          if execution_mode st \<noteq> ''live'' then (Inr (done_out (execution_mode st)), st)
          else (let target = text_or_empty (floats (ae_exec env)) v;
                    mine = filter (\<lambda>(rid, r). fr_status r = Active \<and> fr_ip r \<noteq> [] \<and> same_host (fr_ip r) target)
                             (get_active_rules (rw_fw st))
                in case undo_rules env mine 0 st of
                     (n, st') \<Rightarrow> (Inr ((done_out fw_mode)\<lparr>ao_success := Some (0 < n), ao_deleted := n\<rparr>), st')))"

text \<open>\<open>_auto_rollback\<close>, when a timer fires.\<close>

definition auto_rollback ::
  "('r, 'v, 'w) action_env \<Rightarrow> string \<Rightarrow> ('r, 'v, 'w) response_world \<Rightarrow> ('r, 'v, 'w) response_world"
where
  "auto_rollback env rid st = snd (with_fw (fw_rollback (ae_ssh env) rid) st)"

section \<open>isolate_host and restore_host\<close>

text \<open>\<open>[extra]\<close> for text, the texts of a list; another true value cannot be iterated.\<close>

definition extra_list :: "pyval \<Rightarrow> string list option" where
  "extra_list v = (case v of PyStr s \<Rightarrow> Some [s] | PyStrs xs \<Rightarrow> Some xs | _ \<Rightarrow> if truthy v then None else Some [])"

definition isolate_host :: "('r, 'v, 'w) action_env \<Rightarrow> ('r, 'v, 'w) act" where
  "isolate_host env d st =
     (case (validated_ip d ''host_ip'', positive_int d ''duration_minutes'' 0,
            extra_list (py_get d ''extra_ips'' PyNone)) of
        (Some ip, Some minutes, Some extra) \<Rightarrow>
          if execution_mode st \<noteq> ''live'' then
            (case families_for (ip # extra) [] of
               None \<Rightarrow> (Inl ''ValueError'', st)
             | Some fams \<Rightarrow> (Inr ((done_out (execution_mode st))\<lparr>ao_complete := Some True\<rparr>), st))
          else (case ensure_connected env st of
                  (Some e, st1) \<Rightarrow> (Inr (fail_out ''error'' e), st1)
                | (None, st1) \<Rightarrow>
                    (case draw env st1 of (n, st2) \<Rightarrow>
                       (case with_fw (fw_isolate_host (ae_ssh env) n ip extra) st2 of
                          (IsoResult r, st3) \<Rightarrow>
                            (Inr ((done_out fw_mode)\<lparr>ao_success := Some (iso_success r), ao_complete := Some (iso_complete r)\<rparr>),
                             if iso_success r then fold (\<lambda>rid. schedule rid minutes) (iso_rule_ids r) st3 else st3)
                        | (_, st3) \<Rightarrow> (Inr ((fail_out fw_mode [])\<lparr>ao_complete := Some False\<rparr>), st3))))
      | _ \<Rightarrow> (Inl ''ValueError'', st))"

definition restore_host :: "('r, 'v, 'w) action_env \<Rightarrow> ('r, 'v, 'w) act" where
  "restore_host env d st =
     (case map_of d ''host_ip'' of
        None \<Rightarrow> (Inl ''TypeError'', st)
      | Some v \<Rightarrow>
          if execution_mode st \<noteq> ''live'' then (Inr (done_out (execution_mode st)), st)
          else (let target = text_or_empty (floats (ae_exec env)) v;
                    mine = filter (\<lambda>(rid, r). same_host (fr_ip r) target) (get_active_rules (rw_fw st))
                in case undo_rules env mine 0 st of
                     (n, st') \<Rightarrow> (Inr ((done_out fw_mode)\<lparr>ao_deleted := n, ao_idempotent := (n = 0)\<rparr>), st')))"


section \<open>dns_sinkhole and its removal\<close>

definition resolved_list :: "pyval \<Rightarrow> string list" where
  "resolved_list v = (case v of PyStr s \<Rightarrow> [s] | PyStrs xs \<Rightarrow> xs | _ \<Rightarrow> [])"

text \<open>The blocks of the resolved addresses: \<open>None\<close> when one of them raises.\<close>

fun block_resolved ::
  "('r, 'v, 'w) action_env \<Rightarrow> pyval \<Rightarrow> string list \<Rightarrow> ('r, 'v, 'w) response_world \<Rightarrow>
   bool list option \<times> ('r, 'v, 'w) response_world"
where
  "block_resolved env minutes [] st = (Some [], st)"
| "block_resolved env minutes (ip # ips) st =
     (case block_ip env [(''src_ip'', PyStr ip), (''duration_minutes'', minutes)] st of
        (Inl e, st') \<Rightarrow> (None, st')
      | (Inr out, st') \<Rightarrow>
          (case block_resolved env minutes ips st' of
             (oks, st'') \<Rightarrow> (map_option (Cons (ao_success out = Some True)) oks, st'')))"

definition or_setting :: "text_env \<Rightarrow> pyval \<Rightarrow> string \<Rightarrow> string" where
  "or_setting te v dflt = (let s = (if truthy v then strip (py_str te v) else []) in if s \<noteq> [] then s else dflt)"

definition given :: "string \<Rightarrow> string option" where
  "given s = (if s = [] then None else Some s)"

definition dns_sinkhole :: "('r, 'v, 'w) action_env \<Rightarrow> ('r, 'v, 'w) act" where
  "dns_sinkhole env d st =
     (let te = floats (ae_exec env) in
      case validate_domain (text_or_empty te (py_get d ''domain'' (PyStr []))) of
        None \<Rightarrow> (Inr (fail_out ''invalid'' ''domain''), st)
      | Some domain \<Rightarrow>
          (let v4 = or_setting te (py_get d ''ipv4'' (PyStr [])) (ae_sink4 env);
               v6 = or_setting te (py_get d ''ipv6'' (PyStr [])) (ae_sink6 env);
               ips = resolved_list (py_get d ''resolved_ip'' PyNone);
               m0 = strip (text_or_empty te (py_get d ''marker_id'' (PyStr [])));
               marker = (if m0 \<noteq> [] then m0 else ae_marker env domain)
           in if list_ex (\<lambda>s. s \<noteq> [] \<and> ip_address s = None) [v4, v6] \<or> list_ex (\<lambda>s. ip_address s = None) ips
              then (Inr (fail_out ''invalid'' ''address''), st)
              else if execution_mode st \<noteq> ''live'' then (Inr (done_out (execution_mode st)), st)
              else (case ensure_connected env st of
                (Some e, st1) \<Rightarrow> (Inr (fail_out ''unconfigured'' e), st1)
              | (None, st1) \<Rightarrow>
                  (case with_fw (fw_sinkhole (ae_ssh env) (ae_marker env) domain (given v4) (given v6) marker) st1 of
                     (None, st2) \<Rightarrow> (Inr (fail_out ''error'' ''AttributeError''), st2)
                   | (Some r, st2) \<Rightarrow>
                       if sk_mode r \<noteq> SinkLive then (Inr ((fail_out fw_mode [])\<lparr>ao_complete := Some False\<rparr>), st2)
                       else (case block_resolved env (py_get d ''duration_minutes'' (PyInt 0)) ips st2 of
                               (None, st3) \<Rightarrow> (Inl ''ValueError'', st3)
                             | (Some oks, st3) \<Rightarrow>
                                 (Inr ((done_out fw_mode)\<lparr>ao_complete := Some (list_all id oks)\<rparr>), st3))))))"

definition unsinkhole_domain :: "('r, 'v, 'w) action_env \<Rightarrow> ('r, 'v, 'w) act" where
  "unsinkhole_domain env d st =
     (let te = floats (ae_exec env);
          raw = strip (text_or_empty te (py_get d ''domain'' (PyStr [])));
          m0 = strip (text_or_empty te (py_get d ''marker_id'' (PyStr [])))
      in if raw \<noteq> [] \<and> validate_domain raw = None then (Inr (fail_out ''invalid'' ''domain''), st)
         else (let marker = (if m0 \<noteq> [] then m0 else if raw \<noteq> [] then ae_marker env raw else []) in
               if execution_mode st \<noteq> ''live'' then (Inr (done_out (execution_mode st)), st)
               else (case ensure_connected env st of
                       (Some e, st1) \<Rightarrow> (Inr (fail_out ''unconfigured'' e), st1)
                     | (None, st1) \<Rightarrow>
                         (case with_fw (fw_unsinkhole (ae_ssh env) (ae_marker env) raw marker) st1 of
                            (r, st2) \<Rightarrow>
                              (Inr (if sk_mode r = SinkLive then done_out fw_mode else fail_out fw_mode []), st2)))))"

section \<open>Through the safe executor\<close>

text \<open>
  \<open>_live_fn\<close>: over the transport, or the stub when it is off or (in \<open>auto\<close> mode) fails.  The
  stub's dict has no \<open>success\<close>; a field called \<open>mode\<close> overrides the mode.
\<close>

definition mode_of_fields :: "text_env \<Rightarrow> pydict \<Rightarrow> string \<Rightarrow> string" where
  "mode_of_fields te flds m = py_str te (py_get flds ''mode'' (PyStr m))"

definition live_shell :: "('r, 'v, 'w) action_env \<Rightarrow> string \<Rightarrow> pydict \<Rightarrow> 'v shell" where
  "live_shell env platform flds cmd v =
     (let mode_in = mode_of_fields (floats (ae_exec env)) flds;
          stub = ShDict \<lparr>sh_success = None, sh_mode = Some (mode_in ''stub''), sh_stdout = []\<rparr>
      in if ae_transport_mode env = ''ssh'' \<or> (ae_transport_mode env = ''auto'' \<and> ae_transport_enabled env)
         then (case ae_run env (platform \<noteq> ''linux'') cmd v of
                 (r, v') \<Rightarrow>
                   (if to_success r \<or> ae_transport_mode env = ''ssh''
                    then ShDict \<lparr>sh_success = Some (PyBool (to_success r)), sh_mode = Some (mode_in ''ssh''),
                                 sh_stdout = to_stdout r\<rparr>
                    else stub, v'))
         else (stub, v))"

fun outcome_out :: "outcome \<Rightarrow> string + action_out" where
  "outcome_out TypeError = Inl ''TypeError''"
| "outcome_out (Blocked a r) = Inr (fail_out ''blocked'' [])"
| "outcome_out (IdempotentSkip a) = Inr ((done_out ''idempotent_skip'')\<lparr>ao_idempotent := True\<rparr>)"
| "outcome_out (Simulated a (DryRun a' c p d t)) = Inr (done_out MODE_DRY_RUN)"
| "outcome_out (Simulated a (Mocked a' d m t)) = Inr (done_out MODE_MOCK)"
| "outcome_out (Simulated a (Live out)) = Inr plain_out"
| "outcome_out (LiveError a e) = Inr (fail_out MODE_LIVE e)"
| "outcome_out (NotDone a raw mode) =
     Inr (plain_out\<lparr>ao_success := (if raw = Some (PyBool False) then Some False else None), ao_mode := mode\<rparr>)"
| "outcome_out (Executed a mode v t) = Inr (done_out mode)"

definition exec_safely ::
  "('r, 'v, 'w) action_env \<Rightarrow> string \<Rightarrow> string \<Rightarrow> pydict \<Rightarrow> ('r, 'v, 'w) response_world \<Rightarrow>
   (string + action_out) \<times> ('r, 'v, 'w) response_world"
where
  "exec_safely env action script flds st =
     (case safe_execute (ae_exec env) (ae_times env (rw_draws st)) action (ps_command (ae_exec env) script)
             flds [] ''windows'' (Some (live_shell env ''windows'' flds)) 0 [] False (rw_exec st) of
        (out, ex) \<Rightarrow> (outcome_out out, st\<lparr>rw_exec := ex, rw_draws := Suc (rw_draws st)\<rparr>))"

text \<open>Texts with line ends, and double-quoted PowerShell strings.\<close>

fun script_lines :: "string list \<Rightarrow> string" where
  "script_lines [] = []"
| "script_lines [l] = l"
| "script_lines (l # ls) = l @ CHR 0x0A # script_lines ls"

definition ps_string :: "string \<Rightarrow> string" where
  "ps_string s = dquote # s @ [dquote]"

definition under_scores :: "string \<Rightarrow> string" where
  "under_scores s = List.map (\<lambda>c. if c = CHR ''.'' then CHR ''_'' else c) s"

definition qos_name :: "string \<Rightarrow> string" where
  "qos_name ip = ''RE_RateLimit_'' @ under_scores ip"

definition rate_limit_script :: "string \<Rightarrow> int \<Rightarrow> string \<Rightarrow> string" where
  "rate_limit_script ip kbps reason = script_lines
     [''$name = '' @ ps_string (sanitize_powershell (qos_name ip)),
      ''$ip = '' @ ps_string (sanitize_powershell ip),
      ''$rate = '' @ dec_int (kbps * 1024),
      ''New-NetQosPolicy -Name $name -IPSourceAddress $ip -IPProtocol TCP -ThrottleRateInBits $rate '' @
        ''-Description '' @ ps_string (''ResponseEngine rate-limit: '' @ sanitize_powershell (take 200 reason)) @
        '' -ErrorAction Stop'',
      ''Write-Output '' @ ps_string ''QoS policy $name created'']"

definition rate_limit :: "('r, 'v, 'w) action_env \<Rightarrow> ('r, 'v, 'w) act" where
  "rate_limit env d st =
     (case (validated_ip d ''src_ip'', positive_int d ''bandwidth_kbps'' 1000, py_get d ''reason'' (PyStr [])) of
        (Some ip, Some kbps, PyStr reason) \<Rightarrow>
          exec_safely env ''rate_limit'' (rate_limit_script ip kbps reason)
            [(''src_ip'', PyStr ip), (''bandwidth_kbps'', PyInt kbps), (''policy_name'', PyStr (qos_name ip))] st
      | _ \<Rightarrow> (Inl ''ValueError'', st))"

definition remove_rate_limit_script :: "string \<Rightarrow> string" where
  "remove_rate_limit_script ip = script_lines
     [''$name = '' @ ps_string (qos_name ip),
      ''Remove-NetQosPolicy -Name $name -Confirm:$false -ErrorAction SilentlyContinue'',
      ''Write-Output '' @ ps_string ''QoS policy $name removed'']"

definition remove_rate_limit :: "('r, 'v, 'w) action_env \<Rightarrow> ('r, 'v, 'w) act" where
  "remove_rate_limit env d st =
     (case map_of d ''src_ip'' of
        Some (PyStr ip) \<Rightarrow>
          exec_safely env ''remove_rate_limit'' (remove_rate_limit_script ip) [(''src_ip'', PyStr ip)] st
      | _ \<Rightarrow> (Inl ''TypeError'', st))"

definition logoff_script :: "string \<Rightarrow> string" where
  "logoff_script sid = script_lines [''logoff '' @ sid @ '' /server:localhost 2>$null'',
     ''Write-Output '' @ ps_string (''Session '' @ sid @ '' logged off'')]"

definition kill_user_script :: "string \<Rightarrow> string" where
  "kill_user_script u = script_lines
     [''Get-Process -IncludeUserName | Where-Object {$_.UserName -match '' @ ps_string u @ ''} | Stop-Process -Force'',
      ''Write-Output '' @ ps_string (''Processes for '' @ u @ '' terminated'')]"

definition kill_name_script :: "string \<Rightarrow> string" where
  "kill_name_script n = script_lines
     [''Stop-Process -Name '' @ ps_string n @ '' -Force -ErrorAction SilentlyContinue'',
      ''taskkill /F /IM '' @ ps_string n @ '' /T 2>$null'',
      ''Write-Output '' @ ps_string (''Process '' @ n @ '' terminated'')]"

definition kill_session_script :: "string \<Rightarrow> string \<Rightarrow> string" where
  "kill_session_script sid user =
     (if sid \<noteq> [] \<and> list_all is_digit sid then logoff_script (validate_alphanumeric sid 10)
      else if user \<noteq> [] then kill_user_script (sanitize_powershell (take 64 user))
      else kill_name_script (validate_alphanumeric (take 64 sid) 64))"

definition kill_session :: "('r, 'v, 'w) action_env \<Rightarrow> ('r, 'v, 'w) act" where
  "kill_session env d st =
     (case (map_of d ''session_id'', py_get d ''user'' (PyStr [])) of
        (Some (PyStr sid), PyStr user) \<Rightarrow>
          exec_safely env ''kill_session'' (kill_session_script sid user)
            [(''session_id'', PyStr sid), (''user'', PyStr user)] st
      | _ \<Rightarrow> (Inl ''TypeError'', st))"

section \<open>send_alert\<close>

definition eventlog_script :: "string \<Rightarrow> string \<Rightarrow> string \<Rightarrow> string" where
  "eventlog_script title message severity =
     ''Write-EventLog -LogName Application -Source '' @ ps_string ''ResponseEngine'' @ '' -EntryType '' @
     (if severity \<in> {''critical'', ''high''} then ''ERROR'' else ''WARNING'') @ '' -EventId 1000 -Message '' @
     ps_string (sanitize_powershell (take 200 title) @ '': '' @ sanitize_powershell (take 500 message)) @
     '' -ErrorAction SilentlyContinue''"

definition display_script :: "string \<Rightarrow> string \<Rightarrow> string" where
  "display_script title message = script_lines
     [''[System.Reflection.Assembly]::LoadWithPartialName('' @ ps_string ''System.Windows.Forms'' @ '') | Out-Null'',
      ''$n = New-Object System.Windows.Forms.NotifyIcon'',
      ''$n.Icon = [System.Drawing.SystemIcons]::Warning'',
      ''$n.BalloonTipTitle = '' @ ps_string (sanitize_powershell (take 200 title)),
      ''$n.BalloonTipText = '' @ ps_string (sanitize_powershell (take 500 message)),
      ''$n.Visible = $true'',
      ''$n.ShowBalloonTip(10000)'']"

definition deliver ::
  "string \<Rightarrow> string \<times> string \<times> string \<Rightarrow> ('r, 'v, 'w) response_world \<Rightarrow> ('r, 'v, 'w) response_world"
where
  "deliver channel alert st = st\<lparr>rw_alerts := rw_alerts st @ [(channel, alert)]\<rparr>"

definition or_text :: "string \<Rightarrow> string \<Rightarrow> string" where
  "or_text s dflt = (if s = [] then dflt else s)"

definition send_alert :: "('r, 'v, 'w) action_env \<Rightarrow> ('r, 'v, 'w) act" where
  "send_alert env d st =
     (case (py_get d ''title'' (PyStr []), py_get d ''message'' (PyStr []), py_get d ''severity'' (PyStr ''high''),
            py_get d ''channel'' (PyStr ''webhook''), py_get d ''webhook_url'' (PyStr [])) of
        (PyStr t, PyStr m, PyStr sev, PyStr ch, PyStr url) \<Rightarrow>
          (let title = or_text t ''security alert''; message = or_text m (''threat alert, severity='' @ sev) in
           if ch = [] \<or> ch = ''webhook'' then
             (if url \<noteq> [] then
                (case ae_post env url (title, message, sev) of
                   Inl e \<Rightarrow> (Inr (fail_out ''webhook'' e), st)
                 | Inr code \<Rightarrow> (Inr (done_out ''webhook''), deliver url (title, message, sev) st))
              else (Inr (done_out ''log''), deliver ''log'' (title, take 200 message, sev) st))
           else if ch = ''eventlog'' then
             exec_safely env ''send_alert'' (eventlog_script title message sev)
               [(''title'', PyStr title), (''message'', PyStr message), (''severity'', PyStr sev)] st
           else if ch = ''display'' then
             exec_safely env ''send_alert'' (display_script title message)
               [(''title'', PyStr title), (''message'', PyStr message), (''mode'', PyStr ''notification'')] st
           else (Inr (plain_out\<lparr>ao_mode := ''stub''\<rparr>), st))
      | _ \<Rightarrow> (Inl ''TypeError'', st))"

section \<open>The registry and the preview\<close>

text \<open>The functions of the containment adapters are the parameters \<open>run_more\<close> and \<open>undo_more\<close>.\<close>

definition response_registry ::
  "('r, 'v, 'w) action_env \<Rightarrow> (string \<times> ('r, 'v, 'w) act) list \<Rightarrow> (string \<times> ('r, 'v, 'w) act) list \<Rightarrow>
   ('r, 'v, 'w) response_world registry"
where
  "response_registry env run_more undo_more =
     \<lparr>exec_fns = [(''block_ip'', block_ip env), (''isolate_host'', isolate_host env),
        (''dns_sinkhole'', dns_sinkhole env), (''rate_limit'', rate_limit env),
        (''kill_session'', kill_session env), (''send_alert'', send_alert env)] @ run_more,
      rollback_fns = [(''block_ip'', unblock_ip env), (''isolate_host'', restore_host env),
        (''dns_sinkhole'', unsinkhole_domain env), (''rate_limit'', remove_rate_limit env)] @ undo_more\<rparr>"

text \<open>One previewed action: \<open>None\<close> when it raises.  A failure of the action is a success of the preview.\<close>

fun preview_all ::
  "text_env \<Rightarrow> ('r, 'v, 'w) response_world registry \<Rightarrow> time \<Rightarrow> response_action list \<Rightarrow>
   ('r, 'v, 'w) response_world \<Rightarrow> (string \<times> registry_out option) list \<times> ('r, 'v, 'w) response_world"
where
  "preview_all te reg t [] st = ([], st)"
| "preview_all te reg t (a # as) st =
     (case registry_execute te reg t (name_of a) (params a) st of
        (out, st') \<Rightarrow> (case preview_all te reg t as st' of (outs, st'') \<Rightarrow> ((name_of a, out) # outs, st'')))"

definition preview_actions ::
  "text_env \<Rightarrow> ('r, 'v, 'w) response_world registry \<Rightarrow> time \<Rightarrow> response_action list \<Rightarrow>
   ('r, 'v, 'w) response_world \<Rightarrow> (string \<times> registry_out option) list \<times> ('r, 'v, 'w) response_world"
where
  "preview_actions te reg t as st =
     (case preview_all te reg t as (st\<lparr>rw_preview := True\<rparr>) of
        (outs, st') \<Rightarrow> (outs, st'\<lparr>rw_preview := rw_preview st\<rparr>))"


section \<open>Lemmas\<close>

text \<open>
  A text that, between the double quotes of a PowerShell string, neither ends the string nor starts
  an expansion.
\<close>

fun stays_quoted :: "string \<Rightarrow> bool" where
  "stays_quoted [] = True"
| "stays_quoted [c] = (c \<noteq> backtick \<and> c \<noteq> dquote \<and> c \<noteq> dollar)"
| "stays_quoted (c # e # s) =
     (if c = backtick then stays_quoted s else c \<noteq> dquote \<and> c \<noteq> dollar \<and> stays_quoted (e # s))"

lemma special_chars [simp]:
  "backtick \<noteq> dquote" "backtick \<noteq> dollar" "dquote \<noteq> dollar" "dquote \<noteq> backtick" "dollar \<noteq> backtick" "dollar \<noteq> dquote"
  "CHR '' '' \<noteq> backtick" "CHR '' '' \<noteq> dquote" "CHR '' '' \<noteq> dollar"
  by (simp_all add: backtick_def dquote_def dollar_def)

lemma stays_quoted_Cons: "c \<notin> {backtick, dquote, dollar} \<Longrightarrow> stays_quoted (c # s) = stays_quoted s"
  by (cases s) auto

lemma stays_quoted_escape: "stays_quoted s \<Longrightarrow> stays_quoted (ps_escape c @ s)"
  by (auto simp: ps_escape_def stays_quoted_Cons)

lemma sanitized_stays_quoted: "stays_quoted (sanitize_powershell s)"
  by (induction s) (simp_all add: sanitize_powershell_def stays_quoted_escape)

lemma sanitized_one_line: "CHR 0x0A \<notin> set (sanitize_powershell s) \<and> CHR 0x0D \<notin> set (sanitize_powershell s)"
  by (auto simp: sanitize_powershell_def ps_escape_def backtick_def dquote_def dollar_def)

lemma exec_safely_preview:
  "fst (exec_safely env a sc flds (st\<lparr>rw_preview := p\<rparr>)) = fst (exec_safely env a sc flds st)"
  "rw_exec (snd (exec_safely env a sc flds (st\<lparr>rw_preview := p\<rparr>))) = rw_exec (snd (exec_safely env a sc flds st))"
  by (simp_all add: exec_safely_def split_beta)

section \<open>Properties\<close>

text \<open>
  In a simulated mode (and under the preview flag) the actions that drive the firewall change
  nothing at all: no connection, no command, no rule, no timer, no random draw.
\<close>

theorem simulated_actions_touch_nothing:
  assumes "execution_mode st \<noteq> ''live''"
    and "f \<in> {block_ip env, unblock_ip env, isolate_host env, restore_host env, dns_sinkhole env, unsinkhole_domain env}"
  shows "snd (f d st) = st"
proof -
  have "snd (block_ip env d st) = st" "snd (unblock_ip env d st) = st" "snd (isolate_host env d st) = st"
    "snd (restore_host env d st) = st" "snd (dns_sinkhole env d st) = st" "snd (unsinkhole_domain env d st) = st"
    using assms(1)
    by (auto simp: block_ip_def unblock_ip_def isolate_host_def restore_host_def dns_sinkhole_def
        unsinkhole_domain_def Let_def split: option.splits)
  with assms(2) show ?thesis by auto
qed

text \<open>
  The preview does not reach the actions that go through the safe executor: previewing a rate
  limit or a session kill runs exactly what executing it runs.
\<close>

theorem preview_executes_scripts:
  "fst (rate_limit env d (st\<lparr>rw_preview := True\<rparr>)) = fst (rate_limit env d st) \<and>
   rw_exec (snd (rate_limit env d (st\<lparr>rw_preview := True\<rparr>))) = rw_exec (snd (rate_limit env d st)) \<and>
   fst (kill_session env d (st\<lparr>rw_preview := True\<rparr>)) = fst (kill_session env d st) \<and>
   rw_exec (snd (kill_session env d (st\<lparr>rw_preview := True\<rparr>))) = rw_exec (snd (kill_session env d st))"
  by (auto simp: rate_limit_def kill_session_def exec_safely_preview split: option.splits pyval.splits)

text \<open>
  Escaped texts stay inside their PowerShell string: whatever the alert's title, the limit's
  reason or the user's name, the escaped text has no line end, and no unescaped quote or dollar.
\<close>

theorem escaped_texts_stay_quoted:
  "stays_quoted (sanitize_powershell s) \<and> CHR 0x0A \<notin> set (sanitize_powershell s) \<and>
   CHR 0x0D \<notin> set (sanitize_powershell s)"
  using sanitized_stays_quoted sanitized_one_line by blast

definition scoped_evil :: string where
  "scoped_evil = ''::1%'' @ [dquote] @ '';Stop-Computer;'' @ [dquote]"

text \<open>
  The removal of a rate limit does not escape the address: an IPv6 address whose scope id holds
  a quote passes the address test, ends the string of the script's first line, and the rest of the
  scope id is a command.
\<close>

theorem remove_rate_limit_injection:
  "ip_address scoped_evil \<noteq> None \<and> validate_params ''remove_rate_limit'' [(''src_ip'', PyStr scoped_evil)] = None \<and>
   \<not> stays_quoted (qos_name scoped_evil) \<and>
   take 52 (remove_rate_limit_script scoped_evil) =
     ''$name = '' @ ps_string ''RE_RateLimit_::1%'' @ '';Stop-Computer;'' @ [dquote, dquote, CHR 0x0A] @ ''Remove-''"
  by (intro conjI; code_simp)


lemma stub_answers:
  assumes "ae_transport_mode env \<noteq> ''ssh''" and "ae_transport_mode env = ''auto'' \<longrightarrow> \<not> ae_transport_enabled env"
  shows "live_shell env pl flds c v =
    (ShDict \<lparr>sh_success = None, sh_mode = Some (mode_of_fields (floats (ae_exec env)) flds ''stub''), sh_stdout = []\<rparr>, v)"
  using assms by (auto simp: live_shell_def Let_def)

lemma run_stubbed:
  assumes "\<And>c v. f c v = (ShDict \<lparr>sh_success = None, sh_mode = m, sh_stdout = so\<rparr>, v)"
    and "run_command env ts action command d fams pl (Some f) ttl rid st = (out, st')"
  shows "world st' = world st \<and> ((\<exists>r. out = Simulated action r) \<or> (\<exists>mo. out = NotDone action None mo))"
proof (cases "router_mode (router st) = MODE_LIVE")
  case True
  with assms show ?thesis by (auto simp: run_command_def finish_live_def Let_def)
next
  case False
  moreover obtain r w' where r: "route (router st) action command d f pl (t_route ts) (world st) = (r, w')"
    by (metis prod.collapse)
  moreover have "w' = world st"
    using r assms(1) by (auto simp: route_def split: prod.splits if_splits)
  ultimately show ?thesis using assms(2) by (auto simp: run_command_def)
qed

text \<open>
  When no transport is configured, whatever passes the checks is reported as a success: no
  script reaches the host, and the stub's answer, which has no success value, counts as one.
\<close>

theorem unreached_host_counts_as_success:
  assumes "ae_transport_mode env \<noteq> ''ssh''" and "ae_transport_mode env = ''auto'' \<longrightarrow> \<not> ae_transport_enabled env"
    and "exec_safely env action script flds st = (Inr out, st')"
  shows "world (rw_exec st') = world (rw_exec st) \<and> (ao_mode out \<noteq> ''blocked'' \<longrightarrow> ao_success out \<noteq> Some False)"
proof -
  obtain o1 ex where ex: "safe_execute (ae_exec env) (ae_times env (rw_draws st)) action (ps_command (ae_exec env) script)
      flds [] ''windows'' (Some (live_shell env ''windows'' flds)) 0 [] False (rw_exec st) = (o1, ex)"
    by (metis prod.collapse)
  with assms(3) have o: "outcome_out o1 = Inr out" and st': "rw_exec st' = ex" by (auto simp: exec_safely_def)
  let ?f = "live_shell env ''windows'' flds"
  let ?cl = "cleared (ae_exec env) (ae_times env (rw_draws st)) action (ps_command (ae_exec env) script) flds
    ''windows'' [] False (rw_exec st)"
  have cases: "world ex = world (rw_exec st) \<and> (o1 \<in> {TypeError, IdempotentSkip action} \<union> range (Blocked action) \<or>
      (\<exists>r. o1 = Simulated action r) \<or> (\<exists>mo. o1 = NotDone action None mo))"
  proof (cases ?cl)
    case True
    show ?thesis
      using run_stubbed [OF stub_answers [OF assms(1,2)] ex [unfolded cleared_runs [OF True]]] by auto
  next
    case False
    from not_cleared_stops [OF this, of "[]" "Some ?f" 0] show ?thesis unfolding ex by auto
  qed
  have "ao_mode out \<noteq> ''blocked'' \<longrightarrow> ao_success out \<noteq> Some False"
    using cases o by (auto simp: fail_out_def done_out_def plain_out_def elim!: outcome_out.elims)
  with cases st' show ?thesis by simp
qed

text \<open>
  A block taken from a policy cannot be rolled back: its record has no address, the undo
  function raises, the rollback reports a failure and the firewall keeps its rule.
\<close>

theorem policy_block_cannot_be_rolled_back:
  assumes "name_of a = ''block_ip''" and "\<not> has_key (params a) ''src_ip''" and "\<not> has_key (params a) ''name''"
    and "execute_actions te (response_registry env rm um) clock t token [a] info (w, st) = (Some b, (w', st'))"
    and "\<not> fst (is_rolled t2 token st')"
  shows "br_failed (fst (rollback_batch (response_registry env rm um) t1 t2 t3 token (w', st'))) = 1 \<and>
    snd (rollback_batch (response_registry env rm um) t1 t2 t3 token (w', st')) = (w', st')"
proof -
  obtain ok tok where got: "store_get t1 token st' =
      (Some [\<lparr>rec_action = ''block_ip'', rec_success = ok, rec_token = tok, rec_params = params a\<rparr>], st')"
    using one_block_recorded(1) [OF assms(1,4), of t1] by blast
  have "is_rolled t2 token st' = (False, st')" using assms(5) by (simp add: is_rolled_false)
  moreover have "map_of (params a) ''src_ip'' = None" using assms(2) by (auto simp: has_key_def map_of_eq_None_iff)
  ultimately show ?thesis
    using assms(3) by (simp add: rollback_batch_def got registry_rollback_def response_registry_def unblock_ip_def
        undo_result_def failed_result_def batch_of_def count_success_def)
qed

section \<open>Applications\<close>

definition demo_actions :: "(redis_value mem_store, nat, string list) action_env" where
  "demo_actions = \<lparr>ae_ssh = logging_ssh (\<lambda>_. True), ae_connect = (\<lambda>fw. (None, fw)), ae_draw = id,
     ae_marker = (\<lambda>s. ''m''), ae_exec = SafeExecutor.demo_env, ae_times = (\<lambda>n. demo_times (of_nat n)),
     ae_transport_mode = ''auto'', ae_transport_enabled = False,
     ae_run = (\<lambda>w c v. (\<lparr>to_success = True, to_stdout = [], to_stderr = []\<rparr>, Suc v)),
     ae_post = (\<lambda>u a. Inr 200), ae_sink4 = ''0.0.0.0'', ae_sink6 = []\<rparr>"

definition demo_world :: "string \<Rightarrow> (redis_value mem_store, nat, string list) response_world" where
  "demo_world mode = \<lparr>rw_fw = demo_fw, rw_exec = demo_state ''live'', rw_timers = [], rw_mode = mode,
     rw_preview = False, rw_draws = 0, rw_alerts = []\<rparr>"

theorem simulated_actions_touch_nothing_witness:
  "snd (block_ip demo_actions [(''src_ip'', PyStr ''9.9.9.9'')] (demo_world ''dry_run'')) = demo_world ''dry_run''"
  by (rule simulated_actions_touch_nothing [where env = demo_actions])
    (simp_all add: execution_mode_def demo_world_def)

theorem unreached_host_counts_as_success_witness:
  "\<exists>out. fst (exec_safely demo_actions ''x'' [] [] (demo_world [])) = Inr out \<and>
     (ao_mode out \<noteq> ''blocked'' \<longrightarrow> ao_success out \<noteq> Some False)"
proof -
  let ?x = "exec_safely demo_actions ''x'' [] [] (demo_world [])"
  have "\<not> isl (fst ?x)"
    by code_simp
  then obtain out st' where x: "?x = (Inr out, st')" by (metis sum.collapse(2) prod.collapse)
  from unreached_host_counts_as_success [OF _ _ x] x show ?thesis by (simp add: demo_actions_def)
qed


theorem policy_block_cannot_be_rolled_back_witness:
  "br_failed (fst (rollback_batch (response_registry demo_actions [] []) 2 3 4 ''b''
     (snd (execute_actions demo_text (response_registry demo_actions [] []) (\<lambda>_. 0) 0 ''b''
        [named_action ''block_ip'' []] [(''src_ip'', PyStr ''9.9.9.9'')] (demo_world ''live'', demo_store))))) = 1"
proof -
  let ?x = "execute_actions demo_text (response_registry demo_actions [] []) (\<lambda>_. 0) 0 ''b''
        [named_action ''block_ip'' []] [(''src_ip'', PyStr ''9.9.9.9'')] (demo_world ''live'', demo_store)"
  obtain b w' st' where x: "?x = (Some b, (w', st'))"
    by (cases ?x) (auto simp: execute_actions_def maybe_prepend_snapshot_def SNAPSHOT_BEFORE_def execute_one_def
        inject_params_def inject_target_def fill_in_def has_key_def py_set_def py_get_def
        split: option.splits prod.splits registry_out.splits if_splits)
  have "\<not> fst (is_rolled 3 ''b'' st')"
    using x by (auto simp: execute_actions_def is_rolled_def store_record_def demo_store_def mem_redis_def mem_get_def
        rolled_key_def records_key_def empty_store_def Let_def split: option.splits prod.splits)
  from policy_block_cannot_be_rolled_back [OF _ _ _ x this, of 2 4] show ?thesis unfolding x by (simp add: has_key_def)
qed

end
