(* ===== verification/PolicyEngine.thy ===== *)
theory PolicyEngine
  imports ResponseRegistry
begin

text \<open>
  The response policy engine (\<open>src/backend/response_engine/response_policies.py\<close>): policies and
  their thresholds, leaf and category matching, the per-address, per-policy and uncertain
  cooldowns, the decision of \<open>match\<close>, and the lazy clean-up.  Reloading the YAML policies is a
  parameter of \<open>match\<close> (\<open>Some\<close> of what the reload put in place), and so is the taxonomy's
  category of a leaf.  Descriptions and source paths of policies are left out.
\<close>

section \<open>Policies\<close>

datatype match_status =
    Matched | MatchedCategory | MatchedBehavior | Uncertain | Skipped | Filtered | NoAction

record response_policy =
  pol_name :: string
  pol_threat :: string
  pol_actions :: "response_action list"
  pol_confidence :: rat
  pol_severity :: string
  pol_auto :: bool
  pol_require_approval :: bool
  pol_priority :: int
  pol_cooldown :: int
  pol_id :: string
  pol_category :: string
  pol_enabled :: bool
  pol_role :: string

definition SEVERITY_ORDER :: "string list" where
  "SEVERITY_ORDER = [''info'', ''low'', ''medium'', ''high'', ''critical'']"

text \<open>\<open>list.index\<close>; \<open>None\<close> stands for \<open>ValueError\<close>.\<close>

fun index_of :: "'a \<Rightarrow> 'a list \<Rightarrow> nat option" where
  "index_of x [] = None"
| "index_of x (y # ys) = (if x = y then Some 0 else map_option Suc (index_of x ys))"

text \<open>A severity outside the list, on either side, passes.\<close>

definition passes_thresholds :: "response_policy \<Rightarrow> rat \<Rightarrow> string \<Rightarrow> bool" where
  "passes_thresholds p confidence severity =
     (if confidence < pol_confidence p then False
      else (case (index_of severity SEVERITY_ORDER, index_of (pol_severity p) SEVERITY_ORDER) of
              (Some i, Some j) \<Rightarrow> \<not> i < j
            | _ \<Rightarrow> True))"

definition is_template :: "response_policy \<Rightarrow> bool" where
  "is_template p = (pol_role p = ''uncertain_template'')"

definition is_leaf_policy :: "response_policy \<Rightarrow> bool" where
  "is_leaf_policy p =
     (let tt = strip (pol_threat p) in tt \<noteq> [] \<and> tt \<noteq> ''__UNCERTAIN__'' \<and> \<not> is_template p)"

definition is_category_policy :: "response_policy \<Rightarrow> bool" where
  "is_category_policy p = (pol_category p \<noteq> [] \<and> strip (pol_threat p) = [])"

definition policy_matches :: "response_policy \<Rightarrow> string \<Rightarrow> rat \<Rightarrow> string \<Rightarrow> bool" where
  "policy_matches p threat confidence severity =
     (if \<not> pol_enabled p then False
      else if is_template p then False
      else if is_category_policy p then False
      else if pol_threat p \<noteq> ''ANY'' \<and> upper (pol_threat p) \<noteq> upper (strip threat) then False
      else passes_thresholds p confidence severity)"

definition matches_category :: "response_policy \<Rightarrow> string \<Rightarrow> rat \<Rightarrow> string \<Rightarrow> bool" where
  "matches_category p cat confidence severity =
     (if \<not> pol_enabled p \<or> is_template p then False
      else if \<not> is_category_policy p then False
      else (let c = upper (strip cat) in
            if c = [] \<or> upper (pol_category p) \<noteq> c then False
            else passes_thresholds p confidence severity))"

definition policy_needs_approval :: "response_policy \<Rightarrow> bool" where
  "policy_needs_approval p =
     (pol_require_approval p \<or> list_ex (\<lambda>a. registry_needs_approval (name_of a)) (pol_actions p))"

record action_map =
  am_policy :: string
  am_threat :: string
  am_confidence :: rat
  am_severity :: string
  am_actions :: "response_action list"
  am_approval :: bool
  am_auto :: bool
  am_status :: match_status
  am_reason :: string
  am_category :: string

text \<open>\<open>matched\<close> as \<open>__post_init__\<close> sets it from the status.\<close>

definition am_matched :: "action_map \<Rightarrow> bool" where
  "am_matched m = (am_status m \<in> {Matched, MatchedCategory, MatchedBehavior, Uncertain})"

definition no_map :: "string \<Rightarrow> rat \<Rightarrow> string \<Rightarrow> string \<Rightarrow> match_status \<Rightarrow> string \<Rightarrow> action_map" where
  "no_map threat confidence severity cat st reason =
     \<lparr>am_policy = [], am_threat = threat, am_confidence = confidence, am_severity = severity,
      am_actions = [], am_approval = False, am_auto = False, am_status = st, am_reason = reason,
      am_category = cat\<rparr>"

definition alert_params :: "string \<Rightarrow> pydict" where
  "alert_params sev = [(''severity'', PyStr sev)]"

definition uncertain_actions :: "response_action list" where
  "uncertain_actions =
     [named_action ''block_ip'' [(''duration_minutes'', PyInt 5)],
      named_action ''send_alert'' [(''severity'', PyStr ''high''), (''priority'', PyStr ''p1'')]]"

section \<open>The code's own policies\<close>

definition code_policy ::
  "string \<Rightarrow> string \<Rightarrow> rat \<Rightarrow> string \<Rightarrow> response_action list \<Rightarrow> bool \<Rightarrow> bool \<Rightarrow> int \<Rightarrow> int \<Rightarrow> response_policy"
where
  "code_policy name threat conf sev as auto appr prio cool =
     \<lparr>pol_name = name, pol_threat = threat, pol_actions = as, pol_confidence = conf,
      pol_severity = sev, pol_auto = auto, pol_require_approval = appr, pol_priority = prio,
      pol_cooldown = cool, pol_id = [], pol_category = [], pol_enabled = True, pol_role = []\<rparr>"

definition block_for :: "int \<Rightarrow> response_action" where
  "block_for minutes = named_action ''block_ip'' [(''duration_minutes'', PyInt minutes)]"

definition limit_to :: "int \<Rightarrow> response_action" where
  "limit_to kbps = named_action ''rate_limit'' [(''bandwidth_kbps'', PyInt kbps)]"

definition alert_with :: "string \<Rightarrow> response_action" where
  "alert_with sev = named_action ''send_alert'' (alert_params sev)"

definition isolate :: response_action where
  "isolate = named_action ''isolate_host'' []"

text \<open>The names are the policies' English tags; the code gives them Chinese names.\<close>

definition DEFAULT_POLICIES :: "response_policy list" where
  "DEFAULT_POLICIES =
     [code_policy ''c2-block'' ''C2_BEACON'' (6 / 10) ''high''
        [block_for 120, limit_to 100, alert_with ''critical''] True False 100 60,
      code_policy ''exfil-isolate'' ''DATA_EXFIL'' (55 / 100) ''high''
        [block_for 1440, isolate, alert_with ''critical''] False True 90 120,
      code_policy ''exfil-alert'' ''DATA_EXFIL'' (4 / 10) ''medium''
        [alert_with ''critical''] True False 88 30,
      code_policy ''brute-block'' ''BRUTE_FORCE'' (5 / 10) ''medium''
        [block_for 30, alert_with ''high''] True False 80 15,
      code_policy ''scan-limit'' ''PORT_SCAN'' (4 / 10) ''low''
        [limit_to 500, alert_with ''medium''] True False 70 10,
      code_policy ''malware-isolate'' ''MALWARE_DETECT'' (6 / 10) ''high''
        [isolate, alert_with ''critical''] False True 90 120,
      code_policy ''ddos-guard'' ''DDoS_TRAFFIC'' (5 / 10) ''high''
        [limit_to 100, block_for 60, alert_with ''critical''] True False 85 30,
      code_policy ''lateral-isolate'' ''LATERAL_MOVE'' (6 / 10) ''high''
        [isolate, alert_with ''critical''] False True 85 60,
      code_policy ''lateral-isolate-alias'' ''LATERAL_MOVEMENT'' (55 / 100) ''high''
        [isolate, alert_with ''critical''] False True 85 60,
      code_policy ''behavior-block'' ''BEHAVIOR_ANOMALY'' (5 / 10) ''high''
        [block_for 15, alert_with ''high''] True False 95 15,
      code_policy ''any-alert'' ''ANY'' (3 / 10) ''info''
        [alert_with ''medium'', block_for 60] True False 10 30]"

section \<open>The engine\<close>

record policy_engine =
  policies :: "response_policy list"
  cooldowns :: "string \<Rightarrow> string \<Rightarrow> time option"
  ip_last_match :: "string \<Rightarrow> time option"
  uncertain_last :: "string \<Rightarrow> time option"
  last_cleanup :: time
  uncertain_policy :: "response_policy option"
  ip_cooldown_sec :: int
  uncertain_cooldown_sec :: int
  uncertain_enabled :: bool

definition CLEANUP_INTERVAL :: time where "CLEANUP_INTERVAL = 300"
definition ORPHAN_TTL :: int where "ORPHAN_TTL = 3600"

definition sort_policies :: "response_policy list \<Rightarrow> response_policy list" where
  "sort_policies ps = sort_key (\<lambda>p. - pol_priority p) ps"

text \<open>
  \<open>reload\<close>: the rows that were loaded, or the code's own policies when there are none; the last
  row with the template role is the uncertain template.
\<close>

definition engine_reload :: "response_policy list \<Rightarrow> policy_engine \<Rightarrow> policy_engine" where
  "engine_reload rows e =
     (if rows \<noteq> [] then
        e\<lparr>policies := sort_policies (filter (\<lambda>p. \<not> is_template p) rows),
          uncertain_policy := (case filter is_template rows of [] \<Rightarrow> None | ts \<Rightarrow> Some (last ts))\<rparr>
      else e\<lparr>policies := sort_policies DEFAULT_POLICIES, uncertain_policy := None\<rparr>)"

definition add_policy :: "response_policy \<Rightarrow> policy_engine \<Rightarrow> policy_engine" where
  "add_policy p e = e\<lparr>policies := sort_policies (policies e @ [p])\<rparr>"

definition remove_policy :: "string \<Rightarrow> policy_engine \<Rightarrow> policy_engine" where
  "remove_policy name e = e\<lparr>policies := filter (\<lambda>p. pol_name p \<noteq> name) (policies e)\<rparr>"

definition goes_by :: "string \<Rightarrow> response_policy \<Rightarrow> bool" where
  "goes_by name p = (pol_name p = name \<or> (pol_id p \<noteq> [] \<and> pol_id p = name))"

definition get_policy :: "string \<Rightarrow> policy_engine \<Rightarrow> response_policy option" where
  "get_policy name e =
     (case find (goes_by name) (policies e) of
        Some p \<Rightarrow> Some p
      | None \<Rightarrow>
          (case uncertain_policy e of
             Some u \<Rightarrow> if pol_name u = name \<or> pol_id u = name then Some u else None
           | None \<Rightarrow> None))"

definition has_dedicated :: "string \<Rightarrow> policy_engine \<Rightarrow> bool" where
  "has_dedicated threat e =
     (let tt = upper (strip threat) in
      tt \<noteq> [] \<and>
      list_ex (\<lambda>p. pol_enabled p \<and> \<not> is_template p \<and> \<not> is_category_policy p \<and>
                   pol_threat p \<noteq> ''ANY'' \<and> upper (pol_threat p) = tt) (policies e))"

text \<open>A missing time reads as 0.\<close>

definition seconds_since :: "time \<Rightarrow> time option \<Rightarrow> time" where
  "seconds_since now before = now - (case before of None \<Rightarrow> 0 | Some t \<Rightarrow> t)"

text \<open>What a match attempt asks: the clock of the attempt, the source, the threat.\<close>

record threat =
  th_type :: string
  th_confidence :: rat
  th_severity :: string
  th_ip :: string
  th_category :: string

definition in_cooldown :: "response_policy \<Rightarrow> time \<Rightarrow> string \<Rightarrow> policy_engine \<Rightarrow> bool" where
  "in_cooldown p t ip e =
     (ip \<noteq> [] \<and> seconds_since t (cooldowns e (pol_name p) ip) < of_int (pol_cooldown p * 60))"

definition touch_ip :: "string \<Rightarrow> time \<Rightarrow> policy_engine \<Rightarrow> policy_engine" where
  "touch_ip ip now e = (if ip \<noteq> [] then e\<lparr>ip_last_match := (ip_last_match e)(ip \<mapsto> now)\<rparr> else e)"

definition try_match_policy ::
  "response_policy \<Rightarrow> time \<Rightarrow> time \<Rightarrow> threat \<Rightarrow> match_status \<Rightarrow> policy_engine \<Rightarrow>
   action_map option \<times> policy_engine"
where
  "try_match_policy p t now th st e =
     (if in_cooldown p t (th_ip th) e then (None, e)
      else (Some \<lparr>am_policy = pol_name p, am_threat = th_type th, am_confidence = th_confidence th,
                  am_severity = th_severity th, am_actions = pol_actions p,
                  am_approval = policy_needs_approval p, am_auto = pol_auto p, am_status = st,
                  am_reason = [],
                  am_category = (if th_category th \<noteq> [] then th_category th else pol_category p)\<rparr>,
            touch_ip (th_ip th) now e))"

definition UNCERTAIN_POLICY_NAME :: string where "UNCERTAIN_POLICY_NAME = ''uncertain-containment''"

definition uncertain_template :: "policy_engine \<Rightarrow> response_policy" where
  "uncertain_template e =
     (let fallback = \<lparr>pol_name = UNCERTAIN_POLICY_NAME, pol_threat = ''__UNCERTAIN__'',
        pol_actions = uncertain_actions, pol_confidence = 0, pol_severity = ''info'',
        pol_auto = True, pol_require_approval = True, pol_priority = 1, pol_cooldown = 5,
        pol_id = ''POL-UNCERTAIN'', pol_category = [], pol_enabled = True,
        pol_role = ''uncertain_template''\<rparr>
      in case uncertain_policy e of
           Some u \<Rightarrow> if pol_enabled u then u else fallback
         | None \<Rightarrow> fallback)"

definition uncertain_cooldown :: "policy_engine \<Rightarrow> int" where
  "uncertain_cooldown e = max (uncertain_cooldown_sec e) (pol_cooldown (uncertain_template e) * 60)"

definition make_uncertain :: "threat \<Rightarrow> time \<Rightarrow> policy_engine \<Rightarrow> action_map \<times> policy_engine" where
  "make_uncertain th now e =
     (let tmpl = uncertain_template e; cool = uncertain_cooldown e; ip = th_ip th in
      if ip \<noteq> [] \<and> 0 < cool \<and> seconds_since now (uncertain_last e ip) < of_int cool
      then (no_map (th_type th) (th_confidence th) (th_severity th) [] Skipped ''uncertain_cooldown'', e)
      else
        (let e1 = (if ip \<noteq> [] \<and> 0 < cool then e\<lparr>uncertain_last := (uncertain_last e)(ip \<mapsto> now)\<rparr> else e)
         in (\<lparr>am_policy = (if pol_name tmpl \<noteq> [] then pol_name tmpl else UNCERTAIN_POLICY_NAME),
              am_threat = th_type th, am_confidence = th_confidence th, am_severity = th_severity th,
              am_actions = (if pol_actions tmpl \<noteq> [] then pol_actions tmpl else uncertain_actions),
              am_approval = (pol_require_approval tmpl \<or> policy_needs_approval tmpl),
              am_auto = pol_auto tmpl, am_status = Uncertain, am_reason = [], am_category = []\<rparr>,
             touch_ip ip now e1)))"

definition mark_executed :: "string \<Rightarrow> string \<Rightarrow> time \<Rightarrow> policy_engine \<Rightarrow> policy_engine" where
  "mark_executed name ip now e =
     (if ip \<noteq> [] then e\<lparr>cooldowns := (cooldowns e)(name := (cooldowns e name)(ip \<mapsto> now))\<rparr> else e)"

definition clear_cooldowns :: "policy_engine \<Rightarrow> policy_engine" where
  "clear_cooldowns e =
     e\<lparr>cooldowns := (\<lambda>_ _. None), ip_last_match := (\<lambda>_. None), uncertain_last := (\<lambda>_. None)\<rparr>"

section \<open>Cleaning up\<close>

definition drop_older :: "int \<Rightarrow> time \<Rightarrow> (string \<Rightarrow> time option) \<Rightarrow> string \<Rightarrow> time option" where
  "drop_older ttl now m = (\<lambda>ip. case m ip of None \<Rightarrow> None
     | Some ts \<Rightarrow> if of_int ttl \<le> now - ts then None else Some ts)"

definition cleanup_expired :: "time \<Rightarrow> policy_engine \<Rightarrow> policy_engine" where
  "cleanup_expired now e =
     e\<lparr>cooldowns := (\<lambda>name.
         let ttl = (case get_policy name e of Some p \<Rightarrow> pol_cooldown p * 60 | None \<Rightarrow> ORPHAN_TTL)
         in drop_older (max ttl ORPHAN_TTL) now (cooldowns e name)),
       ip_last_match := drop_older (max (ip_cooldown_sec e) 60) now (ip_last_match e),
       uncertain_last := drop_older (max (uncertain_cooldown_sec e) 60) now (uncertain_last e)\<rparr>"

definition maybe_cleanup :: "time \<Rightarrow> policy_engine \<Rightarrow> policy_engine" where
  "maybe_cleanup now e =
     (if now - last_cleanup e < CLEANUP_INTERVAL then e
      else cleanup_expired now (e\<lparr>last_cleanup := now\<rparr>))"

section \<open>The decision\<close>

definition BENIGN_TYPES :: "string list" where
  "BENIGN_TYPES = [''USER_LOGIN'', ''FILE_ACCESS'', ''DNS_QUERY'']"

text \<open>
  The loop over the leaf policies, in priority order: a hit, or whether a dedicated policy missed
  a threshold and whether one was in cooldown.  \<open>clock\<close> is the time of a policy's attempt.
\<close>

fun leaf_loop ::
  "response_policy list \<Rightarrow> (string \<Rightarrow> time) \<Rightarrow> time \<Rightarrow> threat \<Rightarrow> policy_engine \<Rightarrow> bool \<Rightarrow> bool \<Rightarrow>
   (action_map \<times> policy_engine) + (bool \<times> bool)"
where
  "leaf_loop [] clock now th e miss cool = Inr (miss, cool)"
| "leaf_loop (p # ps) clock now th e miss cool =
     (if \<not> pol_enabled p \<or> is_template p \<or> is_category_policy p then
        leaf_loop ps clock now th e miss cool
      else if pol_threat p = ''ANY'' \<and>
              (uncertain_enabled e \<or> \<not> policy_matches p (th_type th) (th_confidence th) (th_severity th)) then
        leaf_loop ps clock now th e miss cool
      else if pol_threat p \<noteq> ''ANY'' \<and> \<not> policy_matches p (th_type th) (th_confidence th) (th_severity th) then
        leaf_loop ps clock now th e
          (miss \<or> (th_type th \<noteq> [] \<and> upper (pol_threat p) = upper (th_type th))) cool
      else
        (case try_match_policy p (clock (pol_name p)) now th
                (if upper (th_type th) = ''BEHAVIOR_ANOMALY'' then MatchedBehavior else Matched) e of
           (Some m, e') \<Rightarrow> Inl (m, e')
         | (None, e') \<Rightarrow> leaf_loop ps clock now th e miss (cool \<or> pol_threat p \<noteq> ''ANY'')))"

fun category_loop ::
  "response_policy list \<Rightarrow> (string \<Rightarrow> time) \<Rightarrow> time \<Rightarrow> threat \<Rightarrow> policy_engine \<Rightarrow> bool \<Rightarrow>
   (action_map \<times> policy_engine) + bool"
where
  "category_loop [] clock now th e cool = Inr cool"
| "category_loop (p # ps) clock now th e cool =
     (if \<not> pol_enabled p \<or> \<not> is_category_policy p then category_loop ps clock now th e cool
      else if \<not> matches_category p (th_category th) (th_confidence th) (th_severity th) then
        category_loop ps clock now th e cool
      else (case try_match_policy p (clock (pol_name p)) now th MatchedCategory e of
              (Some m, e') \<Rightarrow> Inl (m, e')
            | (None, e') \<Rightarrow> category_loop ps clock now th e True))"

definition miss_map :: "threat \<Rightarrow> match_status \<Rightarrow> string \<Rightarrow> action_map" where
  "miss_map th st reason =
     no_map (th_type th) (th_confidence th) (th_severity th) (th_category th) st reason"

text \<open>What follows when no leaf or category policy decided.\<close>

definition match_unknown :: "time \<Rightarrow> threat \<Rightarrow> policy_engine \<Rightarrow> action_map \<times> policy_engine" where
  "match_unknown now th e =
     (if upper (th_type th) \<in> set BENIGN_TYPES \<or> upper (th_category th) = ''BENIGN''
      then (miss_map th NoAction ''benign_type'', e)
      else if uncertain_enabled e then
        (case make_uncertain th now e of (m, e') \<Rightarrow> (m\<lparr>am_category := th_category th\<rparr>, e'))
      else (miss_map th NoAction ''no_policy'', e))"

definition match_decide ::
  "(string \<Rightarrow> time) \<Rightarrow> time \<Rightarrow> threat \<Rightarrow> policy_engine \<Rightarrow> action_map \<times> policy_engine"
where
  "match_decide clock now th e =
     (if th_ip th \<noteq> [] \<and> 0 < ip_cooldown_sec e \<and>
         seconds_since now (ip_last_match e (th_ip th)) < of_int (ip_cooldown_sec e)
      then (miss_map th Skipped ''ip_cooldown'', e)
      else
        (case leaf_loop (policies e) clock now th e False False of
           Inl hit \<Rightarrow> hit
         | Inr (miss, cool) \<Rightarrow>
             if has_dedicated (th_type th) e then
               (if cool then (miss_map th Skipped ''policy_cooldown'', e)
                else (miss_map th NoAction (if miss then ''threshold_not_met'' else ''no_match''), e))
             else if th_category th \<noteq> [] then
               (case category_loop (policies e) clock now th e False of
                  Inl hit \<Rightarrow> hit
                | Inr True \<Rightarrow> (miss_map th Skipped ''category_policy_cooldown'', e)
                | Inr False \<Rightarrow> match_unknown now th e)
             else match_unknown now th e))"

text \<open>
  \<open>match\<close>: the lazy clean-up, the reload, the normalisation of the threat (\<open>taxonomy\<close> gives the
  category of a leaf), then the decision.  \<open>t0\<close> is the clock of the clean-up.
\<close>

definition policy_match ::
  "(string \<Rightarrow> string) \<Rightarrow> response_policy list option \<Rightarrow> time \<Rightarrow> (string \<Rightarrow> time) \<Rightarrow> time \<Rightarrow> threat \<Rightarrow>
   policy_engine \<Rightarrow> action_map \<times> policy_engine"
where
  "policy_match taxonomy reloaded t0 clock now th e =
     (let e1 = maybe_cleanup t0 e;
          e2 = (case reloaded of None \<Rightarrow> e1 | Some rows \<Rightarrow> engine_reload rows e1);
          tt = strip (th_type th);
          cat0 = strip (th_category th);
          cat = (if cat0 = [] \<and> tt \<noteq> [] then taxonomy tt else cat0)
      in match_decide clock now (th\<lparr>th_type := tt, th_category := cat\<rparr>) e2)"

section \<open>Lemmas\<close>

lemma try_match_Some:
  assumes "try_match_policy p t now th st e = (Some m, e')"
  shows "\<not> in_cooldown p t (th_ip th) e \<and> am_policy m = pol_name p \<and> am_actions m = pol_actions p \<and>
    am_status m = st \<and> am_approval m = policy_needs_approval p \<and> am_auto m = pol_auto p"
  using assms by (auto simp: try_match_policy_def split: if_splits)

lemma try_match_None: "fst (try_match_policy p t now th st e) = None \<Longrightarrow> snd (try_match_policy p t now th st e) = e"
  by (auto simp: try_match_policy_def split: if_splits)

lemma policy_matches_passes: "policy_matches p tt c s \<Longrightarrow> pol_enabled p \<and> passes_thresholds p c s"
  by (auto simp: policy_matches_def split: if_splits)

text \<open>The policy behind a hit.\<close>

definition chosen :: "(string \<Rightarrow> time) \<Rightarrow> threat \<Rightarrow> policy_engine \<Rightarrow> response_policy \<Rightarrow> action_map \<Rightarrow> bool" where
  "chosen clock th e p m \<longleftrightarrow>
     p \<in> set (policies e) \<and> pol_enabled p \<and> \<not> is_template p \<and>
     passes_thresholds p (th_confidence th) (th_severity th) \<and>
     \<not> in_cooldown p (clock (pol_name p)) (th_ip th) e \<and>
     am_policy m = pol_name p \<and> am_actions m = pol_actions p \<and>
     am_approval m = policy_needs_approval p \<and> am_auto m = pol_auto p"

definition leaf_status :: "threat \<Rightarrow> match_status" where
  "leaf_status th = (if upper (th_type th) = ''BEHAVIOR_ANOMALY'' then MatchedBehavior else Matched)"

lemma leaf_loop_Cons_Inl:
  assumes "leaf_loop (p # ps) clock now th e miss cool = Inl (m, e')"
  shows "(\<exists>miss' cool'. leaf_loop ps clock now th e miss' cool' = Inl (m, e')) \<or>
    (pol_enabled p \<and> \<not> is_template p \<and> policy_matches p (th_type th) (th_confidence th) (th_severity th)
      \<and> try_match_policy p (clock (pol_name p)) now th (leaf_status th) e = (Some m, e'))"
  using assms by (auto simp: leaf_status_def split: if_splits option.splits prod.splits)

lemma leaf_loop_hit:
  assumes "leaf_loop ps clock now th e miss cool = Inl (m, e')" and "set ps \<subseteq> set (policies e)"
  shows "\<exists>p. chosen clock th e p m \<and> policy_matches p (th_type th) (th_confidence th) (th_severity th)
     \<and> am_status m = leaf_status th"
  using assms
proof (induction ps arbitrary: miss cool)
  case Nil
  then show ?case by simp
next
  case (Cons p ps)
  from leaf_loop_Cons_Inl [OF Cons.prems(1)] show ?case
  proof
    assume "\<exists>miss' cool'. leaf_loop ps clock now th e miss' cool' = Inl (m, e')"
    with Cons show ?thesis by auto
  next
    assume hit: "pol_enabled p \<and> \<not> is_template p \<and>
      policy_matches p (th_type th) (th_confidence th) (th_severity th) \<and>
      try_match_policy p (clock (pol_name p)) now th (leaf_status th) e = (Some m, e')"
    then have "try_match_policy p (clock (pol_name p)) now th (leaf_status th) e = (Some m, e')" by blast
    from try_match_Some [OF this] hit policy_matches_passes Cons.prems(2) show ?thesis
      unfolding chosen_def by auto
  qed
qed

lemma category_loop_Cons_Inl:
  assumes "category_loop (p # ps) clock now th e cool = Inl (m, e')"
  shows "(\<exists>cool'. category_loop ps clock now th e cool' = Inl (m, e')) \<or>
    (pol_enabled p \<and> matches_category p (th_category th) (th_confidence th) (th_severity th)
      \<and> try_match_policy p (clock (pol_name p)) now th MatchedCategory e = (Some m, e'))"
  using assms by (auto split: if_splits option.splits prod.splits)

lemma category_loop_hit:
  assumes "category_loop ps clock now th e cool = Inl (m, e')" and "set ps \<subseteq> set (policies e)"
  shows "\<exists>p. chosen clock th e p m \<and> am_status m = MatchedCategory"
  using assms
proof (induction ps arbitrary: cool)
  case Nil
  then show ?case by simp
next
  case (Cons p ps)
  from category_loop_Cons_Inl [OF Cons.prems(1)] show ?case
  proof
    assume "\<exists>cool'. category_loop ps clock now th e cool' = Inl (m, e')"
    with Cons show ?thesis by auto
  next
    assume hit: "pol_enabled p \<and> matches_category p (th_category th) (th_confidence th) (th_severity th)
      \<and> try_match_policy p (clock (pol_name p)) now th MatchedCategory e = (Some m, e')"
    then have "try_match_policy p (clock (pol_name p)) now th MatchedCategory e = (Some m, e')"
      and "\<not> is_template p" and "passes_thresholds p (th_confidence th) (th_severity th)"
      by (auto simp: matches_category_def Let_def split: if_splits)
    with try_match_Some [OF this(1)] hit Cons.prems(2) show ?thesis
      unfolding chosen_def by auto
  qed
qed

lemma match_unknown_status:
  "am_status (fst (match_unknown now th e)) \<in> {NoAction, Skipped, Uncertain}"
  by (auto simp: match_unknown_def make_uncertain_def Let_def miss_map_def no_map_def split_beta)

text \<open>Two engines that answer every question of a decision at the same times alike.\<close>

definition agree :: "(string \<Rightarrow> time) \<Rightarrow> time \<Rightarrow> threat \<Rightarrow> policy_engine \<Rightarrow> policy_engine \<Rightarrow> bool" where
  "agree clock now th e f \<longleftrightarrow>
     policies e = policies f \<and> uncertain_enabled e = uncertain_enabled f \<and>
     uncertain_policy e = uncertain_policy f \<and> uncertain_cooldown_sec e = uncertain_cooldown_sec f \<and>
     ip_cooldown_sec e = ip_cooldown_sec f \<and>
     (\<forall>p \<in> set (policies e). in_cooldown p (clock (pol_name p)) (th_ip th) e =
        in_cooldown p (clock (pol_name p)) (th_ip th) f) \<and>
     (seconds_since now (ip_last_match e (th_ip th)) < of_int (ip_cooldown_sec e)) =
       (seconds_since now (ip_last_match f (th_ip th)) < of_int (ip_cooldown_sec e)) \<and>
     (seconds_since now (uncertain_last e (th_ip th)) < of_int (uncertain_cooldown e)) =
       (seconds_since now (uncertain_last f (th_ip th)) < of_int (uncertain_cooldown e))"

fun same_map :: "(action_map \<times> policy_engine) + 'b \<Rightarrow> (action_map \<times> policy_engine) + 'b \<Rightarrow> bool" where
  "same_map (Inl (m, e)) (Inl (n, f)) = (m = n)"
| "same_map (Inr a) (Inr b) = (a = b)"
| "same_map _ _ = False"

lemma try_match_cool: "in_cooldown p t (th_ip th) e \<Longrightarrow> try_match_policy p t now th st e = (None, e)"
  by (simp add: try_match_policy_def)

lemma try_match_go:
  assumes "\<not> in_cooldown p t (th_ip th) e" and "\<not> in_cooldown p t (th_ip th) f"
  shows "\<exists>m e' f'. try_match_policy p t now th st e = (Some m, e') \<and>
    try_match_policy p t now th st f = (Some m, f')"
  using assms by (simp add: try_match_policy_def)

lemma leaf_loop_agree:
  assumes "agree clock now th e f" and "set ps \<subseteq> set (policies e)"
  shows "same_map (leaf_loop ps clock now th e miss cool) (leaf_loop ps clock now th f miss cool)"
  using assms(2)
proof (induction ps arbitrary: miss cool)
  case (Cons p ps)
  have u: "uncertain_enabled f = uncertain_enabled e" using assms(1) by (simp add: agree_def)
  have c: "in_cooldown p (clock (pol_name p)) (th_ip th) f = in_cooldown p (clock (pol_name p)) (th_ip th) e"
    using assms(1) Cons.prems by (auto simp: agree_def)
  show ?case
  proof (cases "in_cooldown p (clock (pol_name p)) (th_ip th) e")
    case True
    with c u Cons show ?thesis by (simp add: try_match_cool)
  next
    case False
    from try_match_go [OF False, of f now "leaf_status th"] False c obtain m e' f' where
      "try_match_policy p (clock (pol_name p)) now th (leaf_status th) e = (Some m, e')"
      "try_match_policy p (clock (pol_name p)) now th (leaf_status th) f = (Some m, f')" by blast
    with u Cons show ?thesis by (simp add: leaf_status_def)
  qed
qed simp

lemma category_loop_agree:
  assumes "agree clock now th e f" and "set ps \<subseteq> set (policies e)"
  shows "same_map (category_loop ps clock now th e cool) (category_loop ps clock now th f cool)"
  using assms(2)
proof (induction ps arbitrary: cool)
  case (Cons p ps)
  have c: "in_cooldown p (clock (pol_name p)) (th_ip th) f = in_cooldown p (clock (pol_name p)) (th_ip th) e"
    using assms(1) Cons.prems by (auto simp: agree_def)
  show ?case
  proof (cases "in_cooldown p (clock (pol_name p)) (th_ip th) e")
    case True
    with c Cons show ?thesis by (simp add: try_match_cool)
  next
    case False
    from try_match_go [OF False, of f now MatchedCategory] False c obtain m e' f' where
      "try_match_policy p (clock (pol_name p)) now th MatchedCategory e = (Some m, e')"
      "try_match_policy p (clock (pol_name p)) now th MatchedCategory f = (Some m, f')" by blast
    with Cons show ?thesis by simp
  qed
qed simp

lemma leaf_loop_state:
  "leaf_loop ps clock now th e miss cool = Inl (m, e') \<Longrightarrow> e' = touch_ip (th_ip th) now e"
proof (induction ps arbitrary: miss cool)
  case (Cons p ps)
  from leaf_loop_Cons_Inl [OF Cons.prems] Cons.IH show ?case
    by (auto simp: try_match_policy_def split: if_splits)
qed simp

lemma category_loop_state:
  "category_loop ps clock now th e cool = Inl (m, e') \<Longrightarrow> e' = touch_ip (th_ip th) now e"
proof (induction ps arbitrary: cool)
  case (Cons p ps)
  from category_loop_Cons_Inl [OF Cons.prems] Cons.IH show ?case
    by (auto simp: try_match_policy_def split: if_splits)
qed simp

definition resting :: "time \<Rightarrow> threat \<Rightarrow> policy_engine \<Rightarrow> bool" where
  "resting now th e \<longleftrightarrow> th_ip th \<noteq> [] \<and> 0 < ip_cooldown_sec e \<and>
     seconds_since now (ip_last_match e (th_ip th)) < of_int (ip_cooldown_sec e)"

lemma match_decide_resting: "resting now th e \<Longrightarrow> match_decide clock now th e = (miss_map th Skipped ''ip_cooldown'', e)"
  unfolding match_decide_def resting_def by (rule if_P)

lemma miss_map_status [simp]: "am_status (miss_map th st r) = st"
  by (simp add: miss_map_def no_map_def)

text \<open>The decision about an address that is not resting.\<close>

definition awake_decision ::
  "(string \<Rightarrow> time) \<Rightarrow> time \<Rightarrow> threat \<Rightarrow> policy_engine \<Rightarrow> action_map \<times> policy_engine"
where
  "awake_decision clock now th g =
     (case leaf_loop (policies g) clock now th g False False of
        Inl hit \<Rightarrow> hit
      | Inr (miss, cool) \<Rightarrow>
          if has_dedicated (th_type th) g then
            (if cool then (miss_map th Skipped ''policy_cooldown'', g)
             else (miss_map th NoAction (if miss then ''threshold_not_met'' else ''no_match''), g))
          else if th_category th \<noteq> [] then
            (case category_loop (policies g) clock now th g False of
               Inl hit \<Rightarrow> hit
             | Inr True \<Rightarrow> (miss_map th Skipped ''category_policy_cooldown'', g)
             | Inr False \<Rightarrow> match_unknown now th g)
          else match_unknown now th g)"

lemma match_decide_awake: "\<not> resting now th g \<Longrightarrow> match_decide clock now th g = awake_decision clock now th g"
  unfolding match_decide_def resting_def awake_decision_def by (rule if_not_P)

text \<open>No category policy matches where the loop found none, or where there is no category.\<close>

lemma no_category: "\<not> matches_category p [] c s"
  by (auto simp: matches_category_def Let_def strip_def upper_def)

lemma matches_category_class: "matches_category p cat c s \<Longrightarrow> pol_enabled p \<and> is_category_policy p"
  by (auto simp: matches_category_def split: if_splits)

lemma category_loop_marks: "category_loop ps clock now th e True \<noteq> Inr False"
  by (induction ps) (auto split: option.splits prod.splits)

lemma category_loop_clear:
  "category_loop ps clock now th e False = Inr False \<Longrightarrow>
   \<forall>p \<in> set ps. \<not> matches_category p (th_category th) (th_confidence th) (th_severity th)"
  using category_loop_marks
  by (induction ps) (auto split: if_splits option.splits prod.splits dest: matches_category_class)

text \<open>The ways a decision ends, when the address is not resting.\<close>

lemma match_decide_cases:
  assumes "\<not> resting now th e"
  obtains (leaf) hit where "leaf_loop (policies e) clock now th e False False = Inl hit"
      and "match_decide clock now th e = hit"
  | (dedicated) miss cool where "leaf_loop (policies e) clock now th e False False = Inr (miss, cool)"
      and "has_dedicated (th_type th) e"
      and "match_decide clock now th e =
        (miss_map th (if cool then Skipped else NoAction) (if cool then ''policy_cooldown''
           else if miss then ''threshold_not_met'' else ''no_match''), e)"
  | (category) hit where "\<not> has_dedicated (th_type th) e"
      and "category_loop (policies e) clock now th e False = Inl hit" and "match_decide clock now th e = hit"
  | (category_cool) "\<not> has_dedicated (th_type th) e" and "category_loop (policies e) clock now th e False = Inr True"
      and "match_decide clock now th e = (miss_map th Skipped ''category_policy_cooldown'', e)"
  | (unknown) "\<not> has_dedicated (th_type th) e" and "match_decide clock now th e = match_unknown now th e"
      and "\<forall>p \<in> set (policies e). \<not> matches_category p (th_category th) (th_confidence th) (th_severity th)"
proof (cases "leaf_loop (policies e) clock now th e False False")
  case (Inl hit)
  with assms leaf show ?thesis by (simp add: match_decide_awake awake_decision_def)
next
  case (Inr b)
  obtain miss cool where b: "b = (miss, cool)" by (cases b)
  have d: "match_decide clock now th e = awake_decision clock now th e"
    using assms by (rule match_decide_awake)
  show ?thesis
  proof (cases "has_dedicated (th_type th) e")
    case True
    with d Inr b dedicated show ?thesis by (auto simp: awake_decision_def)
  next
    case False
    show ?thesis
    proof (cases "th_category th = []")
      case True
      with d Inr b False unknown no_category show ?thesis by (auto simp: awake_decision_def)
    next
      case cat: False
      with d Inr b False category category_cool unknown category_loop_clear [of "policies e"] show ?thesis
        unfolding awake_decision_def
        by (cases "category_loop (policies e) clock now th e False") (auto split: bool.splits)
    qed
  qed
qed


section \<open>Properties\<close>

lemma match_unknown_enabled:
  assumes "uncertain_enabled e" and "upper (th_type th) \<notin> set BENIGN_TYPES"
    and "upper (th_category th) \<noteq> ''BENIGN''"
  shows "am_status (fst (match_unknown now th e)) \<in> {Skipped, Uncertain}"
  using assms by (auto simp: match_unknown_def make_uncertain_def Let_def no_map_def split_beta)

lemma leaf_hit_status: "leaf_loop (policies e) clock now th e miss cool = Inl (m, e') \<Longrightarrow> am_status m \<in> {Matched, MatchedBehavior}"
  using leaf_loop_hit [of "policies e" clock now th e miss cool m e'] by (auto simp: leaf_status_def)

lemma leaf_hit_chosen: "leaf_loop (policies e) clock now th e miss cool = Inl (m, e') \<Longrightarrow> \<exists>p. chosen clock th e p m"
  using leaf_loop_hit [of "policies e" clock now th e miss cool m e'] by blast

lemma category_hit_chosen: "category_loop (policies e) clock now th e cool = Inl (m, e') \<Longrightarrow> \<exists>p. chosen clock th e p m"
  using category_loop_hit [of "policies e" clock now th e cool m e'] by blast

lemma category_hit_status: "category_loop (policies e) clock now th e cool = Inl (m, e') \<Longrightarrow> am_status m = MatchedCategory"
  using category_loop_hit [of "policies e" clock now th e cool m e'] by auto

text \<open>What the uncertain template's response says, and when it is given.\<close>

lemma unknown_response:
  assumes "match_unknown now th e = (m, e')" and "am_status m = Uncertain"
  shows "uncertain_enabled e \<and> upper (th_type th) \<notin> set BENIGN_TYPES \<and> upper (th_category th) \<noteq> ''BENIGN'' \<and>
    (th_ip th \<noteq> [] \<and> 0 < uncertain_cooldown e \<longrightarrow>
       of_int (uncertain_cooldown e) \<le> seconds_since now (uncertain_last e (th_ip th))) \<and>
    am_actions m = (if pol_actions (uncertain_template e) \<noteq> [] then pol_actions (uncertain_template e)
                    else uncertain_actions) \<and>
    am_approval m = policy_needs_approval (uncertain_template e)"
  using assms
  by (auto simp: match_unknown_def make_uncertain_def Let_def miss_map_def no_map_def policy_needs_approval_def
      split: if_splits prod.splits)

lemma decide_chosen:
  assumes "match_decide clock now th e = (m, e')" and "am_matched m" and "am_status m \<noteq> Uncertain"
  shows "\<exists>p. chosen clock th e p m"
proof -
  have "\<not> resting now th e" using assms(1,2) by (auto simp: match_decide_resting am_matched_def)
  then show ?thesis
  proof (cases rule: match_decide_cases [where clock = clock])
    case (leaf hit)
    with assms(1) leaf_hit_chosen show ?thesis by simp
  next
    case (category hit)
    with assms(1) category_hit_chosen show ?thesis by simp
  next
    case unknown
    with assms match_unknown_status [of now th e] show ?thesis by (auto simp: am_matched_def)
  qed (use assms in \<open>auto simp: am_matched_def split: if_splits\<close>)
qed

lemma unmatched_idle:
  assumes "match_decide clock now th e = (m, e')" and "\<not> am_matched m"
  shows "am_actions m = []"
proof (cases "resting now th e")
  case True
  with assms show ?thesis by (auto simp: match_decide_resting miss_map_def no_map_def)
next
  case False
  then show ?thesis
  proof (cases rule: match_decide_cases [where clock = clock])
    case (leaf hit)
    with assms show ?thesis using leaf_hit_status [of e clock now th False False m e'] by (auto simp: am_matched_def)
  next
    case (category hit)
    with assms show ?thesis using category_hit_status [of e clock now th False m e'] by (auto simp: am_matched_def)
  next
    case unknown
    with assms show ?thesis
      by (auto simp: match_unknown_def make_uncertain_def Let_def miss_map_def no_map_def am_matched_def
          split: if_splits prod.splits)
  qed (use assms(1) in \<open>auto simp: miss_map_def no_map_def\<close>)
qed

lemma decide_uncertain:
  assumes "match_decide clock now th e = (m, e')" and "am_status m = Uncertain"
  shows "match_unknown now th e = (m, e') \<and> \<not> has_dedicated (th_type th) e \<and>
    (\<forall>p \<in> set (policies e). \<not> matches_category p (th_category th) (th_confidence th) (th_severity th))"
proof -
  have "\<not> resting now th e" using assms by (auto simp: match_decide_resting)
  then show ?thesis
  proof (cases rule: match_decide_cases [where clock = clock])
    case (leaf hit)
    with assms show ?thesis using leaf_hit_status [of e clock now th False False m e'] by auto
  next
    case (category hit)
    with assms show ?thesis using category_hit_status [of e clock now th False m e'] by auto
  qed (use assms in \<open>auto split: if_splits\<close>)
qed

text \<open>
  C15. Every response, whatever its kind: the address was not in its aggregate cooldown, and the
  response is either that of a policy which is enabled, whose thresholds the threat passes and which
  is in no cooldown for the address, with the policy's actions and its demand for approval; or it is
  the answer to an unknown threat. The uncertain template's thresholds are never compared; that answer
  is given only when it is enabled, the threat is not declared benign, no policy is dedicated to its
  type, none matches its category and the address is not in the uncertain cooldown, and it has the
  template's actions (the code's own, when it lists none) and demand for approval.
\<close>

theorem match_respects_policy:
  assumes "match_decide clock now th e = (m, e')" and "am_matched m"
  shows "\<not> (th_ip th \<noteq> [] \<and> 0 < ip_cooldown_sec e \<and>
       seconds_since now (ip_last_match e (th_ip th)) < of_int (ip_cooldown_sec e)) \<and>
    (if am_status m \<noteq> Uncertain then
       \<exists>p \<in> set (policies e). pol_enabled p \<and> \<not> is_template p \<and>
         passes_thresholds p (th_confidence th) (th_severity th) \<and>
         \<not> in_cooldown p (clock (pol_name p)) (th_ip th) e \<and> am_policy m = pol_name p \<and>
         am_actions m = pol_actions p \<and> am_approval m = policy_needs_approval p
     else
       uncertain_enabled e \<and> upper (th_type th) \<notin> set BENIGN_TYPES \<and> upper (th_category th) \<noteq> ''BENIGN'' \<and>
       \<not> has_dedicated (th_type th) e \<and>
       (\<forall>p \<in> set (policies e). \<not> matches_category p (th_category th) (th_confidence th) (th_severity th)) \<and>
       (th_ip th \<noteq> [] \<and> 0 < uncertain_cooldown e \<longrightarrow>
          of_int (uncertain_cooldown e) \<le> seconds_since now (uncertain_last e (th_ip th))) \<and>
       am_actions m = (if pol_actions (uncertain_template e) \<noteq> [] then pol_actions (uncertain_template e)
                       else uncertain_actions) \<and>
       am_approval m = policy_needs_approval (uncertain_template e))"
proof (rule conjI)
  have "\<not> resting now th e" using assms by (auto simp: match_decide_resting am_matched_def)
  then show "\<not> (th_ip th \<noteq> [] \<and> 0 < ip_cooldown_sec e \<and>
       seconds_since now (ip_last_match e (th_ip th)) < of_int (ip_cooldown_sec e))"
    by (simp add: resting_def)
qed (use decide_chosen [OF assms] decide_uncertain [OF assms(1)] unknown_response [of now th e m e']
  in \<open>cases "am_status m = Uncertain"; simp add: chosen_def Bex_def; blast\<close>)

definition demo_engine :: policy_engine where
  "demo_engine = \<lparr>policies = [code_policy ''c2-block'' ''C2_BEACON'' (6 / 10) ''high'' [block_for 2] True False 100 60],
     cooldowns = (\<lambda>_ _. None), ip_last_match = (\<lambda>_. None), uncertain_last = (\<lambda>_. None),
     last_cleanup = 0, uncertain_policy = None, ip_cooldown_sec = 60, uncertain_cooldown_sec = 300,
     uncertain_enabled = True\<rparr>"

definition demo_threat :: "string \<Rightarrow> threat" where
  "demo_threat tt = \<lparr>th_type = tt, th_confidence = 9 / 10, th_severity = ''high'', th_ip = ''10.1.1.1'', th_category = []\<rparr>"

theorem match_respects_policy_witness:
  "(\<exists>p \<in> set (policies demo_engine).
      am_actions (fst (match_decide (\<lambda>_. 4000) 4000 (demo_threat ''C2_BEACON'') demo_engine)) = pol_actions p) \<and>
   am_actions (fst (match_decide (\<lambda>_. 4000) 4000 (demo_threat ''NOVEL'') demo_engine)) = uncertain_actions"
proof -
  have "am_status (fst (match_decide (\<lambda>_. 4000) 4000 (demo_threat ''C2_BEACON'') demo_engine)) = Matched"
    "am_status (fst (match_decide (\<lambda>_. 4000) 4000 (demo_threat ''NOVEL'') demo_engine)) = Uncertain"
    "pol_actions (uncertain_template demo_engine) = uncertain_actions"
    by code_simp+
  with match_respects_policy [of "\<lambda>_. 4000" 4000 "demo_threat ''C2_BEACON''" demo_engine, OF surjective_pairing]
    match_respects_policy [of "\<lambda>_. 4000" 4000 "demo_threat ''NOVEL''" demo_engine, OF surjective_pairing]
  show ?thesis by (auto simp: am_matched_def)
qed

lemma approval_for_high_impact:
  assumes "match_decide clock now th e = (m, e')" and "a \<in> set (am_actions m)"
    and "HighAction \<le> severity_of_action a"
    and "pol_actions (uncertain_template e) \<noteq> [] \<or> pol_require_approval (uncertain_template e)"
  shows "am_approval m"
proof (cases "resting now th e")
  case True
  with assms show ?thesis by (auto simp: match_decide_resting miss_map_def no_map_def)
next
  case False
  have chosen_ok: "chosen clock th e p m \<Longrightarrow> am_approval m" for p
    using assms(2,3) needs_approval_severity
    by (auto simp: chosen_def policy_needs_approval_def list_ex_iff)
  show ?thesis using False
  proof (cases rule: match_decide_cases [where clock = clock])
    case (leaf hit)
    with assms(1) have "leaf_loop (policies e) clock now th e False False = Inl (m, e')" by simp
    with leaf_hit_chosen chosen_ok show ?thesis by blast
  next
    case (category hit)
    with assms(1) have "category_loop (policies e) clock now th e False = Inl (m, e')" by simp
    with category_hit_chosen chosen_ok show ?thesis by blast
  next
    case unknown
    then have "match_unknown now th e = (m, e')" using assms(1) by simp
    with assms(2-4) needs_approval_severity [of a] show ?thesis
      by (auto simp: match_unknown_def make_uncertain_def Let_def miss_map_def no_map_def
          policy_needs_approval_def list_ex_iff split: if_splits prod.splits)
  qed (use assms in \<open>auto simp: miss_map_def no_map_def\<close>)
qed

text \<open>
  Whatever the decision, an action list with a high-impact, critical or unregistered action in
  it comes with the demand for approval, provided the uncertain template lists its own actions or
  asks for approval itself.
\<close>

theorem high_impact_needs_approval:
  assumes "match_decide clock now th e = (m, e')" and "a \<in> set (am_actions m)"
    and "HighAction \<le> severity_of_action a"
    and "pol_actions (uncertain_template e) \<noteq> [] \<or> pol_require_approval (uncertain_template e)"
  shows "am_approval m"
  using assms by (rule approval_for_high_impact)

theorem high_impact_needs_approval_witness:
  "am_approval (fst (match_decide (\<lambda>_. 4000) 4000 (demo_threat ''NOVEL'') demo_engine))"
proof -
  have "named_action ''block_ip'' [(''duration_minutes'', PyInt 5)] \<in>
      set (am_actions (fst (match_decide (\<lambda>_. 4000) 4000 (demo_threat ''NOVEL'') demo_engine)))"
    by code_simp
  moreover have "HighAction \<le> severity_of_action (named_action ''block_ip'' [(''duration_minutes'', PyInt 5)])"
    by code_simp
  moreover have "pol_require_approval (uncertain_template demo_engine)" by code_simp
  ultimately show ?thesis
    using high_impact_needs_approval [of "\<lambda>_. 4000" 4000 "demo_threat ''NOVEL''" demo_engine, OF surjective_pairing]
    by blast
qed


text \<open>
  With the uncertain response enabled, a threat of a type no policy is dedicated to, and not
  declared benign, is never answered with "no action": it is responded to, or a cooldown is running.
\<close>

theorem unknown_threat_never_dropped:
  assumes "uncertain_enabled e" and "\<not> has_dedicated (th_type th) e"
    and "upper (th_type th) \<notin> set BENIGN_TYPES" and "upper (th_category th) \<noteq> ''BENIGN''"
  shows "am_status (fst (match_decide clock now th e)) \<noteq> NoAction"
proof (cases "resting now th e")
  case True
  then show ?thesis by (simp add: match_decide_resting)
next
  case False
  then show ?thesis
  proof (cases rule: match_decide_cases [where clock = clock])
    case (leaf hit)
    then show ?thesis using leaf_hit_status by (cases hit) fastforce
  next
    case (category hit)
    then show ?thesis using category_hit_status by (cases hit) fastforce
  next
    case unknown
    then show ?thesis using match_unknown_enabled [OF assms(1,3,4), of now] by auto
  qed (use assms(2) in auto)
qed

theorem unknown_threat_never_dropped_witness:
  "am_status (fst (match_decide (\<lambda>_. 4000) 4000 (demo_threat ''NOVEL'') demo_engine)) \<noteq> NoAction"
  by (rule unknown_threat_never_dropped; code_simp)

text \<open>
  A type with a dedicated policy never falls through to a category policy or to the uncertain
  containment: when its policies miss their thresholds the answer is "no action", and when one is in
  its cooldown the threat is skipped.
\<close>

theorem dedicated_type_never_contained:
  assumes "has_dedicated (th_type th) e"
  shows "am_status (fst (match_decide clock now th e)) \<in> {Matched, MatchedBehavior, Skipped, NoAction}"
proof (cases "resting now th e")
  case True
  then show ?thesis by (simp add: match_decide_resting)
next
  case False
  then show ?thesis
  proof (cases rule: match_decide_cases [where clock = clock])
    case (leaf hit)
    then show ?thesis using leaf_hit_status by (cases hit) fastforce
  qed (use assms in auto)
qed

theorem dedicated_type_never_contained_witness:
  "am_status (fst (match_decide (\<lambda>_. 4000) 4000 ((demo_threat ''C2_BEACON'')\<lparr>th_confidence := 1 / 10\<rparr>) demo_engine))
     \<in> {Matched, MatchedBehavior, Skipped, NoAction}"
  by (rule dedicated_type_never_contained) code_simp

text \<open>
  One response per address and window: after a decision that responded to an address, every
  decision about that address within the aggregate cooldown is skipped, whatever the threat, and
  changes nothing.
\<close>

theorem one_response_per_window:
  assumes "match_decide clock now th e = (m, e')" and "am_matched m" and "th_ip th \<noteq> []"
    and "th_ip th' = th_ip th" and "0 < ip_cooldown_sec e" and "now' - now < of_int (ip_cooldown_sec e)"
  shows "match_decide clock' now' th' e' = (miss_map th' Skipped ''ip_cooldown'', e')"
proof (rule match_decide_resting)
  have awake: "\<not> resting now th e"
    using assms(1,2) by (auto simp: match_decide_resting am_matched_def)
  have touched: "ip_last_match e' (th_ip th) = Some now \<and> ip_cooldown_sec e' = ip_cooldown_sec e"
    using awake
  proof (cases rule: match_decide_cases [where clock = clock])
    case (leaf hit)
    with assms(1) have "leaf_loop (policies e) clock now th e False False = Inl (m, e')" by simp
    from leaf_loop_state [OF this] assms(3) show ?thesis by (simp add: touch_ip_def)
  next
    case (category hit)
    with assms(1) have "category_loop (policies e) clock now th e False = Inl (m, e')" by simp
    from category_loop_state [OF this] assms(3) show ?thesis by (simp add: touch_ip_def)
  next
    case unknown
    with assms(1-3) show ?thesis
      by (auto simp: match_unknown_def make_uncertain_def Let_def no_map_def miss_map_def am_matched_def
          touch_ip_def split: if_splits prod.splits)
  qed (use assms(1,2) in \<open>auto simp: am_matched_def split: if_splits\<close>)
  then show "resting now' th' e'"
    using assms(3-6) by (simp add: resting_def seconds_since_def)
qed

theorem one_response_per_window_witness:
  "am_status (fst (match_decide (\<lambda>_. 4030) 4030 (demo_threat ''NOVEL'')
     (snd (match_decide (\<lambda>_. 4000) 4000 (demo_threat ''C2_BEACON'') demo_engine)))) = Skipped"
proof -
  have "am_matched (fst (match_decide (\<lambda>_. 4000) 4000 (demo_threat ''C2_BEACON'') demo_engine))"
    by code_simp
  from one_response_per_window [OF surjective_pairing this, of "demo_threat ''NOVEL''" 4030 "\<lambda>_. 4030"]
  show ?thesis by (simp add: demo_threat_def demo_engine_def)
qed

text \<open>
  A threat whose severity is not one of the five names passes every policy's severity threshold,
  the critical one included: only its confidence is compared.
\<close>

theorem unknown_severity_passes:
  "passes_thresholds p confidence ''HIGH'' \<longleftrightarrow> pol_confidence p \<le> confidence"
proof -
  have "index_of ''HIGH'' SEVERITY_ORDER = None" by code_simp
  then show ?thesis by (auto simp: passes_thresholds_def)
qed


subsection \<open>The clean-up\<close>

lemma drop_older_seconds:
  assumes "t \<le> now" and "of_int limit \<le> now" and "limit \<le> ttl"
  shows "seconds_since now (drop_older ttl t m ip) < of_int limit \<longleftrightarrow> seconds_since now (m ip) < of_int limit"
proof (cases "m ip")
  case None
  then show ?thesis by (simp add: drop_older_def)
next
  case (Some ts)
  have "(of_int limit :: rat) \<le> of_int ttl" using assms(3) by simp
  with Some assms show ?thesis by (auto simp: drop_older_def seconds_since_def)
qed

lemma cleanup_fields [simp]:
  "policies (cleanup_expired t e) = policies e"
  "uncertain_enabled (cleanup_expired t e) = uncertain_enabled e"
  "uncertain_policy (cleanup_expired t e) = uncertain_policy e"
  "uncertain_cooldown_sec (cleanup_expired t e) = uncertain_cooldown_sec e"
  "ip_cooldown_sec (cleanup_expired t e) = ip_cooldown_sec e"
  by (simp_all add: cleanup_expired_def)

lemma same_map_Inl: "same_map (Inl h) y \<Longrightarrow> \<exists>h'. y = Inl h' \<and> fst h' = fst h"
  by (cases h; cases y) auto

lemma same_map_Inr: "same_map (Inr a) y \<Longrightarrow> y = Inr a"
  by (cases y) auto

lemma agree_decides:
  assumes "agree clock now th e f"
  shows "fst (match_decide clock now th e) = fst (match_decide clock now th f)"
proof -
  have pol: "policies f = policies e" "uncertain_enabled f = uncertain_enabled e"
    "uncertain_policy f = uncertain_policy e" "uncertain_cooldown_sec f = uncertain_cooldown_sec e"
    "ip_cooldown_sec f = ip_cooldown_sec e"
    using assms by (auto simp: agree_def)
  have rest: "resting now th f = resting now th e" using assms pol by (auto simp: agree_def resting_def)
  have unknown: "fst (match_unknown now th e) = fst (match_unknown now th f)"
    using assms pol
    by (auto simp: agree_def match_unknown_def make_uncertain_def uncertain_cooldown_def
        uncertain_template_def Let_def split_beta)
  have ded: "has_dedicated (th_type th) f = has_dedicated (th_type th) e"
    by (simp add: has_dedicated_def pol)
  have leaf: "same_map (leaf_loop (policies e) clock now th e False False)
      (leaf_loop (policies e) clock now th f False False)"
    by (rule leaf_loop_agree [OF assms]) simp
  have cat: "same_map (category_loop (policies e) clock now th e False)
      (category_loop (policies e) clock now th f False)"
    by (rule category_loop_agree [OF assms]) simp
  show ?thesis
  proof (cases "resting now th e")
    case True
    with rest show ?thesis by (simp add: match_decide_resting)
  next
    case False
    with rest have de: "match_decide clock now th e = awake_decision clock now th e"
      and df: "match_decide clock now th f = awake_decision clock now th f"
      by (simp_all add: match_decide_awake)
    show ?thesis
    proof (cases "leaf_loop (policies e) clock now th e False False")
      case (Inl h)
      from leaf [unfolded Inl, THEN same_map_Inl] obtain h' where
        h': "leaf_loop (policies e) clock now th f False False = Inl h'" "fst h' = fst h" by blast
      show ?thesis unfolding de df awake_decision_def pol(1) Inl h'(1) by (simp add: h'(2))
    next
      case (Inr b)
      obtain miss cool where b: "b = (miss, cool)" by (cases b)
      have e: "leaf_loop (policies e) clock now th e False False = Inr (miss, cool)" using Inr b by simp
      have f: "leaf_loop (policies e) clock now th f False False = Inr (miss, cool)"
        using leaf [unfolded Inr, THEN same_map_Inr] b by simp
      show ?thesis
      proof (cases "category_loop (policies e) clock now th e False")
        case (Inl h)
        from cat [unfolded Inl, THEN same_map_Inl] obtain h' where
          h': "category_loop (policies e) clock now th f False = Inl h'" "fst h' = fst h" by blast
        show ?thesis unfolding de df awake_decision_def pol(1) e f Inl h'(1) ded by (simp add: h'(2) unknown)
      next
        case (Inr c)
        have c: "category_loop (policies e) clock now th f False = Inr c"
          using cat [unfolded Inr, THEN same_map_Inr] .
        show ?thesis unfolding de df awake_decision_def pol(1) e f Inr c ded by (cases c) (simp_all add: unknown)
      qed
    qed
  qed
qed


text \<open>
  The clean-up changes no decision: when every policy is the one its name resolves to, the
  clocks of the decision are not before the clean-up and beyond every cooldown's length, and the
  uncertain template's cooldown is within the time the clean-up keeps its entries, a decision after
  the clean-up is the decision without it.
\<close>

theorem cleanup_changes_no_decision:
  assumes "\<forall>p \<in> set (policies e). get_policy (pol_name p) e = Some p \<and> t \<le> clock (pol_name p) \<and>
      of_int (pol_cooldown p * 60) \<le> clock (pol_name p)"
    and "t \<le> now" and "of_int (ip_cooldown_sec e) \<le> now" and "of_int (uncertain_cooldown e) \<le> now"
    and "uncertain_cooldown e \<le> max (uncertain_cooldown_sec e) 60"
  shows "fst (match_decide clock now th (cleanup_expired t e)) = fst (match_decide clock now th e)"
proof (rule agree_decides)
  have "in_cooldown p (clock (pol_name p)) (th_ip th) (cleanup_expired t e) =
      in_cooldown p (clock (pol_name p)) (th_ip th) e" if "p \<in> set (policies e)" for p
    using assms(1) that
      drop_older_seconds [of t "clock (pol_name p)" "pol_cooldown p * 60" "max (pol_cooldown p * 60) ORPHAN_TTL"]
    by (simp add: in_cooldown_def cleanup_expired_def)
  moreover have "seconds_since now (ip_last_match (cleanup_expired t e) (th_ip th)) < of_int (ip_cooldown_sec e) \<longleftrightarrow>
      seconds_since now (ip_last_match e (th_ip th)) < of_int (ip_cooldown_sec e)"
    using drop_older_seconds [OF assms(2,3)] by (simp add: cleanup_expired_def)
  moreover have "seconds_since now (uncertain_last (cleanup_expired t e) (th_ip th)) < of_int (uncertain_cooldown e) \<longleftrightarrow>
      seconds_since now (uncertain_last e (th_ip th)) < of_int (uncertain_cooldown e)"
    using drop_older_seconds [OF assms(2,4,5)] by (simp add: cleanup_expired_def)
  ultimately show "agree clock now th (cleanup_expired t e) e"
    by (simp add: agree_def uncertain_cooldown_def uncertain_template_def)
qed

theorem cleanup_changes_no_decision_witness:
  "fst (match_decide (\<lambda>_. 4000) 4000 (demo_threat ''C2_BEACON'') (cleanup_expired 3900 demo_engine)) =
   fst (match_decide (\<lambda>_. 4000) 4000 (demo_threat ''C2_BEACON'') demo_engine)"
proof (rule cleanup_changes_no_decision)
  show "\<forall>p \<in> set (policies demo_engine). get_policy (pol_name p) demo_engine = Some p \<and>
      3900 \<le> (4000 :: time) \<and> of_int (pol_cooldown p * 60) \<le> (4000 :: time)"
    by (simp add: demo_engine_def get_policy_def goes_by_def code_policy_def)
qed (simp_all add: demo_engine_def uncertain_cooldown_def uncertain_template_def)

definition template_engine :: policy_engine where
  "template_engine = demo_engine\<lparr>uncertain_policy := Some (uncertain_template demo_engine\<lparr>pol_cooldown := 10\<rparr>),
     uncertain_last := [''10.1.1.1'' \<mapsto> 1000]\<rparr>"

text \<open>
  The clean-up forgets uncertain containments too early when the template's own cooldown is the
  longer one: with a template of ten minutes and the default of five, an address contained at 1000
  is still skipped at 1400, and after a clean-up at 1400 it is contained again.
\<close>

theorem cleanup_shortens_uncertain_cooldown:
  "am_status (fst (match_decide (\<lambda>_. 1400) 1400 (demo_threat ''NOVEL'') template_engine)) = Skipped \<and>
   am_status (fst (match_decide (\<lambda>_. 1400) 1400 (demo_threat ''NOVEL'') (cleanup_expired 1400 template_engine))) = Uncertain"
  by (intro conjI; code_simp)

end
