(* ===== verification/CheckResult.thy ===== *)
theory CheckResult
  imports Prelude
begin

text \<open>
  The result every check of the security guard returns (backend/security_guard/check_result.py)
  and the contract the four checkers share.  The program composes Chinese message texts from
  lists of problems and warnings; here each text is a constructor that carries the values the
  text interpolates, and the composed message is the pair of lists.
\<close>

datatype check_kind = IntentCheck | SequenceCheck | RateCheck | ContextCheck

text \<open>The texts appended to \<open>issues\<close> and \<open>warnings\<close> by the four checkers.\<close>

datatype issue =
    ReasonTooShort
  | ReasonTrivial string
  | LevelForbids string string "string list"
  | UnknownLevelForbids string "string list"
  | IsolateBurst nat
  | BlockBurst nat
  | NoPriorAlert
  | GlobalRateExceeded nat nat
  | ActionRateExceeded string nat nat
  | RepeatedBlock pyval nat
  | BlockedBefore pyval nat
  | BlockWithoutSource
  | IsolateWithoutHost

record check_result =
  check_name :: check_kind
  passed :: bool
  issues :: "issue list"
  warnings :: "issue list"
  details :: pydict

text \<open>
  What the orchestrating guard relies on: a checker names itself, fails exactly when it found a
  problem, and keeps its state when it fails.
\<close>

locale guard_checker =
  fixes kind :: check_kind
    and check :: "time \<Rightarrow> string \<Rightarrow> pydict \<Rightarrow> 's \<Rightarrow> check_result \<times> 's"
  assumes names_itself: "check_name (fst (check now action info s)) = kind"
    and fails_with_issue:
      "passed (fst (check now action info s)) \<longleftrightarrow> issues (fst (check now action info s)) = []"
    and failing_keeps_state: "\<not> passed (fst (check now action info s)) \<Longrightarrow> snd (check now action info s) = s"
begin

text \<open>A run of requests that all fail leaves the checker as it was.\<close>

fun states :: "(time \<times> string \<times> pydict) list \<Rightarrow> 's \<Rightarrow> 's" where
  "states [] s = s"
| "states ((now, action, info) # rs) s = states rs (snd (check now action info s))"

fun all_fail :: "(time \<times> string \<times> pydict) list \<Rightarrow> 's \<Rightarrow> bool" where
  "all_fail [] s = True"
| "all_fail ((now, action, info) # rs) s =
     (\<not> passed (fst (check now action info s)) \<and> all_fail rs (snd (check now action info s)))"

lemma all_fail_keeps: "all_fail rs s \<Longrightarrow> states rs s = s"
  by (induction rs s rule: states.induct) (auto simp: failing_keeps_state)

lemma failure_has_issue:
  "\<not> passed (fst (check now action info s)) \<Longrightarrow>
   \<exists>i is. issues (fst (check now action info s)) = i # is"
  using fails_with_issue by (cases "issues (fst (check now action info s))") auto

end

end
