(* ===== verification/IntentChecker.thy ===== *)
theory IntentChecker
  imports CheckResult
begin

text \<open>
  backend/security_guard/intent_checker.py: is an action proportionate to the threat level of
  its context.  The matrix and the level and reason resolution are class attributes and class
  methods, so the checker has no state (its state type is \<open>unit\<close>).
\<close>

definition THREAT_ACTION_MATRIX :: "(string \<times> string list) list" where
  "THREAT_ACTION_MATRIX =
    [(''critical'', [''block_ip'', ''isolate_host'', ''terminate_process'',
                     ''rate_limit'', ''alert_only'', ''send_alert'']),
     (''high'', [''block_ip'', ''isolate_host'', ''rate_limit'', ''alert_only'', ''send_alert'']),
     (''medium'', [''rate_limit'', ''alert_only'', ''send_alert'']),
     (''low'', [''alert_only'', ''send_alert'']),
     (''info'', [''alert_only'', ''send_alert''])]"

definition ALERT_ACTIONS :: "string list" where
  "ALERT_ACTIONS = [''alert_only'', ''send_alert'']"

definition VALID_LEVELS :: "string list" where
  "VALID_LEVELS = [''critical'', ''high'', ''medium'', ''low'', ''info'']"

text \<open>
  The trivial reasons in ASCII.  The three Chinese ones have at most two characters and are
  refused by the length test that comes first.
\<close>

definition TRIVIAL_REASONS :: "string list" where
  "TRIVIAL_REASONS = [''test'', ''tmp'', ''none'', ''null'', '''']"

definition resolve_threat_level :: "text_env \<Rightarrow> pydict \<Rightarrow> string" where
  "resolve_threat_level te info =
     (let raw = py_or (py_or (py_get info ''threat_level'' PyNone) (py_get info ''severity'' PyNone))
                  (PyStr ''unknown'');
          level = lower (strip (py_str te raw))
      in if level \<in> set VALID_LEVELS then level else ''unknown'')"

definition serious :: "string \<Rightarrow> bool" where
  "serious r \<longleftrightarrow> r \<noteq> [] \<and> 3 \<le> length r \<and> lower r \<notin> set TRIVIAL_REASONS"

definition resolve_reason :: "text_env \<Rightarrow> pydict \<Rightarrow> string" where
  "resolve_reason te info =
     (let reason = strip (py_str te (py_or (py_get info ''reason'' PyNone) (PyStr ''''))) in
      if serious reason then reason else
      (let message = strip (py_str te (py_or (py_get info ''message'' PyNone) (PyStr ''''))) in
       if serious message then message else
       (let threat_type = py_or (py_or (py_get info ''threat_type'' PyNone) (py_get info ''event'' PyNone))
                            (PyStr ''UNKNOWN'');
            severity = py_or (py_or (py_get info ''severity'' PyNone) (py_get info ''threat_level'' PyNone))
                         (PyStr ''unknown'')
        in ''Policy response for '' @ py_str te threat_type @ '': severity='' @ py_str te severity
           @ '' confidence='' @ fixed2 te (py_get info ''confidence'' PyNone))))"

definition reason_issues :: "string \<Rightarrow> issue list" where
  "reason_issues reason =
     (if reason = [] \<or> length (strip reason) < 3 then [ReasonTooShort]
      else if lower (strip reason) \<in> set TRIVIAL_REASONS then [ReasonTrivial reason]
      else [])"

definition level_issues :: "string \<Rightarrow> string \<Rightarrow> issue list" where
  "level_issues threat_level action =
     (if threat_level \<noteq> ''unknown'' then
        (let allowed = (case map_of THREAT_ACTION_MATRIX threat_level of None \<Rightarrow> [] | Some as \<Rightarrow> as)
         in if allowed \<noteq> [] \<and> action \<notin> set allowed
            then [LevelForbids threat_level action allowed] else [])
      else if action \<notin> set ALERT_ACTIONS then [UnknownLevelForbids action ALERT_ACTIONS] else [])"

definition intent_check :: "text_env \<Rightarrow> string \<Rightarrow> pydict \<Rightarrow> check_result" where
  "intent_check te action info =
     (let level = resolve_threat_level te info;
          reason = resolve_reason te info;
          found = reason_issues reason @ level_issues level action
      in if found \<noteq> [] then
           \<lparr>check_name = IntentCheck, passed = False, issues = found, warnings = [],
            details = [(''threat_level'', PyStr level), (''action'', PyStr action)]\<rparr>
         else
           \<lparr>check_name = IntentCheck, passed = True, issues = [], warnings = [],
            details = [(''threat_level'', PyStr level), (''action'', PyStr action),
                       (''reason'', PyStr reason)]\<rparr>)"

section \<open>What the checker decides\<close>

lemma intent_check_name [simp]: "check_name (intent_check te action info) = IntentCheck"
  by (simp add: intent_check_def Let_def)

lemma intent_check_issues [simp]:
  "issues (intent_check te action info) =
     reason_issues (resolve_reason te info) @ level_issues (resolve_threat_level te info) action"
  by (simp add: intent_check_def Let_def)

lemma intent_check_passed:
  "passed (intent_check te action info) \<longleftrightarrow> issues (intent_check te action info) = []"
  by (simp add: intent_check_def Let_def)

interpretation intent: guard_checker IntentCheck "\<lambda>now action info s. (intent_check te action info, s)"
  for te
  by unfold_locales (simp_all add: intent_check_passed)

lemma resolve_threat_level_cases:
  "resolve_threat_level te info \<in> set VALID_LEVELS \<or> resolve_threat_level te info = ''unknown''"
  by (simp add: resolve_threat_level_def Let_def)

text \<open>The text built when neither field is usable starts with the words \<open>Policy response for\<close>.\<close>

lemma strip_keeps_word:
  assumes "s = w @ rest" and "w \<noteq> []" and "\<forall>c\<in>set w. \<not> is_space c"
  shows "\<exists>rest'. strip s = w @ rest'"
proof -
  have front: "dropWhile is_space s = w @ rest"
    using assms by (cases w) auto
  have "dropWhile is_space (rev rest @ rev w) =
      (if \<forall>c\<in>set rest. is_space c then rev w else dropWhile is_space (rev rest) @ rev w)"
  proof (cases "\<forall>c\<in>set rest. is_space c")
    case True
    have "rev w \<noteq> [] \<and> \<not> is_space (hd (rev w))"
      using assms(2,3) by (simp add: hd_rev)
    then have "dropWhile is_space (rev w) = rev w" by (intro dropWhile_fixed) simp
    with True show ?thesis using dropWhile_append2 [of "rev rest" is_space "rev w"] by simp
  next
    case False
    then obtain c where "c \<in> set (rev rest)" and "\<not> is_space c" by auto
    then have "dropWhile is_space (rev rest @ rev w) = dropWhile is_space (rev rest) @ rev w"
      by (rule dropWhile_append1)
    with False show ?thesis by auto
  qed
  then show ?thesis
    by (auto simp: strip_def front)
qed

lemma serious_reason_issues:
  "serious r \<Longrightarrow> strip r = r \<Longrightarrow> reason_issues r = []"
  by (simp add: serious_def reason_issues_def)

lemma lower_Policy: "lower ''Policy'' = ''policy''"
  by code_simp

lemma fallback_reason_issues: "reason_issues (''Policy'' @ rest) = []"
proof -
  have "\<exists>rest'. strip (''Policy'' @ rest) = ''Policy'' @ rest'"
    by (rule strip_keeps_word [OF refl]) (simp_all add: is_space_def)
  then obtain rest' where st: "strip (''Policy'' @ rest) = ''Policy'' @ rest'" ..
  then have "lower (strip (''Policy'' @ rest)) = ''policy'' @ lower rest'"
    using lower_Policy by (simp add: lower_def)
  then show ?thesis
    unfolding reason_issues_def TRIVIAL_REASONS_def st by simp
qed

lemma resolve_reason_issues: "reason_issues (resolve_reason te info) = []"
proof -
  have fb: "reason_issues (CHR ''P'' # CHR ''o'' # CHR ''l'' # CHR ''i'' # CHR ''c'' # CHR ''y'' # rest) = []"
    for rest
    using fallback_reason_issues [of rest] by simp
  show ?thesis
    unfolding resolve_reason_def Let_def
    by (simp add: serious_reason_issues fb)
qed

lemma level_issues_valid:
  assumes "level \<in> set VALID_LEVELS" and "level_issues level action = []"
  shows "\<exists>allowed. map_of THREAT_ACTION_MATRIX level = Some allowed \<and> action \<in> set allowed"
  using assms by (auto simp: VALID_LEVELS_def level_issues_def THREAT_ACTION_MATRIX_def Let_def
      split: if_splits)

end
