(* ===== verification/SequenceGuard.thy ===== *)
theory SequenceGuard
  imports CheckResult
begin

text \<open>
  backend/security_guard/sequence_guard.py: dangerous sequences of executed actions.  The
  history is a \<open>deque(maxlen=50)\<close> of (action, time stamp), newest last.
\<close>

type_synonym sequence_guard = "(string \<times> time) list"

definition MAX_HISTORY :: nat where "MAX_HISTORY = 50"

definition seq_count_in_window :: "string \<Rightarrow> time \<Rightarrow> time \<Rightarrow> sequence_guard \<Rightarrow> nat" where
  "seq_count_in_window action window_sec now h =
     length (filter (\<lambda>(name, ts). name = action \<and> now - ts \<le> window_sec) h)"

definition has_recent_action :: "string \<Rightarrow> time \<Rightarrow> time \<Rightarrow> sequence_guard \<Rightarrow> bool" where
  "has_recent_action action window_sec now h =
     list_ex (\<lambda>(name, ts). name = action \<and> now - ts \<le> window_sec) h"

definition sequence_issues :: "time \<Rightarrow> string \<Rightarrow> sequence_guard \<Rightarrow> issue list" where
  "sequence_issues now action h =
     (let n = seq_count_in_window ''isolate_host'' 300 now h in
      if action = ''isolate_host'' \<and> 3 \<le> n then [IsolateBurst n] else []) @
     (let n = seq_count_in_window ''block_ip'' 60 now h in
      if action = ''block_ip'' \<and> 5 \<le> n then [BlockBurst n] else [])"

definition sequence_warnings :: "time \<Rightarrow> string \<Rightarrow> sequence_guard \<Rightarrow> issue list" where
  "sequence_warnings now action h =
     (if action = ''terminate_process'' \<and> \<not> has_recent_action ''alert_only'' 300 now h
      then [NoPriorAlert] else [])"

definition sequence_check :: "time \<Rightarrow> string \<Rightarrow> pydict \<Rightarrow> sequence_guard \<Rightarrow> check_result \<times> sequence_guard" where
  "sequence_check now action info h =
     (let found = sequence_issues now action h; warn = sequence_warnings now action h in
      (if found \<noteq> [] then
         \<lparr>check_name = SequenceCheck, passed = False, issues = found, warnings = warn,
          details = [(''action'', PyStr action)]\<rparr>
       else
         \<lparr>check_name = SequenceCheck, passed = True, issues = [], warnings = warn,
          details = [(''action'', PyStr action)]\<rparr>, h))"

text \<open>Appending to a full deque drops its oldest entry.\<close>

definition sequence_record :: "time \<Rightarrow> string \<Rightarrow> sequence_guard \<Rightarrow> sequence_guard" where
  "sequence_record now action h =
     (let h' = h @ [(action, now)] in drop (length h' - MAX_HISTORY) h')"

definition sequence_reset :: "sequence_guard \<Rightarrow> sequence_guard" where
  "sequence_reset h = []"

section \<open>What the guard decides\<close>

lemma sequence_check_state [simp]: "snd (sequence_check now action info h) = h"
  by (simp add: sequence_check_def Let_def)

lemma sequence_check_issues [simp]:
  "issues (fst (sequence_check now action info h)) = sequence_issues now action h"
  by (simp add: sequence_check_def Let_def)

lemma sequence_check_passed:
  "passed (fst (sequence_check now action info h)) \<longleftrightarrow> sequence_issues now action h = []"
  by (simp add: sequence_check_def Let_def)

lemma sequence_check_name [simp]: "check_name (fst (sequence_check now action info h)) = SequenceCheck"
  by (simp add: sequence_check_def Let_def)

interpretation sequence: guard_checker SequenceCheck sequence_check
  by unfold_locales (simp_all add: sequence_check_passed)

lemma sequence_record_length:
  "length h \<le> MAX_HISTORY \<Longrightarrow> length (sequence_record now action h) \<le> MAX_HISTORY"
  by (simp add: sequence_record_def Let_def)

text \<open>
  Dropping the oldest entries loses nothing a check could see as long as one window holds fewer
  than \<open>MAX_HISTORY\<close> events: the kept entries are the newest.
\<close>

lemma sequence_record_suffix:
  "\<exists>old. h @ [(action, now)] = old @ sequence_record now action h"
  unfolding sequence_record_def Let_def by (metis append_take_drop_id)

lemma sequence_record_new:
  "(action, now) \<in> set (sequence_record now action h)"
proof -
  have "drop (length (h @ [(action, now)]) - MAX_HISTORY) (h @ [(action, now)]) =
      drop (length h + 1 - MAX_HISTORY) h @ [(action, now)]"
    by (simp add: MAX_HISTORY_def)
  then show ?thesis by (simp add: sequence_record_def Let_def)
qed

lemma seq_count_record_le:
  "seq_count_in_window a w t (sequence_record now action h)
     \<le> seq_count_in_window a w t h + (if action = a \<and> t - now \<le> w then 1 else 0)"
proof -
  obtain old where "h @ [(action, now)] = old @ sequence_record now action h"
    using sequence_record_suffix by blast
  then have "seq_count_in_window a w t (old @ sequence_record now action h)
      = seq_count_in_window a w t (h @ [(action, now)])" by simp
  then show ?thesis by (auto simp: seq_count_in_window_def split: if_splits)
qed

lemma sequence_isolate_passed:
  "passed (fst (sequence_check now ''isolate_host'' info h)) \<longleftrightarrow>
     seq_count_in_window ''isolate_host'' 300 now h < 3"
  by (auto simp: sequence_check_passed sequence_issues_def Let_def)

lemma sequence_block_passed:
  "passed (fst (sequence_check now ''block_ip'' info h)) \<longleftrightarrow>
     seq_count_in_window ''block_ip'' 60 now h < 5"
  by (auto simp: sequence_check_passed sequence_issues_def Let_def)

end
