(* ===== verification/Admission.thy ===== *)
theory Admission
  imports Prelude
begin

text \<open>
  The contract of an admission counter: a component that lets an operation through only while
  fewer than \<open>limit\<close> admitted operations lie in its window, and then logs the operation.
  The client lemma is the promise such a counter makes to its callers: over any run of requests
  at non-decreasing times, no window of length \<open>W\<close> holds more than \<open>limit\<close> admissions.
\<close>

text \<open>The times at which a run of requests admits a relevant operation.\<close>

fun admitted_times ::
  "(time \<Rightarrow> 'op \<Rightarrow> 's \<Rightarrow> bool \<times> 's) \<Rightarrow> ('op \<Rightarrow> bool) \<Rightarrow> (time \<times> 'op) list \<Rightarrow> 's \<Rightarrow> time list"
where
  "admitted_times step rel [] s = []"
| "admitted_times step rel ((now, op) # rs) s =
     (case step now op s of (ok, s') \<Rightarrow>
        (if ok \<and> rel op then now # admitted_times step rel rs s'
         else admitted_times step rel rs s'))"

definition span :: "time \<Rightarrow> time \<Rightarrow> time list \<Rightarrow> nat" where
  "span W t ts = length (filter (\<lambda>x. t - W < x \<and> x \<le> t) ts)"

locale admission =
  fixes log :: "'s \<Rightarrow> time list"
    and W :: time
    and limit :: nat
    and step :: "time \<Rightarrow> 'op \<Rightarrow> 's \<Rightarrow> bool \<times> 's"
    and rel :: "'op \<Rightarrow> bool"
  assumes window_pos: "0 < W"
    and admit: "step now op s = (True, s') \<Longrightarrow> rel op \<Longrightarrow>
      count_window W now (log s) < limit \<and> log s' = in_window W now (log s @ [now])"
    and other: "step now op s = (ok, s') \<Longrightarrow> \<not> (ok \<and> rel op) \<Longrightarrow>
      log s' = log s \<or> log s' = in_window W now (log s)"
begin

text \<open>
  \<open>agrees cur past s\<close>: from time \<open>cur\<close> on, the log of \<open>s\<close> shows the same window as the
  list \<open>past\<close> of all admissions so far, which are no later than \<open>cur\<close>.
\<close>

definition agrees :: "time \<Rightarrow> time list \<Rightarrow> 's \<Rightarrow> bool" where
  "agrees cur past s \<longleftrightarrow>
     (\<forall>t\<in>set past. t \<le> cur) \<and> (\<forall>now\<ge>cur. in_window W now (log s) = in_window W now past)"

lemma agrees_admit:
  assumes "agrees cur past s" and "cur \<le> now" and "step now op s = (True, s')" and "rel op"
  shows "agrees now (past @ [now]) s'"
proof -
  have log': "log s' = in_window W now (log s @ [now])"
    using admit [OF assms(3,4)] by simp
  have "in_window W t (log s') = in_window W t (past @ [now])" if "now \<le> t" for t
  proof -
    have "in_window W t (log s) = in_window W t past"
      using assms(1,2) that by (auto simp: agrees_def)
    with that show ?thesis
      by (simp add: log' in_window_shrink in_window_append)
  qed
  then show ?thesis using assms(1,2) by (auto simp: agrees_def)
qed

lemma agrees_other:
  assumes "agrees cur past s" and "cur \<le> now" and "step now op s = (ok, s')" and "\<not> (ok \<and> rel op)"
  shows "agrees now past s'"
proof -
  have "in_window W t (log s') = in_window W t past" if "now \<le> t" for t
  proof -
    have "in_window W t (log s) = in_window W t past"
      using assms(1,2) that by (auto simp: agrees_def)
    with other [OF assms(3,4)] that show ?thesis
      by (auto simp: in_window_shrink)
  qed
  then show ?thesis using assms(1,2) by (auto simp: agrees_def)
qed

lemma span_admit:
  assumes past: "\<And>t. span W t past \<le> limit" and le: "\<forall>t\<in>set past. t \<le> now"
    and room: "count_window W now past < limit"
  shows "span W t (past @ [now]) \<le> limit"
proof (cases "now \<le> t")
  case True
  have "length (filter (\<lambda>x. t - W < x \<and> x \<le> t) past) \<le> length (filter (\<lambda>x. now - x < W) past)"
    using True by (intro filter_length_mono) auto
  with room show ?thesis
    by (auto simp: span_def count_window_def in_window_def)
next
  case False
  then show ?thesis using past [of t] by (simp add: span_def)
qed

lemma span_run:
  assumes "agrees cur past s" and "\<And>t. span W t past \<le> limit"
    and "sorted (cur # List.map fst rs)"
  shows "span W t (past @ admitted_times step rel rs s) \<le> limit"
  using assms
proof (induction rs arbitrary: cur past s)
  case Nil
  then show ?case by simp
next
  case (Cons r rs)
  obtain now op where r: "r = (now, op)" by (cases r)
  obtain ok s' where st: "step now op s = (ok, s')" by (cases "step now op s")
  have now: "cur \<le> now" and rest: "sorted (now # List.map fst rs)"
    using Cons.prems(3) by (simp_all add: r)
  show ?case
  proof (cases "ok \<and> rel op")
    case True
    with st have st': "step now op s = (True, s')" and rl: "rel op" by simp_all
    have ag: "agrees now (past @ [now]) s'"
      by (rule agrees_admit [OF Cons.prems(1) now st' rl])
    have "count_window W now past < limit"
      using admit [OF st' rl] Cons.prems(1) now by (simp add: count_window_def agrees_def)
    moreover have "\<forall>t\<in>set past. t \<le> now"
      using Cons.prems(1) now by (auto simp: agrees_def)
    ultimately have "span W u (past @ [now]) \<le> limit" for u
      using span_admit [OF Cons.prems(2)] by blast
    from Cons.IH [OF ag this rest] show ?thesis
      by (simp add: r st True)
  next
    case False
    have ag: "agrees now past s'"
      by (rule agrees_other [OF Cons.prems(1) now st False])
    from Cons.IH [OF ag Cons.prems(2) rest] False show ?thesis
      by (auto simp: r st)
  qed
qed

lemma span_bound:
  assumes "log s = []" and "sorted (List.map fst rs)"
  shows "span W t (admitted_times step rel rs s) \<le> limit"
proof (cases rs)
  case Nil
  then show ?thesis by (simp add: span_def)
next
  case (Cons r rs')
  have "agrees (fst r) [] s" using assms(1) by (simp add: agrees_def)
  moreover have "sorted (fst r # List.map fst rs)" using assms(2) Cons by auto
  ultimately have "span W t ([] @ admitted_times step rel rs s) \<le> limit"
    by (intro span_run) (auto simp: span_def)
  then show ?thesis by simp
qed

end

end
