(* ===== verification/RateLimiter.thy ===== *)
theory RateLimiter
  imports CheckResult Admission
begin

text \<open>
  backend/security_guard/rate_limiter.py: at most 30 actions a minute, and a lower limit for
  some actions.  \<open>check\<close> reserves the slot itself (check and append happen with no await
  between them), \<open>record\<close> gives it back when the action failed.  The \<open>defaultdict(list)\<close>
  of per-action time stamps is a total function.
\<close>

definition ACTION_LIMITS :: "(string \<times> nat) list" where
  "ACTION_LIMITS =
    [(''block_ip'', 10), (''isolate_host'', 5), (''alert_only'', 50), (''kill_process'', 5),
     (''quarantine_file'', 10), (''disable_account'', 3), (''dns_sinkhole'', 10),
     (''recall_email'', 5), (''forensic_snapshot'', 20)]"

definition GLOBAL_LIMIT :: nat where "GLOBAL_LIMIT = 30"

definition WINDOW_SEC :: time where "WINDOW_SEC = 60"

record rate_limiter =
  global_calls :: "time list"
  action_calls :: "string \<Rightarrow> time list"

definition new_rate_limiter :: rate_limiter where
  "new_rate_limiter = \<lparr>global_calls = [], action_calls = (\<lambda>_. [])\<rparr>"

definition rate_issues :: "time \<Rightarrow> string \<Rightarrow> rate_limiter \<Rightarrow> issue list" where
  "rate_issues now action r =
     (let n = count_window WINDOW_SEC now (global_calls r) in
      if GLOBAL_LIMIT \<le> n then [GlobalRateExceeded GLOBAL_LIMIT n] else []) @
     (case map_of ACTION_LIMITS action of
        None \<Rightarrow> []
      | Some limit \<Rightarrow>
          (let n = count_window WINDOW_SEC now (action_calls r action) in
           if limit \<le> n then [ActionRateExceeded action limit n] else []))"

definition rate_cleanup :: "time \<Rightarrow> rate_limiter \<Rightarrow> rate_limiter" where
  "rate_cleanup now r =
     \<lparr>global_calls = in_window WINDOW_SEC now (global_calls r),
      action_calls = (\<lambda>a. in_window WINDOW_SEC now (action_calls r a))\<rparr>"

definition rate_check :: "time \<Rightarrow> string \<Rightarrow> pydict \<Rightarrow> rate_limiter \<Rightarrow> check_result \<times> rate_limiter" where
  "rate_check now action info r =
     (let found = rate_issues now action r;
          n = count_window WINDOW_SEC now (global_calls r)
      in if found \<noteq> [] then
           (\<lparr>check_name = RateCheck, passed = False, issues = found, warnings = [],
             details = [(''action'', PyStr action), (''global_count'', PyInt (int n)),
                        (''global_limit'', PyInt (int GLOBAL_LIMIT))]\<rparr>, r)
         else
           (\<lparr>check_name = RateCheck, passed = True, issues = [], warnings = [],
             details = [(''action'', PyStr action), (''global_count'', PyInt (int n + 1))]\<rparr>,
            rate_cleanup now
              (r\<lparr>global_calls := global_calls r @ [now],
                 action_calls := (action_calls r)(action := action_calls r action @ [now])\<rparr>)))"

text \<open>
  \<open>release\<close> pops the newest stamp of the global list and of the action's list, if there is one.
\<close>

definition rate_release :: "string \<Rightarrow> rate_limiter \<Rightarrow> rate_limiter" where
  "rate_release action r =
     r\<lparr>global_calls := butlast (global_calls r),
       action_calls := (action_calls r)(action := butlast (action_calls r action))\<rparr>"

definition rate_record :: "string \<Rightarrow> bool \<Rightarrow> rate_limiter \<Rightarrow> rate_limiter" where
  "rate_record action success r = (if success then r else rate_release action r)"

definition rate_reset :: "rate_limiter \<Rightarrow> rate_limiter" where
  "rate_reset r = \<lparr>global_calls = [], action_calls = (\<lambda>_. [])\<rparr>"

section \<open>What the limiter decides\<close>

lemma rate_check_name [simp]: "check_name (fst (rate_check now action info r)) = RateCheck"
  by (simp add: rate_check_def Let_def)

lemma rate_check_issues [simp]:
  "issues (fst (rate_check now action info r)) = rate_issues now action r"
  by (simp add: rate_check_def Let_def)

lemma rate_check_passed:
  "passed (fst (rate_check now action info r)) \<longleftrightarrow> rate_issues now action r = []"
  by (simp add: rate_check_def Let_def)

lemma rate_check_fail_state:
  "\<not> passed (fst (rate_check now action info r)) \<Longrightarrow> snd (rate_check now action info r) = r"
  by (auto simp: rate_check_def Let_def split: if_splits)

lemma rate_check_pass_state:
  "passed (fst (rate_check now action info r)) \<Longrightarrow>
   global_calls (snd (rate_check now action info r)) = in_window WINDOW_SEC now (global_calls r @ [now]) \<and>
   action_calls (snd (rate_check now action info r)) =
     (\<lambda>a. in_window WINDOW_SEC now (if a = action then action_calls r a @ [now] else action_calls r a))"
  by (auto simp: rate_check_def rate_cleanup_def Let_def fun_eq_iff split: if_splits)

interpretation rate: guard_checker RateCheck rate_check
  by unfold_locales (simp_all add: rate_check_passed rate_check_fail_state)

lemma rate_issues_empty:
  "rate_issues now action r = [] \<longleftrightarrow>
     count_window WINDOW_SEC now (global_calls r) < GLOBAL_LIMIT \<and>
     (\<forall>limit. map_of ACTION_LIMITS action = Some limit \<longrightarrow>
        count_window WINDOW_SEC now (action_calls r action) < limit)"
  by (auto simp: rate_issues_def Let_def split: option.splits)

text \<open>A check seen as a step of an admission counter.\<close>

definition rate_step :: "time \<Rightarrow> string \<times> pydict \<Rightarrow> rate_limiter \<Rightarrow> bool \<times> rate_limiter" where
  "rate_step now op r = (case rate_check now (fst op) (snd op) r of (c, r') \<Rightarrow> (passed c, r'))"

lemma rate_step_pass:
  assumes "rate_step now op r = (True, r')"
  shows "rate_issues now (fst op) r = []"
    and "global_calls r' = in_window WINDOW_SEC now (global_calls r @ [now])"
    and "action_calls r' a = in_window WINDOW_SEC now
           (if a = fst op then action_calls r a @ [now] else action_calls r a)"
proof -
  have p: "passed (fst (rate_check now (fst op) (snd op) r))"
    and r': "r' = snd (rate_check now (fst op) (snd op) r)"
    using assms by (auto simp: rate_step_def split: prod.splits)
  show "rate_issues now (fst op) r = []" using p by (simp add: rate_check_passed)
  show "global_calls r' = in_window WINDOW_SEC now (global_calls r @ [now])"
    and "action_calls r' a = in_window WINDOW_SEC now
           (if a = fst op then action_calls r a @ [now] else action_calls r a)"
    using rate_check_pass_state [OF p] by (simp_all add: r')
qed

lemma rate_step_fail:
  assumes "rate_step now op r = (False, r')"
  shows "r' = r"
proof -
  have "\<not> passed (fst (rate_check now (fst op) (snd op) r))"
    and "r' = snd (rate_check now (fst op) (snd op) r)"
    using assms by (auto simp: rate_step_def split: prod.splits)
  then show ?thesis by (simp add: rate_check_fail_state)
qed

interpretation all_actions: admission global_calls WINDOW_SEC GLOBAL_LIMIT rate_step "\<lambda>op. True"
proof unfold_locales
  show "0 < WINDOW_SEC" by (simp add: WINDOW_SEC_def)
next
  fix now op r r'
  assume st: "rate_step now op r = (True, r')"
  show "count_window WINDOW_SEC now (global_calls r) < GLOBAL_LIMIT \<and>
      global_calls r' = in_window WINDOW_SEC now (global_calls r @ [now])"
    using rate_step_pass [OF st] by (simp add: rate_issues_empty)
next
  fix now op r ok r'
  assume "rate_step now op r = (ok, r')" and "\<not> (ok \<and> True)"
  then have "rate_step now op r = (False, r')" by simp
  then show "global_calls r' = global_calls r \<or> global_calls r' = in_window WINDOW_SEC now (global_calls r)"
    by (auto dest: rate_step_fail)
qed

lemma limited_admission:
  assumes limit: "map_of ACTION_LIMITS a = Some limit"
  shows "admission (\<lambda>r. action_calls r a) WINDOW_SEC limit rate_step (\<lambda>op. fst op = a)"
proof unfold_locales
  show "0 < WINDOW_SEC" by (simp add: WINDOW_SEC_def)
next
  fix now op r r'
  assume st: "rate_step now op r = (True, r')" and a: "fst op = a"
  show "count_window WINDOW_SEC now (action_calls r a) < limit \<and>
      action_calls r' a = in_window WINDOW_SEC now (action_calls r a @ [now])"
    using rate_step_pass [OF st] limit a by (auto simp: rate_issues_empty)
next
  fix now op r ok r'
  assume st: "rate_step now op r = (ok, r')" and irr: "\<not> (ok \<and> fst op = a)"
  show "action_calls r' a = action_calls r a \<or> action_calls r' a = in_window WINDOW_SEC now (action_calls r a)"
  proof (cases ok)
    case True
    with st irr show ?thesis using rate_step_pass(3) [of now op r r' a] by auto
  next
    case False
    with st have "rate_step now op r = (False, r')" by simp
    then show ?thesis by (auto dest: rate_step_fail)
  qed
qed

interpretation block_actions: admission "\<lambda>r. action_calls r ''block_ip''" WINDOW_SEC 10 rate_step
  "\<lambda>op. fst op = ''block_ip''"
  by (rule limited_admission) (simp add: ACTION_LIMITS_def)

interpretation isolate_actions: admission "\<lambda>r. action_calls r ''isolate_host''" WINDOW_SEC 5 rate_step
  "\<lambda>op. fst op = ''isolate_host''"
  by (rule limited_admission) (simp add: ACTION_LIMITS_def)

end
