(* ===== verification/ContextManager.thy ===== *)
theory ContextManager
  imports CheckResult
begin

text \<open>
  backend/security_guard/context_manager.py: repeated blocks of one source address.  The block
  index is a dict from address to time stamps; an address whose stamps have all left the window
  is deleted from it.
\<close>

definition DUPLICATE_WINDOW_SEC :: time where "DUPLICATE_WINDOW_SEC = 300"
definition MAX_BLOCK_PER_IP :: nat where "MAX_BLOCK_PER_IP = 3"

record context_manager =
  action_history :: "(string \<times> pydict \<times> pydict option \<times> time) list"
  block_by_ip :: "pyval \<Rightarrow> time list option"

definition new_context_manager :: context_manager where
  "new_context_manager = \<lparr>action_history = [], block_by_ip = (\<lambda>_. None)\<rparr>"

definition blocks_of :: "context_manager \<Rightarrow> pyval \<Rightarrow> time list" where
  "blocks_of c ip = (case block_by_ip c ip of None \<Rightarrow> [] | Some ts \<Rightarrow> ts)"

definition recent_blocks :: "time \<Rightarrow> pyval \<Rightarrow> context_manager \<Rightarrow> nat" where
  "recent_blocks now ip c = count_window DUPLICATE_WINDOW_SEC now (blocks_of c ip)"

definition context_issues :: "time \<Rightarrow> string \<Rightarrow> pydict \<Rightarrow> context_manager \<Rightarrow> issue list" where
  "context_issues now action info c =
     (let ip = py_get info ''src_ip'' (PyStr ''''); n = recent_blocks now ip c in
      if action = ''block_ip'' \<and> truthy ip \<and> MAX_BLOCK_PER_IP \<le> n then [RepeatedBlock ip n] else [])"

definition context_warnings :: "time \<Rightarrow> string \<Rightarrow> pydict \<Rightarrow> context_manager \<Rightarrow> issue list" where
  "context_warnings now action info c =
     (let ip = py_get info ''src_ip'' (PyStr ''''); n = recent_blocks now ip c in
      (if action = ''block_ip'' \<and> truthy ip \<and> n < MAX_BLOCK_PER_IP \<and> 1 \<le> n
       then [BlockedBefore ip n] else []) @
      (if action = ''block_ip'' \<and> \<not> truthy ip then [BlockWithoutSource] else []) @
      (if action = ''isolate_host'' \<and> \<not> truthy (py_get info ''hostname'' (PyStr ''''))
       then [IsolateWithoutHost] else []))"

definition context_details :: "time \<Rightarrow> string \<Rightarrow> pydict \<Rightarrow> context_manager \<Rightarrow> pydict" where
  "context_details now action info c =
     (let ip = py_get info ''src_ip'' (PyStr '''') in
      [(''src_ip'', ip), (''action'', PyStr action)] @
      (if action = ''block_ip'' \<and> truthy ip
       then [(''recent_block_count'', PyInt (int (recent_blocks now ip c)))] else []) @
      (if action = ''isolate_host'' then [(''hostname'', py_get info ''hostname'' (PyStr ''''))] else []))"

definition context_check :: "time \<Rightarrow> string \<Rightarrow> pydict \<Rightarrow> context_manager \<Rightarrow> check_result \<times> context_manager" where
  "context_check now action info c =
     (let found = context_issues now action info c; warn = context_warnings now action info c;
          extra = context_details now action info c
      in (if found \<noteq> [] then
            \<lparr>check_name = ContextCheck, passed = False, issues = found, warnings = warn, details = extra\<rparr>
          else
            \<lparr>check_name = ContextCheck, passed = True, issues = [], warnings = warn, details = extra\<rparr>, c))"

text \<open>\<open>_cleanup\<close>: an hour of history, one window of blocks, no empty entry.\<close>

definition context_cleanup :: "time \<Rightarrow> context_manager \<Rightarrow> context_manager" where
  "context_cleanup now c =
     \<lparr>action_history = filter (\<lambda>(a, i, r, t). now - t < 3600) (action_history c),
      block_by_ip = (\<lambda>ip. case block_by_ip c ip of
         None \<Rightarrow> None
       | Some ts \<Rightarrow> (let kept = in_window DUPLICATE_WINDOW_SEC now ts in
           if kept = [] then None else Some kept))\<rparr>"

definition context_record ::
  "time \<Rightarrow> string \<Rightarrow> pydict \<Rightarrow> pydict option \<Rightarrow> context_manager \<Rightarrow> context_manager" where
  "context_record now action info result c =
     (let c1 = c\<lparr>action_history := action_history c @ [(action, info, result, now)]\<rparr>;
          ip = py_get info ''src_ip'' (PyStr '''');
          c2 = (if action = ''block_ip'' \<and> truthy ip
                then c1\<lparr>block_by_ip := (block_by_ip c1)(ip \<mapsto> blocks_of c1 ip @ [now])\<rparr> else c1)
      in context_cleanup now c2)"

definition context_reset :: "context_manager \<Rightarrow> context_manager" where
  "context_reset c = \<lparr>action_history = [], block_by_ip = (\<lambda>_. None)\<rparr>"

section \<open>What the manager decides\<close>

lemma context_check_state [simp]: "snd (context_check now action info c) = c"
  by (simp add: context_check_def Let_def)

lemma context_check_name [simp]: "check_name (fst (context_check now action info c)) = ContextCheck"
  by (simp add: context_check_def Let_def)

lemma context_check_issues [simp]:
  "issues (fst (context_check now action info c)) = context_issues now action info c"
  by (simp add: context_check_def Let_def)

lemma context_check_passed:
  "passed (fst (context_check now action info c)) \<longleftrightarrow> context_issues now action info c = []"
  by (simp add: context_check_def Let_def)

interpretation context_m: guard_checker ContextCheck context_check
  by unfold_locales (simp_all add: context_check_passed)

lemma blocks_of_cleanup:
  "blocks_of (context_cleanup now c) ip = in_window DUPLICATE_WINDOW_SEC now (blocks_of c ip)"
  by (auto simp: blocks_of_def context_cleanup_def Let_def split: option.splits)

text \<open>Cleaning up never changes what a later check counts.\<close>

lemma recent_blocks_cleanup:
  "now \<le> later \<Longrightarrow> recent_blocks later ip (context_cleanup now c) = recent_blocks later ip c"
  by (simp add: recent_blocks_def blocks_of_cleanup count_window_def in_window_shrink)

lemma recent_blocks_record_block:
  assumes "truthy (py_get info ''src_ip'' (PyStr ''''))" and "now \<le> later"
  shows "recent_blocks later ip (context_record now ''block_ip'' info result c) =
     recent_blocks later ip c +
       (if ip = py_get info ''src_ip'' (PyStr '''') \<and> later - now < DUPLICATE_WINDOW_SEC then 1 else 0)"
  using assms
  by (auto simp: context_record_def Let_def recent_blocks_cleanup)
    (auto simp: recent_blocks_def count_window_def in_window_append in_window_def blocks_of_def)

lemma context_block_passed:
  "truthy (py_get info ''src_ip'' (PyStr '''')) \<Longrightarrow>
   passed (fst (context_check now ''block_ip'' info c)) \<longleftrightarrow>
     recent_blocks now (py_get info ''src_ip'' (PyStr '''')) c < MAX_BLOCK_PER_IP"
  by (auto simp: context_check_passed context_issues_def Let_def)

end
