(* ===== verification/SecurityGuard.thy ===== *)
theory SecurityGuard
  imports IntentChecker SequenceGuard RateLimiter ContextManager
begin

text \<open>
  backend/security_guard/security_guard.py: the guard that runs the four checks in order, none
  short-circuited, and denies when any fails.  Every check reads the clock itself, so one
  inspection carries three clock readings.  Telemetry is write-only and left out.
\<close>

record security_guard =
  sequence_guard :: sequence_guard
  rate_limiter :: rate_limiter
  context_manager :: context_manager

record guard_clock =
  at_sequence :: time
  at_rate :: time
  at_context :: time

text \<open>\<open>blocked_on\<close> is the first failed check, whose name and message make the reason text.\<close>

record guard_verdict =
  allowed :: bool
  blocked_on :: "check_result option"
  checks :: "check_result list"
  requires_approval :: bool

definition needs_approval_action :: "string \<Rightarrow> bool" where
  "needs_approval_action action = (action \<in> set [''isolate_host'', ''terminate_process''])"

definition summarize :: "string \<Rightarrow> check_result list \<Rightarrow> guard_verdict" where
  "summarize action results =
     (case filter (\<lambda>c. \<not> passed c) results of
        c # _ \<Rightarrow> \<lparr>allowed = False, blocked_on = Some c, checks = results, requires_approval = False\<rparr>
      | [] \<Rightarrow> \<lparr>allowed = True, blocked_on = None, checks = results,
              requires_approval = needs_approval_action action\<rparr>)"

definition guard_inspect ::
  "text_env \<Rightarrow> guard_clock \<Rightarrow> string \<Rightarrow> pydict \<Rightarrow> security_guard \<Rightarrow> guard_verdict \<times> security_guard"
where
  "guard_inspect te clk action info g =
     (let c1 = intent_check te action info;
          (c2, sg) = sequence_check (at_sequence clk) action info (sequence_guard g);
          (c3, rl) = rate_check (at_rate clk) action info (rate_limiter g);
          (c4, cm) = context_check (at_context clk) action info (context_manager g)
      in (summarize action [c1, c2, c3, c4],
          \<lparr>sequence_guard = sg, rate_limiter = rl, context_manager = cm\<rparr>))"

text \<open>\<open>result\<close> is \<open>None\<close> when the caller passes something that is not a dict.\<close>

definition result_success :: "pydict option \<Rightarrow> bool" where
  "result_success result =
     (case result of None \<Rightarrow> True | Some d \<Rightarrow> truthy (py_get d ''success'' (PyBool True)))"

definition guard_record ::
  "guard_clock \<Rightarrow> string \<Rightarrow> pydict \<Rightarrow> pydict option \<Rightarrow> security_guard \<Rightarrow> security_guard"
where
  "guard_record clk action info result g =
     \<lparr>sequence_guard = sequence_record (at_sequence clk) action (sequence_guard g),
      rate_limiter = rate_record action (result_success result) (rate_limiter g),
      context_manager = context_record (at_context clk) action info result (context_manager g)\<rparr>"

definition guard_reset :: "security_guard \<Rightarrow> security_guard" where
  "guard_reset g =
     \<lparr>sequence_guard = sequence_reset (sequence_guard g), rate_limiter = rate_reset (rate_limiter g),
      context_manager = context_reset (context_manager g)\<rparr>"

definition new_security_guard :: security_guard where
  "new_security_guard =
     \<lparr>sequence_guard = [], rate_limiter = new_rate_limiter, context_manager = new_context_manager\<rparr>"

section \<open>Lemmas on one inspection\<close>

lemma summarize_checks [simp]: "checks (summarize action results) = results"
  by (simp add: summarize_def split: list.splits)

lemma summarize_allowed [simp]: "allowed (summarize action results) \<longleftrightarrow> list_all passed results"
proof (cases "filter (\<lambda>c. \<not> passed c) results")
  case Nil
  then show ?thesis by (auto simp: summarize_def filter_empty_conv list_all_iff)
next
  case (Cons c cs)
  then have "c \<in> set results \<and> \<not> passed c" by (auto dest: filter_eq_ConsD)
  with Cons show ?thesis by (auto simp: summarize_def list_all_iff)
qed

lemma summarize_blocked_on:
  assumes "\<not> list_all passed results"
  shows "\<exists>c\<in>set results. blocked_on (summarize action results) = Some c \<and> \<not> passed c"
proof (cases "filter (\<lambda>c. \<not> passed c) results")
  case Nil
  with assms show ?thesis by (auto simp: filter_empty_conv list_all_iff)
next
  case (Cons c cs)
  then have "c \<in> set results \<and> \<not> passed c" by (auto dest: filter_eq_ConsD)
  with Cons show ?thesis by (auto simp: summarize_def)
qed

lemma inspect_eq:
  "guard_inspect te clk action info g =
     (summarize action
        [intent_check te action info,
         fst (sequence_check (at_sequence clk) action info (sequence_guard g)),
         fst (rate_check (at_rate clk) action info (rate_limiter g)),
         fst (context_check (at_context clk) action info (context_manager g))],
      g\<lparr>rate_limiter := snd (rate_check (at_rate clk) action info (rate_limiter g))\<rparr>)"
  using sequence_check_state [of "at_sequence clk" action info "sequence_guard g"]
    context_check_state [of "at_context clk" action info "context_manager g"]
  by (simp add: guard_inspect_def Let_def case_prod_beta)

lemma inspect_checks:
  "checks (fst (guard_inspect te clk action info g)) =
     [intent_check te action info,
      fst (sequence_check (at_sequence clk) action info (sequence_guard g)),
      fst (rate_check (at_rate clk) action info (rate_limiter g)),
      fst (context_check (at_context clk) action info (context_manager g))]"
  by (simp add: inspect_eq)

lemma inspect_state:
  "snd (guard_inspect te clk action info g) =
     g\<lparr>rate_limiter := snd (rate_check (at_rate clk) action info (rate_limiter g))\<rparr>"
  by (simp add: inspect_eq)

lemma inspect_allowed_iff:
  "allowed (fst (guard_inspect te clk action info g)) \<longleftrightarrow>
     list_all passed (checks (fst (guard_inspect te clk action info g)))"
  by (simp add: inspect_eq)

lemmas inspect_decision =
  inspect_allowed_iff inspect_checks intent_check_passed sequence_check_passed rate_check_passed
  context_check_passed

lemma allowed_level:
  assumes "level_issues level action = []"
    and "level \<in> set VALID_LEVELS \<or> level = ''unknown''"
  shows "if level = ''unknown'' then action \<in> set ALERT_ACTIONS
     else (\<exists>as. map_of THREAT_ACTION_MATRIX level = Some as \<and> action \<in> set as)"
  using assms level_issues_valid [of level action]
  by (auto simp: level_issues_def split: if_splits)

section \<open>Properties\<close>

lemma listed_level:
  assumes "level \<in> set VALID_LEVELS \<or> level = ''unknown''"
  shows "level_issues level action = [] \<longleftrightarrow>
    (if level = ''unknown'' then action \<in> set ALERT_ACTIONS
     else (\<exists>as. map_of THREAT_ACTION_MATRIX level = Some as \<and> action \<in> set as))"
proof
  assume "level_issues level action = []"
  from allowed_level [OF this assms] show "if level = ''unknown'' then action \<in> set ALERT_ACTIONS
     else (\<exists>as. map_of THREAT_ACTION_MATRIX level = Some as \<and> action \<in> set as)" .
qed (auto simp: level_issues_def split: if_splits)

text \<open>The limits of \<open>RateLimiter\<close>, action by action.\<close>

lemma limited_below:
  "(\<forall>limit. map_of ACTION_LIMITS action = Some limit \<longrightarrow> n < limit) \<longleftrightarrow>
    (action \<in> {''disable_account''} \<longrightarrow> n < 3) \<and>
    (action \<in> {''isolate_host'', ''kill_process'', ''recall_email''} \<longrightarrow> n < 5) \<and>
    (action \<in> {''block_ip'', ''quarantine_file'', ''dns_sinkhole''} \<longrightarrow> n < 10) \<and>
    (action \<in> {''forensic_snapshot''} \<longrightarrow> n < 20) \<and>
    (action \<in> {''alert_only''} \<longrightarrow> n < 50)"
  by (auto simp: ACTION_LIMITS_def)

text \<open>
  C7. What the guard lets through, exactly. The action is one the matrix lists for the resolved
  threat level (only an alert when the level is unknown). Sequence: of isolations fewer than three were
  recorded in the last five minutes, of blocks fewer than five in the last minute. Rate: the last minute
  holds fewer than thirty admitted actions of any kind, and of this action fewer than its own limit
  (3 account locks; 5 isolations, process kills or mail recalls; 10 blocks, quarantines or sinkholes;
  20 snapshots; 50 alerts). Repeats: for a block, the source address has fewer than three recent ones.
\<close>

theorem guard_allows_only_proportionate:
  "allowed (fst (guard_inspect te clk action info g)) \<longleftrightarrow>
    (if resolve_threat_level te info = ''unknown'' then action \<in> set ALERT_ACTIONS
     else (\<exists>as. map_of THREAT_ACTION_MATRIX (resolve_threat_level te info) = Some as \<and> action \<in> set as)) \<and>
    (action = ''isolate_host'' \<longrightarrow>
       seq_count_in_window ''isolate_host'' 300 (at_sequence clk) (sequence_guard g) < 3) \<and>
    (action = ''block_ip'' \<longrightarrow>
       seq_count_in_window ''block_ip'' 60 (at_sequence clk) (sequence_guard g) < 5) \<and>
    count_window 60 (at_rate clk) (global_calls (rate_limiter g)) < 30 \<and>
    (let n = count_window 60 (at_rate clk) (action_calls (rate_limiter g) action) in
      (action \<in> {''disable_account''} \<longrightarrow> n < 3) \<and>
      (action \<in> {''isolate_host'', ''kill_process'', ''recall_email''} \<longrightarrow> n < 5) \<and>
      (action \<in> {''block_ip'', ''quarantine_file'', ''dns_sinkhole''} \<longrightarrow> n < 10) \<and>
      (action \<in> {''forensic_snapshot''} \<longrightarrow> n < 20) \<and>
      (action \<in> {''alert_only''} \<longrightarrow> n < 50)) \<and>
    (action = ''block_ip'' \<and> truthy (py_get info ''src_ip'' (PyStr '''')) \<longrightarrow>
       recent_blocks (at_context clk) (py_get info ''src_ip'' (PyStr '''')) (context_manager g) < 3)"
proof -
  have dec: "allowed (fst (guard_inspect te clk action info g)) \<longleftrightarrow>
      level_issues (resolve_threat_level te info) action = [] \<and>
      sequence_issues (at_sequence clk) action (sequence_guard g) = [] \<and>
      rate_issues (at_rate clk) action (rate_limiter g) = [] \<and>
      context_issues (at_context clk) action info (context_manager g) = []"
    by (simp add: inspect_decision resolve_reason_issues)
  have sq: "sequence_issues (at_sequence clk) action (sequence_guard g) = [] \<longleftrightarrow>
      (action = ''isolate_host'' \<longrightarrow>
         seq_count_in_window ''isolate_host'' 300 (at_sequence clk) (sequence_guard g) < 3) \<and>
      (action = ''block_ip'' \<longrightarrow>
         seq_count_in_window ''block_ip'' 60 (at_sequence clk) (sequence_guard g) < 5)"
    by (auto simp: sequence_issues_def Let_def)
  have cx: "context_issues (at_context clk) action info (context_manager g) = [] \<longleftrightarrow>
      (action = ''block_ip'' \<and> truthy (py_get info ''src_ip'' (PyStr '''')) \<longrightarrow>
         recent_blocks (at_context clk) (py_get info ''src_ip'' (PyStr '''')) (context_manager g) < 3)"
    by (auto simp: context_issues_def Let_def MAX_BLOCK_PER_IP_def)
  have rt: "rate_issues (at_rate clk) action (rate_limiter g) = [] \<longleftrightarrow>
      count_window 60 (at_rate clk) (global_calls (rate_limiter g)) < 30 \<and>
      (\<forall>limit. map_of ACTION_LIMITS action = Some limit \<longrightarrow>
         count_window 60 (at_rate clk) (action_calls (rate_limiter g) action) < limit)"
    by (simp add: rate_issues_empty WINDOW_SEC_def GLOBAL_LIMIT_def)
  show ?thesis
    unfolding dec sq cx rt limited_below listed_level [OF resolve_threat_level_cases] Let_def conj_assoc by (rule refl)
qed

definition demo_env :: text_env where
  "demo_env = \<lparr>repr_float = (\<lambda>_. ''0.9''), fixed2 = (\<lambda>_. ''0.90''), repr_strs = (\<lambda>_. [])\<rparr>"

definition demo_clock :: guard_clock where
  "demo_clock = \<lparr>at_sequence = 1000, at_rate = 1000, at_context = 1000\<rparr>"

definition demo_info :: pydict where
  "demo_info = [(''threat_level'', PyStr ''High''), (''src_ip'', PyStr ''10.0.0.5'')]"

theorem guard_allows_only_proportionate_witness:
  "allowed (fst (guard_inspect demo_env demo_clock ''block_ip'' demo_info new_security_guard))
   \<and> recent_blocks 1000 (PyStr ''10.0.0.5'') new_context_manager < MAX_BLOCK_PER_IP"
proof -
  have ok: "allowed (fst (guard_inspect demo_env demo_clock ''block_ip'' demo_info new_security_guard))"
    by code_simp
  from iffD1 [OF guard_allows_only_proportionate ok] ok show ?thesis
    by (simp add: demo_info_def demo_clock_def new_security_guard_def MAX_BLOCK_PER_IP_def Let_def)
qed

text \<open>
  C16. The rate limiter's promise: over any run of checks at non-decreasing times from an empty
  limiter, no window of 60 seconds holds more than 30 admitted actions.
\<close>

theorem rate_limit_global:
  assumes "global_calls r = []" and "sorted (List.map fst requests)"
  shows "span WINDOW_SEC t (admitted_times rate_step (\<lambda>op. True) requests r) \<le> GLOBAL_LIMIT"
  using assms by (rule all_actions.span_bound)

theorem rate_limit_global_witness:
  "span WINDOW_SEC 3 (admitted_times rate_step (\<lambda>op. True)
     [(1, (''block_ip'', [])), (2, (''send_alert'', []))] new_rate_limiter) \<le> GLOBAL_LIMIT"
  by (rule rate_limit_global) (simp_all add: new_rate_limiter_def)

text \<open>
  The same promise for every action with a limit of its own: no window of 60 seconds holds
  more admitted actions of that name than its limit.
\<close>

theorem rate_limit_per_action:
  assumes "map_of ACTION_LIMITS a = Some limit" and "action_calls r a = []"
    and "sorted (List.map fst requests)"
  shows "span WINDOW_SEC t (admitted_times rate_step (\<lambda>op. fst op = a) requests r) \<le> limit"
  using admission.span_bound [OF limited_admission [OF assms(1)]] assms(2,3) by blast

theorem rate_limit_per_action_witness:
  "span WINDOW_SEC 3 (admitted_times rate_step (\<lambda>op. fst op = ''disable_account'')
     [(1, (''disable_account'', [])), (2, (''send_alert'', []))] new_rate_limiter) \<le> 3"
  by (rule rate_limit_per_action) (simp_all add: new_rate_limiter_def ACTION_LIMITS_def)

text \<open>
  Reserving and giving back cancel out: an action that passes the check and is then recorded
  as failed leaves every window, global and per action, as it was before.
\<close>

theorem rate_reserve_release:
  assumes "passed (fst (rate_check now action info r))" and "now \<le> later"
  shows "let r' = rate_record action False (snd (rate_check now action info r)) in
     in_window WINDOW_SEC later (global_calls r') = in_window WINDOW_SEC later (global_calls r)
     \<and> in_window WINDOW_SEC later (action_calls r' a) = in_window WINDOW_SEC later (action_calls r a)"
proof -
  have pop: "butlast (in_window WINDOW_SEC now (ts @ [now])) = in_window WINDOW_SEC now ts" for ts
    by (simp add: in_window_append in_window_single WINDOW_SEC_def)
  show ?thesis
    using rate_check_pass_state [OF assms(1)] assms(2)
    by (simp add: rate_record_def rate_release_def pop in_window_shrink)
qed

theorem rate_reserve_release_witness:
  "in_window WINDOW_SEC 5 (global_calls (rate_record ''block_ip'' False
     (snd (rate_check 5 ''block_ip'' [] new_rate_limiter)))) = []"
proof -
  have ok: "passed (fst (rate_check 5 ''block_ip'' [] new_rate_limiter))" by code_simp
  show ?thesis
    using rate_reserve_release [OF ok, of 5 "''block_ip''"]
    by (simp add: Let_def new_rate_limiter_def)
qed

text \<open>
  A denied action still uses up the rate budget: when the rate check passes but another
  check fails, the verdict is a denial and the global window has grown by one, and nothing the
  orchestrator does with a denied action gives the slot back.
\<close>

theorem denied_action_consumes_rate:
  assumes "\<not> passed (intent_check te action info)"
    and "passed (fst (rate_check (at_rate clk) action info (rate_limiter g)))"
  shows "\<not> allowed (fst (guard_inspect te clk action info g)) \<and>
     count_window WINDOW_SEC (at_rate clk)
       (global_calls (rate_limiter (snd (guard_inspect te clk action info g))))
     = count_window WINDOW_SEC (at_rate clk) (global_calls (rate_limiter g)) + 1"
  using assms rate_check_pass_state [OF assms(2)]
  by (simp add: inspect_allowed_iff inspect_checks inspect_state count_window_def
      in_window_shrink in_window_append in_window_single WINDOW_SEC_def)

theorem denied_action_consumes_rate_witness:
  "count_window WINDOW_SEC 1000 (global_calls (rate_limiter (snd (guard_inspect demo_env demo_clock
     ''isolate_host'' [(''severity'', PyStr ''low'')] new_security_guard)))) = 1"
proof -
  have a: "\<not> passed (intent_check demo_env ''isolate_host'' [(''severity'', PyStr ''low'')])"
    by code_simp
  have b: "passed (fst (rate_check (at_rate demo_clock) ''isolate_host''
      [(''severity'', PyStr ''low'')] (rate_limiter new_security_guard)))"
    by code_simp
  show ?thesis
    using denied_action_consumes_rate [OF a b]
    by (simp add: demo_clock_def new_security_guard_def new_rate_limiter_def count_window_def)
qed

text \<open>
  C6. The check that a reason is given can never fail: the reason the checker resolves is
  serious, or is the text it builds itself, so \<open>intent_check\<close> denies only for the level.
\<close>

theorem intent_denies_only_for_level:
  "passed (intent_check te action info) \<longleftrightarrow>
     level_issues (resolve_threat_level te info) action = []"
  by (simp add: intent_check_passed resolve_reason_issues)

lemma sequence_record_fold:
  "length h \<le> MAX_HISTORY \<Longrightarrow>
   fold (\<lambda>(a, t) h. sequence_record t a h) acts h =
     drop (length h + length acts - MAX_HISTORY) (h @ acts)"
proof (induction acts arbitrary: h)
  case Nil
  then show ?case by simp
next
  case (Cons x acts)
  obtain a t where x: "x = (a, t)" by (cases x)
  define k where "k = length h + 1 - MAX_HISTORY"
  define h' where "h' = sequence_record t a h"
  have h': "h' = drop k (h @ [x])" by (simp add: h'_def k_def x sequence_record_def Let_def)
  have keep: "length h' \<le> MAX_HISTORY"
    unfolding h'_def using Cons.prems by (rule sequence_record_length)
  have cat: "h' @ acts = drop k (h @ x # acts)"
    using Cons.prems by (simp add: h' k_def MAX_HISTORY_def)
  have len: "length h' + k = length h + 1"
    using Cons.prems by (simp add: h' k_def MAX_HISTORY_def)
  have "length h' + length acts - MAX_HISTORY + k = length h + length (x # acts) - MAX_HISTORY"
    using len Cons.prems keep by (simp add: k_def)
  then have "drop (length h' + length acts - MAX_HISTORY) (h' @ acts) =
      drop (length h + length (x # acts) - MAX_HISTORY) (h @ x # acts)"
    unfolding cat drop_drop by simp
  with Cons.IH [OF keep] show ?case unfolding x h'_def by simp
qed

lemma sequence_record_many:
  assumes "length acts = MAX_HISTORY"
  shows "fold (\<lambda>(a, t) h. sequence_record t a h) acts h = acts"
proof -
  obtain y ys where acts: "acts = y # ys" using assms by (cases acts) (auto simp: MAX_HISTORY_def)
  have ly: "length ys = 49" using assms acts by (simp add: MAX_HISTORY_def)
  define h1 where "h1 = sequence_record (snd y) (fst y) h"
  have h1: "length h1 \<le> MAX_HISTORY" "h1 \<noteq> []" "drop (length h1 - 1) h1 = [y]"
    by (simp_all add: h1_def sequence_record_def Let_def MAX_HISTORY_def)
  have "fold (\<lambda>(a, t) h. sequence_record t a h) ys h1 = y # ys"
    using sequence_record_fold [OF h1(1), of ys] h1(2,3) ly by (simp add: MAX_HISTORY_def)
  then show ?thesis by (simp add: acts h1_def case_prod_beta)
qed

text \<open>
  The history of fifty entries forgets isolations that the five-minute rule still counts:
  after fifty other recorded actions an isolation is let through, however many isolations the
  last five minutes held.
\<close>

theorem sequence_guard_forgets:
  assumes "length acts = MAX_HISTORY" and "list_all (\<lambda>x. fst x \<noteq> ''isolate_host'') acts"
  shows "passed (fst (sequence_check now ''isolate_host'' info
     (fold (\<lambda>(a, t) h. sequence_record t a h) acts h)))"
proof -
  have "seq_count_in_window ''isolate_host'' 300 now acts = 0"
    using assms(2) by (induction acts) (auto simp: seq_count_in_window_def)
  then show ?thesis
    by (simp add: sequence_record_many [OF assms(1)] sequence_isolate_passed)
qed

theorem sequence_guard_forgets_witness:
  "\<not> passed (fst (sequence_check 10 ''isolate_host'' [] (replicate 3 (''isolate_host'', 1))))
   \<and> passed (fst (sequence_check 10 ''isolate_host'' []
       (fold (\<lambda>(a, t) h. sequence_record t a h) (replicate 50 (''send_alert'', 5))
          (replicate 3 (''isolate_host'', 1)))))"
proof
  show "\<not> passed (fst (sequence_check 10 ''isolate_host'' [] (replicate 3 (''isolate_host'', 1))))"
    by code_simp
  show "passed (fst (sequence_check 10 ''isolate_host'' []
       (fold (\<lambda>(a, t) h. sequence_record t a h) (replicate 50 (''send_alert'', 5))
          (replicate 3 (''isolate_host'', 1)))))"
    by (rule sequence_guard_forgets) (simp_all add: MAX_HISTORY_def list_all_iff)
qed

text \<open>
  The clean-up of the context manager is invisible: cleaning at any earlier time leaves
  every later check, its problems, warnings and counts, unchanged.
\<close>

theorem context_cleanup_invisible:
  assumes "now \<le> later"
  shows "fst (context_check later action info (context_cleanup now c)) =
     fst (context_check later action info c)"
  using assms
  by (simp add: context_check_def context_issues_def context_warnings_def context_details_def
      recent_blocks_cleanup Let_def)

theorem context_cleanup_invisible_witness:
  "fst (context_check 400 ''block_ip'' demo_info (context_cleanup 350
      \<lparr>action_history = [], block_by_ip = [PyStr ''10.0.0.5'' \<mapsto> [10, 200, 340]]\<rparr>)) =
   fst (context_check 400 ''block_ip'' demo_info
      \<lparr>action_history = [], block_by_ip = [PyStr ''10.0.0.5'' \<mapsto> [10, 200, 340]]\<rparr>)"
  by (rule context_cleanup_invisible) simp

end
