(* ===== verification/HumanApproval.thy ===== *)
theory HumanApproval
  imports Actions DecisionQueue
begin

text \<open>
  backend/response_engine/human_approval.py with the signing helpers of
  backend/security_crypto.py: the queue of response actions that wait for a human.  Tickets are
  kept in an insertion-ordered dict from id to ticket.
\<close>

datatype approval_status = PENDING | APPROVED | REJECTED | EXPIRED | AUTO_APPROVED | AUTO_EXECUTED

record ticket =
  tid :: string
  threat_info :: pydict
  policy_name :: string
  actions :: "response_action list"
  digest :: string
  sig :: string
  status :: approval_status
  created_at :: time
  expires_at :: time
  approved_by :: string
  approved_at :: time
  reject_reason :: string
  result :: "exec_summary option"
  priority :: string
  match_status :: string

type_synonym approval_queue = "(string \<times> ticket) list"

text \<open>
  SHA-256 over the canonical JSON of the actions, and HMAC-SHA-256 under the control-plane key,
  are parameters: \<open>digest_of\<close> and \<open>hmac_of\<close>.  \<open>ttl_critical\<close> and \<open>ttl_normal\<close> are the
  two minutes settings of config.py.
\<close>

record crypto =
  digest_of :: "response_action list \<Rightarrow> string"
  hmac_of :: "string \<Rightarrow> string"

record approval_settings =
  ttl_critical :: int
  ttl_normal :: int

definition CRITICAL_TTL_ACTIONS :: "string list" where
  "CRITICAL_TTL_ACTIONS = [''isolate_host'', ''disable_account'']"

definition ttl_minutes_for :: "approval_settings \<Rightarrow> response_action list \<Rightarrow> int" where
  "ttl_minutes_for cfg as =
     (if list_ex (\<lambda>a. name_of a \<in> set CRITICAL_TTL_ACTIONS) as
      then (if ttl_critical cfg = 0 then 10 else ttl_critical cfg)
      else (if ttl_normal cfg = 0 then 15 else ttl_normal cfg))"

definition is_expired :: "time \<Rightarrow> ticket \<Rightarrow> bool" where
  "is_expired now t = (expires_at t < now)"

definition priority_rank :: "ticket \<Rightarrow> nat" where
  "priority_rank t =
     (case map_of [(''p0'', 0), (''p1'', 1), (''p2'', 2), (''p3'', 3)]
        (lower (if priority t = [] then ''p2'' else priority t)) of
        None \<Rightarrow> 9 | Some n \<Rightarrow> n)"

section \<open>Signatures\<close>

text \<open>\<open>int(x)\<close> of a float truncates towards zero.\<close>

definition py_int :: "rat \<Rightarrow> int" where
  "py_int q = (if 0 \<le> q then \<lfloor>q\<rfloor> else \<lceil>q\<rceil>)"

definition approval_message :: "string \<Rightarrow> time \<Rightarrow> string \<Rightarrow> string \<Rightarrow> string" where
  "approval_message i expiry dig pol = i @ ''|'' @ dec_int (py_int expiry) @ ''|'' @ dig @ ''|'' @ pol"

definition sign_approval :: "crypto \<Rightarrow> string \<Rightarrow> time \<Rightarrow> string \<Rightarrow> string \<Rightarrow> string" where
  "sign_approval cr i expiry dig pol = hmac_of cr (approval_message i expiry dig pol)"

definition hmac_ok :: "crypto \<Rightarrow> string \<Rightarrow> string \<Rightarrow> bool" where
  "hmac_ok cr msg signature =
     (let expected = hmac_of cr msg; got = lower (strip signature) in
      if length got \<noteq> length expected then False else expected = got)"

definition verify_approval :: "crypto \<Rightarrow> string \<Rightarrow> time \<Rightarrow> string \<Rightarrow> string \<Rightarrow> string \<Rightarrow> bool" where
  "verify_approval cr i expiry dig pol signature = hmac_ok cr (approval_message i expiry dig pol) signature"

section \<open>Operations\<close>

text \<open>\<open>i\<close> is the id \<open>uuid.uuid4()\<close> returns.\<close>

definition submit ::
  "crypto \<Rightarrow> approval_settings \<Rightarrow> string \<Rightarrow> time \<Rightarrow> pydict \<Rightarrow> string \<Rightarrow> response_action list \<Rightarrow>
   int option \<Rightarrow> string \<Rightarrow> string \<Rightarrow> approval_queue \<Rightarrow> ticket \<times> approval_queue"
where
  "submit cr cfg i now info pol as timeout prio mstat q =
     (let dig = digest_of cr as;
          ttl = (case timeout of Some m \<Rightarrow> m | None \<Rightarrow> ttl_minutes_for cfg as);
          expiry = now + of_int (ttl * 60);
          t = \<lparr>tid = i, threat_info = info, policy_name = pol, actions = as, digest = dig,
               sig = sign_approval cr i expiry dig pol, status = PENDING, created_at = now,
               expires_at = expiry, approved_by = '''', approved_at = 0, reject_reason = '''',
               result = None, priority = (if prio = [] then ''p2'' else prio), match_status = mstat\<rparr>
      in (t, AList.update i t q))"

text \<open>
  \<open>given\<close> is the signature an external approver sends back; \<open>None\<close> and the empty text fall
  back to the ticket's own.  \<open>now\<close> and \<open>later\<close> are the two clock readings.
\<close>

definition approve ::
  "crypto \<Rightarrow> time \<Rightarrow> time \<Rightarrow> string \<Rightarrow> string \<Rightarrow> string option \<Rightarrow> approval_queue \<Rightarrow>
   ticket option \<times> approval_queue"
where
  "approve cr now later i by given q =
     (case map_of q i of
        None \<Rightarrow> (None, q)
      | Some t \<Rightarrow>
          if is_expired now t then (None, alter i (\<lambda>t. t\<lparr>status := EXPIRED\<rparr>) q)
          else if status t \<noteq> PENDING then (None, q)
          else if digest t = [] \<or> digest_of cr (actions t) \<noteq> digest t then (None, q)
          else
            (let to_check = (case given of Some s \<Rightarrow> if s = [] then sig t else s | None \<Rightarrow> sig t) in
             if \<not> verify_approval cr (tid t) (expires_at t) (digest t) (policy_name t) to_check
             then (None, q)
             else (let t' = t\<lparr>status := APPROVED, approved_by := by, approved_at := later\<rparr>
                   in (Some t', alter i (\<lambda>_. t') q))))"

definition reject ::
  "time \<Rightarrow> string \<Rightarrow> string \<Rightarrow> string \<Rightarrow> approval_queue \<Rightarrow> ticket option \<times> approval_queue"
where
  "reject now i reason by q =
     (case map_of q i of
        None \<Rightarrow> (None, q)
      | Some t \<Rightarrow>
          if is_expired now t then (None, alter i (\<lambda>t. t\<lparr>status := EXPIRED\<rparr>) q)
          else if status t \<noteq> PENDING then (None, q)
          else (let t' = t\<lparr>status := REJECTED, reject_reason := reason, approved_by := by\<rparr>
                in (Some t', alter i (\<lambda>_. t') q)))"

definition get_ticket :: "string \<Rightarrow> approval_queue \<Rightarrow> ticket option" where
  "get_ticket i q = map_of q i"

definition expire_pending :: "time \<Rightarrow> ticket \<Rightarrow> ticket" where
  "expire_pending now t = (if status t = PENDING \<and> is_expired now t then t\<lparr>status := EXPIRED\<rparr> else t)"

definition queue_order :: "ticket \<Rightarrow> nat \<times> rat" where
  "queue_order t = (priority_rank t, - created_at t)"

definition list_pending :: "time \<Rightarrow> approval_queue \<Rightarrow> ticket list \<times> approval_queue" where
  "list_pending now q =
     (sort_key queue_order (filter (\<lambda>t. status t = PENDING \<and> \<not> is_expired now t) (List.map snd q)),
      List.map (\<lambda>(i, t). (i, expire_pending now t)) q)"

definition list_all_tickets :: "nat \<Rightarrow> approval_queue \<Rightarrow> ticket list" where
  "list_all_tickets limit q = take limit (sort_key queue_order (List.map snd q))"

definition cleanup :: "time \<Rightarrow> int \<Rightarrow> approval_queue \<Rightarrow> approval_queue" where
  "cleanup now max_age_hours q =
     (let cutoff = now - of_int (max_age_hours * 3600) in
      filter (\<lambda>(i, t). \<not> created_at t < cutoff) q)"

section \<open>Lemmas on the operations\<close>

lemma map_of_filter_tickets:
  "distinct (List.map fst q) \<Longrightarrow> map_of (filter (\<lambda>(i, t). P t) q) i =
     (case map_of q i of None \<Rightarrow> None | Some t \<Rightarrow> if P t then Some t else None)"
  by (rule map_of_filter_values)

lemma submit_lookup:
  "map_of (snd (submit cr cfg i now info pol as timeout prio mstat q)) j =
     (if j = i then Some (fst (submit cr cfg i now info pol as timeout prio mstat q)) else map_of q j)"
  by (simp add: submit_def Let_def)

lemma submit_ticket:
  "let t = fst (submit cr cfg i now info pol as timeout prio mstat q) in
     tid t = i \<and> status t = PENDING \<and> actions t = as \<and> digest t = digest_of cr as \<and>
     policy_name t = pol \<and> created_at t = now \<and>
     sig t = sign_approval cr i (expires_at t) (digest t) pol"
  by (simp add: submit_def Let_def)

text \<open>The guard of \<open>approve\<close> as one predicate.\<close>

definition approvable :: "crypto \<Rightarrow> time \<Rightarrow> string option \<Rightarrow> ticket \<Rightarrow> bool" where
  "approvable cr now given t \<longleftrightarrow>
     \<not> is_expired now t \<and> status t = PENDING \<and> digest t \<noteq> [] \<and> digest_of cr (actions t) = digest t \<and>
     verify_approval cr (tid t) (expires_at t) (digest t) (policy_name t)
       (case given of Some s \<Rightarrow> if s = [] then sig t else s | None \<Rightarrow> sig t)"

lemma approve_cases:
  "approve cr now later i by given q =
     (case map_of q i of
        None \<Rightarrow> (None, q)
      | Some t \<Rightarrow>
          if approvable cr now given t
          then (Some (t\<lparr>status := APPROVED, approved_by := by, approved_at := later\<rparr>),
                alter i (\<lambda>_. t\<lparr>status := APPROVED, approved_by := by, approved_at := later\<rparr>) q)
          else if is_expired now t then (None, alter i (\<lambda>t. t\<lparr>status := EXPIRED\<rparr>) q)
          else (None, q))"
  by (simp add: approve_def approvable_def Let_def split: option.splits)

section \<open>Runs of the queue\<close>

text \<open>
  The events of a run: the operations above, the orchestrator's direct assignment of
  \<open>AUTO_EXECUTED\<close> to a ticket it has executed, and a caller that mutates the actions list it
  shares with a ticket (\<open>Tamper\<close>), against which the digest is kept.
\<close>

datatype approval_event =
    Submit string time pydict string "response_action list" "int option" string string
  | Approve time time string string "string option"
  | Reject time string string string
  | ListPending time
  | Cleanup time int
  | MarkAutoExecuted string
  | Tamper string "response_action list"

fun queue_step :: "crypto \<Rightarrow> approval_settings \<Rightarrow> approval_queue \<Rightarrow> approval_event \<Rightarrow> approval_queue" where
  "queue_step cr cfg q (Submit i now info pol as timeout prio mstat) =
     snd (submit cr cfg i now info pol as timeout prio mstat q)"
| "queue_step cr cfg q (Approve now later i by given) = snd (approve cr now later i by given q)"
| "queue_step cr cfg q (Reject now i reason by) = snd (reject now i reason by q)"
| "queue_step cr cfg q (ListPending now) = snd (list_pending now q)"
| "queue_step cr cfg q (Cleanup now hours) = cleanup now hours q"
| "queue_step cr cfg q (MarkAutoExecuted i) = alter i (\<lambda>t. t\<lparr>status := AUTO_EXECUTED\<rparr>) q"
| "queue_step cr cfg q (Tamper i as) = alter i (\<lambda>t. t\<lparr>actions := as\<rparr>) q"

fun approved_by_event :: "crypto \<Rightarrow> approval_queue \<Rightarrow> approval_event \<Rightarrow> string option" where
  "approved_by_event cr q (Approve now later i by given) =
     (if fst (approve cr now later i by given q) \<noteq> None then Some i else None)"
| "approved_by_event cr q _ = None"

fun submitted_id :: "approval_event \<Rightarrow> string option" where
  "submitted_id (Submit i now info pol as timeout prio mstat) = Some i"
| "submitted_id _ = None"

definition status_of :: "approval_queue \<Rightarrow> string \<Rightarrow> approval_status option" where
  "status_of q i = map_option status (map_of q i)"

definition keys_distinct :: "approval_queue \<Rightarrow> bool" where
  "keys_distinct q = distinct (List.map fst q)"

lemma keys_distinct_step: "keys_distinct q \<Longrightarrow> keys_distinct (queue_step cr cfg q e)"
  by (cases e)
    (auto simp: keys_distinct_def submit_def approve_cases reject_def list_pending_def cleanup_def
      Let_def case_prod_beta comp_def distinct_update distinct_keys_filter split: option.splits)

lemma status_of_step:
  assumes "keys_distinct q" and "submitted_id e \<noteq> Some i"
  shows "status_of (queue_step cr cfg q e) i = status_of q i
     \<or> (status_of q i \<noteq> None \<and> status_of (queue_step cr cfg q e) i \<noteq> Some PENDING)"
proof (cases e)
  case (Cleanup now hours)
  have "map_of (cleanup now hours q) i =
      (case map_of q i of None \<Rightarrow> None
       | Some t \<Rightarrow> if \<not> created_at t < now - of_int (hours * 3600) then Some t else None)"
    using assms(1) unfolding keys_distinct_def cleanup_def Let_def by (rule map_of_filter_tickets)
  then show ?thesis by (auto simp: Cleanup status_of_def split: option.splits)
next
  case (ListPending now)
  show ?thesis
    by (cases "map_of q i")
      (simp_all add: ListPending status_of_def list_pending_def map_of_map_values expire_pending_def)
next
  case (Submit j now info pol as timeout prio mstat)
  with assms(2) show ?thesis by (simp add: status_of_def submit_lookup)
next
  case (Approve now later j who given)
  then show ?thesis
    by (cases "map_of q j"; cases "j = i") (auto simp: status_of_def approve_cases)
next
  case (Reject now j reason who)
  then show ?thesis
    by (cases "map_of q j"; cases "j = i") (auto simp: status_of_def reject_def Let_def)
next
  case (MarkAutoExecuted j)
  then show ?thesis by (cases "map_of q i") (auto simp: status_of_def)
next
  case (Tamper j as)
  then show ?thesis by (cases "map_of q i") (auto simp: status_of_def)
qed

interpretation human_queue: decision_queue status_of "queue_step cr cfg" "approved_by_event cr"
  submitted_id PENDING keys_distinct for cr cfg
proof unfold_locales
  fix q e i
  assume "keys_distinct q" and "approved_by_event cr q e = Some i"
  then show "status_of q i = Some PENDING \<and> status_of (queue_step cr cfg q e) i \<noteq> Some PENDING"
    by (cases e) (auto simp: status_of_def approve_cases approvable_def split: option.splits if_splits)
next
  fix q e i
  assume "keys_distinct q" and "status_of q i \<noteq> Some PENDING" and "submitted_id e \<noteq> Some i"
  then show "status_of (queue_step cr cfg q e) i \<noteq> Some PENDING"
    using status_of_step [of q e i cr cfg] by auto
next
  fix q e i
  assume "keys_distinct q" and "status_of q i = None" and "submitted_id e \<noteq> Some i"
  then show "status_of (queue_step cr cfg q e) i = None"
    using status_of_step [of q e i cr cfg] by auto
next
  fix q e
  assume "keys_distinct q"
  then show "keys_distinct (queue_step cr cfg q e)" by (rule keys_distinct_step)
qed

section \<open>Tickets keep the digest of what was submitted\<close>

definition backed :: "crypto \<Rightarrow> approval_event list \<Rightarrow> approval_queue \<Rightarrow> bool" where
  "backed cr es q \<longleftrightarrow>
     (\<forall>i t. (i, t) \<in> set q \<longrightarrow> (\<exists>now info pol as timeout prio mstat.
        Submit i now info pol as timeout prio mstat \<in> set es \<and> digest t = digest_of cr as))"

lemma backed_mono: "backed cr es q \<Longrightarrow> set es \<subseteq> set es' \<Longrightarrow> backed cr es' q"
  unfolding backed_def by blast

lemma backed_alter:
  assumes "backed cr es q" and "\<And>t. (i, t) \<in> set q \<Longrightarrow> digest (f t) = digest t"
  shows "backed cr es (alter i f q)"
  unfolding backed_def
proof (intro allI impI)
  fix j u
  assume "(j, u) \<in> set (alter i f q)"
  then obtain t where t: "(j, t) \<in> set q" and u: "u = (if j = i then f t else t)"
    by (auto simp: alter_def)
  have "digest u = digest t" using u t assms(2) by auto
  then show "\<exists>now info pol as timeout prio mstat.
      Submit j now info pol as timeout prio mstat \<in> set es \<and> digest u = digest_of cr as"
    using assms(1) t unfolding backed_def by metis
qed

lemma backed_replace:
  assumes "backed cr es q" and "map_of q i = Some t" and "digest t' = digest t"
  shows "backed cr es (alter i (\<lambda>_. t') q)"
  unfolding backed_def
proof (intro allI impI)
  fix j u
  assume "(j, u) \<in> set (alter i (\<lambda>_. t') q)"
  then obtain v where v: "(j, v) \<in> set q" and u: "u = (if j = i then t' else v)"
    by (auto simp: alter_def)
  have "(i, t) \<in> set q" using assms(2) by (rule map_of_SomeD)
  with u v assms(3) obtain w where "(j, w) \<in> set q" and "digest u = digest w" by (cases "j = i") auto
  then show "\<exists>now info pol as timeout prio mstat.
      Submit j now info pol as timeout prio mstat \<in> set es \<and> digest u = digest_of cr as"
    using assms(1) unfolding backed_def by metis
qed

lemma set_AList_update: "(k, t) \<in> set (AList.update j u q) \<Longrightarrow> (k, t) \<in> set q \<or> (k = j \<and> t = u)"
  by (induction q) (auto split: if_splits)

lemma backed_step:
  assumes "backed cr es q"
  shows "backed cr (es @ [e]) (queue_step cr cfg q e)"
proof -
  have old: "backed cr (es @ [e]) q" using assms by (rule backed_mono) auto
  show ?thesis
  proof (cases e)
    case (Submit j now info pol as timeout prio mstat)
    let ?t = "fst (submit cr cfg j now info pol as timeout prio mstat q)"
    have dig: "digest ?t = digest_of cr as" by (simp add: submit_def Let_def)
    have "queue_step cr cfg q e = AList.update j ?t q" by (simp add: Submit submit_def Let_def)
    then show ?thesis
      using old dig unfolding backed_def Submit by (auto dest!: set_AList_update) blast+
  next
    case (Approve now later j who given)
    then show ?thesis
      using old by (cases "map_of q j") (auto simp: approve_cases intro: backed_alter backed_replace)
  next
    case (Reject now j reason who)
    then show ?thesis
      using old by (cases "map_of q j") (auto simp: reject_def Let_def intro: backed_alter backed_replace)
  next
    case (ListPending now)
    have "digest (expire_pending now t) = digest t" for t by (simp add: expire_pending_def)
    then show ?thesis
      using old unfolding ListPending backed_def by (auto simp: list_pending_def)
  next
    case (Cleanup now hours)
    then show ?thesis using old unfolding backed_def by (auto simp: cleanup_def Let_def)
  qed (use old in \<open>auto intro: backed_alter\<close>)
qed

lemma backed_run: "backed cr es0 q \<Longrightarrow> backed cr (es0 @ es) (run_queue (queue_step cr cfg) q es)"
proof (induction es arbitrary: es0 q)
  case Nil
  then show ?case by simp
next
  case (Cons e es)
  from Cons.IH [OF backed_step [OF Cons.prems]] show ?case by simp
qed

section \<open>Properties\<close>

text \<open>
  Exactly when an approval goes through: the ticket exists, is still pending and within its
  lifetime, its actions still have the digest taken at submission, and the signature offered
  (the ticket's own when none is given) is the HMAC of id, expiry, digest and policy.
\<close>

theorem approve_succeeds_iff:
  "(\<exists>t'. fst (approve cr now later i who given q) = Some t') \<longleftrightarrow>
   (\<exists>t. get_ticket i q = Some t \<and> now \<le> expires_at t \<and> status t = PENDING \<and>
      digest t \<noteq> [] \<and> digest_of cr (actions t) = digest t \<and>
      lower (strip (case given of Some s \<Rightarrow> if s = [] then sig t else s | None \<Rightarrow> sig t)) =
        hmac_of cr (approval_message (tid t) (expires_at t) (digest t) (policy_name t)))"
  by (cases "map_of q i")
    (auto simp: get_ticket_def approve_cases approvable_def is_expired_def verify_approval_def
      hmac_ok_def Let_def)

text \<open>
  C6. No replay: in any run of submissions, approvals, rejections, listings, clean-ups,
  automatic executions and mutations of shared action lists, a ticket is approved at most once.
\<close>

theorem no_approval_replay:
  assumes "fresh_ids status_of submitted_id [] es"
  shows "count_list (approvals (queue_step cr cfg) (approved_by_event cr) [] es) i \<le> 1"
  by (rule human_queue.approved_at_most_once [OF _ assms]) (simp add: keys_distinct_def)

definition demo_crypto :: crypto where
  "demo_crypto = \<lparr>digest_of = (\<lambda>as. ''d'' @ concat (List.map name_of as)), hmac_of = lower\<rparr>"

definition demo_settings :: approval_settings where
  "demo_settings = \<lparr>ttl_critical = 10, ttl_normal = 15\<rparr>"

definition demo_run :: "approval_event list" where
  "demo_run =
     [Submit ''a1'' 100 [] ''pol'' [named_action ''isolate_host'' []] None ''p1'' '''',
      Approve 200 201 ''a1'' ''admin'' None, Approve 202 203 ''a1'' ''admin'' None]"

theorem no_approval_replay_witness:
  "approvals (queue_step demo_crypto demo_settings) (approved_by_event demo_crypto) [] demo_run = [''a1'']
   \<and> count_list (approvals (queue_step demo_crypto demo_settings) (approved_by_event demo_crypto)
       [] demo_run) ''a1'' \<le> 1"
proof
  show "approvals (queue_step demo_crypto demo_settings) (approved_by_event demo_crypto) [] demo_run
      = [''a1'']"
    by code_simp
  show "count_list (approvals (queue_step demo_crypto demo_settings) (approved_by_event demo_crypto)
       [] demo_run) ''a1'' \<le> 1"
    by (rule no_approval_replay) code_simp
qed

text \<open>
  C37. What is approved is what was submitted: whatever happened to the queue, the actions of a
  ticket that \<open>approve\<close> lets through have the digest of the actions of a submission with its id.
\<close>

theorem approved_actions_as_submitted:
  assumes "fst (approve cr now later i who given (run_queue (queue_step cr cfg) [] es)) = Some t"
  shows "\<exists>ts info pol as timeout prio mstat.
     Submit i ts info pol as timeout prio mstat \<in> set es \<and> digest_of cr (actions t) = digest_of cr as"
proof -
  let ?q = "run_queue (queue_step cr cfg) [] es"
  obtain u where u: "map_of ?q i = Some u" and ok: "approvable cr now given u"
    and t: "t = u\<lparr>status := APPROVED, approved_by := who, approved_at := later\<rparr>"
    using assms by (auto simp: approve_cases split: option.splits if_splits)
  have "backed cr ([] @ es) ?q" by (rule backed_run) (simp add: backed_def)
  moreover have "(i, u) \<in> set ?q" using u by (rule map_of_SomeD)
  ultimately show ?thesis
    using ok unfolding backed_def approvable_def t by fastforce
qed

theorem approved_actions_as_submitted_witness:
  "\<exists>ts info pol as timeout prio mstat.
     Submit ''a1'' ts info pol as timeout prio mstat
       \<in> set [Submit ''a1'' 100 [] ''pol'' [named_action ''block_ip'' []] None ''p1'' '''']
     \<and> digest_of demo_crypto [named_action ''block_ip'' []] = digest_of demo_crypto as"
proof -
  let ?es = "[Submit ''a1'' 100 [] ''pol'' [named_action ''block_ip'' []] None ''p1'' '''']"
  let ?r = "fst (approve demo_crypto 200 201 ''a1'' ''admin'' None
      (run_queue (queue_step demo_crypto demo_settings) [] ?es))"
  have acts: "map_option actions ?r = Some [named_action ''block_ip'' []]"
    by code_simp
  then obtain t where t: "?r = Some t" and "actions t = [named_action ''block_ip'' []]" by auto
  with approved_actions_as_submitted [OF t] show ?thesis by simp
qed

text \<open>
  C12. A decided ticket does not stay decided: asking to approve (or reject) an approved ticket
  after its lifetime returns nothing but overwrites its status with \<open>EXPIRED\<close>, because
  the expiry test comes before the status test.
\<close>

theorem late_approve_overwrites_approved:
  assumes "get_ticket i q = Some t" and "status t = APPROVED" and "expires_at t < now"
  shows "fst (approve cr now later i who given q) = None \<and>
     status_of (snd (approve cr now later i who given q)) i = Some EXPIRED"
  using assms
  by (simp add: get_ticket_def approve_cases approvable_def is_expired_def status_of_def)

theorem late_approve_overwrites_approved_witness:
  "status_of (run_queue (queue_step demo_crypto demo_settings) [] demo_run) ''a1'' = Some APPROVED
   \<and> status_of (snd (approve demo_crypto 2000 2001 ''a1'' ''x'' None
        (run_queue (queue_step demo_crypto demo_settings) [] demo_run))) ''a1'' = Some EXPIRED"
proof -
  let ?q = "run_queue (queue_step demo_crypto demo_settings) [] demo_run"
  have st: "status_of ?q ''a1'' = Some APPROVED" by code_simp
  then obtain t where t: "get_ticket ''a1'' ?q = Some t" and "status t = APPROVED"
    by (auto simp: status_of_def get_ticket_def)
  moreover have "map_option expires_at (get_ticket ''a1'' ?q) = Some 700" by code_simp
  ultimately show ?thesis
    using late_approve_overwrites_approved [OF t, of 2000] st by auto
qed

text \<open>
  The pending list: it is sorted by priority rank and then newest first, holds exactly the
  tickets that are pending and unexpired, and no pending ticket left in the queue is expired.
\<close>

theorem list_pending_correct:
  "sorted (List.map queue_order (fst (list_pending now q)))
   \<and> set (fst (list_pending now q)) =
       {t \<in> snd ` set q. status t = PENDING \<and> now \<le> expires_at t}
   \<and> list_all (\<lambda>(i, t). \<not> (status t = PENDING \<and> expires_at t < now)) (snd (list_pending now q))"
  by (auto simp: list_pending_def list_all_iff expire_pending_def is_expired_def not_less
      split: if_splits)

end
