(* ===== verification/Orchestrator.thy ===== *)
theory Orchestrator
  imports ResponseExecutor PolicyEngine SecurityGuard HumanApproval SafeExecutor
begin

text \<open>
  The response orchestrator (\<open>src/backend/response_engine/response_orchestrator.py\<close>): the path
  from a detected threat through the policy engine, the security guard and the approval queue to
  the executor.  The inference of a threat type from an event's name, the registry's functions and
  the clock are parameters; the response log and the write-back to the event's row, which nothing
  here reads, are left out, and the source address of a threat is text.
\<close>

section \<open>State\<close>

text \<open>
  \<open>oc_polls\<close> is \<open>_running_approvals\<close>: the tickets with a polling task, each with the context
  its task was started with.  \<open>oc_world\<close> is the state the registry's functions act on.
\<close>

record ('s, 'r) orchestrator =
  oc_guard :: security_guard
  oc_world :: 's
  oc_store :: "'r rollback_store"
  oc_engine :: policy_engine
  oc_queue :: approval_queue
  oc_polls :: "(string \<times> pydict) list"

record 's orch_env =
  oe_text :: text_env
  oe_registry :: "'s registry"
  oe_classify :: "string \<Rightarrow> string \<times> string"
  oe_infer :: "pyval \<Rightarrow> string"
  oe_taxonomy :: "string \<Rightarrow> string"
  oe_crypto :: crypto
  oe_settings :: approval_settings

text \<open>The clock readings and the random batch token of one guarded execution.\<close>

record guard_times =
  gt_inspect :: "nat \<Rightarrow> guard_clock"
  gt_exec :: "nat \<Rightarrow> time"
  gt_store :: time
  gt_token :: string
  gt_record :: "nat \<Rightarrow> guard_clock"

section \<open>The guarded execution\<close>

definition normalize_threat_info_for_guard :: "text_env \<Rightarrow> pydict \<Rightarrow> pydict" where
  "normalize_threat_info_for_guard te info =
     (let i1 = py_set ''threat_level'' (PyStr (resolve_threat_level te info)) info;
          i2 = py_set ''reason'' (PyStr (resolve_reason te i1)) i1
      in if \<not> truthy (py_get i2 ''severity'' PyNone) \<and> py_get i2 ''threat_level'' PyNone \<noteq> PyStr ''unknown''
         then py_set ''severity'' (py_get i2 ''threat_level'' PyNone) i2 else i2)"

fun inspect_all ::
  "text_env \<Rightarrow> (nat \<Rightarrow> guard_clock) \<Rightarrow> nat \<Rightarrow> pydict \<Rightarrow> response_action list \<Rightarrow> security_guard \<Rightarrow>
   response_action list \<times> security_guard"
where
  "inspect_all te clk i info [] g = ([], g)"
| "inspect_all te clk i info (a # as) g =
     (case guard_inspect te (clk i) (action_name_of a) info g of
        (v, g') \<Rightarrow>
          (case inspect_all te clk (Suc i) info as g' of
             (ok, g'') \<Rightarrow> (if guard_verdict.allowed v then a # ok else ok, g'')))"

text \<open>The dict that confirms an action: the successes of all results under its name.\<close>

definition batch_record :: "batch_result \<Rightarrow> string \<Rightarrow> pydict" where
  "batch_record b name =
     [(''success'', PyBool (list_all ar_success (filter (\<lambda>r. ar_name r = name) (br_results b)))),
      (''succeeded'', PyInt (int (br_succeeded b))), (''failed'', PyInt (int (br_failed b)))]"

fun record_all ::
  "(nat \<Rightarrow> guard_clock) \<Rightarrow> nat \<Rightarrow> pydict \<Rightarrow> batch_result \<Rightarrow> response_action list \<Rightarrow> security_guard \<Rightarrow> security_guard"
where
  "record_all clk i info b [] g = g"
| "record_all clk i info b (a # as) g =
     record_all clk (Suc i) info b as
       (guard_record (clk i) (action_name_of a) info (Some (batch_record b (action_name_of a))) g)"

text \<open>\<open>None\<close> when the executor raises; nothing is recorded then.\<close>

definition guarded_execute ::
  "'s orch_env \<Rightarrow> guard_times \<Rightarrow> response_action list \<Rightarrow> pydict \<Rightarrow> ('s, 'r) orchestrator \<Rightarrow>
   batch_result option \<times> ('s, 'r) orchestrator"
where
  "guarded_execute env ts as info0 st =
     (let info = normalize_threat_info_for_guard (oe_text env) info0 in
      case inspect_all (oe_text env) (gt_inspect ts) 0 info as (oc_guard st) of
        (ok, g) \<Rightarrow>
          let st1 = st\<lparr>oc_guard := g\<rparr> in
          if ok = [] then (Some empty_batch, st1)
          else
            (case execute_actions (oe_text env) (oe_registry env) (gt_exec ts) (gt_store ts) (gt_token ts)
                    ok info (oc_world st1, oc_store st1) of
               (None, (w, rs)) \<Rightarrow> (None, st1\<lparr>oc_world := w, oc_store := rs\<rparr>)
             | (Some b, (w, rs)) \<Rightarrow>
                 (Some b, st1\<lparr>oc_world := w, oc_store := rs, oc_guard := record_all (gt_record ts) 0 info b ok g\<rparr>)))"

section \<open>A detected threat\<close>

fun status_text :: "match_status \<Rightarrow> string" where
  "status_text Matched = ''matched''"
| "status_text MatchedCategory = ''matched_category''"
| "status_text MatchedBehavior = ''matched_behavior''"
| "status_text Uncertain = ''uncertain''"
| "status_text Skipped = ''skipped''"
| "status_text Filtered = ''filtered''"
| "status_text NoAction = ''no_action''"

definition is_ascii :: "string \<Rightarrow> bool" where
  "is_ascii s = list_all (\<lambda>c. (of_char c :: nat) < 128) s"

definition text_or :: "text_env \<Rightarrow> pyval \<Rightarrow> string" where
  "text_or te v = (if truthy v then py_str te v else [])"

text \<open>The leaf type and the category of a threat, from its fields or its event's name.\<close>

definition threat_class :: "'s orch_env \<Rightarrow> pydict \<Rightarrow> string \<times> string" where
  "threat_class env info =
     (let te = oe_text env;
          raw = py_or (py_or (py_get info ''threat_type'' PyNone) (py_get info ''event'' PyNone)) (PyStr []);
          (leaf, icat) = oe_classify env (py_str te raw);
          tt = (if leaf \<noteq> [] then leaf
                else if icat \<noteq> [] then []
                else (let fallback = oe_infer env raw; s = strip (text_or te raw) in
                      if fallback \<noteq> [] then fallback else if is_ascii s then s else []));
          cat = strip (text_or te (py_get info ''category'' PyNone))
      in (tt, if cat \<noteq> [] then cat else icat))"

definition set_missing :: "string \<Rightarrow> pyval \<Rightarrow> pydict \<Rightarrow> pydict" where
  "set_missing k v d = (if truthy v \<and> \<not> truthy (py_get d k PyNone) then py_set k v d else d)"

text \<open>
  The context as it is passed on, and the question to the policy engine.  \<open>None\<close> when the
  confidence cannot be formatted (which raises) or the source is no text.
\<close>

definition src_text :: "pydict \<Rightarrow> string option" where
  "src_text info =
     (let v = py_get info ''src_ip'' (PyStr []) in
      if \<not> truthy v then Some [] else case v of PyStr s \<Rightarrow> Some s | _ \<Rightarrow> None)"

definition prepare_threat ::
  "'s orch_env \<Rightarrow> pydict \<Rightarrow> int \<Rightarrow> string \<Rightarrow> (pydict \<times> threat) option"
where
  "prepare_threat env info0 event session =
     (let te = oe_text env;
          i1 = normalize_threat_info_for_guard te info0;
          i2 = set_missing ''session_id'' (PyStr session) i1;
          i3 = set_missing ''event_id'' (PyInt event) i2;
          (tt, cat) = threat_class env i3;
          i4 = py_set ''threat_type''
                 (if tt \<noteq> [] then PyStr tt else py_or (py_get i3 ''threat_type'' PyNone) (PyStr [])) i3;
          i5 = (if cat \<noteq> [] then py_set ''category'' (PyStr cat) i4 else i4)
      in case (py_number (py_get i3 ''confidence'' (PyFloat 0)), src_text i3) of
           (Some conf, Some ip) \<Rightarrow>
             Some (i5, \<lparr>th_type = tt, th_confidence = conf,
                        th_severity = py_str te (py_get i3 ''severity'' (PyStr ''info'')),
                        th_ip = ip, th_category = cat\<rparr>)
         | _ \<Rightarrow> None)"

definition ALERT_ONLY_ACTIONS :: "string list" where
  "ALERT_ONLY_ACTIONS = [''send_alert'']"

text \<open>The two-track gate: without permission to block, only alerts are kept.\<close>

definition gate_actions :: "bool \<Rightarrow> action_map \<Rightarrow> action_map" where
  "gate_actions allow m =
     (if allow \<or> am_actions m = [] then m
      else (let kept = filter (\<lambda>a. action_or_name a \<in> set ALERT_ONLY_ACTIONS) (am_actions m) in
            m\<lparr>am_actions := kept, am_auto := True,
              am_approval := am_status m = Uncertain \<or> list_ex (\<lambda>a. registry_needs_approval (action_or_name a)) kept\<rparr>))"

record detect_times =
  dt_cleanup :: time
  dt_policy :: "string \<Rightarrow> time"
  dt_match :: time
  dt_mark :: time
  dt_submit :: time
  dt_ticket :: string
  dt_guard :: guard_times
  dt_reload :: "response_policy list option"

record detection =
  de_matched :: bool
  de_status :: string
  de_reason :: string
  de_policy :: string
  de_executed :: nat
  de_approval :: bool
  de_auto :: bool
  de_ticket :: "string option"
  de_batch :: "batch_result option"

definition submit_for ::
  "'s orch_env \<Rightarrow> detect_times \<Rightarrow> pydict \<Rightarrow> action_map \<Rightarrow> ('s, 'r) orchestrator \<Rightarrow> ('s, 'r) orchestrator"
where
  "submit_for env ts info m st =
     st\<lparr>oc_queue := snd (submit (oe_crypto env) (oe_settings env) (dt_ticket ts) (dt_submit ts) info
          (am_policy m) (am_actions m)
          (if am_status m = Uncertain then Some 15 else None)
          (if am_status m = Uncertain then ''p1'' else ''p2'')
          (if am_status m = Uncertain then status_text Uncertain else []) (oc_queue st))\<rparr>"

definition start_poll :: "string \<Rightarrow> pydict \<Rightarrow> ('s, 'r) orchestrator \<Rightarrow> ('s, 'r) orchestrator" where
  "start_poll i info st = st\<lparr>oc_polls := AList.update i info (oc_polls st)\<rparr>"

definition mark_policy :: "string \<Rightarrow> string \<Rightarrow> time \<Rightarrow> ('s, 'r) orchestrator \<Rightarrow> ('s, 'r) orchestrator" where
  "mark_policy name ip now st = st\<lparr>oc_engine := mark_executed name ip now (oc_engine st)\<rparr>"

definition any_success :: "batch_result \<Rightarrow> bool" where
  "any_success b = list_ex ar_success (br_results b)"

text \<open>Executing first: the ticket records it for review, or waits if an uncertain threat was not blocked.\<close>

definition execute_then_ticket ::
  "'s orch_env \<Rightarrow> detect_times \<Rightarrow> pydict \<Rightarrow> string \<Rightarrow> action_map \<Rightarrow> ('s, 'r) orchestrator \<Rightarrow>
   (batch_result \<times> string option) option \<times> ('s, 'r) orchestrator"
where
  "execute_then_ticket env ts info ip m st =
     (case guarded_execute env (dt_guard ts) (am_actions m) info st of
        (None, st1) \<Rightarrow> (None, st1)
      | (Some b, st1) \<Rightarrow>
          if any_success b \<or> am_status m = Uncertain then
            (let blocked = list_ex (\<lambda>r. ar_success r \<and> ar_name r = ''block_ip'') (br_results b);
                 waits = (am_status m = Uncertain \<and> \<not> blocked);
                 st2 = (if any_success b then mark_policy (am_policy m) ip (dt_mark ts) st1 else st1);
                 st3 = submit_for env ts info m st2;
                 st4 = st3\<lparr>oc_queue := alter (dt_ticket ts)
                         (\<lambda>t. t\<lparr>status := (if waits then PENDING else AUTO_EXECUTED)\<rparr>) (oc_queue st3)\<rparr>
             in (Some (b, Some (dt_ticket ts)), if waits then start_poll (dt_ticket ts) info st4 else st4))
          else (Some (b, None), st1))"

definition detection_of :: "action_map \<Rightarrow> batch_result option \<Rightarrow> string option \<Rightarrow> detection" where
  "detection_of m b t =
     \<lparr>de_matched = True, de_status = status_text (am_status m), de_reason = am_reason m,
      de_policy = am_policy m, de_executed = (case b of None \<Rightarrow> 0 | Some x \<Rightarrow> br_succeeded x),
      de_approval = am_approval m, de_auto = am_auto m, de_ticket = t, de_batch = b\<rparr>"

text \<open>What follows a decision: the response itself.\<close>

definition respond ::
  "'s orch_env \<Rightarrow> detect_times \<Rightarrow> pydict \<Rightarrow> string \<Rightarrow> action_map \<Rightarrow> ('s, 'r) orchestrator \<Rightarrow>
   detection option \<times> ('s, 'r) orchestrator"
where
  "respond env ts info ip m st =
     (if am_approval m then
        (if am_auto m \<and> \<not> has_critical_action (am_actions m) then
           (case execute_then_ticket env ts info ip m st of
              (None, st1) \<Rightarrow> (None, st1)
            | (Some (b, t), st1) \<Rightarrow> (Some (detection_of m (Some b) t), st1))
         else
           (Some (detection_of m None (Some (dt_ticket ts))),
            start_poll (dt_ticket ts) info
              (mark_policy (am_policy m) ip (dt_mark ts) (submit_for env ts info m st))))
      else if am_auto m then
        (case guarded_execute env (dt_guard ts) (am_actions m) info st of
           (None, st1) \<Rightarrow> (None, st1)
         | (Some b, st1) \<Rightarrow>
             (Some (detection_of m (Some b) None),
              if any_success b then mark_policy (am_policy m) ip (dt_mark ts) st1 else st1))
      else (Some (detection_of m None None), st))"

text \<open>\<open>None\<close> when the handler raises; the state is the one reached.\<close>

definition on_threat_detected ::
  "'s orch_env \<Rightarrow> detect_times \<Rightarrow> pydict \<Rightarrow> int \<Rightarrow> string \<Rightarrow> bool \<Rightarrow> ('s, 'r) orchestrator \<Rightarrow>
   detection option \<times> ('s, 'r) orchestrator"
where
  "on_threat_detected env ts info0 event session allow st =
     (case prepare_threat env info0 event session of
        None \<Rightarrow> (None, st)
      | Some (info, th) \<Rightarrow>
          (case policy_match (oe_taxonomy env) (dt_reload ts) (dt_cleanup ts) (dt_policy ts) (dt_match ts) th (oc_engine st) of
             (m, e) \<Rightarrow>
               (let st1 = st\<lparr>oc_engine := e\<rparr>;
                    i1 = py_set ''skip_reason'' (PyStr (am_reason m))
                           (py_set ''match_status'' (PyStr (status_text (am_status m))) info);
                    i2 = (if am_category m \<noteq> [] then py_set ''category'' (PyStr (am_category m)) i1 else i1)
                in if am_status m \<in> {Skipped, NoAction, Filtered} then
                     (Some \<lparr>de_matched = False, de_status = status_text (am_status m), de_reason = am_reason m,
                            de_policy = am_policy m, de_executed = 0, de_approval = False, de_auto = False,
                            de_ticket = None, de_batch = None\<rparr>, st1)
                   else respond env ts i2 (th_ip th) (gate_actions allow m) st1)))"

section \<open>Approved tickets\<close>

definition exec_summary_of :: "batch_result \<Rightarrow> exec_summary" where
  "exec_summary_of b = \<lparr>sum_succeeded = br_succeeded b, sum_failed = br_failed b, sum_token = br_token b\<rparr>"

definition set_result :: "string \<Rightarrow> batch_result \<Rightarrow> ('s, 'r) orchestrator \<Rightarrow> ('s, 'r) orchestrator" where
  "set_result i b st = st\<lparr>oc_queue := alter i (\<lambda>t. t\<lparr>result := Some (exec_summary_of b)\<rparr>) (oc_queue st)\<rparr>"

definition end_poll :: "string \<Rightarrow> ('s, 'r) orchestrator \<Rightarrow> ('s, 'r) orchestrator" where
  "end_poll i st = st\<lparr>oc_polls := AList.delete i (oc_polls st)\<rparr>"

text \<open>
  One turn of \<open>_poll_approval\<close>: the batch it executed, if any.  An execution that raises ends the
  task.
\<close>

definition poll_step ::
  "'s orch_env \<Rightarrow> guard_times \<Rightarrow> time \<Rightarrow> string \<Rightarrow> ('s, 'r) orchestrator \<Rightarrow>
   batch_result option \<times> ('s, 'r) orchestrator"
where
  "poll_step env ts now i st =
     (case map_of (oc_polls st) i of
        None \<Rightarrow> (None, st)
      | Some info \<Rightarrow>
          (case get_ticket i (oc_queue st) of
             None \<Rightarrow> (None, end_poll i st)
           | Some t \<Rightarrow>
               if status t = APPROVED then
                 (case guarded_execute env ts (actions t) info st of
                    (None, st1) \<Rightarrow> (None, end_poll i st1)
                  | (Some b, st1) \<Rightarrow>
                      (let st2 = set_result i b st1;
                           ip = (case src_text info of Some s \<Rightarrow> s | None \<Rightarrow> [])
                       in (Some b, end_poll i
                            (if any_success b then mark_policy (policy_name t) ip now st2 else st2))))
               else if status t \<in> {REJECTED, EXPIRED} then (None, end_poll i st)
               else (None, st)))"

definition execute_approved_action ::
  "'s orch_env \<Rightarrow> guard_times \<Rightarrow> string \<Rightarrow> ('s, 'r) orchestrator \<Rightarrow> batch_result option \<times> ('s, 'r) orchestrator"
where
  "execute_approved_action env ts i st =
     (case get_ticket i (oc_queue st) of
        None \<Rightarrow> (None, st)
      | Some t \<Rightarrow>
          if status t \<noteq> APPROVED then (None, st)
          else (case guarded_execute env ts (actions t) (threat_info t) st of
                  (None, st1) \<Rightarrow> (None, st1)
                | (Some b, st1) \<Rightarrow> (Some b, set_result i b st1)))"

definition rollback_response ::
  "'s orch_env \<Rightarrow> time \<Rightarrow> time \<Rightarrow> time \<Rightarrow> string \<Rightarrow> ('s, 'r) orchestrator \<Rightarrow> batch_result \<times> ('s, 'r) orchestrator"
where
  "rollback_response env t1 t2 t3 token st =
     (case rollback_batch (oe_registry env) t1 t2 t3 token (oc_world st, oc_store st) of
        (b, (w, rs)) \<Rightarrow> (b, st\<lparr>oc_world := w, oc_store := rs\<rparr>))"

end
