(* ===== verification/OrchestratorSafety.thy ===== *)
theory OrchestratorSafety
  imports Orchestrator
begin

text \<open>
  What the orchestrator guarantees: the guard stands before every execution, critical actions wait
  for a human, the alert-only track executes and queues alerts alone; and what it does not: a
  ticket approved once can be executed twice, and containment actions the guard's matrix does not
  list are dropped even after approval.
\<close>

section \<open>The guard before the executor\<close>

definition MATRIX_ACTIONS :: "string list" where
  "MATRIX_ACTIONS = [''block_ip'', ''isolate_host'', ''terminate_process'', ''rate_limit'', ''alert_only'', ''send_alert'']"

text \<open>The matrix lists the action for the level of the threat.\<close>

definition proportionate :: "text_env \<Rightarrow> pydict \<Rightarrow> string \<Rightarrow> bool" where
  "proportionate te info name =
     (let level = resolve_threat_level te info in
      if level = ''unknown'' then name \<in> set ALERT_ACTIONS
      else (case map_of THREAT_ACTION_MATRIX level of None \<Rightarrow> False | Some as \<Rightarrow> name \<in> set as))"

lemma proportionate_listed: "proportionate te info name \<Longrightarrow> name \<in> set MATRIX_ACTIONS"
  by (auto simp: proportionate_def Let_def ALERT_ACTIONS_def THREAT_ACTION_MATRIX_def MATRIX_ACTIONS_def
      split: if_splits option.splits)

lemma allowed_proportionate:
  assumes "guard_verdict.allowed (fst (guard_inspect te clk name info g))"
  shows "proportionate te info name"
proof -
  have "level_issues (resolve_threat_level te info) name = []"
    using assms by (simp add: inspect_decision)
  from allowed_level [OF this resolve_threat_level_cases] show ?thesis
    by (auto simp: proportionate_def Let_def)
qed

lemma inspect_all_kept:
  "a \<in> set (fst (inspect_all te clk i info as g)) \<Longrightarrow> a \<in> set as \<and> proportionate te info (action_name_of a)"
proof (induction as arbitrary: i g)
  case (Cons x as)
  then show ?case
    using allowed_proportionate [of te "clk i" "action_name_of x" info g]
    by (auto simp: split_beta split: if_splits)
qed simp

lemma guarded_cases:
  assumes "guarded_execute env ts as info0 st = (out, st')"
  obtains (blocked) "out = Some empty_batch" and "oc_world st' = oc_world st" and "oc_store st' = oc_store st"
      and "fst (inspect_all (oe_text env) (gt_inspect ts) 0
             (normalize_threat_info_for_guard (oe_text env) info0) as (oc_guard st)) = []"
  | (ran) ok w rs where "ok \<noteq> []"
      and "ok = fst (inspect_all (oe_text env) (gt_inspect ts) 0
             (normalize_threat_info_for_guard (oe_text env) info0) as (oc_guard st))"
      and "execute_actions (oe_text env) (oe_registry env) (gt_exec ts) (gt_store ts) (gt_token ts) ok
             (normalize_threat_info_for_guard (oe_text env) info0) (oc_world st, oc_store st) = (out, (w, rs))"
      and "oc_world st' = w" and "oc_store st' = rs"
  using assms
  by (force simp: guarded_execute_def Let_def split: prod.splits if_splits option.splits)

lemma guarded_keeps:
  assumes "guarded_execute env ts as info0 st = (out, st')"
  shows "oc_engine st' = oc_engine st \<and> oc_queue st' = oc_queue st \<and> oc_polls st' = oc_polls st"
  using assms by (auto simp: guarded_execute_def Let_def split: prod.splits if_splits option.splits)

lemma prepended_names:
  "a \<in> set (maybe_prepend_snapshot as info) \<Longrightarrow> a \<in> set as \<or> name_of a = ''forensic_snapshot''"
  by (auto simp: maybe_prepend_snapshot_def Let_def split: if_splits)

lemma batch_names:
  assumes "execute_actions te reg clk t token as info (s, rs) = (Some b, ss)" and "as \<noteq> []"
    and "r \<in> set (br_results b)"
  shows "ar_name r = ''forensic_snapshot'' \<or> (\<exists>a \<in> set as. ar_name r = name_of a)"
proof -
  obtain outs s' where run: "run_actions te reg clk 0 info (maybe_prepend_snapshot as info) s = (Some outs, s')"
    and b: "b = batch_of token outs" using execute_actions_run [OF assms(1,2)] by blast
  have "List.map ar_name outs = List.map name_of (maybe_prepend_snapshot as info)"
    using run_actions_names [of te reg clk 0 info _ s outs] run by simp
  then have "ar_name ` set outs = name_of ` set (maybe_prepend_snapshot as info)" by (metis list.set_map)
  moreover have "ar_name r \<in> ar_name ` set outs" using assms(3) b by (simp add: batch_of_def)
  ultimately show ?thesis using prepended_names by fastforce
qed

lemma ran_results:
  assumes "guarded_execute env ts as info0 st = (Some b, st')" and "r \<in> set (br_results b)"
  shows "ar_name r = ''forensic_snapshot'' \<or>
    (\<exists>a \<in> set as. ar_name r = name_of a \<and>
       proportionate (oe_text env) (normalize_threat_info_for_guard (oe_text env) info0) (action_name_of a))"
  using assms(1)
proof (cases rule: guarded_cases)
  case blocked
  with assms(2) show ?thesis by (simp add: empty_batch_def batch_of_def)
next
  case (ran ok w rs)
  from batch_names [OF ran(3,1) assms(2)] inspect_all_kept show ?thesis unfolding ran(2) by blast
qed

text \<open>
  C5. Nothing runs without the guard: every result of a guarded execution belongs to an action
  whose inspected name the matrix lists for the threat's level, or to the forensic snapshot that
  the executor puts in front by itself, which no guard has inspected.
\<close>

theorem only_listed_actions_run:
  assumes "guarded_execute env ts as info0 st = (Some b, st')" and "r \<in> set (br_results b)"
  shows "ar_name r = ''forensic_snapshot'' \<or>
    (\<exists>a \<in> set as. ar_name r = name_of a \<and>
       proportionate (oe_text env) (normalize_threat_info_for_guard (oe_text env) info0) (action_name_of a))"
  using assms by (rule ran_results)

lemma unlisted_not_kept:
  assumes "\<forall>a \<in> set as. action_name_of a \<notin> set MATRIX_ACTIONS"
  shows "fst (inspect_all te clk i info as g) = []"
  using assms inspect_all_kept [of _ te clk i info as g] proportionate_listed by (meson last_in_set)

lemma unlisted_guarded:
  assumes "\<forall>a \<in> set as. action_name_of a \<notin> set MATRIX_ACTIONS"
  shows "\<exists>st'. guarded_execute env ts as info st = (Some empty_batch, st') \<and>
    oc_world st' = oc_world st \<and> oc_store st' = oc_store st"
proof -
  obtain out st' where g: "guarded_execute env ts as info st = (out, st')" by (metis prod.collapse)
  then show ?thesis by (cases rule: guarded_cases) (use g unlisted_not_kept [OF assms] in auto)
qed

text \<open>
  A human's approval is lost on most containment actions: the guard's matrix lists neither the
  account, process, file, mail nor DNS actions at any level, so an approved ticket that holds only
  such actions executes nothing and returns an empty batch.
\<close>

theorem approved_containment_never_runs:
  assumes "get_ticket i (oc_queue st) = Some t" and "status t = APPROVED"
    and "\<forall>a \<in> set (actions t). action_name_of a \<notin> set MATRIX_ACTIONS"
  shows "\<exists>st'. execute_approved_action env ts i st = (Some empty_batch, st') \<and>
    oc_world st' = oc_world st \<and> oc_store st' = oc_store st"
  using unlisted_guarded [OF assms(3), of env ts "threat_info t" st] assms(1,2)
  by (auto simp: execute_approved_action_def set_result_def)

section \<open>Where the actions come from\<close>

definition named_engine :: "policy_engine \<Rightarrow> bool" where
  "named_engine e \<longleftrightarrow>
     (\<forall>p \<in> set (policies e) \<union> set_option (uncertain_policy e). \<forall>a \<in> set (pol_actions p). action_key a = None)"

definition template_ok :: "policy_engine \<Rightarrow> bool" where
  "template_ok e \<longleftrightarrow> pol_actions (uncertain_template e) \<noteq> [] \<or> pol_require_approval (uncertain_template e)"

lemma uncertain_named: "a \<in> set uncertain_actions \<Longrightarrow> action_key a = None"
  by (auto simp: uncertain_actions_def named_action_def)

text \<open>The actions a policy in force lists; every decided action is one, or one of the code's own.\<close>

definition listed_action :: "policy_engine \<Rightarrow> response_action \<Rightarrow> bool" where
  "listed_action e a \<longleftrightarrow> (\<exists>p \<in> set (policies e) \<union> set_option (uncertain_policy e). a \<in> set (pol_actions p))"

lemma template_listed:
  "a \<in> set (pol_actions (uncertain_template e)) \<Longrightarrow> listed_action e a \<or> a \<in> set uncertain_actions"
  by (auto simp: listed_action_def uncertain_template_def Let_def split: option.splits if_splits)

lemma make_uncertain_listed:
  "a \<in> set (am_actions (fst (make_uncertain th now e))) \<Longrightarrow> listed_action e a \<or> a \<in> set uncertain_actions"
  using template_listed by (fastforce simp: make_uncertain_def Let_def no_map_def split: if_splits)

lemma chosen_listed: "chosen clock th e p m \<Longrightarrow> a \<in> set (am_actions m) \<Longrightarrow> listed_action e a"
  by (auto simp: listed_action_def chosen_def)

lemma decide_listed:
  assumes "match_decide clock now th e = (m, e')" and "a \<in> set (am_actions m)"
  shows "listed_action e a \<or> a \<in> set uncertain_actions"
proof (cases "resting now th e")
  case True
  with assms show ?thesis by (auto simp: match_decide_resting miss_map_def no_map_def)
next
  case False
  then show ?thesis
  proof (cases rule: match_decide_cases [where clock = clock])
    case (leaf hit)
    with assms(1) have "leaf_loop (policies e) clock now th e False False = Inl (m, e')" by simp
    with leaf_hit_chosen chosen_listed assms(2) show ?thesis by blast
  next
    case (category hit)
    with assms(1) have "category_loop (policies e) clock now th e False = Inl (m, e')" by simp
    with category_hit_chosen chosen_listed assms(2) show ?thesis by blast
  next
    case unknown
    then have "match_unknown now th e = (m, e')" using assms(1) by simp
    with assms(2) make_uncertain_listed [of a th now e] show ?thesis
      by (auto simp: match_unknown_def miss_map_def no_map_def split: if_splits prod.splits)
  qed (use assms in \<open>auto simp: miss_map_def no_map_def\<close>)
qed

lemma decide_named:
  assumes "match_decide clock now th e = (m, e')" and "named_engine e" and "a \<in> set (am_actions m)"
  shows "action_key a = None"
  using decide_listed [OF assms(1,3)] assms(2) uncertain_named by (auto simp: listed_action_def named_engine_def)

text \<open>
  A decision on a critical action asks for approval; the code's own answer to an unknown threat has
  no such action.
\<close>

lemma uncertain_not_critical: "\<not> has_critical_action uncertain_actions"
  by code_simp

lemma decide_critical:
  assumes "match_decide clock now th e = (m, e')" and "has_critical_action (am_actions m)"
  shows "am_approval m"
proof (cases "pol_actions (uncertain_template e) = []")
  case False
  obtain a where "a \<in> set (am_actions m)" and "HighAction \<le> severity_of_action a"
    using assms(2) unfolding has_critical_iff by (metis critical_top)
  with False assms(1) approval_for_high_impact show ?thesis by blast
next
  case empty: True
  show ?thesis
  proof (cases "am_status m = Uncertain")
    case True
    with decide_uncertain [OF assms(1)] unknown_response [of now th e m e'] empty
    have "am_actions m = uncertain_actions" by simp
    with assms(2) uncertain_not_critical show ?thesis by simp
  next
    case False
    have "am_matched m" using unmatched_idle [OF assms(1)] assms(2) by (fastforce simp: has_critical_iff)
    from decide_chosen [OF assms(1) this False] obtain p where p: "chosen clock th e p m" by blast
    from assms(2) obtain a where "a \<in> set (pol_actions p)" "severity_of_action a = CriticalAction"
      using p by (auto simp: has_critical_iff chosen_def)
    then have "policy_needs_approval p"
      using needs_approval_severity [of a] by (auto simp: policy_needs_approval_def list_ex_iff)
    with p show ?thesis by (simp add: chosen_def)
  qed
qed

lemma cleanup_engine:
  "named_engine (maybe_cleanup t e) = named_engine e" "uncertain_template (maybe_cleanup t e) = uncertain_template e"
  by (simp_all add: maybe_cleanup_def named_engine_def uncertain_template_def cleanup_expired_def)

lemma policy_match_named:
  assumes "policy_match tx None t0 clock now th e = (m, e')" and "named_engine e" and "a \<in> set (am_actions m)"
  shows "action_key a = None"
  using assms decide_named cleanup_engine(1) by (auto simp: policy_match_def Let_def)

lemma policy_match_approval:
  assumes "policy_match tx None t0 clock now th e = (m, e')" and "template_ok e" and "has_critical_action (am_actions m)"
  shows "am_approval m"
proof -
  obtain a where "a \<in> set (am_actions m)" and "HighAction \<le> severity_of_action a"
    using assms(3) unfolding has_critical_iff by (metis critical_top)
  then show ?thesis
    using assms(1,2) approval_for_high_impact cleanup_engine(2)
    by (fastforce simp: policy_match_def template_ok_def Let_def)
qed

lemma named_same: "action_key a = None \<Longrightarrow> action_or_name a = name_of a \<and> action_name_of a = name_of a"
  by (simp add: action_or_name_def action_name_of_def)

lemma alert_not_critical: "\<forall>a \<in> set as. name_of a = ''send_alert'' \<Longrightarrow> \<not> has_critical_action as"
  by (auto simp: has_critical_iff severity_of_action_def get_action_def REGISTERED_def)

text \<open>After the gate: critical actions still ask for approval, and the alert-only track keeps alerts.\<close>

lemma gated_alerts:
  assumes "\<not> allow" and "a \<in> set (am_actions (gate_actions allow m))"
  shows "action_or_name a = ''send_alert''"
  using assms by (auto simp: gate_actions_def Let_def ALERT_ONLY_ACTIONS_def split: if_splits)

lemma gate_status [simp]: "am_status (gate_actions allow m) = am_status m" "am_policy (gate_actions allow m) = am_policy m"
  by (simp_all add: gate_actions_def Let_def)

lemma gate_subset: "set (am_actions (gate_actions allow m)) \<subseteq> set (am_actions m)"
  by (auto simp: gate_actions_def Let_def)

lemma gate_critical:
  assumes "has_critical_action (am_actions m) \<longrightarrow> am_approval m" and "\<forall>a \<in> set (am_actions m). action_key a = None"
    and "has_critical_action (am_actions (gate_actions allow m))"
  shows "am_approval (gate_actions allow m)"
proof (cases "allow \<or> am_actions m = []")
  case True
  with assms show ?thesis by (auto simp: gate_actions_def)
next
  case False
  then have "\<forall>a \<in> set (am_actions (gate_actions allow m)). name_of a = ''send_alert''"
    using gated_alerts [of allow _ m] gate_subset assms(2) named_same by (metis subsetD)
  with alert_not_critical assms(3) show ?thesis by blast
qed


section \<open>One detection\<close>

text \<open>The cases of a detection: nothing was decided, nothing was executed, or a batch ran.\<close>

lemma detect_decided:
  assumes "on_threat_detected env ts info0 ev ses allow st = (Some d, st')"
  obtains (idle) "de_batch d = None" and "de_ticket d = None" and "oc_world st' = oc_world st"
      and "oc_store st' = oc_store st" and "oc_queue st' = oc_queue st" and "oc_polls st' = oc_polls st"
  | (responded) info th m e i2 where "prepare_threat env info0 ev ses = Some (info, th)"
      and "policy_match (oe_taxonomy env) (dt_reload ts) (dt_cleanup ts) (dt_policy ts) (dt_match ts) th (oc_engine st) = (m, e)"
      and "am_status m \<notin> {Skipped, NoAction, Filtered}"
      and "respond env ts i2 (th_ip th) (gate_actions allow m) (st\<lparr>oc_engine := e\<rparr>) = (Some d, st')"
  using assms
  by (auto simp: on_threat_detected_def Let_def split: option.splits prod.splits if_splits)

lemma submit_for_keeps [simp]:
  "oc_world (submit_for env ts info m st) = oc_world st" "oc_store (submit_for env ts info m st) = oc_store st"
  "oc_polls (submit_for env ts info m st) = oc_polls st" "oc_engine (submit_for env ts info m st) = oc_engine st"
  by (simp_all add: submit_for_def)

lemma mark_policy_keeps [simp]:
  "oc_world (mark_policy n ip now st) = oc_world st" "oc_store (mark_policy n ip now st) = oc_store st"
  "oc_polls (mark_policy n ip now st) = oc_polls st" "oc_queue (mark_policy n ip now st) = oc_queue st"
  by (simp_all add: mark_policy_def)

lemma start_poll_keeps [simp]:
  "oc_world (start_poll i info st) = oc_world st" "oc_store (start_poll i info st) = oc_store st"
  "oc_queue (start_poll i info st) = oc_queue st" "oc_engine (start_poll i info st) = oc_engine st"
  "oc_polls (start_poll i info st) = AList.update i info (oc_polls st)"
  by (simp_all add: start_poll_def)

lemma submitted:
  "\<exists>t. oc_queue (submit_for env ts info m st) = AList.update (dt_ticket ts) t (oc_queue st) \<and>
     actions t = am_actions m \<and> status t = PENDING"
proof -
  have "snd (submit cr cfg i now info pol as timeout prio ms q) =
      AList.update i (fst (submit cr cfg i now info pol as timeout prio ms q)) q" for cr cfg i now info pol as timeout prio ms q
    by (simp add: submit_def Let_def)
  moreover have "actions (fst (submit cr cfg i now info pol as timeout prio ms q)) = as \<and>
      status (fst (submit cr cfg i now info pol as timeout prio ms q)) = PENDING" for cr cfg i now info pol as timeout prio ms q
    by (simp add: submit_def Let_def)
  ultimately show ?thesis unfolding submit_for_def by (metis orchestrator.select_convs(5) orchestrator.surjective orchestrator.update_convs(5))
qed

text \<open>One ticket is put into the queue under the detection's id.\<close>

definition ticketed :: "string \<Rightarrow> ticket \<Rightarrow> approval_queue \<Rightarrow> approval_queue \<Rightarrow> bool" where
  "ticketed i t q q' \<longleftrightarrow> map_of q' = (map_of q)(i \<mapsto> t) \<and>
     List.map fst q' = List.map fst (AList.update i t q)"

lemma ticketed_update: "ticketed i t q (AList.update i t q)"
  by (simp add: ticketed_def)

lemma update_keys_same: "List.map fst (AList.update i t q) = List.map fst (AList.update i u q)"
  by (induction q) auto

lemma ticketed_alter: "ticketed i (f t) q (alter i f (AList.update i t q))"
  by (auto simp: ticketed_def fun_eq_iff intro: update_keys_same)



lemma respond_waits:
  assumes "am_approval m" and "\<not> am_auto m \<or> has_critical_action (am_actions m)"
  shows "\<exists>t. respond env ts info ip m st =
      (Some (detection_of m None (Some (dt_ticket ts))),
       start_poll (dt_ticket ts) info (mark_policy (am_policy m) ip (dt_mark ts) (submit_for env ts info m st))) \<and>
    oc_queue (submit_for env ts info m st) = AList.update (dt_ticket ts) t (oc_queue st) \<and>
    actions t = am_actions m \<and> status t = PENDING"
  using assms submitted [of env ts info m st] by (auto simp: respond_def)

lemma execute_then_ticket_cases:
  assumes "execute_then_ticket env ts info ip m st = (Some (b, i), st')"
  obtains (plain) "guarded_execute env (dt_guard ts) (am_actions m) info st = (Some b, st')" and "i = None"
  | (issued) st1 t where "guarded_execute env (dt_guard ts) (am_actions m) info st = (Some b, st1)"
      and "i = Some (dt_ticket ts)" and "ticketed (dt_ticket ts) t (oc_queue st) (oc_queue st')"
      and "actions t = am_actions m" and "oc_world st' = oc_world st1" and "oc_store st' = oc_store st1"
      and "status t = PENDING \<and> oc_polls st' = AList.update (dt_ticket ts) info (oc_polls st) \<or>
           status t = AUTO_EXECUTED \<and> oc_polls st' = oc_polls st"
proof -
  from assms obtain st1 where g: "guarded_execute env (dt_guard ts) (am_actions m) info st = (Some b, st1)"
    by (auto simp: execute_then_ticket_def Let_def split: option.splits prod.splits if_splits)
  show thesis
  proof (cases "any_success b \<or> am_status m = Uncertain")
    case False
    with assms g plain show thesis by (auto simp: execute_then_ticket_def)
  next
    case True
    let ?st2 = "if any_success b then mark_policy (am_policy m) ip (dt_mark ts) st1 else st1"
    let ?w = "am_status m = Uncertain \<and> \<not> list_ex (\<lambda>r. ar_success r \<and> ar_name r = ''block_ip'') (br_results b)"
    let ?f = "\<lambda>t. t\<lparr>status := (if ?w then PENDING else AUTO_EXECUTED)\<rparr>"
    obtain t where t: "oc_queue (submit_for env ts info m ?st2) = AList.update (dt_ticket ts) t (oc_queue ?st2)"
      "actions t = am_actions m" using submitted by blast
    have keep: "oc_queue ?st2 = oc_queue st" "oc_polls ?st2 = oc_polls st" "oc_world ?st2 = oc_world st1"
      "oc_store ?st2 = oc_store st1" using guarded_keeps [OF g] by auto
    have st': "st' = (let st3 = submit_for env ts info m ?st2;
          st4 = st3\<lparr>oc_queue := alter (dt_ticket ts) ?f (oc_queue st3)\<rparr>
        in if ?w then start_poll (dt_ticket ts) info st4 else st4)" and i: "i = Some (dt_ticket ts)"
      using assms g True by (simp_all add: execute_then_ticket_def Let_def)
    have "oc_queue st' = alter (dt_ticket ts) ?f (AList.update (dt_ticket ts) t (oc_queue st))"
      unfolding st' Let_def using t(1) keep(1) by simp
    then have "ticketed (dt_ticket ts) (?f t) (oc_queue st) (oc_queue st')" by (simp only: ticketed_alter)
    moreover have "oc_world st' = oc_world st1" "oc_store st' = oc_store st1"
      "oc_polls st' = (if ?w then AList.update (dt_ticket ts) info (oc_polls st) else oc_polls st)"
      unfolding st' Let_def using keep by simp_all
    ultimately show thesis using issued [OF g i, of "?f t"] t(2) by (auto split: if_splits)
  qed
qed


text \<open>What the response did: waited, executed and perhaps queued, or nothing.\<close>

lemma respond_cases:
  assumes "respond env ts info ip m st = (Some d, st')"
  obtains (waits) t where "d = detection_of m None (Some (dt_ticket ts))" and "am_approval m"
      and "oc_world st' = oc_world st" and "oc_store st' = oc_store st"
      and "ticketed (dt_ticket ts) t (oc_queue st) (oc_queue st')"
      and "oc_polls st' = AList.update (dt_ticket ts) info (oc_polls st)"
      and "actions t = am_actions m" and "status t = PENDING"
  | (queued) b t st1 where "d = detection_of m (Some b) (Some (dt_ticket ts))"
      and "\<not> has_critical_action (am_actions m)"
      and "guarded_execute env (dt_guard ts) (am_actions m) info st = (Some b, st1)"
      and "ticketed (dt_ticket ts) t (oc_queue st) (oc_queue st')" and "actions t = am_actions m"
      and "status t = PENDING \<and> oc_polls st' = AList.update (dt_ticket ts) info (oc_polls st) \<or>
           status t = AUTO_EXECUTED \<and> oc_polls st' = oc_polls st"
  | (executed) b st1 where "d = detection_of m (Some b) None"
      and "\<not> has_critical_action (am_actions m) \<or> \<not> am_approval m"
      and "guarded_execute env (dt_guard ts) (am_actions m) info st = (Some b, st1)"
      and "oc_queue st' = oc_queue st" and "oc_polls st' = oc_polls st"
  | (refused) "d = detection_of m None None" and "st' = st"
proof (cases "am_approval m")
  case False
  show ?thesis
  proof (cases "am_auto m")
    case True
    with False assms obtain b st1 where g: "guarded_execute env (dt_guard ts) (am_actions m) info st = (Some b, st1)"
      and d: "d = detection_of m (Some b) None"
      and st': "st' = (if any_success b then mark_policy (am_policy m) ip (dt_mark ts) st1 else st1)"
      by (auto simp: respond_def split: option.splits prod.splits)
    with False guarded_keeps [OF g] executed [OF d _ g] show ?thesis by (auto split: if_splits)
  next
    case nauto: False
    with False assms refused show ?thesis by (auto simp: respond_def)
  qed
next
  case app: True
  show ?thesis
  proof (cases "am_auto m \<and> \<not> has_critical_action (am_actions m)")
    case False
    then have "\<not> am_auto m \<or> has_critical_action (am_actions m)" by blast
    from respond_waits [OF app this, of env ts info ip st] assms obtain t where
      "d = detection_of m None (Some (dt_ticket ts))" and
      "st' = start_poll (dt_ticket ts) info (mark_policy (am_policy m) ip (dt_mark ts) (submit_for env ts info m st))"
      and q: "oc_queue (submit_for env ts info m st) = AList.update (dt_ticket ts) t (oc_queue st)"
      and "actions t = am_actions m" and "status t = PENDING" by auto
    with app ticketed_update [of "dt_ticket ts" t "oc_queue st"] show ?thesis by (intro waits [of t]) (simp_all add: q)
  next
    case True
    with app assms obtain b i where e: "execute_then_ticket env ts info ip m st = (Some (b, i), st')"
      and d: "d = detection_of m (Some b) i"
      by (auto simp: respond_def split: option.splits prod.splits)
    from e show ?thesis
    proof (cases rule: execute_then_ticket_cases)
      case plain
      with d True guarded_keeps [OF plain(1)] executed show ?thesis by auto
    next
      case (issued st1 t)
      with d True queued show ?thesis by blast
    qed
  qed
qed

text \<open>Matching changes the cooldowns of the engine, not its policies.\<close>

definition same_policies :: "policy_engine \<Rightarrow> policy_engine \<Rightarrow> bool" where
  "same_policies e e' \<longleftrightarrow> policies e' = policies e \<and> uncertain_policy e' = uncertain_policy e"

lemma same_policies_refl [simp]: "same_policies e e"
  by (simp add: same_policies_def)

lemma try_match_same: "try_match_policy p t now th st e = (m, e') \<Longrightarrow> same_policies e e'"
  by (auto simp: try_match_policy_def same_policies_def touch_ip_def split: if_splits)

lemma leaf_loop_same: "leaf_loop ps clock now th e miss cool = Inl (m, e') \<Longrightarrow> same_policies e e'"
  by (induction ps clock now th e miss cool rule: leaf_loop.induct)
    (auto simp: same_policies_def split: if_splits option.splits prod.splits dest!: try_match_same)

lemma category_loop_same: "category_loop ps clock now th e cool = Inl (m, e') \<Longrightarrow> same_policies e e'"
  by (induction ps clock now th e cool rule: category_loop.induct)
    (auto simp: same_policies_def split: if_splits option.splits prod.splits dest!: try_match_same)

lemma match_unknown_same: "same_policies e (snd (match_unknown now th e))"
  by (auto simp: match_unknown_def make_uncertain_def Let_def same_policies_def touch_ip_def split: prod.splits)

lemma decide_same: "match_decide clock now th e = (m, e') \<Longrightarrow> same_policies e e'"
  using match_unknown_same [of e now th]
  by (auto simp: match_decide_def split: if_splits sum.splits prod.splits bool.splits
      dest: leaf_loop_same category_loop_same)

lemma same_policies_engine:
  assumes "same_policies e e'"
  shows "named_engine e' = named_engine e" "template_ok e' = template_ok e"
  using assms by (simp_all add: same_policies_def named_engine_def template_ok_def uncertain_template_def)

lemma policy_match_same:
  assumes "policy_match tx None t0 clock now th e = (m, e')"
  shows "named_engine e' = named_engine e" "template_ok e' = template_ok e"
proof -
  have "same_policies (maybe_cleanup t0 e) e'"
    using assms decide_same by (fastforce simp: policy_match_def Let_def)
  from same_policies_engine [OF this] cleanup_engine [of t0 e]
  show "named_engine e' = named_engine e" "template_ok e' = template_ok e" by (simp_all add: template_ok_def)
qed

text \<open>The decision of a detection, under the gate.\<close>

lemma detect_responds:
  assumes "on_threat_detected env ts info0 ev ses allow st = (Some d, st')"
    and "dt_reload ts = None" and "named_engine (oc_engine st)" and "template_ok (oc_engine st)"
  obtains (idle) e where "de_batch d = None" and "de_ticket d = None" and "st' = st\<lparr>oc_engine := e\<rparr>"
      and "named_engine e" and "template_ok e"
  | (responded) m e i2 ip where "respond env ts i2 ip m (st\<lparr>oc_engine := e\<rparr>) = (Some d, st')"
      and "has_critical_action (am_actions m) \<longrightarrow> am_approval m"
      and "\<forall>a \<in> set (am_actions m). action_key a = None"
      and "allow \<or> (\<forall>a \<in> set (am_actions m). name_of a = ''send_alert'')"
      and "named_engine e" and "template_ok e"
proof -
  from assms(1) obtain info th where prep: "prepare_threat env info0 ev ses = Some (info, th)"
    by (auto simp: on_threat_detected_def split: option.splits)
  obtain m e where pm: "policy_match (oe_taxonomy env) None (dt_cleanup ts) (dt_policy ts) (dt_match ts) th (oc_engine st) = (m, e)"
    by (metis prod.collapse)
  have e: "named_engine e" "template_ok e" using policy_match_same [OF pm] assms(3,4) by simp_all
  have key: "\<forall>a \<in> set (am_actions (gate_actions allow m)). action_key a = None"
    using policy_match_named [OF pm assms(3)] gate_subset by blast
  show thesis
  proof (cases "am_status m \<in> {Skipped, NoAction, Filtered}")
    case True
    with assms(1,2) prep pm e idle show thesis by (auto simp: on_threat_detected_def Let_def)
  next
    case False
    with assms(1,2) prep pm obtain i2 where
      r: "respond env ts i2 (th_ip th) (gate_actions allow m) (st\<lparr>oc_engine := e\<rparr>) = (Some d, st')"
      by (auto simp: on_threat_detected_def Let_def)
    have "allow \<or> (\<forall>a \<in> set (am_actions (gate_actions allow m)). name_of a = ''send_alert'')"
      using gated_alerts [of allow _ m] key named_same by metis
    moreover have "has_critical_action (am_actions (gate_actions allow m)) \<longrightarrow> am_approval (gate_actions allow m)"
      using gate_critical [of m allow] policy_match_approval [OF pm assms(4)] policy_match_named [OF pm assms(3)] by blast
    ultimately show thesis using responded [OF r _ key _ e] by blast
  qed
qed

text \<open>The engine a detection matches with: its own, or with the policies the reload brings.\<close>

definition engine_in_force :: "detect_times \<Rightarrow> policy_engine \<Rightarrow> policy_engine" where
  "engine_in_force ts e = (case dt_reload ts of None \<Rightarrow> e | Some rows \<Rightarrow> engine_reload rows e)"

lemma cleanup_policies [simp]:
  "policies (maybe_cleanup t e) = policies e" "uncertain_policy (maybe_cleanup t e) = uncertain_policy e"
  by (simp_all add: maybe_cleanup_def cleanup_expired_def)

lemma policy_match_decides:
  assumes "policy_match tx (dt_reload ts) t0 clock now th e = (m, e')"
  obtains th' e2 where "match_decide clock now th' e2 = (m, e')" and "listed_action e2 = listed_action (engine_in_force ts e)"
proof -
  let ?e2 = "case dt_reload ts of None \<Rightarrow> maybe_cleanup t0 e | Some rows \<Rightarrow> engine_reload rows (maybe_cleanup t0 e)"
  have "listed_action ?e2 = listed_action (engine_in_force ts e)"
    by (auto simp: engine_in_force_def listed_action_def fun_eq_iff engine_reload_def split: option.splits)
  with assms that show thesis by (fastforce simp: policy_match_def Let_def)
qed

text \<open>What the gate leaves on the alert-only track: alerts, or actions it takes for alerts.\<close>

lemma gated_critical:
  assumes "\<not> allow" and "a \<in> set (am_actions (gate_actions allow m))" and "severity_of_action a = CriticalAction"
  shows "action_key a = Some ''send_alert''"
proof -
  have "action_or_name a = ''send_alert''" using gated_alerts [OF assms(1,2)] .
  moreover have "name_of a \<noteq> ''send_alert''" using alert_not_critical [of "[a]"] assms(3) by (auto simp: has_critical_iff)
  ultimately show ?thesis by (auto simp: action_or_name_def split: option.splits if_splits)
qed

lemma severity_named: "severity_of_action (named_action (name_of a) []) = severity_of_action a"
  by (simp add: severity_of_action_def)

lemma ran_critical:
  assumes "guarded_execute env tg as info st = (Some b, st')" and "r \<in> set (br_results b)"
    and "\<not> severity_of_action (named_action (ar_name r) []) < CriticalAction"
  obtains a where "a \<in> set as" and "ar_name r = name_of a" and "severity_of_action a = CriticalAction"
proof -
  have "ar_name r \<noteq> ''forensic_snapshot''"
    using assms(3) by (auto simp: severity_of_action_def get_action_def REGISTERED_def less_action_severity_def)
  with ran_results [OF assms(1,2)] obtain a where "a \<in> set as" "ar_name r = name_of a" by blast
  with assms(3) that show thesis by (metis severity_named critical_top order_le_imp_less_or_eq)
qed

lemma respond_critical:
  assumes "respond env ts info ip m st = (Some d, st')" and "de_batch d = Some b" and "r \<in> set (br_results b)"
    and "\<not> severity_of_action (named_action (ar_name r) []) < CriticalAction"
  obtains a where "a \<in> set (am_actions m)" and "ar_name r = name_of a" and "severity_of_action a = CriticalAction"
    and "\<not> am_approval m"
  using assms(1)
proof (cases rule: respond_cases)
  case (queued b' t st1)
  with assms(2) have "guarded_execute env (dt_guard ts) (am_actions m) info st = (Some b, st1)" by (simp add: detection_of_def)
  then obtain a where "a \<in> set (am_actions m)" "severity_of_action a = CriticalAction" using ran_critical assms(3,4) by blast
  with queued(2) show thesis by (auto simp: has_critical_iff)
next
  case (executed b' st1)
  with assms(2) have g: "guarded_execute env (dt_guard ts) (am_actions m) info st = (Some b, st1)" by (simp add: detection_of_def)
  from ran_critical [OF g assms(3,4)] obtain a where
    a: "a \<in> set (am_actions m)" "ar_name r = name_of a" "severity_of_action a = CriticalAction" .
  with executed(2) have "\<not> am_approval m" by (auto simp: has_critical_iff)
  with a that show thesis by blast
qed (use assms(2) in \<open>auto simp: detection_of_def\<close>)

text \<open>
  C2. What a detection executes before any human has decided: no result of its batch belongs to a
  critical or unregistered action. There is one exception, on the alert-only track (the detection may
  not block): an action that a policy in force lists with the two keys \<open>action\<close> and \<open>name\<close>, where
  \<open>action\<close> says \<open>send_alert\<close>. The track's filter and the guard read \<open>action\<close>, the executor runs \<open>name\<close>.
\<close>

theorem critical_never_auto_executed:
  assumes "on_threat_detected env ts info ev ses allow st = (Some d, st')" and "de_batch d = Some b"
    and "r \<in> set (br_results b)"
  shows "severity_of_action (named_action (ar_name r) []) < CriticalAction \<or>
    (\<not> allow \<and> (\<exists>a. listed_action (engine_in_force ts (oc_engine st)) a \<and>
       action_key a = Some ''send_alert'' \<and> ar_name r = name_of a))"
proof (rule disjCI, rule ccontr)
  assume no: "\<not> (\<not> allow \<and> (\<exists>a. listed_action (engine_in_force ts (oc_engine st)) a \<and>
       action_key a = Some ''send_alert'' \<and> ar_name r = name_of a))"
    and crit: "\<not> severity_of_action (named_action (ar_name r) []) < CriticalAction"
  from assms(1) show False
  proof (cases rule: detect_decided)
    case idle
    with assms(2) show False by simp
  next
    case (responded info' th m e i2)
    from policy_match_decides [OF responded(2)] obtain th' e2 where
      dec: "match_decide (dt_policy ts) (dt_match ts) th' e2 = (m, e)"
      and src: "listed_action e2 = listed_action (engine_in_force ts (oc_engine st))" .
    from respond_critical [OF responded(4) assms(2,3) crit] obtain a where
      a: "a \<in> set (am_actions (gate_actions allow m))" "ar_name r = name_of a" "severity_of_action a = CriticalAction"
      "\<not> am_approval (gate_actions allow m)" .
    have am: "a \<in> set (am_actions m)" using a(1) gate_subset by blast
    show False
    proof (cases allow)
      case True
      with a(4) decide_critical [OF dec] am a(3) show False by (auto simp: gate_actions_def has_critical_iff)
    next
      case False
      have key: "action_key a = Some ''send_alert''" using gated_critical [OF False a(1,3)] .
      then have "a \<notin> set uncertain_actions" using uncertain_named by auto
      with decide_listed [OF dec am] src key a(2) no False show False by metis
    qed
  qed
qed

text \<open>
  A detection that decides on a critical action executes nothing: it leaves a pending ticket
  with the decided actions, and a task that polls it.
\<close>

theorem critical_waits_for_approval:
  assumes "has_critical_action (am_actions m)" and "am_approval m"
  shows "\<exists>d st' t. respond env ts info ip m st = (Some d, st') \<and> de_batch d = None \<and>
    de_ticket d = Some (dt_ticket ts) \<and> oc_world st' = oc_world st \<and> oc_store st' = oc_store st \<and>
    get_ticket (dt_ticket ts) (oc_queue st') = Some t \<and> status t = PENDING \<and> actions t = am_actions m \<and>
    map_of (oc_polls st') (dt_ticket ts) = Some info"
  using respond_waits [of m env ts info ip st] assms
  by (auto simp: detection_of_def get_ticket_def)

lemma alerts_batch:
  assumes "guarded_execute env tg as info st = (Some b, st')" and "\<forall>a \<in> set as. name_of a = ''send_alert''"
    and "r \<in> set (br_results b)"
  shows "ar_name r = ''send_alert''"
  using assms(1)
proof (cases rule: guarded_cases)
  case blocked
  with assms(3) show ?thesis by (simp add: empty_batch_def batch_of_def)
next
  case (ran ok w rs)
  have ok: "\<forall>a \<in> set ok. name_of a = ''send_alert''" using ran(2) inspect_all_kept assms(2) by blast
  let ?i = "normalize_threat_info_for_guard (oe_text env) info"
  have same: "maybe_prepend_snapshot ok ?i = ok"
    using ok by (auto simp: maybe_prepend_snapshot_def SNAPSHOT_BEFORE_def list_ex_iff)
  obtain outs s' where run: "run_actions (oe_text env) (oe_registry env) (gt_exec tg) 0 ?i ok (oc_world st) = (Some outs, s')"
    and b: "b = batch_of (gt_token tg) outs" using execute_actions_run [OF ran(3,1)] same by metis
  have "List.map ar_name outs = List.map name_of ok"
    using run_actions_names [of "oe_text env" "oe_registry env" "gt_exec tg" 0 ?i ok "oc_world st" outs] run by simp
  then have "ar_name ` set outs = name_of ` set ok" by (metis list.set_map)
  moreover have "ar_name r \<in> ar_name ` set outs" using assms(3) b by (simp add: batch_of_def)
  ultimately show ?thesis using ok by auto
qed

text \<open>
  The alert-only track: without permission to block, a detection runs alerts only, and a ticket
  it leaves holds alerts only - so that approving the ticket of an uncertain threat cannot block
  anything.
\<close>

theorem alert_only_track_alerts:
  assumes "on_threat_detected env ts info ev ses False st = (Some d, st')"
    and "dt_reload ts = None" and "named_engine (oc_engine st)" and "template_ok (oc_engine st)"
  shows "(\<forall>b r. de_batch d = Some b \<and> r \<in> set (br_results b) \<longrightarrow> ar_name r = ''send_alert'') \<and>
    (\<forall>i. de_ticket d = Some i \<longrightarrow>
       (\<exists>t. get_ticket i (oc_queue st') = Some t \<and> (\<forall>a \<in> set (actions t). name_of a = ''send_alert'')))"
  using assms
proof (cases rule: detect_responds)
  case idle
  then show ?thesis by simp
next
  case (responded m e i2 ip)
  then have al: "\<forall>a \<in> set (am_actions m). name_of a = ''send_alert''" by simp
  from responded(1) show ?thesis
  proof (cases rule: respond_cases)
    case (waits t)
    with al show ?thesis by (auto simp: detection_of_def get_ticket_def ticketed_def)
  next
    case (queued b t st1)
    with al alerts_batch [OF queued(3) al] show ?thesis by (auto simp: detection_of_def get_ticket_def ticketed_def)
  next
    case (executed b st1)
    with alerts_batch [OF executed(3) al] show ?thesis by (auto simp: detection_of_def)
  qed (auto simp: detection_of_def)
qed

end
