(* ===== verification/OrchestratorRuns.thy ===== *)
theory OrchestratorRuns
  imports OrchestratorSafety
begin

text \<open>
  Runs of the orchestrator: its handlers, its polling tasks, the humans who decide tickets, and
  rollbacks, in any order; an invariant of all reachable states; and the concrete runs that show
  the theorems at work.
\<close>

section \<open>Runs\<close>

text \<open>
  A step is one handler or one turn of a task, which the event loop interleaves between the
  handlers' awaits; the ids of new tickets are fresh, as random UUIDs are.  The policy file is not
  reloaded in a run.
\<close>

inductive orch_step :: "'s orch_env \<Rightarrow> ('s, 'r) orchestrator \<Rightarrow> ('s, 'r) orchestrator \<Rightarrow> bool" for env where
  Detected: "orch_step env st st'"
    if "on_threat_detected env ts info ev ses allow st = (Some d, st')" and "dt_reload ts = None"
      and "dt_ticket ts \<notin> fst ` set (oc_queue st) \<union> fst ` set (oc_polls st)"
| Polled: "orch_step env st (snd (poll_step env gts now i st))"
| Manual: "orch_step env st (snd (execute_approved_action env gts i st))"
| Approved: "orch_step env st (st\<lparr>oc_queue := snd (approve (oe_crypto env) now later i by' given (oc_queue st))\<rparr>)"
| Rejected: "orch_step env st (st\<lparr>oc_queue := snd (reject now i reason by' (oc_queue st))\<rparr>)"
| Listed: "orch_step env st (st\<lparr>oc_queue := snd (list_pending now (oc_queue st))\<rparr>)"
| Cleaned: "orch_step env st (st\<lparr>oc_queue := cleanup now hours (oc_queue st)\<rparr>)"
| RolledBack: "orch_step env st (snd (rollback_response env t1 t2 t3 token st))"

inductive orch_reachable :: "'s orch_env \<Rightarrow> ('s, 'r) orchestrator \<Rightarrow> ('s, 'r) orchestrator \<Rightarrow> bool" for env st0 where
  start: "orch_reachable env st0 st0"
| "step": "orch_reachable env st0 st \<Longrightarrow> orch_step env st st' \<Longrightarrow> orch_reachable env st0 st'"

text \<open>
  What every state keeps: the engine's policies are well named and its template has actions or
  asks for approval; ticket ids are distinct; and a ticket that records an automatic execution
  holds no critical action and is polled by no task, so that it is never executed again.
\<close>

definition audit_ok :: "approval_queue \<Rightarrow> (string \<times> pydict) list \<Rightarrow> bool" where
  "audit_ok q polls \<longleftrightarrow> distinct (List.map fst q) \<and>
     (\<forall>i t. map_of q i = Some t \<and> status t = AUTO_EXECUTED \<longrightarrow>
        \<not> has_critical_action (actions t) \<and> map_of polls i = None)"

definition orch_ok :: "('s, 'r) orchestrator \<Rightarrow> bool" where
  "orch_ok st \<longleftrightarrow> named_engine (oc_engine st) \<and> template_ok (oc_engine st) \<and> audit_ok (oc_queue st) (oc_polls st)"

lemma mark_executed_engine [simp]:
  "named_engine (mark_executed n ip now e) = named_engine e" "template_ok (mark_executed n ip now e) = template_ok e"
  by (simp_all add: mark_executed_def named_engine_def template_ok_def uncertain_template_def)

lemma audit_alter:
  assumes "audit_ok q polls" and "\<And>t. map_of q i = Some t \<Longrightarrow> status (f t) = AUTO_EXECUTED \<Longrightarrow>
      status t = AUTO_EXECUTED \<and> actions (f t) = actions t"
  shows "audit_ok (alter i f q) polls"
  unfolding audit_ok_def
proof (intro conjI allI impI)
  show "distinct (List.map fst (alter i f q))" using assms(1) by (simp add: audit_ok_def)
next
  fix j t assume t: "map_of (alter i f q) j = Some t \<and> status t = AUTO_EXECUTED"
  then obtain u where "map_of q j = Some u" and "status u = AUTO_EXECUTED" and "actions t = actions u"
    using assms(2) by (cases "j = i") auto
  with assms(1) show "\<not> has_critical_action (actions t)" and "map_of polls j = None"
    by (simp_all add: audit_ok_def)
qed

lemma audit_delete: "audit_ok q polls \<Longrightarrow> audit_ok q (AList.delete i polls)"
  by (auto simp: audit_ok_def AList.delete_conv' split: if_splits)

lemma audit_approve: "audit_ok q polls \<Longrightarrow> audit_ok (snd (approve cr now later i by' given q)) polls"
  by (auto simp: approve_cases intro!: audit_alter split: option.splits)

lemma audit_reject: "audit_ok q polls \<Longrightarrow> audit_ok (snd (reject now i reason by' q)) polls"
  by (auto simp: reject_def Let_def intro!: audit_alter split: option.splits)

lemma audit_list_pending: "audit_ok q polls \<Longrightarrow> audit_ok (snd (list_pending now q)) polls"
  by (auto simp: audit_ok_def list_pending_def map_of_map_values expire_pending_def case_prod_beta comp_def
      split: if_splits)

lemma audit_cleanup: "audit_ok q polls \<Longrightarrow> audit_ok (cleanup now hours q) polls"
  by (auto simp: audit_ok_def cleanup_def Let_def map_of_filter_tickets distinct_keys_filter
      split: option.splits if_splits)

lemma audit_ticketed:
  assumes "audit_ok q polls" and "ticketed i t q q'" and "i \<notin> fst ` set polls"
    and "status t = PENDING \<and> polls' = AList.update i info polls \<or>
      status t = AUTO_EXECUTED \<and> polls' = polls \<and> \<not> has_critical_action (actions t)"
  shows "audit_ok q' polls'"
proof -
  have "distinct (List.map fst q')"
    using assms(1,2) by (simp add: audit_ok_def ticketed_def distinct_update)
  moreover have "map_of polls i = None" using assms(3) by (simp add: map_of_eq_None_iff)
  ultimately show ?thesis using assms(1,2,4) by (auto simp: audit_ok_def ticketed_def split: if_splits)
qed

lemma ok_detected:
  assumes "orch_ok st" and "on_threat_detected env ts info ev ses allow st = (Some d, st')" and "dt_reload ts = None"
    and "dt_ticket ts \<notin> fst ` set (oc_queue st) \<union> fst ` set (oc_polls st)"
  shows "audit_ok (oc_queue st') (oc_polls st')"
proof -
  have eng: "named_engine (oc_engine st)" "template_ok (oc_engine st)" and au: "audit_ok (oc_queue st) (oc_polls st)"
    using assms(1) by (simp_all add: orch_ok_def)
  have fresh: "dt_ticket ts \<notin> fst ` set (oc_polls st)" using assms(4) by simp
  from assms(2,3) eng show ?thesis
  proof (cases rule: detect_responds)
    case idle
    with au show ?thesis by simp
  next
    case (responded m e i2 ip)
    from responded(1) show ?thesis
    proof (cases rule: respond_cases)
      case (waits t)
      with audit_ticketed [OF au, of "dt_ticket ts" t] fresh show ?thesis by simp
    next
      case (queued b t st1)
      with audit_ticketed [OF au, of "dt_ticket ts" t] fresh show ?thesis by auto
    qed (use au in auto)
  qed
qed

lemma engine_of_response:
  assumes "respond env ts info ip m st = (out, st')"
  shows "named_engine (oc_engine st') = named_engine (oc_engine st) \<and> template_ok (oc_engine st') = template_ok (oc_engine st)"
  using assms guarded_keeps [of env "dt_guard ts" "am_actions m" info st]
  by (auto simp: respond_def execute_then_ticket_def mark_policy_def start_poll_def submit_for_def Let_def
      split: option.splits prod.splits if_splits)

lemma engine_detected:
  assumes "on_threat_detected env ts info ev ses allow st = (Some d, st')" and "dt_reload ts = None"
    and "named_engine (oc_engine st)" and "template_ok (oc_engine st)"
  shows "named_engine (oc_engine st') \<and> template_ok (oc_engine st')"
  using assms
proof (cases rule: detect_responds)
  case (responded m e i2 ip)
  with engine_of_response [OF responded(1)] show ?thesis by simp
qed simp

lemma guarded_ok: "guarded_execute env ts as info st = (out, st') \<Longrightarrow> orch_ok st' = orch_ok st"
  using guarded_keeps [of env ts as info st out st'] by (simp add: orch_ok_def)

lemma set_result_ok: "orch_ok st \<Longrightarrow> orch_ok (set_result i b st)"
  by (auto simp: orch_ok_def set_result_def intro!: audit_alter)

lemma end_poll_ok: "orch_ok st \<Longrightarrow> orch_ok (end_poll i st)"
  by (simp add: orch_ok_def end_poll_def audit_delete)

lemma mark_policy_ok: "orch_ok (mark_policy n ip now st) = orch_ok st"
  by (simp add: orch_ok_def mark_policy_def)

lemma poll_ok:
  assumes "orch_ok st"
  shows "orch_ok (snd (poll_step env gts now i st))"
proof -
  have "orch_ok st1" if "guarded_execute env gts as info st = (out, st1)" for as info out st1
    using guarded_ok [OF that] assms by simp
  then show ?thesis
    using assms
    by (auto simp: poll_step_def Let_def mark_policy_ok intro!: end_poll_ok set_result_ok
        split: option.splits prod.splits)
qed

lemma manual_ok:
  assumes "orch_ok st"
  shows "orch_ok (snd (execute_approved_action env gts i st))"
proof -
  have "orch_ok st1" if "guarded_execute env gts as info st = (out, st1)" for as info out st1
    using guarded_ok [OF that] assms by simp
  then show ?thesis
    using assms by (auto simp: execute_approved_action_def intro!: set_result_ok split: option.splits prod.splits)
qed

lemma step_ok: "orch_step env st st' \<Longrightarrow> orch_ok st \<Longrightarrow> orch_ok st'"
proof (induction rule: orch_step.induct)
  case (Detected ts info ev ses allow st d st')
  then show ?case using ok_detected [OF Detected(4,1-3)] engine_detected [OF Detected(1,2)] by (simp add: orch_ok_def)
next
  case (RolledBack st t1 t2 t3 token)
  then show ?case by (simp add: orch_ok_def rollback_response_def split: prod.splits)
qed (auto simp: orch_ok_def audit_approve audit_reject audit_list_pending audit_cleanup
    poll_ok [unfolded orch_ok_def] manual_ok [unfolded orch_ok_def])

text \<open>
  C3. In every state a run can reach, a ticket recorded as executed automatically holds no critical
  action and no task polls it: automatic execution is only ever below the critical level, and is
  not repeated through the approval path. The run begins with policies that name their actions by one
  key and an uncertain template that lists actions or asks for approval (\<open>orch_ok\<close>).
\<close>

theorem auto_executed_below_critical:
  assumes "orch_reachable env st0 st" and "orch_ok st0"
    and "get_ticket i (oc_queue st) = Some t" and "status t = AUTO_EXECUTED"
  shows "\<not> has_critical_action (actions t) \<and> map_of (oc_polls st) i = None"
proof -
  from assms(1,2) have "orch_ok st" by (induction rule: orch_reachable.induct) (auto intro: step_ok)
  with assms(3,4) show ?thesis by (auto simp: orch_ok_def audit_ok_def get_ticket_def)
qed

section \<open>Approved tickets\<close>

text \<open>
  C39. An approved ticket is executed twice: the manual execution leaves the ticket approved and its
  polling task running, and the task then executes the same actions once more; so does every
  further manual execution.
\<close>

theorem approved_ticket_runs_twice:
  assumes "get_ticket i (oc_queue st) = Some t" and "status t = APPROVED" and "map_of (oc_polls st) i = Some info"
    and "execute_approved_action env ts1 i st = (Some b, st1)"
  shows "fst (poll_step env ts2 now i st1) = fst (guarded_execute env ts2 (actions t) info st1) \<and>
    oc_world (snd (poll_step env ts2 now i st1)) = oc_world (snd (guarded_execute env ts2 (actions t) info st1)) \<and>
    fst (execute_approved_action env ts2 i st1) = fst (guarded_execute env ts2 (actions t) (threat_info t) st1)"
proof -
  obtain s where g: "guarded_execute env ts1 (actions t) (threat_info t) st = (Some b, s)" and st1: "st1 = set_result i b s"
    using assms(1,2,4) by (auto simp: execute_approved_action_def split: prod.splits option.splits)
  have q: "map_of (oc_queue st1) i = Some (t\<lparr>result := Some (exec_summary_of b)\<rparr>)" and p: "map_of (oc_polls st1) i = Some info"
    using guarded_keeps [OF g] assms(1,3) by (auto simp: st1 set_result_def get_ticket_def)
  show ?thesis
    using q p assms(2)
    by (auto simp: poll_step_def execute_approved_action_def get_ticket_def end_poll_def mark_policy_def set_result_def
        Let_def split: prod.splits option.splits)
qed

text \<open>
  C4. Nothing but an approved ticket is executed late: when a polling turn or a manual execution
  changes the world or the rollback store, or returns a batch, the ticket was approved.
\<close>

theorem late_execution_needs_approval:
  assumes "oc_world (snd (poll_step env ts now i st)) \<noteq> oc_world st \<or>
      fst (poll_step env ts now i st) \<noteq> None \<or>
      oc_world (snd (execute_approved_action env ts i st)) \<noteq> oc_world st \<or>
      fst (execute_approved_action env ts i st) \<noteq> None"
  shows "\<exists>t. get_ticket i (oc_queue st) = Some t \<and> status t = APPROVED"
proof (rule ccontr)
  assume none: "\<nexists>t. get_ticket i (oc_queue st) = Some t \<and> status t = APPROVED"
  show False
  proof (cases "get_ticket i (oc_queue st)")
    case None
    with assms show False
      by (auto simp: poll_step_def execute_approved_action_def end_poll_def split: option.splits)
  next
    case (Some t)
    with none assms show False
      by (auto simp: poll_step_def execute_approved_action_def end_poll_def split: option.splits if_splits)
  qed
qed


section \<open>Applications\<close>

definition demo_oc_env :: "string list orch_env" where
  "demo_oc_env = \<lparr>oe_text = demo_text, oe_registry = demo_registry, oe_classify = (\<lambda>s. (s, [])),
     oe_infer = (\<lambda>_. []), oe_taxonomy = (\<lambda>_. []), oe_crypto = demo_crypto, oe_settings = demo_settings\<rparr>"

definition demo_oc :: "response_policy list \<Rightarrow> (string list, rollback_value mem_store) orchestrator" where
  "demo_oc ps = \<lparr>oc_guard = new_security_guard, oc_world = [], oc_store = demo_store,
     oc_engine = demo_engine\<lparr>policies := ps\<rparr>, oc_queue = [], oc_polls = []\<rparr>"

definition demo_block_policies :: "response_policy list" where
  "demo_block_policies = policies demo_engine"

definition demo_isolate_policies :: "response_policy list" where
  "demo_isolate_policies =
     [code_policy ''lateral'' ''LATERAL'' (6 / 10) ''high'' [named_action ''isolate_host'' []] True False 100 60]"

definition demo_alert_policies :: "response_policy list" where
  "demo_alert_policies =
     [code_policy ''c2-alert'' ''C2_BEACON'' (6 / 10) ''high'' [block_for 2, named_action ''send_alert'' []] True False 100 60]"

definition demo_context :: "string \<Rightarrow> pydict" where
  "demo_context tt = [(''threat_type'', PyStr tt), (''confidence'', PyFloat (9 / 10)), (''severity'', PyStr ''critical''),
     (''src_ip'', PyStr ''10.1.1.1''), (''reason'', PyStr ''beacon seen'')]"

definition demo_gclock :: "nat \<Rightarrow> guard_clock" where
  "demo_gclock n = \<lparr>at_sequence = 4000, at_rate = 4000, at_context = 4000\<rparr>"

definition demo_gt :: guard_times where
  "demo_gt = \<lparr>gt_inspect = demo_gclock, gt_exec = (\<lambda>_. 0), gt_store = 0, gt_token = ''b'', gt_record = demo_gclock\<rparr>"

definition demo_dt :: detect_times where
  "demo_dt = \<lparr>dt_cleanup = 4000, dt_policy = (\<lambda>_. 4000), dt_match = 4000, dt_mark = 4000, dt_submit = 4000,
     dt_ticket = ''t1'', dt_guard = demo_gt, dt_reload = None\<rparr>"

lemma demo_engine_ok:
  "named_engine (oc_engine (demo_oc demo_block_policies))" "template_ok (oc_engine (demo_oc demo_block_policies))"
  "named_engine (oc_engine (demo_oc demo_isolate_policies))" "template_ok (oc_engine (demo_oc demo_isolate_policies))"
  by (simp_all add: demo_oc_def demo_block_policies_def demo_isolate_policies_def demo_engine_def named_engine_def template_ok_def
      uncertain_template_def code_policy_def block_for_def named_action_def)

lemma demo_alert_ok:
  "named_engine (oc_engine (demo_oc demo_alert_policies))" "template_ok (oc_engine (demo_oc demo_alert_policies))"
  by (simp_all add: demo_oc_def demo_alert_policies_def demo_engine_def named_engine_def template_ok_def
      uncertain_template_def code_policy_def block_for_def named_action_def)

definition demo_ran :: "detection option \<Rightarrow> bool" where
  "demo_ran out = (case out of None \<Rightarrow> False
     | Some d \<Rightarrow> (case de_batch d of None \<Rightarrow> False | Some b \<Rightarrow> br_results b \<noteq> []))"

lemma demo_ranE:
  assumes "demo_ran (fst x)"
  obtains d b r st' where "x = (Some d, st')" and "de_batch d = Some b" and "r \<in> set (br_results b)"
    and "r = hd (br_results (the (de_batch (the (fst x)))))"
proof -
  obtain d st' where x: "x = (Some d, st')" using assms by (cases x) (auto simp: demo_ran_def split: option.splits)
  then obtain b where b: "de_batch d = Some b" and "br_results b \<noteq> []"
    using assms by (auto simp: demo_ran_def split: option.splits)
  then have "hd (br_results b) \<in> set (br_results b)" by simp
  with that [OF x b] show thesis by (simp add: x b)
qed

text \<open>The block, executed at once; the isolation, which waits; the approved block, executed twice.\<close>

abbreviation demo_detect :: "response_policy list \<Rightarrow> string \<Rightarrow> bool \<Rightarrow>
    detection option \<times> (string list, rollback_value mem_store) orchestrator" where
  "demo_detect ps tt allow \<equiv> on_threat_detected demo_oc_env demo_dt (demo_context tt) 0 [] allow (demo_oc ps)"

lemma demo_block_runs: "demo_ran (fst (demo_detect demo_block_policies ''C2_BEACON'' True))"
  by code_simp

theorem critical_never_auto_executed_witness:
  "severity_of_action (named_action
     (ar_name (hd (br_results (the (de_batch (the (fst (demo_detect demo_block_policies ''C2_BEACON'' True)))))))) [])
   < CriticalAction"
proof -
  from demo_block_runs obtain d b r st' where
    x: "demo_detect demo_block_policies ''C2_BEACON'' True = (Some d, st')" "de_batch d = Some b" "r \<in> set (br_results b)"
      "r = hd (br_results (the (de_batch (the (fst (demo_detect demo_block_policies ''C2_BEACON'' True))))))"
    by (rule demo_ranE)
  show ?thesis using critical_never_auto_executed [OF x(1-3)] unfolding x(4) [symmetric] by simp
qed

text \<open>
  The exception is real: a policy whose one action says \<open>send_alert\<close> under \<open>action\<close> and
  \<open>isolate_host\<close> under \<open>name\<close> isolates the host at once on the track that may only alert.
\<close>

definition demo_double_policies :: "response_policy list" where
  "demo_double_policies =
     [code_policy ''c2-double'' ''C2_BEACON'' (6 / 10) ''high''
        [\<lparr>action_key = Some ''send_alert'', name_key = Some ''isolate_host'', params = []\<rparr>] True False 100 60]"

theorem alert_track_runs_isolation:
  "List.map ar_name (br_results (the (de_batch (the (fst (demo_detect demo_double_policies ''C2_BEACON'' False)))))) =
     [''forensic_snapshot'', ''isolate_host''] \<and>
   de_ticket (the (fst (demo_detect demo_double_policies ''C2_BEACON'' False))) = None"
  by code_simp

definition demo_map :: action_map where
  "demo_map = \<lparr>am_policy = ''lateral'', am_threat = ''LATERAL'', am_confidence = 9 / 10, am_severity = ''critical'',
     am_actions = [named_action ''isolate_host'' []], am_approval = True, am_auto = True, am_status = Matched,
     am_reason = [], am_category = []\<rparr>"

theorem critical_waits_for_approval_witness:
  "\<exists>d st'. respond demo_oc_env demo_dt [] ''10.1.1.1'' demo_map (demo_oc []) = (Some d, st') \<and> oc_world st' = [] \<and>
     de_ticket d = Some ''t1''"
proof -
  have "has_critical_action (am_actions demo_map)" and "am_approval demo_map" by code_simp+
  from critical_waits_for_approval [OF this, of demo_oc_env demo_dt "[]" "''10.1.1.1''" "demo_oc []"]
  show ?thesis by (auto simp: demo_oc_def demo_dt_def)
qed

theorem alert_only_track_alerts_witness:
  "\<exists>b. de_batch (the (fst (demo_detect demo_alert_policies ''C2_BEACON'' False))) = Some b \<and>
     br_results b \<noteq> [] \<and> list_all (\<lambda>r. ar_name r = ''send_alert'') (br_results b)"
proof -
  have "case fst (demo_detect demo_alert_policies ''C2_BEACON'' False) of None \<Rightarrow> False
    | Some d \<Rightarrow> (case de_batch d of None \<Rightarrow> False | Some b \<Rightarrow> br_results b \<noteq> [])" by code_simp
  then obtain d st' b where x: "demo_detect demo_alert_policies ''C2_BEACON'' False = (Some d, st')"
    and b: "de_batch d = Some b" "br_results b \<noteq> []"
    by (cases "demo_detect demo_alert_policies ''C2_BEACON'' False") (auto split: option.splits)
  have "dt_reload demo_dt = None" by (simp add: demo_dt_def)
  from conjunct1 [OF alert_only_track_alerts [OF x this demo_alert_ok]] b
  have "list_all (\<lambda>r. ar_name r = ''send_alert'') (br_results b)" by (auto simp: list_all_iff)
  then show ?thesis using b by (simp add: x)
qed

theorem only_listed_actions_run_witness:
  "\<exists>b. fst (guarded_execute demo_oc_env demo_gt [block_for 2] (demo_context ''C2_BEACON'') (demo_oc [])) = Some b \<and>
     br_results b \<noteq> [] \<and> list_all (\<lambda>r. ar_name r \<in> {''forensic_snapshot'', ''block_ip''}) (br_results b)"
proof -
  let ?x = "guarded_execute demo_oc_env demo_gt [block_for 2] (demo_context ''C2_BEACON'') (demo_oc [])"
  have "case fst ?x of None \<Rightarrow> False | Some b \<Rightarrow> br_results b \<noteq> []" by code_simp
  then obtain b st' where x: "?x = (Some b, st')" "br_results b \<noteq> []"
    by (cases ?x) (auto split: option.splits)
  have "ar_name r \<in> {''forensic_snapshot'', ''block_ip''}" if "r \<in> set (br_results b)" for r
    using only_listed_actions_run [OF x(1) that] by (auto simp: block_for_def)
  with x show ?thesis by (simp add: list_all_iff)
qed

definition demo_ticket :: "response_action list \<Rightarrow> ticket" where
  "demo_ticket as = \<lparr>tid = ''t1'', threat_info = demo_context ''C2_BEACON'', policy_name = ''c2-block'', actions = as,
     digest = ''d'', sig = ''s'', status = APPROVED, created_at = 4000, expires_at = 4600, approved_by = ''admin'',
     approved_at = 4001, reject_reason = '''', result = None, priority = ''p2'', match_status = ''''\<rparr>"

definition demo_approved :: "response_action list \<Rightarrow> (string list, rollback_value mem_store) orchestrator" where
  "demo_approved as = (demo_oc [])\<lparr>oc_queue := [(''t1'', demo_ticket as)], oc_polls := [(''t1'', demo_context ''C2_BEACON'')]\<rparr>"

theorem approved_containment_never_runs_witness:
  "\<exists>st'. execute_approved_action demo_oc_env demo_gt ''t1''
       (demo_approved [named_action ''disable_account'' [(''account'', PyStr ''eve'')]]) = (Some empty_batch, st') \<and>
     oc_world st' = [] \<and> oc_store st' = demo_store"
  using approved_containment_never_runs [of "''t1''"
      "demo_approved [named_action ''disable_account'' [(''account'', PyStr ''eve'')]]"
      "demo_ticket [named_action ''disable_account'' [(''account'', PyStr ''eve'')]]" demo_oc_env demo_gt]
  by (simp add: demo_approved_def demo_ticket_def demo_oc_def get_ticket_def MATRIX_ACTIONS_def)

theorem approved_ticket_runs_twice_witness:
  "oc_world (snd (poll_step demo_oc_env demo_gt 4010 ''t1''
     (snd (execute_approved_action demo_oc_env demo_gt ''t1'' (demo_approved [block_for 2]))))) = [''10.1.1.1'', ''10.1.1.1'']"
proof -
  let ?x = "execute_approved_action demo_oc_env demo_gt ''t1'' (demo_approved [block_for 2])"
  have "fst ?x \<noteq> None" by code_simp
  then obtain b st1 where x: "?x = (Some b, st1)" by (metis not_None_eq prod.collapse)
  have w: "oc_world (snd (guarded_execute demo_oc_env demo_gt [block_for 2] (demo_context ''C2_BEACON'') (snd ?x))) =
      [''10.1.1.1'', ''10.1.1.1'']" by code_simp
  have "get_ticket ''t1'' (oc_queue (demo_approved [block_for 2])) = Some (demo_ticket [block_for 2])"
    and "status (demo_ticket [block_for 2]) = APPROVED" and "actions (demo_ticket [block_for 2]) = [block_for 2]"
    and "map_of (oc_polls (demo_approved [block_for 2])) ''t1'' = Some (demo_context ''C2_BEACON'')"
    by (simp_all add: get_ticket_def demo_approved_def demo_ticket_def)
  with approved_ticket_runs_twice [OF _ _ _ x, of "demo_ticket [block_for 2]" "demo_context ''C2_BEACON''" demo_gt 4010] w
  show ?thesis unfolding x by simp
qed

theorem late_execution_needs_approval_witness:
  "\<exists>t. get_ticket ''t1'' (oc_queue (demo_approved [block_for 2])) = Some t \<and> status t = APPROVED"
proof (rule late_execution_needs_approval)
  have "fst (execute_approved_action demo_oc_env demo_gt ''t1'' (demo_approved [block_for 2])) \<noteq> None" by code_simp
  then show "oc_world (snd (poll_step demo_oc_env demo_gt 4010 ''t1'' (demo_approved [block_for 2]))) \<noteq> oc_world (demo_approved [block_for 2]) \<or>
      fst (poll_step demo_oc_env demo_gt 4010 ''t1'' (demo_approved [block_for 2])) \<noteq> None \<or>
      oc_world (snd (execute_approved_action demo_oc_env demo_gt ''t1'' (demo_approved [block_for 2]))) \<noteq> oc_world (demo_approved [block_for 2]) \<or>
      fst (execute_approved_action demo_oc_env demo_gt ''t1'' (demo_approved [block_for 2])) \<noteq> None" by blast
qed

theorem auto_executed_below_critical_witness:
  "\<exists>t. get_ticket ''t1'' (oc_queue (snd (demo_detect demo_block_policies ''C2_BEACON'' True))) = Some t \<and>
     status t = AUTO_EXECUTED \<and> \<not> has_critical_action (actions t)"
proof -
  let ?x = "demo_detect demo_block_policies ''C2_BEACON'' True"
  from demo_block_runs obtain d b r st' where x: "?x = (Some d, st')" by (rule demo_ranE)
  have "orch_step demo_oc_env (demo_oc demo_block_policies) st'"
    by (rule orch_step.Detected [OF x]) (simp_all add: demo_dt_def demo_oc_def)
  then have reach: "orch_reachable demo_oc_env (demo_oc demo_block_policies) st'"
    by (blast intro: orch_reachable.intros)
  have ok: "orch_ok (demo_oc demo_block_policies)"
    by (simp add: orch_ok_def demo_engine_ok audit_ok_def) (simp add: demo_oc_def)
  have "(case get_ticket ''t1'' (oc_queue (snd ?x)) of None \<Rightarrow> False | Some t \<Rightarrow> status t = AUTO_EXECUTED)" by code_simp
  then obtain t where t: "get_ticket ''t1'' (oc_queue st') = Some t" "status t = AUTO_EXECUTED"
    unfolding x by (auto split: option.splits)
  with auto_executed_below_critical [OF reach ok t] show ?thesis unfolding x by simp
qed

text \<open>
  The guard inspects the name under the key \<open>action\<close>, the executor runs the one under \<open>name\<close>:
  an action that names an alert under the first and a block under the second is allowed as an
  alert on a threat of low level, which allows no block, and executed as a block.
\<close>

definition two_named :: response_action where
  "two_named = \<lparr>action_key = Some ''send_alert'', name_key = Some ''block_ip'', params = []\<rparr>"

theorem guard_and_executor_disagree:
  "\<not> proportionate demo_text (py_set ''severity'' (PyStr ''low'') (demo_context ''SCAN'')) ''block_ip'' \<and>
   oc_world (snd (guarded_execute demo_oc_env demo_gt [two_named]
     (py_set ''severity'' (PyStr ''low'') (demo_context ''SCAN'')) (demo_oc []))) = [''10.1.1.1'']"
  by (intro conjI; code_simp)

end
