(* ===== verification/ApprovalPolling.thy ===== *)
theory ApprovalPolling
  imports OrchestratorRuns
begin

text \<open>
  The polling task of a ticket (\<open>_poll_approval\<close> of
  \<open>src/backend/response_engine/response_orchestrator.py\<close>) as a loop: it sleeps while the rest of
  the program runs, then takes one turn (\<open>poll_step\<close>), until its entry is gone.  What happens
  during a sleep is a function on the state, so a run of the loop is a list of them with the clock
  of each turn.  The loop's own condition is constant, so whether it ends is a matter of the ticket.
\<close>

type_synonym ('s, 'r) sleep = "time \<times> (('s, 'r) orchestrator \<Rightarrow> ('s, 'r) orchestrator)"

definition polled :: "string \<Rightarrow> ('s, 'r) orchestrator \<Rightarrow> bool" where
  "polled i st \<longleftrightarrow> map_of (oc_polls st) i \<noteq> None"

fun poll_loop ::
  "'s orch_env \<Rightarrow> guard_times \<Rightarrow> string \<Rightarrow> ('s, 'r) sleep list \<Rightarrow> ('s, 'r) orchestrator \<Rightarrow> ('s, 'r) orchestrator"
where
  "poll_loop env ts i [] st = st"
| "poll_loop env ts i (turn # rest) st =
     (let st1 = snd (poll_step env ts (fst turn) i (snd turn st)) in
      if polled i st1 then poll_loop env ts i rest st1 else st1)"

text \<open>A ticket that makes the loop sleep again.\<close>

definition undecided :: "string \<Rightarrow> ('s, 'r) orchestrator \<Rightarrow> bool" where
  "undecided i st =
     (case get_ticket i (oc_queue st) of
        None \<Rightarrow> False | Some t \<Rightarrow> status t \<notin> {APPROVED, REJECTED, EXPIRED})"

definition awake :: "('s, 'r) sleep list \<Rightarrow> ('s, 'r) orchestrator \<Rightarrow> ('s, 'r) orchestrator" where
  "awake turns st = fold snd turns st"

lemma end_poll_gone: "\<not> polled i (end_poll i st)"
  by (simp add: polled_def end_poll_def delete_conv')

lemma undecided_turn: "undecided i st \<Longrightarrow> snd (poll_step env ts now i st) = st"
  by (auto simp: poll_step_def undecided_def split: option.splits)

lemma decided_turn: "\<not> undecided i st \<Longrightarrow> \<not> polled i (snd (poll_step env ts now i st))"
  using end_poll_gone
  by (auto simp: poll_step_def undecided_def polled_def [of i st] Let_def split: option.splits prod.splits)

text \<open>
  The polling task of a ticket ends exactly at the first turn that finds the ticket approved,
  rejected, expired or gone, whatever the rest of the program does between its turns as long as it
  leaves the task alone; and while the ticket is undecided at every turn, the task goes on and its
  turns change nothing.
\<close>

theorem polling_ends_iff:
  assumes "\<forall>turn \<in> set turns. \<forall>st. polled i (snd turn st) = polled i st" and "polled i st"
  shows "(polled i (poll_loop env ts i turns st) \<longleftrightarrow>
       (\<forall>k < length turns. undecided i (awake (take (Suc k) turns) st))) \<and>
    (polled i (poll_loop env ts i turns st) \<longrightarrow> poll_loop env ts i turns st = awake turns st)"
  using assms
proof (induction turns arbitrary: st)
  case (Cons turn turns)
  let ?st = "snd turn st"
  have p: "polled i ?st" using Cons.prems by auto
  have shift: "awake (take (Suc k) (turn # turns)) st = awake (take k turns) ?st" for k
    by (simp add: awake_def)
  show ?case
  proof (cases "undecided i ?st")
    case True
    have "(\<forall>k < length (turn # turns). undecided i (awake (take (Suc k) (turn # turns)) st)) \<longleftrightarrow>
        (\<forall>k < length turns. undecided i (awake (take (Suc k) turns) ?st))"
      unfolding shift using True by (auto simp: awake_def All_less_Suc2)
    moreover have "poll_loop env ts i (turn # turns) st = poll_loop env ts i turns ?st"
      using p by (simp add: undecided_turn [OF True] Let_def)
    ultimately show ?thesis using Cons.IH [OF _ p] Cons.prems(1) by (simp add: awake_def)
  next
    case False
    then have "\<not> polled i (poll_loop env ts i (turn # turns) st)"
      using decided_turn [OF False, of env ts "fst turn"] by (simp add: Let_def)
    moreover have "\<not> undecided i (awake (take (Suc 0) (turn # turns)) st)"
      using False unfolding shift by (simp add: awake_def)
    ultimately show ?thesis by blast
  qed
qed (simp add: awake_def)

definition demo_polling :: "(string list, rollback_value mem_store) orchestrator" where
  "demo_polling = (demo_approved [block_for 2])\<lparr>oc_queue := [(''t1'', (demo_ticket [block_for 2])\<lparr>status := PENDING\<rparr>)]\<rparr>"

definition reject_t1 ::
  "(string list, rollback_value mem_store) orchestrator \<Rightarrow> (string list, rollback_value mem_store) orchestrator"
where
  "reject_t1 st = st\<lparr>oc_queue := List.map (\<lambda>(i, t). (i, t\<lparr>status := REJECTED\<rparr>)) (oc_queue st)\<rparr>"

theorem polling_ends_iff_witness:
  "polled ''t1'' (poll_loop demo_oc_env demo_gt ''t1'' [(4005, \<lambda>st. st)] demo_polling) \<and>
   \<not> polled ''t1'' (poll_loop demo_oc_env demo_gt ''t1'' [(4005, \<lambda>st. st), (4010, reject_t1)] demo_polling)"
proof
  have p: "polled ''t1'' demo_polling"
    by (simp add: polled_def demo_polling_def demo_approved_def)
  have same: "polled ''t1'' (reject_t1 st) = polled ''t1'' st" for st by (simp add: polled_def reject_t1_def)
  have one: "undecided ''t1'' (awake [(4005, \<lambda>st. st)] demo_polling)"
    and two: "\<not> undecided ''t1'' (awake [(4005, \<lambda>st. st), (4010, reject_t1)] demo_polling)"
    by (simp_all add: undecided_def awake_def demo_polling_def reject_t1_def get_ticket_def demo_ticket_def)
  have k1: "\<forall>turn \<in> set [(4005, \<lambda>st. st)]. \<forall>st. polled ''t1'' (snd turn st) = polled ''t1'' st" by simp
  have k2: "\<forall>turn \<in> set [(4005, \<lambda>st. st), (4010, reject_t1)]. \<forall>st. polled ''t1'' (snd turn st) = polled ''t1'' st"
    by (simp add: same)
  show "polled ''t1'' (poll_loop demo_oc_env demo_gt ''t1'' [(4005, \<lambda>st. st)] demo_polling)"
    unfolding conjunct1 [OF polling_ends_iff [OF k1 p]] using one by simp
  show "\<not> polled ''t1'' (poll_loop demo_oc_env demo_gt ''t1'' [(4005, \<lambda>st. st), (4010, reject_t1)] demo_polling)"
    unfolding conjunct1 [OF polling_ends_iff [OF k2 p]]
  proof
    assume "\<forall>k < length [(4005, \<lambda>st. st), (4010, reject_t1)].
      undecided ''t1'' (awake (take (Suc k) [(4005, \<lambda>st. st), (4010, reject_t1)]) demo_polling)"
    from spec [OF this, of 1] two show False by simp
  qed
qed

end
