(* ===== verification/McpTools.thy ===== *)
theory McpTools
  imports McpApproval IpAddress
begin

text \<open>
  The four checks of the tool gateway: the registry of tools (\<open>src/backend/mcp_guard/tool_registry.py\<close>),
  the role table (\<open>permission_manager.py\<close>), the argument models (\<open>validator.py\<close>) and the rules
  (\<open>policy_engine.py\<close>).  The conversions of Pydantic are a parameter: \<open>pd_int\<close> is its lax
  conversion to an integer; a text field takes text only, as documented.  Message texts are in
  English where they are modelled at all; an error of a check is the list of its fields.
\<close>

section \<open>The registry\<close>

record tool_info =
  ti_name :: string
  ti_risk :: string
  ti_roles :: "string list"
  ti_required :: "string list"

definition tool :: "string \<Rightarrow> string \<Rightarrow> string list \<Rightarrow> string list \<Rightarrow> tool_info" where
  "tool n r ro rq = \<lparr>ti_name = n, ti_risk = r, ti_roles = ro, ti_required = rq\<rparr>"

definition PLATFORM_TOOLS :: "tool_info list" where
  "PLATFORM_TOOLS =
     [tool ''block_ip'' ''HIGH'' [''admin'', ''security_operator''] [''ip''],
      tool ''isolate_host'' ''CRITICAL'' [''admin'', ''security_operator''] [''host''],
      tool ''rate_limit'' ''MEDIUM'' [''admin'', ''security_operator''] [''ip'', ''rate''],
      tool ''terminate_process'' ''HIGH'' [''admin'', ''security_operator''] [''pid''],
      tool ''alert_only'' ''LOW'' [''admin'', ''security_operator'', ''analyst''] [''message''],
      tool ''vulnerability_scan'' ''LOW'' [''admin'', ''security_operator'', ''analyst''] [''target'']]"

definition get_tool :: "string \<Rightarrow> tool_info option" where
  "get_tool n = find (\<lambda>t. ti_name t = n) PLATFORM_TOOLS"

definition is_registered :: "string \<Rightarrow> bool" where
  "is_registered n = (get_tool n \<noteq> None)"

text \<open>What the executors return: all of them only describe the action they stand for.\<close>

record tool_result =
  tr_status :: string
  tr_action :: string
  tr_detail :: "pyval list"
  tr_device :: string

definition tool_ok :: "string \<Rightarrow> string \<Rightarrow> pyval list \<Rightarrow> tool_result" where
  "tool_ok a dev vs = \<lparr>tr_status = ''success'', tr_action = a, tr_detail = vs, tr_device = dev\<rparr>"

definition tool_error :: "string \<Rightarrow> tool_result" where
  "tool_error e = \<lparr>tr_status = ''error'', tr_action = [], tr_detail = [PyStr e], tr_device = []\<rparr>"

text \<open>A call without a required argument raises \<open>TypeError\<close>, which \<open>execute\<close> turns into an error.\<close>

definition tool_execute :: "string \<Rightarrow> pydict \<Rightarrow> tool_result" where
  "tool_execute n d =
     (if n = ''block_ip'' then
        (case map_of d ''ip'' of None \<Rightarrow> tool_error ''TypeError''
         | Some ip \<Rightarrow> tool_ok n ''firewall'' [ip, py_get d ''duration'' (PyInt 3600)])
      else if n = ''isolate_host'' then
        (case map_of d ''host'' of None \<Rightarrow> tool_error ''TypeError''
         | Some h \<Rightarrow> tool_ok n ''edr'' [h, py_get d ''isolation_type'' (PyStr ''network'')])
      else if n = ''rate_limit'' then
        (case map_of d ''ip'' of None \<Rightarrow> tool_error ''TypeError''
         | Some ip \<Rightarrow> tool_ok n ''firewall'' [ip, py_get d ''rate'' (PyInt 100)])
      else if n = ''terminate_process'' then tool_ok n ''edr'' [py_get d ''pid'' (PyInt 0)]
      else if n = ''alert_only'' then tool_ok n ''siem'' [py_get d ''message'' (PyStr [])]
      else if n = ''vulnerability_scan'' then
        tool_ok n ''scanner'' [py_get d ''target'' (PyStr []), py_get d ''scan_type'' (PyStr ''fast'')]
      else tool_error ''no executor'')"

section \<open>Roles\<close>

definition RBAC :: "(string \<times> string list) list" where
  "RBAC =
     [(''admin'', [''block_ip'', ''isolate_host'', ''rate_limit'', ''terminate_process'', ''alert_only'',
                  ''vulnerability_scan'']),
      (''security_operator'', [''block_ip'', ''isolate_host'', ''rate_limit'', ''terminate_process'',
                  ''alert_only'', ''vulnerability_scan'']),
      (''analyst'', [''vulnerability_scan'', ''alert_only'']),
      (''viewer'', [])]"

datatype role_check = UnknownRole | NotAllowed | RoleOk

definition permission_check :: "string \<Rightarrow> string \<Rightarrow> role_check" where
  "permission_check role name =
     (case map_of RBAC role of
        None \<Rightarrow> UnknownRole
      | Some ts \<Rightarrow> if name \<in> set ts then RoleOk else NotAllowed)"

definition get_user_tools :: "string \<Rightarrow> string list" where
  "get_user_tools role = (case map_of RBAC role of None \<Rightarrow> [] | Some ts \<Rightarrow> ts)"

section \<open>Arguments\<close>

text \<open>
  A field of a model: its name, its default if it has one, and its check, which gives the
  normalised value.
\<close>

type_synonym arg_field = "string \<times> pyval option \<times> (pyval \<Rightarrow> pyval option)"

definition int_field :: "(pyval \<Rightarrow> int option) \<Rightarrow> int \<Rightarrow> int option \<Rightarrow> pyval \<Rightarrow> pyval option" where
  "int_field pd_int lo hi v =
     (case pd_int v of
        None \<Rightarrow> None
      | Some n \<Rightarrow> if lo \<le> n \<and> (case hi of None \<Rightarrow> True | Some h \<Rightarrow> n \<le> h) then Some (PyInt n) else None)"

definition text_field :: "(string \<Rightarrow> bool) \<Rightarrow> pyval \<Rightarrow> pyval option" where
  "text_field ok v = (case v of PyStr s \<Rightarrow> if ok s then Some (PyStr s) else None | _ \<Rightarrow> None)"

definition is_ipv4 :: "string \<Rightarrow> bool" where
  "is_ipv4 s = (case ip_address s of Some (IPv4 v) \<Rightarrow> True | _ \<Rightarrow> False)"

definition sized :: "nat \<Rightarrow> nat \<Rightarrow> string \<Rightarrow> bool" where
  "sized lo hi s \<longleftrightarrow> lo \<le> length s \<and> length s \<le> hi"

definition arg_model :: "(pyval \<Rightarrow> int option) \<Rightarrow> string \<Rightarrow> arg_field list option" where
  "arg_model pd_int n =
     (if n = ''block_ip'' then Some
        [(''ip'', None, text_field is_ipv4), (''duration'', Some (PyInt 3600), int_field pd_int 60 (Some 86400))]
      else if n = ''isolate_host'' then Some
        [(''host'', None, text_field (sized 1 64)),
         (''isolation_type'', Some (PyStr ''network''), text_field (\<lambda>s. s \<in> {''network'', ''full''}))]
      else if n = ''vulnerability_scan'' then Some
        [(''target'', None, text_field (sized 1 128)),
         (''scan_type'', Some (PyStr ''fast''), text_field (\<lambda>s. s \<in> {''fast'', ''full''}))]
      else if n = ''rate_limit'' then Some
        [(''ip'', None, text_field (\<lambda>s. ip_address s \<noteq> None)), (''rate'', None, int_field pd_int 1 (Some 100000))]
      else if n = ''terminate_process'' then Some [(''pid'', None, int_field pd_int 1 None)]
      else if n = ''alert_only'' then Some [(''message'', None, text_field (sized 1 1024))]
      else None)"

text \<open>The normalised value of one field, a default included; \<open>None\<close> is an error.\<close>

definition field_value :: "pydict \<Rightarrow> arg_field \<Rightarrow> (string \<times> pyval) option" where
  "field_value d f =
     (case f of (k, dflt, chk) \<Rightarrow>
        map_option (Pair k) (case map_of d k of Some v \<Rightarrow> chk v | None \<Rightarrow> dflt))"

datatype arg_check = NoModel | BadFields "string list" | ArgsOk pydict

text \<open>The names in error: bad or missing fields first, then the extra ones.\<close>

definition bad_fields :: "arg_field list \<Rightarrow> pydict \<Rightarrow> string list" where
  "bad_fields fs d =
     List.map fst (filter (\<lambda>f. field_value d f = None) fs) @
     filter (\<lambda>k. k \<notin> fst ` set fs) (List.map fst d)"

definition validate_args :: "(pyval \<Rightarrow> int option) \<Rightarrow> string \<Rightarrow> pydict \<Rightarrow> arg_check" where
  "validate_args pd_int n d =
     (case arg_model pd_int n of
        None \<Rightarrow> NoModel
      | Some fs \<Rightarrow>
          (case bad_fields fs d of
             [] \<Rightarrow> ArgsOk (List.map (\<lambda>f. the (field_value d f)) fs)
           | bad \<Rightarrow> BadFields bad))"

section \<open>Rules\<close>

datatype decision_status = Allow | RequireConfirmation | Deny

fun decision_rank :: "decision_status \<Rightarrow> nat" where
  "decision_rank Allow = 0" | "decision_rank RequireConfirmation = 1" | "decision_rank Deny = 2"

record rule_cond =
  rc_tool :: "string option"
  rc_risk :: "string option"
  rc_roles :: "string list option"
  rc_param :: "string option"
  rc_cidrs :: "string list option"
  rc_equals :: "pyval option"

record guard_rule =
  gr_id :: string
  gr_cond :: rule_cond
  gr_action :: decision_status

definition for_tool :: "string \<Rightarrow> rule_cond" where
  "for_tool n = \<lparr>rc_tool = Some n, rc_risk = None, rc_roles = None, rc_param = None, rc_cidrs = None, rc_equals = None\<rparr>"

definition DEFAULT_RULES :: "guard_rule list" where
  "DEFAULT_RULES =
     [\<lparr>gr_id = ''R001'',
       gr_cond = (for_tool ''block_ip'')\<lparr>rc_param := Some ''ip'',
         rc_cidrs := Some [''10.0.0.0/8'', ''172.16.0.0/12'', ''192.168.0.0/16'']\<rparr>,
       gr_action = RequireConfirmation\<rparr>,
      \<lparr>gr_id = ''R002'', gr_cond = for_tool ''isolate_host'', gr_action = RequireConfirmation\<rparr>,
      \<lparr>gr_id = ''R003'', gr_cond = for_tool ''vulnerability_scan'', gr_action = Allow\<rparr>,
      \<lparr>gr_id = ''R004'', gr_cond = for_tool ''terminate_process'', gr_action = RequireConfirmation\<rparr>]"

definition RISK_POLICY :: "(string \<times> decision_status) list" where
  "RISK_POLICY = [(''LOW'', Allow), (''MEDIUM'', Allow), (''HIGH'', RequireConfirmation), (''CRITICAL'', RequireConfirmation)]"

definition in_cidr :: "string \<Rightarrow> string \<Rightarrow> bool" where
  "in_cidr s c = (case (ip_address s, ip_network_of c) of (Some a, Some n) \<Rightarrow> in_network a n | _ \<Rightarrow> False)"

definition param_matches :: "rule_cond \<Rightarrow> pydict \<Rightarrow> bool" where
  "param_matches c d =
     (case rc_param c of
        None \<Rightarrow> True
      | Some p \<Rightarrow>
          (let v = py_get d p PyNone in
           if v = PyNone then False
           else (case (rc_cidrs c, v) of
                   (Some cs, PyStr s) \<Rightarrow> list_ex (in_cidr s) cs
                 | _ \<Rightarrow> (case rc_equals c of Some x \<Rightarrow> v = x | None \<Rightarrow> True))))"

definition match_rule :: "guard_rule \<Rightarrow> string \<Rightarrow> string \<Rightarrow> pydict \<Rightarrow> string \<Rightarrow> bool" where
  "match_rule r name risk d role =
     (let c = gr_cond r in
      if (case rc_tool c of Some n \<Rightarrow> n \<noteq> name | None \<Rightarrow> False) then False
      else if (case rc_risk c of Some k \<Rightarrow> k \<noteq> risk | None \<Rightarrow> False) then False
      else (case rc_roles c of
              Some rs \<Rightarrow> role \<notin> set rs
            | None \<Rightarrow> param_matches c d))"

text \<open>The loop: the decision so far and the ids hit; a deny ends it.\<close>

fun eval_rules ::
  "guard_rule list \<Rightarrow> string \<Rightarrow> string \<Rightarrow> pydict \<Rightarrow> string \<Rightarrow> decision_status \<Rightarrow> string list \<Rightarrow>
   decision_status \<times> string list"
where
  "eval_rules [] name risk d role dec hits = (dec, hits)"
| "eval_rules (r # rs) name risk d role dec hits =
     (if \<not> match_rule r name risk d role then eval_rules rs name risk d role dec hits
      else if gr_action r = Deny then (Deny, hits @ [gr_id r])
      else if gr_action r = RequireConfirmation then
        eval_rules rs name risk d role (if dec \<noteq> Deny then RequireConfirmation else dec) (hits @ [gr_id r])
      else eval_rules rs name risk d role dec (hits @ [gr_id r]))"

definition evaluate :: "guard_rule list \<Rightarrow> string \<Rightarrow> string \<Rightarrow> pydict \<Rightarrow> string \<Rightarrow> decision_status \<times> string list" where
  "evaluate rules name risk d role =
     (case eval_rules rules name risk d role Allow [] of (dec, hits) \<Rightarrow>
        (if hits = [] \<and> map_of RISK_POLICY risk = Some RequireConfirmation \<and> dec = Allow
         then RequireConfirmation else dec, hits))"

section \<open>Lemmas\<close>

lemma get_tool_cases:
  "get_tool n = Some t \<Longrightarrow> t \<in> set PLATFORM_TOOLS \<and> ti_name t = n"
  by (auto simp: get_tool_def find_Some_iff)

text \<open>The role table and the tools' own role lists agree.\<close>

lemma roles_agree: "get_tool n = Some t \<Longrightarrow> permission_check role n = RoleOk \<longleftrightarrow> role \<in> set (ti_roles t)"
proof -
  assume "get_tool n = Some t"
  then have t: "t \<in> set PLATFORM_TOOLS" "n = ti_name t" using get_tool_cases by auto
  have all: "\<forall>u \<in> set PLATFORM_TOOLS. (permission_check role (ti_name u) = RoleOk) = (role \<in> set (ti_roles u))"
    unfolding PLATFORM_TOOLS_def list.set ball_simps
    by (simp add: tool_def permission_check_def RBAC_def)
  show ?thesis unfolding t(2) by (rule bspec [OF all t(1)])
qed

lemma field_value_key: "field_value d (k, dflt, chk) = Some (k', v) \<Longrightarrow> k' = k"
  by (auto simp: field_value_def split: option.splits)

lemma validated_fields:
  assumes "validate_args pd n d = ArgsOk d'" and "arg_model pd n = Some fs"
  shows "List.map fst d' = List.map fst fs" and "\<forall>k \<in> fst ` set d. k \<in> fst ` set fs"
    and "\<forall>f \<in> set fs. field_value d f \<noteq> None" and "d' = List.map (\<lambda>f. the (field_value d f)) fs"
proof -
  have bad: "bad_fields fs d = []" and d': "d' = List.map (\<lambda>f. the (field_value d f)) fs"
    using assms by (auto simp: validate_args_def split: list.splits)
  then show vals: "\<forall>f \<in> set fs. field_value d f \<noteq> None" and "\<forall>k \<in> fst ` set d. k \<in> fst ` set fs"
    by (auto simp: bad_fields_def filter_empty_conv)
  show "d' = List.map (\<lambda>f. the (field_value d f)) fs" by (rule d')
  have "fst (the (field_value d f)) = fst f" if "f \<in> set fs" for f
  proof -
    obtain k dflt chk where f: "f = (k, dflt, chk)" by (cases f)
    with vals that obtain y where "field_value d (k, dflt, chk) = Some y" by auto
    then show ?thesis using field_value_key [of d k dflt chk "fst y" "snd y"] by (simp add: f)
  qed
  then show "List.map fst d' = List.map fst fs" by (simp add: d')
qed

lemma text_field_Some: "text_field ok v = Some w \<longleftrightarrow> (\<exists>s. v = PyStr s \<and> ok s \<and> w = v)"
  by (auto simp: text_field_def split: pyval.splits)

lemma int_field_Some:
  "int_field pd lo hi v = Some w \<Longrightarrow> \<exists>n. pd v = Some n \<and> lo \<le> n \<and> (\<forall>h. hi = Some h \<longrightarrow> n \<le> h) \<and> w = PyInt n"
  by (auto simp: int_field_def split: option.splits if_splits)

text \<open>Which of the platform's tools the rules allow without a human.\<close>

lemma rule_misses: "name \<noteq> n \<Longrightarrow> \<not> match_rule \<lparr>gr_id = i, gr_cond = for_tool n, gr_action = x\<rparr> name risk d role"
  by (simp add: match_rule_def for_tool_def)

lemma rule_hits: "match_rule \<lparr>gr_id = i, gr_cond = for_tool n, gr_action = x\<rparr> n risk d role"
  by (simp add: match_rule_def for_tool_def param_matches_def)

lemma first_rule_misses:
  "name \<noteq> ''block_ip'' \<Longrightarrow> \<not> match_rule \<lparr>gr_id = i, gr_cond = (for_tool ''block_ip'')\<lparr>rc_param := p, rc_cidrs := cs\<rparr>,
     gr_action = x\<rparr> name risk d role"
  by (simp add: match_rule_def for_tool_def)

lemma default_decision:
  assumes "get_tool n = Some t"
  shows "fst (evaluate DEFAULT_RULES n (ti_risk t) d role) =
    (if n \<in> {''rate_limit'', ''alert_only'', ''vulnerability_scan''} then Allow else RequireConfirmation)"
proof -
  have t: "t \<in> set PLATFORM_TOOLS" "n = ti_name t" using get_tool_cases [OF assms] by auto
  have all: "\<forall>u \<in> set PLATFORM_TOOLS. fst (evaluate DEFAULT_RULES (ti_name u) (ti_risk u) d role) =
    (if ti_name u \<in> {''rate_limit'', ''alert_only'', ''vulnerability_scan''} then Allow else RequireConfirmation)"
    unfolding PLATFORM_TOOLS_def list.set ball_simps evaluate_def DEFAULT_RULES_def
    by (simp add: tool_def rule_misses rule_hits first_rule_misses RISK_POLICY_def)
  show ?thesis unfolding t(2) by (rule bspec [OF all t(1)])
qed

end
