(* ===== verification/CallRecord.thy ===== *)
theory CallRecord
  imports McpTools
begin

text \<open>
  The record of a tool call and the sanitising of its texts and arguments
  (\<open>src/backend/mcp_guard/call_record.py\<close>).  The ellipsis that marks a cut text is not ASCII; the
  model uses \<open>CHR 0x85\<close> for it.  The JSON text of a dict and its SHA-256 digest are
  parameters; the checks, which only documentation reads, are left out.
\<close>

definition control_char :: "char \<Rightarrow> bool" where
  "control_char c = (let n = (of_char c :: nat) in n < 32 \<or> n = 127 \<or> c = CHR ''|'')"

definition ellipsis :: char where "ellipsis = CHR 0x85"

definition text_words :: "string \<Rightarrow> string list" where
  "text_words s = filter (\<lambda>w. w \<noteq> []) (split_on CHR '' '' s)"

definition sanitize_str :: "string \<Rightarrow> nat \<Rightarrow> string" where
  "sanitize_str s n =
     (let t = join '' '' (text_words (List.map (\<lambda>c. if control_char c then CHR '' '' else c) s)) in
      if n < length t then take (n - 1) t @ [ellipsis] else t)"

definition STR_MAX :: nat where "STR_MAX = 256"
definition ARG_JSON_MAX :: nat where "ARG_JSON_MAX = 4096"

fun sanitize_value :: "pyval \<Rightarrow> pyval" where
  "sanitize_value (PyStr s) = PyStr (sanitize_str s STR_MAX)"
| "sanitize_value (PyStrs xs) = PyStrs (List.map (\<lambda>s. sanitize_str s STR_MAX) (take 32 xs))"
| "sanitize_value v = v"

definition sanitize_dict :: "pydict \<Rightarrow> pydict" where
  "sanitize_dict d =
     (let out = fold (\<lambda>(k, v). py_set (sanitize_str k 64) (sanitize_value v)) (take 32 d) []
      in if 32 < length d then py_set ''_truncated_keys'' (PyBool True) out else out)"

record json_env =
  json_text :: "pydict \<Rightarrow> string"
  json_digest :: "pydict \<Rightarrow> string"

definition sanitize_args :: "json_env \<Rightarrow> pydict \<Rightarrow> pydict" where
  "sanitize_args je d =
     (let c = sanitize_dict d; raw = json_text je c in
      if length raw \<le> ARG_JSON_MAX then c
      else [(''_truncated'', PyBool True), (''_preview'', PyStr (take (ARG_JSON_MAX - 80) raw)),
            (''_orig_bytes'', PyInt (int (length raw)))])"

definition arg_digest :: "json_env \<Rightarrow> pydict \<Rightarrow> string" where
  "arg_digest je d = take 32 (json_digest je d)"

record tool_record =
  tc_ts :: time
  tc_tool :: string
  tc_caller :: string
  tc_role :: string
  tc_source :: string
  tc_session :: string
  tc_trace :: string
  tc_event :: int
  tc_args :: pydict
  tc_digest :: string
  tc_decision :: decision_status
  tc_status :: "string option"
  tc_duration :: rat
  tc_match :: string

definition or_default :: "string \<Rightarrow> string \<Rightarrow> string" where
  "or_default s dflt = (if s = [] then dflt else s)"

text \<open>\<open>sanitize\<close>, which \<open>from_kwargs\<close> and the logger call.\<close>

definition sanitize_record :: "json_env \<Rightarrow> tool_record \<Rightarrow> tool_record" where
  "sanitize_record je r =
     (let a = sanitize_args je (tc_args r) in
      r\<lparr>tc_tool := sanitize_str (tc_tool r) 64,
        tc_caller := or_default (sanitize_str (tc_caller r) 64) ''unknown'',
        tc_role := sanitize_str (tc_role r) 32,
        tc_source := or_default (sanitize_str (tc_source r) 32) ''mcp_guard'',
        tc_session := sanitize_str (tc_session r) 64,
        tc_trace := sanitize_str (tc_trace r) 64,
        tc_args := a,
        tc_digest := sanitize_str (or_default (tc_digest r) (arg_digest je a)) 32,
        tc_status := map_option (\<lambda>s. sanitize_str s 32) (tc_status r),
        tc_match := or_default (sanitize_str (tc_match r) 16) ''exact''\<rparr>)"

definition new_record ::
  "json_env \<Rightarrow> time \<Rightarrow> string \<Rightarrow> string \<Rightarrow> pydict \<Rightarrow> decision_status \<Rightarrow> string \<Rightarrow> string \<Rightarrow>
   string \<Rightarrow> string \<Rightarrow> int \<Rightarrow> string \<Rightarrow> tool_record"
where
  "new_record je now role name d dec caller source session trace event matched =
     sanitize_record je
       \<lparr>tc_ts = now, tc_tool = name, tc_caller = or_default caller ''unknown'', tc_role = role,
        tc_source = or_default source ''mcp_guard'', tc_session = session, tc_trace = trace, tc_event = event,
        tc_args = d, tc_digest = [], tc_decision = dec, tc_status = None, tc_duration = 0,
        tc_match = or_default matched ''exact''\<rparr>"

section \<open>Lemmas\<close>

lemma split_on_parts: "w \<in> set (split_on c s) \<Longrightarrow> c \<notin> set w \<and> set w \<subseteq> set s"
  by (induction s arbitrary: w) (fastforce split: if_splits list.splits)+

lemma words_plain: "w \<in> set (text_words s) \<Longrightarrow> w \<noteq> [] \<and> CHR '' '' \<notin> set w \<and> set w \<subseteq> set s"
  unfolding text_words_def using split_on_parts by fastforce

lemma split_join:
  assumes "\<forall>w \<in> set ws. CHR '' '' \<notin> set w" and "ws \<noteq> []"
  shows "split_on CHR '' '' (join '' '' ws) = ws"
  using assms
proof (induction ws)
  case (Cons w ws)
  show ?case
  proof (cases ws)
    case Nil
    with Cons show ?thesis by (simp add: split_on_none)
  next
    case (Cons v vs)
    with Cons.IH Cons.prems show ?thesis
      using split_on_append [of "CHR '' ''" w "join '' '' ws"] by simp
  qed
qed simp

lemma words_join:
  assumes "\<forall>w \<in> set ws. w \<noteq> [] \<and> CHR '' '' \<notin> set w"
  shows "text_words (join '' '' ws) = ws"
proof (cases "ws = []")
  case True
  then show ?thesis by (simp add: text_words_def)
next
  case False
  with assms split_join [of ws] show ?thesis
    unfolding text_words_def by (auto simp: filter_id_conv)
qed

lemma join_Cons: "ws \<noteq> [] \<Longrightarrow> join sep (w # ws) = w @ sep @ join sep ws"
  by (cases ws) simp_all

lemma join_set: "set (join '' '' ws) \<subseteq> insert (CHR '' '') (\<Union> (set ` set ws))"
proof (induction ws)
  case (Cons w ws)
  then show ?case by (cases "ws = []") (auto simp: join_Cons)
qed simp

definition uncontrolled :: "string \<Rightarrow> string" where
  "uncontrolled s = List.map (\<lambda>c. if control_char c then CHR '' '' else c) s"

lemma control_facts: "\<not> control_char CHR '' ''" "\<not> control_char ellipsis"
  by (simp_all add: control_char_def ellipsis_def)

lemma uncontrolled_clean: "c \<in> set (uncontrolled s) \<Longrightarrow> \<not> control_char c"
  using control_facts by (auto simp: uncontrolled_def)

lemma uncontrolled_id: "\<forall>c \<in> set s. \<not> control_char c \<Longrightarrow> uncontrolled s = s"
  by (simp add: uncontrolled_def map_idI)

lemma sanitize_eq:
  "sanitize_str s n =
     (let t = join '' '' (text_words (uncontrolled s)) in if n < length t then take (n - 1) t @ [ellipsis] else t)"
  by (simp add: sanitize_str_def uncontrolled_def)

lemma collapsed_clean:
  assumes "c \<in> set (join '' '' (text_words (uncontrolled s)))" shows "\<not> control_char c"
proof -
  have "c = CHR '' '' \<or> (\<exists>w \<in> set (text_words (uncontrolled s)). c \<in> set w)"
    using assms join_set by fastforce
  then show ?thesis using control_facts words_plain uncontrolled_clean by blast
qed

lemma sanitize_clean: "c \<in> set (sanitize_str s n) \<Longrightarrow> \<not> control_char c"
  using collapsed_clean control_facts by (auto simp: sanitize_eq Let_def split: if_splits dest: in_set_takeD)

lemma sanitize_length: "0 < n \<Longrightarrow> length (sanitize_str s n) \<le> n"
  by (auto simp: sanitize_eq Let_def)

text \<open>Texts with single blanks between words, through their split.\<close>

lemma split_Cons:
  "split_on c (x # s) = (if x = c then [] # split_on c s else (x # hd (split_on c s)) # tl (split_on c s))"
  using split_on_not_Nil [of c s] by (cases "split_on c s") auto

lemma join_split: "join '' '' (split_on CHR '' '' s) = s"
proof (induction s)
  case (Cons x s)
  obtain y ys where y: "split_on CHR '' '' s = y # ys" using split_on_not_Nil by (metis list.exhaust)
  with Cons show ?case by (cases ys) (auto simp: split_Cons)
qed simp

lemma split_cut:
  assumes "e \<noteq> CHR '' ''"
  shows "([] \<notin> set (tl (split_on CHR '' '' t)) \<longrightarrow> [] \<notin> set (tl (split_on CHR '' '' (take k t @ [e])))) \<and>
    ([] \<notin> set (split_on CHR '' '' t) \<longrightarrow> [] \<notin> set (split_on CHR '' '' (take k t @ [e])))"
proof (induction t arbitrary: k)
  case Nil
  with assms show ?case by simp
next
  case (Cons x t)
  show ?case
  proof (cases k)
    case 0
    with assms show ?thesis by simp
  next
    case (Suc m)
    with Cons [of m] show ?thesis by (auto simp: split_Cons simp del: split_on.simps)
  qed
qed

definition single_blanks :: "string \<Rightarrow> bool" where
  "single_blanks t \<longleftrightarrow> t = [] \<or> [] \<notin> set (split_on CHR '' '' t)"

lemma single_blanks_words: "single_blanks t \<Longrightarrow> join '' '' (text_words t) = t"
proof -
  have "filter (\<lambda>w. w \<noteq> []) ws = ws" if "[] \<notin> set ws" for ws :: "string list"
    using that by (auto simp: filter_id_conv)
  moreover assume "single_blanks t"
  ultimately show ?thesis using join_split [of t] by (auto simp: single_blanks_def text_words_def)
qed

lemma collapsed_single: "single_blanks (join '' '' (text_words s))"
proof (cases "text_words s = []")
  case False
  have "split_on CHR '' '' (join '' '' (text_words s)) = text_words s"
    by (rule split_join) (use words_plain False in auto)
  with words_plain show ?thesis unfolding single_blanks_def by metis
qed (simp add: single_blanks_def)

lemma cut_single: "single_blanks t \<Longrightarrow> 0 < k \<Longrightarrow> single_blanks (take k t @ [ellipsis])"
  using split_cut [of ellipsis t k] by (auto simp: single_blanks_def ellipsis_def)

lemma sanitize_single: "single_blanks (sanitize_str s n)"
proof -
  have "single_blanks [ellipsis]" by (simp add: single_blanks_def ellipsis_def)
  then show ?thesis using collapsed_single cut_single [of _ "n - 1"]
    by (cases "n - 1") (auto simp: sanitize_eq Let_def)
qed

text \<open>
  Sanitising a text removes every control character and the field separator of the log, keeps
  the text within its bound, and changes an already sanitised text no more.
\<close>

theorem sanitize_str_clean:
  assumes "0 < n"
  shows "(\<forall>c \<in> set (sanitize_str s n). \<not> control_char c) \<and> length (sanitize_str s n) \<le> n \<and>
    sanitize_str (sanitize_str s n) n = sanitize_str s n"
proof -
  have "uncontrolled (sanitize_str s n) = sanitize_str s n"
    using sanitize_clean uncontrolled_id by blast
  then have "sanitize_str (sanitize_str s n) n = sanitize_str s n"
    using single_blanks_words [OF sanitize_single [of s n]] sanitize_length [OF assms, of s]
    by (simp add: sanitize_eq [of "sanitize_str s n"] Let_def)
  then show ?thesis using sanitize_clean sanitize_length [OF assms] by blast
qed

theorem sanitize_str_clean_witness:
  "length (sanitize_str (''allow | deny'' @ [CHR 0x0A] @ ''forged'') 64) \<le> 64 \<and>
   CHR ''|'' \<notin> set (sanitize_str (''allow | deny'' @ [CHR 0x0A] @ ''forged'') 64)"
  using sanitize_str_clean [of 64 "''allow | deny'' @ [CHR 0x0A] @ ''forged''"]
  by (auto simp: control_char_def)

end
