(* ===== verification/ToolSignature.thy ===== *)
theory ToolSignature
  imports CallRecord
begin

text \<open>
  The fingerprints of tool calls (\<open>src/backend/mcp_guard/behavior_signature.py\<close>): running mean and
  variance, bounded counters, the features of a call's arguments, and the scores of parameters and
  of the hour.  Floats are rationals; the square root and logarithm, the reading of a number from a
  text and the SHA-256 digest are parameters.  The reasons that accompany a score are display text
  and are left out.
\<close>

record sig_env =
  se_sqrt :: "rat \<Rightarrow> rat"
  se_ln :: "rat \<Rightarrow> rat"
  se_float :: "string \<Rightarrow> rat option"
  se_hash :: "string \<Rightarrow> string"
  se_round :: "rat \<Rightarrow> rat"

section \<open>Running mean and variance\<close>

record welford =
  wf_n :: nat
  wf_mean :: rat
  wf_m2 :: rat

definition new_welford :: welford where
  "new_welford = \<lparr>wf_n = 0, wf_mean = 0, wf_m2 = 0\<rparr>"

definition welford_update :: "rat \<Rightarrow> welford \<Rightarrow> welford" where
  "welford_update x w =
     (let n = Suc (wf_n w); delta = x - wf_mean w; mean = wf_mean w + delta / of_nat n
      in \<lparr>wf_n = n, wf_mean = mean, wf_m2 = wf_m2 w + delta * (x - mean)\<rparr>)"

definition welford_std :: "sig_env \<Rightarrow> welford \<Rightarrow> rat" where
  "welford_std env w = (if wf_n w < 2 then 0 else se_sqrt env (wf_m2 w / of_nat (wf_n w - 1)))"

definition zscore :: "sig_env \<Rightarrow> rat \<Rightarrow> welford \<Rightarrow> rat option" where
  "zscore env x w =
     (if wf_n w < 8 then None
      else if welford_std env w \<le> 1 / 10 ^ 12 then Some (if \<bar>x - wf_mean w\<bar> < 1 / 10 ^ 12 then 0 else 8)
      else Some (\<bar>x - wf_mean w\<bar> / welford_std env w))"

section \<open>Counters\<close>

type_synonym counter = "(string \<times> nat) list"

definition cnt :: "counter \<Rightarrow> string \<Rightarrow> nat" where
  "cnt c k = (case map_of c k of None \<Rightarrow> 0 | Some n \<Rightarrow> n)"

definition bump :: "string \<Rightarrow> counter \<Rightarrow> counter" where
  "bump k c = AList.update k (Suc (cnt c k)) c"

definition cnt_total :: "counter \<Rightarrow> nat" where
  "cnt_total c = sum_list (List.map snd c)"

definition CAT_MAX :: nat where "CAT_MAX = 64"
definition HASH_TOP :: nat where "HASH_TOP = 32"

definition bump_capped :: "nat \<Rightarrow> string \<Rightarrow> counter \<Rightarrow> counter" where
  "bump_capped cap k c = (if map_of c k \<noteq> None \<or> length c < cap then bump k c else bump ''OTHER'' c)"

definition prune_top :: "nat \<Rightarrow> counter \<Rightarrow> counter" where
  "prune_top keep c =
     (if length c \<le> keep * 2 then c
      else (let gone = List.map fst (drop keep (sort_key (\<lambda>(k, n). - int n) c)) in
            filter (\<lambda>(k, n). k \<notin> set gone) c))"

section \<open>Features\<close>

text \<open>The networks of Python 3.12's \<open>ipaddress\<close>.\<close>

definition in_any :: "ip_addr \<Rightarrow> string list \<Rightarrow> bool" where
  "in_any a nets = list_ex (\<lambda>s. case ip_network_of s of Some n \<Rightarrow> in_network a n | None \<Rightarrow> False) nets"

definition PRIVATE_NETWORKS :: "string list" where
  "PRIVATE_NETWORKS =
     [''0.0.0.0/8'', ''10.0.0.0/8'', ''127.0.0.0/8'', ''169.254.0.0/16'', ''172.16.0.0/12'', ''192.0.0.0/24'',
      ''192.0.0.170/31'', ''192.0.2.0/24'', ''192.168.0.0/16'', ''198.18.0.0/15'', ''198.51.100.0/24'',
      ''203.0.113.0/24'', ''240.0.0.0/4'', ''255.255.255.255/32'',
      ''::1/128'', ''::/128'', ''::ffff:0:0/96'', ''64:ff9b:1::/48'', ''100::/64'', ''2001::/23'', ''2001:db8::/32'',
      ''2002::/16'', ''fc00::/7'', ''fe80::/10'']"

definition PRIVATE_EXCEPTIONS :: "string list" where
  "PRIVATE_EXCEPTIONS =
     [''192.0.0.9/32'', ''192.0.0.10/32'', ''2001:1::1/128'', ''2001:1::2/128'', ''2001:3::/32'', ''2001:4:112::/48'',
      ''2001:20::/28'', ''2001:30::/28'']"

fun unmapped :: "ip_addr \<Rightarrow> ip_addr" where
  "unmapped (IPv4 v) = IPv4 v"
| "unmapped (IPv6 v sc) = (if v div 2 ^ 32 = 65535 then IPv4 (v mod 2 ^ 32) else IPv6 v sc)"

definition is_private :: "ip_addr \<Rightarrow> bool" where
  "is_private a = (in_any (unmapped a) PRIVATE_NETWORKS \<and> \<not> in_any (unmapped a) PRIVATE_EXCEPTIONS)"

definition classify_ip :: "string \<Rightarrow> string option" where
  "classify_ip s =
     (let t = strip s in
      if t = [] then None
      else (case ip_address (hd (split_on CHR ''/'' t)) of
              None \<Rightarrow> None
            | Some a \<Rightarrow>
                Some (if in_any a [''127.0.0.0/8'', ''::1/128''] then ''loopback''
                      else if in_any a [''169.254.0.0/16'', ''fe80::/10''] then ''link_local''
                      else if in_any a [''224.0.0.0/4'', ''ff00::/8''] then ''multicast''
                      else if is_private a then ''rfc1918'' else ''public'')))"

definition NUMERIC_KEYS :: "string list" where
  "NUMERIC_KEYS = [''duration'', ''rate'', ''limit'', ''pid'', ''time_window_minutes'', ''duration_ms'']"
definition IP_KEYS :: "string list" where
  "IP_KEYS = [''ip'', ''target'', ''host'', ''src_ip'', ''dst_ip'']"
definition CAT_KEYS :: "string list" where
  "CAT_KEYS = [''isolation_type'', ''scan_type'', ''action'', ''tool_match_method'']"

record features =
  ft_numeric :: "(string \<times> rat) list"
  ft_cat :: "(string \<times> string) list"
  ft_ips :: "(string \<times> string \<times> string) list"
  ft_hashes :: "(string \<times> string) list"
  ft_strlen :: "(string \<times> nat) list"

definition no_features :: features where
  "no_features = \<lparr>ft_numeric = [], ft_cat = [], ft_ips = [], ft_hashes = [], ft_strlen = []\<rparr>"

definition numeric_feature :: "string \<Rightarrow> rat \<Rightarrow> features \<Rightarrow> features" where
  "numeric_feature k x f = (if k \<in> set NUMERIC_KEYS then f\<lparr>ft_numeric := ft_numeric f @ [(k, x)]\<rparr> else f)"

definition text_feature :: "sig_env \<Rightarrow> string \<Rightarrow> string \<Rightarrow> features \<Rightarrow> features" where
  "text_feature env k s f =
     (let t = strip s in
      if t = [] then f
      else (case classify_ip t of
              Some c \<Rightarrow> f\<lparr>ft_ips := ft_ips f @ [(k, t, c)], ft_hashes := ft_hashes f @ [(k, take 16 (se_hash env t))]\<rparr>
            | None \<Rightarrow>
                if k \<in> set IP_KEYS then
                  f\<lparr>ft_hashes := ft_hashes f @ [(k, take 16 (se_hash env t))], ft_strlen := ft_strlen f @ [(k, length t)]\<rparr>
                else if k \<in> set CAT_KEYS then f\<lparr>ft_cat := ft_cat f @ [(k, take 64 t)]\<rparr>
                else (case (if k \<in> set NUMERIC_KEYS then se_float env t else None) of
                        Some x \<Rightarrow> f\<lparr>ft_numeric := ft_numeric f @ [(k, x)]\<rparr>
                      | None \<Rightarrow> f\<lparr>ft_strlen := ft_strlen f @ [(k, length t)]\<rparr>)))"

definition add_feature :: "sig_env \<Rightarrow> string \<times> pyval \<Rightarrow> features \<Rightarrow> features" where
  "add_feature env kv f =
     (case kv of (k, v) \<Rightarrow>
        if k \<noteq> [] \<and> hd k = CHR ''_'' then f
        else (case v of
                PyBool b \<Rightarrow> f\<lparr>ft_cat := ft_cat f @ [(k, if b then ''true'' else ''false'')]\<rparr>
              | PyInt i \<Rightarrow> numeric_feature k (of_int i) f
              | PyFloat x \<Rightarrow> numeric_feature k x f
              | PyStr s \<Rightarrow> text_feature env k s f
              | _ \<Rightarrow> f))"

definition extract_features :: "sig_env \<Rightarrow> pydict \<Rightarrow> features" where
  "extract_features env d = fold (add_feature env) d no_features"

section \<open>The fingerprint\<close>

record signature =
  sg_count :: nat
  sg_first :: time
  sg_last :: time
  sg_hourly :: "nat list"
  sg_weekday :: "nat list"
  sg_ewma :: rat
  sg_ewvar :: rat
  sg_numeric :: "(string \<times> welford) list"
  sg_cat :: "(string \<times> counter) list"
  sg_ipclass :: counter
  sg_hashes :: counter
  sg_strlen :: "(string \<times> welford) list"
  sg_roles :: counter
  sg_sources :: counter
  sg_decisions :: counter
  sg_duration :: welford
  sg_minutes :: nat
  sg_last_minute :: int

definition new_signature :: signature where
  "new_signature =
     \<lparr>sg_count = 0, sg_first = 0, sg_last = 0, sg_hourly = replicate 24 0, sg_weekday = replicate 7 0,
      sg_ewma = 0, sg_ewvar = 0, sg_numeric = [], sg_cat = [], sg_ipclass = [], sg_hashes = [], sg_strlen = [],
      sg_roles = [], sg_sources = [], sg_decisions = [], sg_duration = new_welford, sg_minutes = 0,
      sg_last_minute = -1\<rparr>"

definition sig_ready :: "nat \<Rightarrow> signature \<Rightarrow> bool" where
  "sig_ready n s \<longleftrightarrow> n \<le> sg_count s"

definition bump_at :: "nat \<Rightarrow> nat list \<Rightarrow> nat list" where
  "bump_at i xs = (if i < length xs then xs[i := Suc (xs ! i)] else xs)"

definition add_sample :: "string \<times> rat \<Rightarrow> (string \<times> welford) list \<Rightarrow> (string \<times> welford) list" where
  "add_sample kx ws =
     AList.update (fst kx)
       (welford_update (snd kx) (case map_of ws (fst kx) of Some w \<Rightarrow> w | None \<Rightarrow> new_welford)) ws"

definition add_category :: "string \<times> string \<Rightarrow> (string \<times> counter) list \<Rightarrow> (string \<times> counter) list" where
  "add_category kv cs =
     AList.update (fst kv)
       (bump_capped CAT_MAX (snd kv) (case map_of cs (fst kv) of Some c \<Rightarrow> c | None \<Rightarrow> [])) cs"

definition count_minute :: "time \<Rightarrow> signature \<Rightarrow> signature" where
  "count_minute ts s =
     (let m = \<lfloor>ts / 60\<rfloor> in
      if sg_last_minute s = m then s
      else (let s1 = s\<lparr>sg_minutes := Suc (sg_minutes s), sg_last_minute := m\<rparr> in
            if sg_ewma s \<le> 0 then s1\<lparr>sg_ewma := 1\<rparr>
            else (let delta = 1 - sg_ewma s in
                  s1\<lparr>sg_ewma := sg_ewma s + 3 / 10 * delta,
                     sg_ewvar := 7 / 10 * (sg_ewvar s + 3 / 10 * delta * delta)\<rparr>)))"

definition bump_text :: "string \<Rightarrow> counter \<Rightarrow> counter" where
  "bump_text k c = (if k = [] then c else bump k c)"

definition sig_update ::
  "time \<Rightarrow> nat \<Rightarrow> nat \<Rightarrow> features \<Rightarrow> string \<Rightarrow> string \<Rightarrow> string \<Rightarrow> rat \<Rightarrow> signature \<Rightarrow> signature"
where
  "sig_update ts hour weekday f role source dec dur s =
     (let s1 = s\<lparr>sg_first := (if sg_first s \<le> 0 then ts else sg_first s), sg_last := ts,
                 sg_count := Suc (sg_count s), sg_hourly := bump_at hour (sg_hourly s),
                 sg_weekday := bump_at weekday (sg_weekday s)\<rparr>;
          s2 = count_minute ts s1
      in s2\<lparr>sg_numeric := fold add_sample (ft_numeric f) (sg_numeric s2),
            sg_cat := fold add_category (ft_cat f) (sg_cat s2),
            sg_ipclass := fold (\<lambda>(k, v, c). bump c) (ft_ips f) (sg_ipclass s2),
            sg_hashes := prune_top HASH_TOP (fold (\<lambda>(k, h). bump_capped (HASH_TOP * 2) h) (ft_hashes f) (sg_hashes s2)),
            sg_strlen := fold (\<lambda>(k, n). add_sample (k, of_nat n)) (ft_strlen f) (sg_strlen s2),
            sg_roles := bump_text role (sg_roles s2), sg_sources := bump_text source (sg_sources s2),
            sg_decisions := bump_text dec (sg_decisions s2),
            sg_duration := (if dur \<noteq> 0 then welford_update dur (sg_duration s2) else sg_duration s2)\<rparr>)"

section \<open>Scores\<close>

definition ip_scores :: "signature \<Rightarrow> features \<Rightarrow> rat list" where
  "ip_scores s f =
     (let total = cnt_total (sg_ipclass s) in
      if total = 0 then []
      else concat (List.map (\<lambda>(k, v, c).
             let n = cnt (sg_ipclass s) c; freq = of_nat n / of_nat total :: rat in
             if n = 0 then [95 / 100] else if freq < 1 / 100 then [9 / 10] else if freq < 5 / 100 then [7 / 10] else [])
             (ft_ips f)))"

definition cat_scores :: "signature \<Rightarrow> features \<Rightarrow> rat list" where
  "cat_scores s f =
     concat (List.map (\<lambda>(k, v).
       let b = (case map_of (sg_cat s) k of Some c \<Rightarrow> c | None \<Rightarrow> []); total = cnt_total b; n = cnt b v in
       if total < 5 then [] else if n = 0 then [9 / 10]
       else if of_nat n / of_nat total < (1 / 100 :: rat) then [8 / 10] else []) (ft_cat f))"

text \<open>A deviation of \<open>z\<close> standard deviations, from 3 on: \<open>base + (z - 3) / scale\<close>, at most 1.\<close>

definition deviation_scores ::
  "sig_env \<Rightarrow> rat \<Rightarrow> rat \<Rightarrow> (string \<times> welford) list \<Rightarrow> (string \<times> rat) list \<Rightarrow> rat list"
where
  "deviation_scores env base scale ws xs =
     concat (List.map (\<lambda>(k, x).
       case map_of ws k of None \<Rightarrow> []
       | Some w \<Rightarrow> (case zscore env x w of None \<Rightarrow> []
           | Some z \<Rightarrow> if 3 \<le> z then [min 1 (base + (z - 3) / scale)] else [])) xs)"

definition score_params :: "sig_env \<Rightarrow> features \<Rightarrow> signature \<Rightarrow> rat" where
  "score_params env f s =
     (let subs = ip_scores s f @ cat_scores s f @
        deviation_scores env (7 / 10) 10 (sg_numeric s) (ft_numeric f) @
        deviation_scores env (65 / 100) 12 (sg_strlen s) (List.map (\<lambda>(k, n). (k, of_nat n)) (ft_strlen f))
      in if subs = [] then 0 else fold max (tl subs) (hd subs))"

definition score_time :: "nat \<Rightarrow> signature \<Rightarrow> rat" where
  "score_time hour s =
     (if sg_count s < 1 \<or> 24 \<le> hour then 0
      else (let expected = of_nat (sg_hourly s ! hour) / of_nat (max 1 (sg_count s)) in
            if 8 / 100 \<le> expected then 0
            else if expected \<le> 2 / 1000 then 85 / 100
            else (let score = min (7 / 10) ((8 / 100 - expected) / (8 / 100)) in
                  if score < 35 / 100 then 0 else score)))"

section \<open>Lemmas\<close>

lemma deviations_expand:
  "(\<Sum>y\<leftarrow>xs. (y - m) * (y - m)) = (\<Sum>y\<leftarrow>xs. y * y) - 2 * m * sum_list xs + of_nat (length xs) * (m * m)" for m :: rat
  by (induction xs) (simp_all add: algebra_simps)

definition mean_of :: "rat list \<Rightarrow> rat" where
  "mean_of xs = (if xs = [] then 0 else sum_list xs / of_nat (length xs))"

lemma mean_sum: "of_nat (length xs) * mean_of xs = sum_list xs"
  by (simp add: mean_of_def)

lemma deviations_mean:
  "(\<Sum>y\<leftarrow>xs. (y - mean_of xs) * (y - mean_of xs)) = (\<Sum>y\<leftarrow>xs. y * y) - mean_of xs * sum_list xs"
proof -
  have "mean_of xs * (of_nat (length xs) * mean_of xs) = mean_of xs * sum_list xs" by (simp only: mean_sum)
  then show ?thesis unfolding deviations_expand by (simp add: algebra_simps)
qed

lemma deviation_step:
  fixes n m m' x :: rat
  assumes "n * m' = (n - 1) * m + x"
  shows "(x - m) * (x - m') - m * ((n - 1) * m) = x * x - m' * ((n - 1) * m + x)"
proof -
  have "(x - m) * (x - m') - m * ((n - 1) * m) - (x * x - m' * ((n - 1) * m + x))
      = m * (n * m' - ((n - 1) * m + x))"
    by (simp add: algebra_simps)
  then show ?thesis using assms by simp
qed

text \<open>
  C38. The running mean and variance are exact (over exact numbers; the code computes with floats): after any sequence of values, the state the updates
  leave holds their number, their mean and their sum of squared deviations from that mean.
\<close>

theorem welford_exact:
  "fold welford_update xs new_welford =
     \<lparr>wf_n = length xs, wf_mean = mean_of xs, wf_m2 = (\<Sum>y\<leftarrow>xs. (y - mean_of xs) * (y - mean_of xs))\<rparr>"
proof (induction xs rule: rev_induct)
  case Nil
  show ?case by (simp add: new_welford_def mean_of_def)
next
  case (snoc x xs)
  let ?n = "of_nat (Suc (length xs)) :: rat"
  let ?m = "mean_of xs" and ?m' = "mean_of (xs @ [x])"
  have n: "?n \<noteq> 0" by (simp only: of_nat_eq_0_iff)
  have nm: "(?n - 1) * ?m = sum_list xs" using mean_sum [of xs] by simp
  have nm': "?n * ?m' = (?n - 1) * ?m + x" using mean_sum [of "xs @ [x]"] nm by simp
  have "?n * (?m + (x - ?m) / ?n) = ?n * ?m + (x - ?m)" using n by (simp add: distrib_left del: of_nat_Suc)
  also have "\<dots> = ?n * ?m'" unfolding nm' by (simp add: algebra_simps)
  finally have mean: "?m + (x - ?m) / ?n = ?m'" using n by simp
  have "(\<Sum>y\<leftarrow>xs. (y - ?m) * (y - ?m)) + (x - ?m) * (x - ?m') =
      (\<Sum>y\<leftarrow>xs @ [x]. (y - ?m') * (y - ?m'))"
    using deviation_step [OF nm'] unfolding deviations_mean nm by simp
  with snoc mean show ?case by (simp add: welford_update_def Let_def)
qed

end
