(* ===== verification/BehaviorDetector.thy ===== *)
theory BehaviorDetector
  imports ToolSignature
begin

text \<open>
  The detector of unusual tool calls (\<open>src/backend/mcp_guard/behavior_detector.py\<close>): one
  fingerprint for each pair of tool and caller and one for the tool alone (caller \<open>*\<close>), and for
  each caller its recent tools, their transitions and their counts.  Scoring reads the state,
  learning changes it; both run under the detector's lock, so a run is a sequence of operations.
  The settings are a parameter, with the overrides of the constructor.  A record always carries its
  time; the hour and the weekday are those of UTC.  The reasons of a report are display text and are
  left out, and so is the event that is published for an anomaly.
\<close>

section \<open>Settings\<close>

datatype det_mode = Shadow | Confirm | DenyMode

definition MODE_ALIASES :: "(string \<times> det_mode) list" where
  "MODE_ALIASES =
     [(''enforce'', Confirm), (''confirm'', Confirm), (''deny'', DenyMode), (''block'', DenyMode),
      (''shadow'', Shadow), (''alert'', Shadow), (''log'', Shadow)]"

definition canonical_mode :: "string \<Rightarrow> det_mode" where
  "canonical_mode raw =
     (case map_of MODE_ALIASES (lower (strip (if raw = [] then ''confirm'' else raw))) of
        Some m \<Rightarrow> m | None \<Rightarrow> Confirm)"

definition DEFAULT_WEIGHTS :: "(string \<times> rat) list" where
  "DEFAULT_WEIGHTS = [(''param'', 35 / 100), (''seq'', 25 / 100), (''time'', 15 / 100), (''caller'', 25 / 100)]"

text \<open>One part \<open>name:value\<close>; a part without a colon or with a bad number is skipped.\<close>

definition parse_weight :: "sig_env \<Rightarrow> string \<Rightarrow> (string \<times> rat) list \<Rightarrow> (string \<times> rat) list" where
  "parse_weight env part ws =
     (if CHR '':'' \<notin> set part then ws
      else (case se_float env (tl (dropWhile (\<lambda>c. c \<noteq> CHR '':'') part)) of
              Some x \<Rightarrow> AList.update (strip (takeWhile (\<lambda>c. c \<noteq> CHR '':'') part)) x ws
            | None \<Rightarrow> ws))"

definition parse_weights :: "sig_env \<Rightarrow> string \<Rightarrow> (string \<times> rat) list" where
  "parse_weights env raw =
     (if strip raw = [] then DEFAULT_WEIGHTS
      else fold (parse_weight env) (split_on CHR '','' (strip raw)) DEFAULT_WEIGHTS)"

record det_settings =
  ds_enabled :: bool
  ds_min_samples :: int
  ds_warn :: rat
  ds_confirm :: rat
  ds_deny :: rat
  ds_mode :: string
  ds_weights :: string

record det_overrides =
  ov_enabled :: "bool option"
  ov_min_samples :: "int option"
  ov_warn :: "rat option"
  ov_mode :: "string option"
  ov_weights :: "(string \<times> rat) list option"

text \<open>The settings in force: \<open>None\<close> when the configuration cannot be imported.\<close>

record det_config =
  dc_settings :: "det_settings option"
  dc_over :: det_overrides
  dc_sig :: sig_env

text \<open>The value of a setting: the override, the setting when it is set, the default.\<close>

definition chosen :: "'a option \<Rightarrow> 'a option \<Rightarrow> 'a \<Rightarrow> 'a" where
  "chosen over setting dflt = (case over of Some v \<Rightarrow> v | None \<Rightarrow> (case setting of Some v \<Rightarrow> v | None \<Rightarrow> dflt))"

definition or_else :: "'a::zero \<Rightarrow> 'a \<Rightarrow> 'a" where
  "or_else x dflt = (if x = 0 then dflt else x)"

definition det_enabled :: "det_config \<Rightarrow> bool" where
  "det_enabled c = chosen (ov_enabled (dc_over c)) (map_option ds_enabled (dc_settings c)) True"

text \<open>A negative number of samples is reached by every fingerprint, as zero is.\<close>

definition min_samples :: "det_config \<Rightarrow> nat" where
  "min_samples c = nat (chosen (ov_min_samples (dc_over c)) (map_option (\<lambda>s. or_else (ds_min_samples s) 30) (dc_settings c)) 30)"

definition warn_threshold :: "det_config \<Rightarrow> rat" where
  "warn_threshold c = chosen (ov_warn (dc_over c)) (map_option (\<lambda>s. or_else (ds_warn s) (6 / 10)) (dc_settings c)) (6 / 10)"

definition confirm_threshold :: "det_config \<Rightarrow> rat" where
  "confirm_threshold c = chosen None (map_option (\<lambda>s. or_else (ds_confirm s) (8 / 10)) (dc_settings c)) (8 / 10)"

definition deny_threshold :: "det_config \<Rightarrow> rat" where
  "deny_threshold c = chosen None (map_option (\<lambda>s. or_else (ds_deny s) (95 / 100)) (dc_settings c)) (95 / 100)"

definition det_mode_of :: "det_config \<Rightarrow> det_mode" where
  "det_mode_of c = canonical_mode (chosen (ov_mode (dc_over c)) (map_option ds_mode (dc_settings c)) ''confirm'')"

definition det_weights :: "det_config \<Rightarrow> (string \<times> rat) list" where
  "det_weights c =
     (case ov_weights (dc_over c) of
        Some ws \<Rightarrow> ws
      | None \<Rightarrow> parse_weights (dc_sig c) (chosen None (map_option ds_weights (dc_settings c)) []))"

section \<open>State\<close>

definition GLOBAL_CALLER :: string where "GLOBAL_CALLER = ''*''"
definition ANOMALY_MAX :: nat where "ANOMALY_MAX = 200"
definition HISTORY_MAX :: nat where "HISTORY_MAX = 80"
definition LEARN_DEDUP_SEC :: rat where "LEARN_DEDUP_SEC = 600"
definition SEQ_MIN_FROM :: nat where "SEQ_MIN_FROM = 5"

datatype sig_action = Logged | AskConfirm | AskDeny

record sig_report =
  sr_score :: "rat option"
  sr_anomaly :: bool
  sr_dims :: "(string \<times> rat) list"
  sr_cold :: bool
  sr_samples :: nat
  sr_action :: sig_action
  sr_learned :: bool

record anomaly =
  an_ts :: time
  an_tool :: string
  an_caller :: string
  an_source :: string
  an_score :: "rat option"
  an_dims :: "(string \<times> rat) list"
  an_mode :: det_mode
  an_action :: sig_action
  an_trace :: string
  an_event :: int
  an_decision :: decision_status

record detector =
  bd_sigs :: "((string \<times> string) \<times> signature) list"
  bd_hist :: "string \<Rightarrow> (string \<times> time) list"
  bd_markov :: "string \<Rightarrow> counter"
  bd_markov_from :: "string \<Rightarrow> counter"
  bd_tools :: "string \<Rightarrow> counter"
  bd_n :: "string \<Rightarrow> nat"
  bd_seen :: "((string \<times> string \<times> string) \<times> time) list"
  bd_anomalies :: "anomaly list"
  bd_dirty :: "(string \<times> string) set"

definition new_detector :: detector where
  "new_detector =
     \<lparr>bd_sigs = [], bd_hist = (\<lambda>_. []), bd_markov = (\<lambda>_. []), bd_markov_from = (\<lambda>_. []), bd_tools = (\<lambda>_. []),
      bd_n = (\<lambda>_. 0), bd_seen = [], bd_anomalies = [], bd_dirty = {}\<rparr>"

definition det_reset :: "detector \<Rightarrow> detector" where
  "det_reset d = new_detector"

definition sig_of :: "detector \<Rightarrow> string \<Rightarrow> string \<Rightarrow> signature option" where
  "sig_of d tl_name c = map_of (bd_sigs d) (tl_name, c)"

definition sig_or_new :: "detector \<Rightarrow> string \<Rightarrow> string \<Rightarrow> signature" where
  "sig_or_new d tl_name c = (case sig_of d tl_name c of Some s \<Rightarrow> s | None \<Rightarrow> new_signature)"

section \<open>Scoring\<close>

definition utc_hour :: "time \<Rightarrow> nat" where
  "utc_hour t = nat (\<lfloor>t / 3600\<rfloor> mod 24)"

text \<open>Monday is 0; the epoch was a Thursday.\<close>

definition utc_weekday :: "time \<Rightarrow> nat" where
  "utc_weekday t = nat ((\<lfloor>t / 86400\<rfloor> + 3) mod 7)"

definition score_seq :: "sig_env \<Rightarrow> detector \<Rightarrow> string \<Rightarrow> string \<Rightarrow> rat option" where
  "score_seq env d caller name =
     (case rev (bd_hist d caller) of
        [] \<Rightarrow> None
      | (prev, _) # _ \<Rightarrow>
          (let from_n = cnt (bd_markov_from d caller) prev in
           if from_n < SEQ_MIN_FROM then None
           else (let p = of_nat (cnt (bd_markov d caller) (prev @ ''>'' @ name)) / of_nat from_n in
                 if p \<le> 0 then Some (95 / 100)
                 else if p < 2 / 100 then Some (8 / 10)
                 else (let s = max 0 (min 1 (- se_ln env (max p (1 / 10 ^ 9)) / 6)) in
                       if s < 35 / 100 then Some 0 else Some s))))"

text \<open>The three parts of \<open>_score_caller\<close>: what the caller calls, who calls the tool, how it was named.\<close>

definition caller_history_score :: "detector \<Rightarrow> tool_record \<Rightarrow> nat \<Rightarrow> rat option" where
  "caller_history_score d r min_n =
     (let n = bd_n d (tc_caller r) in
      if n < min_n then None
      else (let frac = (of_nat (cnt (bd_tools d (tc_caller r)) (tc_tool r)) / of_nat n :: rat) in
            Some (if frac \<le> 0 then 9 / 10 else if frac < 2 / 100 then 75 / 100 else 0)))"

definition role_score :: "signature \<Rightarrow> string \<Rightarrow> nat \<Rightarrow> rat" where
  "role_score glob role min_n =
     (let roles = cnt_total (sg_roles glob);
          total = (if roles = 0 then cnt_total (sg_sources glob) else roles);
          n = cnt (sg_roles glob) role
      in if role \<noteq> [] \<and> min_n \<le> total then
           (if n = 0 then 7 / 10
            else if (of_nat n / of_nat (max 1 roles) :: rat) < 2 / 100 then 55 / 100 else 0)
         else 0)"

definition tool_callers_score :: "detector \<Rightarrow> tool_record \<Rightarrow> signature \<Rightarrow> nat \<Rightarrow> rat" where
  "tool_callers_score d r glob min_n =
     (let local_n = (case sig_of d (tc_tool r) (tc_caller r) of Some s \<Rightarrow> sg_count s | None \<Rightarrow> 0) in
      max (if min_n \<le> sg_count glob \<and> local_n = 0 then 85 / 100 else 0) (role_score glob (tc_role r) min_n))"

definition match_score :: "tool_record \<Rightarrow> rat option" where
  "match_score r = (if tc_match r \<noteq> [] \<and> tc_match r \<noteq> ''exact'' then Some (8 / 10) else None)"

definition some_max :: "rat option \<Rightarrow> rat option \<Rightarrow> rat option" where
  "some_max a b =
     (case (a, b) of (None, _) \<Rightarrow> b | (Some x, None) \<Rightarrow> Some x | (Some x, Some y) \<Rightarrow> Some (max x y))"

definition score_caller :: "detector \<Rightarrow> tool_record \<Rightarrow> signature option \<Rightarrow> nat \<Rightarrow> rat option" where
  "score_caller d r glob min_n =
     some_max (some_max (caller_history_score d r min_n)
                        (map_option (\<lambda>g. tool_callers_score d r g min_n) glob))
              (match_score r)"

text \<open>The dimensions of a score, in the order of the dict.\<close>

definition param_source :: "detector \<Rightarrow> tool_record \<Rightarrow> nat \<Rightarrow> signature option" where
  "param_source d r min_n =
     (case sig_of d (tc_tool r) (tc_caller r) of
        Some l \<Rightarrow> if sig_ready min_n l then Some l
                  else (case sig_of d (tc_tool r) GLOBAL_CALLER of
                          Some g \<Rightarrow> if sig_ready min_n g then Some g else None | None \<Rightarrow> None)
      | None \<Rightarrow> (case sig_of d (tc_tool r) GLOBAL_CALLER of
                   Some g \<Rightarrow> if sig_ready min_n g then Some g else None | None \<Rightarrow> None))"

definition ready_global :: "detector \<Rightarrow> tool_record \<Rightarrow> nat \<Rightarrow> signature option" where
  "ready_global d r min_n =
     (case sig_of d (tc_tool r) GLOBAL_CALLER of
        Some g \<Rightarrow> if sig_ready min_n g then Some g else None | None \<Rightarrow> None)"

definition named :: "string \<Rightarrow> rat option \<Rightarrow> (string \<times> rat) list" where
  "named n x = (case x of Some v \<Rightarrow> [(n, v)] | None \<Rightarrow> [])"

definition dimension_scores :: "det_config \<Rightarrow> detector \<Rightarrow> tool_record \<Rightarrow> (string \<times> rat) list" where
  "dimension_scores c d r =
     (let min_n = min_samples c; env = dc_sig c; f = extract_features env (tc_args r) in
      (case param_source d r min_n of
         Some s \<Rightarrow> [(''param'', score_params env f s), (''time'', score_time (utc_hour (tc_ts r)) s)]
       | None \<Rightarrow> []) @
      named ''seq'' (score_seq env d (tc_caller r) (tc_tool r)) @
      named ''caller'' (score_caller d r (ready_global d r min_n) min_n))"

definition weight_of :: "(string \<times> rat) list \<Rightarrow> string \<Rightarrow> rat" where
  "weight_of ws n = (case map_of ws n of Some w \<Rightarrow> w | None \<Rightarrow> 0)"

definition weighted_score :: "(string \<times> rat) list \<Rightarrow> (string \<times> rat) list \<Rightarrow> rat" where
  "weighted_score ws dims =
     (let numer = (\<Sum>(n, v)\<leftarrow>dims. weight_of ws n * v); denom = (\<Sum>(n, v)\<leftarrow>dims. weight_of ws n)
      in max 0 (min 1 (if 0 < denom then numer / denom else 0)))"

definition max_dim :: "(string \<times> rat) list \<Rightarrow> rat" where
  "max_dim dims = (case dims of [] \<Rightarrow> 0 | (n, v) # rest \<Rightarrow> fold max (List.map snd rest) v)"

definition is_anomalous :: "det_config \<Rightarrow> rat \<Rightarrow> (string \<times> rat) list \<Rightarrow> bool" where
  "is_anomalous c score dims \<longleftrightarrow> warn_threshold c \<le> score \<or> list_ex (\<lambda>(n, v). 8 / 10 \<le> v) dims"

definition action_for :: "det_config \<Rightarrow> rat \<Rightarrow> (string \<times> rat) list \<Rightarrow> sig_action" where
  "action_for c score dims =
     (if \<not> is_anomalous c score dims \<or> det_mode_of c = Shadow then Logged
      else if det_mode_of c = DenyMode \<and> (deny_threshold c \<le> score \<or> deny_threshold c \<le> max_dim dims) then AskDeny
      else if confirm_threshold c \<le> score \<or> confirm_threshold c \<le> max_dim dims then AskConfirm
      else Logged)"

definition score_call :: "det_config \<Rightarrow> detector \<Rightarrow> tool_record \<Rightarrow> sig_report" where
  "score_call c d r =
     (let dims = dimension_scores c d r; rd = se_round (dc_sig c);
          samples = (case sig_of d (tc_tool r) (tc_caller r) of Some s \<Rightarrow> sg_count s | None \<Rightarrow> 0)
      in if dims = [] then
           \<lparr>sr_score = None, sr_anomaly = False, sr_dims = [], sr_cold = True, sr_samples = samples,
            sr_action = Logged, sr_learned = False\<rparr>
         else (let score = weighted_score (det_weights c) dims in
           \<lparr>sr_score = Some (rd score), sr_anomaly = is_anomalous c score dims,
            sr_dims = List.map (\<lambda>(n, v). (n, rd v)) dims, sr_cold = False, sr_samples = samples,
            sr_action = action_for c score dims, sr_learned = False\<rparr>))"

text \<open>
  With no minimum of samples the share of a caller without calls divides by zero; the detector
  catches the exception and gives no report.
\<close>

definition score_raises :: "det_config \<Rightarrow> detector \<Rightarrow> tool_record \<Rightarrow> bool" where
  "score_raises c d r \<longleftrightarrow> min_samples c = 0 \<and> bd_n d (tc_caller r) = 0"

definition observe_pre_exec :: "det_config \<Rightarrow> detector \<Rightarrow> tool_record \<Rightarrow> sig_report option" where
  "observe_pre_exec c d r =
     (if \<not> det_enabled c \<or> score_raises c d r then None else Some (score_call c d r))"

section \<open>Learning\<close>

definition should_learn :: "tool_record \<Rightarrow> bool" where
  "should_learn r \<longleftrightarrow> tc_decision r \<noteq> Deny \<and> tc_source r \<noteq> ''self_play''"

text \<open>Appending to a bounded deque drops its oldest entry.\<close>

definition bounded_append :: "nat \<Rightarrow> 'a list \<Rightarrow> 'a \<Rightarrow> 'a list" where
  "bounded_append n xs x = (let ys = xs @ [x] in drop (length ys - n) ys)"

text \<open>The caller's sequence, which every call extends, denied ones included.\<close>

definition learn_sequence :: "tool_record \<Rightarrow> detector \<Rightarrow> detector" where
  "learn_sequence r d =
     (let c = tc_caller r; hist = bd_hist d c;
          prev = (case rev hist of [] \<Rightarrow> [] | (p, _) # _ \<Rightarrow> p);
          d1 = (if prev = [] then d
                else d\<lparr>bd_markov := (bd_markov d)(c := bump (prev @ ''>'' @ tc_tool r) (bd_markov d c)),
                       bd_markov_from := (bd_markov_from d)(c := bump prev (bd_markov_from d c))\<rparr>)
      in d1\<lparr>bd_hist := (bd_hist d)(c := dropWhile (\<lambda>(_, t). t < tc_ts r - 3600)
                                         (bounded_append HISTORY_MAX hist (tc_tool r, tc_ts r)))\<rparr>)"

definition learn_key :: "tool_record \<Rightarrow> string \<times> string \<times> string" where
  "learn_key r = (tc_caller r, tc_tool r, tc_digest r)"

definition seen_recently :: "tool_record \<Rightarrow> detector \<Rightarrow> bool" where
  "seen_recently r d =
     (case map_of (bd_seen d) (learn_key r) of
        None \<Rightarrow> False | Some t \<Rightarrow> t \<noteq> 0 \<and> tc_ts r - t < LEARN_DEDUP_SEC)"

definition prune_seen ::
  "time \<Rightarrow> ((string \<times> string \<times> string) \<times> time) list \<Rightarrow> ((string \<times> string \<times> string) \<times> time) list"
where
  "prune_seen now seen =
     (if length seen \<le> 4000 then seen
      else (let stale = take 2000 (List.map fst (filter (\<lambda>(k, t). LEARN_DEDUP_SEC < now - t) seen))
            in filter (\<lambda>(k, t). k \<notin> set stale) seen))"

fun decision_text :: "decision_status \<Rightarrow> string" where
  "decision_text Allow = ''allow''"
| "decision_text RequireConfirmation = ''require_confirmation''"
| "decision_text Deny = ''deny''"

definition learn_signature :: "det_config \<Rightarrow> tool_record \<Rightarrow> string \<Rightarrow> detector \<Rightarrow> detector" where
  "learn_signature c r key d =
     d\<lparr>bd_sigs := AList.update (tc_tool r, key)
         (sig_update (tc_ts r) (utc_hour (tc_ts r)) (utc_weekday (tc_ts r)) (extract_features (dc_sig c) (tc_args r))
            (tc_role r) (tc_source r) (decision_text (tc_decision r)) (tc_duration r) (sig_or_new d (tc_tool r) key))
         (bd_sigs d),
       bd_dirty := insert (tc_tool r, key) (bd_dirty d)\<rparr>"

definition learn_call :: "det_config \<Rightarrow> tool_record \<Rightarrow> detector \<Rightarrow> bool \<times> detector" where
  "learn_call c r d =
     (let d1 = learn_sequence r d in
      if \<not> should_learn r then (False, d1)
      else if seen_recently r d1 then (False, d1)
      else (let d2 = d1\<lparr>bd_seen := prune_seen (tc_ts r) (AList.update (learn_key r) (tc_ts r) (bd_seen d1))\<rparr>;
                d3 = learn_signature c r GLOBAL_CALLER (learn_signature c r (or_default (tc_caller r) ''unknown'') d2)
            in (True, d3\<lparr>bd_tools := (bd_tools d3)(tc_caller r := bump (tc_tool r) (bd_tools d3 (tc_caller r))),
                         bd_n := (bd_n d3)(tc_caller r := Suc (bd_n d3 (tc_caller r)))\<rparr>)))"

definition record_anomaly :: "det_config \<Rightarrow> tool_record \<Rightarrow> sig_report \<Rightarrow> detector \<Rightarrow> detector" where
  "record_anomaly c r rep d =
     d\<lparr>bd_anomalies := bounded_append ANOMALY_MAX (bd_anomalies d)
         \<lparr>an_ts = tc_ts r, an_tool = tc_tool r, an_caller = tc_caller r, an_source = tc_source r,
          an_score = sr_score rep, an_dims = sr_dims rep, an_mode = det_mode_of c, an_action = sr_action rep,
          an_trace = tc_trace r, an_event = tc_event r, an_decision = tc_decision r\<rparr>\<rparr>"

definition observe_post_exec ::
  "det_config \<Rightarrow> tool_record \<Rightarrow> sig_report option \<Rightarrow> detector \<Rightarrow> sig_report option \<times> detector"
where
  "observe_post_exec c r rep d =
     (if \<not> det_enabled c then (rep, d)
      else (case learn_call c r d of (learned, d1) \<Rightarrow>
        (map_option (\<lambda>p. p\<lparr>sr_learned := learned\<rparr>) rep,
         (case rep of Some p \<Rightarrow> if sr_anomaly p then record_anomaly c r p d1 else d1 | None \<Rightarrow> d1))))"

definition observe :: "det_config \<Rightarrow> tool_record \<Rightarrow> detector \<Rightarrow> sig_report option \<times> detector" where
  "observe c r d = observe_post_exec c r (observe_pre_exec c d r) d"

section \<open>Reading\<close>

definition recent_anomalies :: "nat \<Rightarrow> detector \<Rightarrow> anomaly list" where
  "recent_anomalies n d =
     (if n = 0 then rev (bd_anomalies d) else rev (drop (length (bd_anomalies d) - n) (bd_anomalies d)))"

record det_stats =
  st_fingerprints :: nat
  st_ready :: nat
  st_learning :: nat
  st_anomalies :: nat

definition det_stats_of :: "det_config \<Rightarrow> detector \<Rightarrow> det_stats" where
  "det_stats_of c d =
     (let sigs = List.map snd (bd_sigs d); ready = length (filter (sig_ready (min_samples c)) sigs) in
      \<lparr>st_fingerprints = length sigs, st_ready = ready, st_learning = length sigs - ready,
       st_anomalies = length (bd_anomalies d)\<rparr>)"

section \<open>What the scores are\<close>

lemma fold_max_in: "fold max xs (x::rat) \<in> insert x (set xs)"
  by (induction xs arbitrary: x) (auto simp: max_def)

lemma fold_max_ge: "(x::rat) \<le> fold max xs x \<and> (\<forall>y \<in> set xs. y \<le> fold max xs x)"
proof (induction xs arbitrary: x)
  case (Cons a xs)
  from Cons [of "max a x"] show ?case by auto
qed simp

definition unit_score :: "rat \<Rightarrow> bool" where
  "unit_score v \<longleftrightarrow> 0 \<le> v \<and> v \<le> 1"

lemma ip_scores_unit: "\<forall>v \<in> set (ip_scores s f). unit_score v"
  unfolding ip_scores_def unit_score_def Let_def by (auto split: if_splits)

lemma cat_scores_unit: "\<forall>v \<in> set (cat_scores s f). unit_score v"
  unfolding cat_scores_def unit_score_def Let_def by (auto split: if_splits option.splits)

lemma deviation_scores_unit:
  assumes "0 \<le> base" and "0 < scale"
  shows "\<forall>v \<in> set (deviation_scores env base scale ws xs). unit_score v"
proof
  fix v assume "v \<in> set (deviation_scores env base scale ws xs)"
  then obtain z where "3 \<le> z" and v: "v = min 1 (base + (z - 3) / scale)"
    unfolding deviation_scores_def by (auto split: option.splits if_splits)
  then have "0 \<le> (z - 3) / scale" using assms by simp
  then show "unit_score v" using assms v by (simp add: unit_score_def)
qed

lemma score_params_unit: "unit_score (score_params env f s)"
proof -
  let ?subs = "ip_scores s f @ cat_scores s f @
        deviation_scores env (7 / 10) 10 (sg_numeric s) (ft_numeric f) @
        deviation_scores env (65 / 100) 12 (sg_strlen s) (List.map (\<lambda>(k, n). (k, of_nat n)) (ft_strlen f))"
  have all: "\<forall>v \<in> set ?subs. unit_score v"
    using ip_scores_unit [of s f] cat_scores_unit [of s f] deviation_scores_unit [of "7 / 10" 10]
      deviation_scores_unit [of "65 / 100" 12] by (simp add: ball_Un)
  show ?thesis
  proof (cases "?subs = []")
    case True
    then show ?thesis unfolding score_params_def Let_def by (simp add: unit_score_def)
  next
    case False
    then have "fold max (tl ?subs) (hd ?subs) \<in> set ?subs"
      using fold_max_in [of "tl ?subs" "hd ?subs"] list.set_sel by (metis insertE)
    then have "unit_score (fold max (tl ?subs) (hd ?subs))" using all by blast
    with False show ?thesis unfolding score_params_def Let_def by (simp only: if_False)
  qed
qed

lemma score_time_unit: "unit_score (score_time h s)"
  unfolding score_time_def Let_def unit_score_def by (auto simp: field_simps min_def)

lemma score_seq_unit: "score_seq env d c n = Some v \<Longrightarrow> unit_score v"
  unfolding score_seq_def Let_def unit_score_def by (auto split: list.splits if_splits simp: min_def max_def)

lemma score_caller_unit: "score_caller d r g n = Some v \<Longrightarrow> unit_score v"
  unfolding score_caller_def some_max_def caller_history_score_def tool_callers_score_def role_score_def
    match_score_def Let_def unit_score_def
  by (auto split: option.splits if_splits simp: max_def)

lemma dimensions_unit: "(n, v) \<in> set (dimension_scores c d r) \<Longrightarrow> unit_score v"
  unfolding dimension_scores_def Let_def named_def
  by (auto simp: score_params_unit score_time_unit score_seq_unit score_caller_unit split: option.splits)

lemma weighted_sum_bounds:
  assumes "\<forall>n. 0 \<le> weight_of ws n" and "\<forall>(n, v) \<in> set dims. lo \<le> v \<and> v \<le> hi"
  shows "lo * (\<Sum>(n, v)\<leftarrow>dims. weight_of ws n) \<le> (\<Sum>(n, v)\<leftarrow>dims. weight_of ws n * v)"
    and "(\<Sum>(n, v)\<leftarrow>dims. weight_of ws n * v) \<le> hi * (\<Sum>(n, v)\<leftarrow>dims. weight_of ws n)"
proof -
  have "lo * (\<Sum>(n, v)\<leftarrow>dims. weight_of ws n) \<le> (\<Sum>(n, v)\<leftarrow>dims. weight_of ws n * v) \<and>
    (\<Sum>(n, v)\<leftarrow>dims. weight_of ws n * v) \<le> hi * (\<Sum>(n, v)\<leftarrow>dims. weight_of ws n)"
    using assms(2)
  proof (induction dims)
    case (Cons x xs)
    obtain n v where x: "x = (n, v)" by (cases x)
    have "lo * weight_of ws n \<le> weight_of ws n * v" "weight_of ws n * v \<le> hi * weight_of ws n"
      using assms(1) Cons.prems x by (auto simp: mult.commute intro: mult_left_mono mult_right_mono)
    with Cons show ?case by (simp add: x distrib_left)
  qed simp
  then show "lo * (\<Sum>(n, v)\<leftarrow>dims. weight_of ws n) \<le> (\<Sum>(n, v)\<leftarrow>dims. weight_of ws n * v)"
    and "(\<Sum>(n, v)\<leftarrow>dims. weight_of ws n * v) \<le> hi * (\<Sum>(n, v)\<leftarrow>dims. weight_of ws n)" by auto
qed

text \<open>
  Every dimension of a score lies between 0 and 1, and with weights that are not negative and
  do not add up to zero the score of a call is exactly the weighted mean of its dimensions: it lies
  between 0 and the largest dimension, and clamping changes nothing.
\<close>

theorem score_is_weighted_mean:
  assumes "\<forall>n. 0 \<le> weight_of ws n" and "dims = dimension_scores c d r"
    and "0 < (\<Sum>(n, v)\<leftarrow>dims. weight_of ws n)"
  shows "weighted_score ws dims = (\<Sum>(n, v)\<leftarrow>dims. weight_of ws n * v) / (\<Sum>(n, v)\<leftarrow>dims. weight_of ws n)
    \<and> 0 \<le> weighted_score ws dims \<and> weighted_score ws dims \<le> max_dim dims \<and> max_dim dims \<le> 1"
proof -
  have "dims \<noteq> []" using assms(3) by auto
  then obtain n0 v0 rest where dims: "dims = (n0, v0) # rest" by (cases dims) auto
  have unit: "\<forall>(n, v) \<in> set dims. 0 \<le> v \<and> v \<le> 1"
    using dimensions_unit [of _ _ c d r] unfolding assms(2) unit_score_def by blast
  have top: "\<forall>(n, v) \<in> set dims. v \<le> max_dim dims"
    using fold_max_ge [of v0 "List.map snd rest"] by (auto simp: dims max_dim_def)
  have "max_dim dims \<in> insert v0 (snd ` set rest)"
    using fold_max_in [of "List.map snd rest" v0] by (simp add: dims max_dim_def)
  with unit have one: "max_dim dims \<le> 1" by (auto simp: dims)
  note both = weighted_sum_bounds [OF assms(1), of dims 0 "max_dim dims"]
  have "0 \<le> (\<Sum>(n, v)\<leftarrow>dims. weight_of ws n * v)"
    "(\<Sum>(n, v)\<leftarrow>dims. weight_of ws n * v) \<le> max_dim dims * (\<Sum>(n, v)\<leftarrow>dims. weight_of ws n)"
    using both unit top by (auto simp: case_prod_unfold)
  then have lo: "0 \<le> (\<Sum>(n, v)\<leftarrow>dims. weight_of ws n * v) / (\<Sum>(n, v)\<leftarrow>dims. weight_of ws n)"
    and hi: "(\<Sum>(n, v)\<leftarrow>dims. weight_of ws n * v) / (\<Sum>(n, v)\<leftarrow>dims. weight_of ws n) \<le> max_dim dims"
    using assms(3) by (simp_all add: divide_le_eq)
  have "weighted_score ws dims = (\<Sum>(n, v)\<leftarrow>dims. weight_of ws n * v) / (\<Sum>(n, v)\<leftarrow>dims. weight_of ws n)"
    unfolding weighted_score_def Let_def if_P [OF assms(3)] using lo hi one by simp
  then show ?thesis using lo hi one by simp
qed

section \<open>When a call is escalated\<close>

lemma canonical_cases: "canonical_mode raw = Confirm \<or> canonical_mode raw = DenyMode \<or> canonical_mode raw = Shadow"
  by (cases "canonical_mode raw") auto

text \<open>
  A report asks for more than a log entry only on evidence: some dimension was scored, the call
  is anomalous, the detector is not in shadow mode, and the score or its largest dimension reaches
  the threshold of the action it asks for; a refusal needs the deny mode besides.
\<close>

theorem escalation_needs_evidence:
  assumes "sr_action (score_call c d r) \<noteq> Logged"
  shows "det_mode_of c \<noteq> Shadow \<and> sr_anomaly (score_call c d r) \<and> \<not> sr_cold (score_call c d r) \<and>
    (\<exists>x \<in> {weighted_score (det_weights c) (dimension_scores c d r), max_dim (dimension_scores c d r)}.
       (if sr_action (score_call c d r) = AskDeny then det_mode_of c = DenyMode \<and> deny_threshold c \<le> x
        else confirm_threshold c \<le> x))"
  using assms unfolding score_call_def Let_def action_for_def
  by (auto split: if_splits)

text \<open>
  A tool with an established baseline that a caller has never used successfully before is an
  anomaly, however ordinary its arguments are: unless the detector is in shadow mode it asks at
  least for a confirmation, when the configured thresholds are not above 0.85.
\<close>

theorem new_caller_is_anomalous:
  assumes glob: "sig_of d (tc_tool r) GLOBAL_CALLER = Some g" and ready: "min_samples c \<le> sg_count g"
    and new: "sig_of d (tc_tool r) (tc_caller r) = None"
    and mode: "det_mode_of c \<noteq> Shadow" and thr: "confirm_threshold c \<le> 85 / 100"
  shows "sr_anomaly (score_call c d r) \<and> sr_action (score_call c d r) \<noteq> Logged"
proof -
  have rg: "ready_global d r (min_samples c) = Some g"
    using glob ready by (simp add: ready_global_def sig_ready_def)
  have "85 / 100 \<le> tool_callers_score d r g (min_samples c)"
    using new ready by (simp add: tool_callers_score_def)
  then obtain v where v: "score_caller d r (Some g) (min_samples c) = Some v" "85 / 100 \<le> v"
    unfolding score_caller_def some_max_def
    by (cases "caller_history_score d r (min_samples c)"; cases "match_score r") auto
  then have mem: "(''caller'', v) \<in> set (dimension_scores c d r)"
    unfolding dimension_scores_def Let_def rg by (simp add: named_def)
  then obtain n0 v0 rest where dims: "dimension_scores c d r = (n0, v0) # rest"
    by (cases "dimension_scores c d r") auto
  with mem have "v \<le> max_dim (dimension_scores c d r)"
    using fold_max_ge [of v0 "List.map snd rest"] by (auto simp: max_dim_def)
  moreover have anom: "is_anomalous c x (dimension_scores c d r)" for x
    using mem v(2) by (auto simp: is_anomalous_def list_ex_iff intro!: bexI [of _ "(''caller'', v)"])
  ultimately show ?thesis
    using v(2) thr mode dims unfolding score_call_def Let_def action_for_def by auto
qed

section \<open>What a call teaches\<close>

lemma learn_sequence_keeps:
  "bd_sigs (learn_sequence r d) = bd_sigs d" "bd_tools (learn_sequence r d) = bd_tools d"
  "bd_n (learn_sequence r d) = bd_n d" "bd_seen (learn_sequence r d) = bd_seen d"
  "bd_anomalies (learn_sequence r d) = bd_anomalies d"
  by (simp_all add: learn_sequence_def Let_def)

lemma record_anomaly_keeps:
  "bd_sigs (record_anomaly c r p d) = bd_sigs d" "bd_tools (record_anomaly c r p d) = bd_tools d"
  "bd_n (record_anomaly c r p d) = bd_n d" "bd_seen (record_anomaly c r p d) = bd_seen d"
  "bd_hist (record_anomaly c r p d) = bd_hist d"
  by (simp_all add: record_anomaly_def)

lemma learn_signature_keeps:
  "bd_tools (learn_signature c r k d) = bd_tools d" "bd_n (learn_signature c r k d) = bd_n d"
  "bd_seen (learn_signature c r k d) = bd_seen d" "bd_hist (learn_signature c r k d) = bd_hist d"
  "bd_anomalies (learn_signature c r k d) = bd_anomalies d"
  by (simp_all add: learn_signature_def)

text \<open>
  A refused call and a call of the self-play teach nothing: the fingerprints, the counts of the
  caller's tools and the memory of learned calls stay as they were.
\<close>

theorem refused_call_teaches_nothing:
  assumes "tc_decision r = Deny \<or> tc_source r = ''self_play''" and "snd (observe_post_exec c r rep d) = d'"
  shows "bd_sigs d' = bd_sigs d \<and> bd_tools d' = bd_tools d \<and> bd_n d' = bd_n d \<and> bd_seen d' = bd_seen d"
  using assms
  by (auto simp: observe_post_exec_def learn_call_def should_learn_def Let_def learn_sequence_keeps
      record_anomaly_keeps split: option.splits)

subsection \<open>One lesson in ten minutes\<close>

text \<open>The calls of a run that were learned.\<close>

fun learned_calls :: "det_config \<Rightarrow> tool_record list \<Rightarrow> detector \<Rightarrow> tool_record list" where
  "learned_calls c [] d = []"
| "learned_calls c (r # rs) d =
     (case learn_call c r d of (l, d') \<Rightarrow> (if l then [r] else []) @ learned_calls c rs d')"

lemma learned_subset: "set (learned_calls c rs d) \<subseteq> set rs"
  by (induction rs arbitrary: d) (auto split: prod.splits if_splits)

lemma learned_seen:
  "learn_call c r d = (True, d') \<Longrightarrow>
     \<not> seen_recently r d \<and> bd_seen d' = prune_seen (tc_ts r) (AList.update (learn_key r) (tc_ts r) (bd_seen d))"
  unfolding learn_call_def Let_def
  by (auto simp: learn_sequence_keeps learn_signature_keeps seen_recently_def split: if_splits)

lemma not_learned_seen: "learn_call c r d = (False, d') \<Longrightarrow> bd_seen d' = bd_seen d"
  unfolding learn_call_def Let_def by (auto simp: learn_sequence_keeps split: if_splits)

lemma prune_seen_map:
  assumes "distinct (List.map fst seen)"
  shows "distinct (List.map fst (prune_seen now seen))"
    and "map_of seen k = Some t \<Longrightarrow> map_of (prune_seen now seen) k = Some t \<or> LEARN_DEDUP_SEC < now - t"
proof -
  show "distinct (List.map fst (prune_seen now seen))"
    using assms unfolding prune_seen_def Let_def by (auto simp: distinct_map_filter)
next
  assume k: "map_of seen k = Some t"
  let ?stale = "take 2000 (List.map fst (filter (\<lambda>(k, t). LEARN_DEDUP_SEC < now - t) seen))"
  show "map_of (prune_seen now seen) k = Some t \<or> LEARN_DEDUP_SEC < now - t"
  proof (cases "k \<in> set ?stale")
    case True
    then obtain t' where "(k, t') \<in> set seen" "LEARN_DEDUP_SEC < now - t'"
      by (auto dest!: in_set_takeD)
    with assms k show ?thesis using map_of_is_SomeI by fastforce
  next
    case False
    then have "map_of (filter (\<lambda>(k, t). k \<notin> set ?stale) seen) k = Some t"
      using k by (simp add: map_of_filter_in)
    with k show ?thesis unfolding prune_seen_def Let_def by auto
  qed
qed

text \<open>A key learned at \<open>t\<close> is not learned again before \<open>t + 600\<close>.\<close>

lemma learned_later:
  assumes "sorted (List.map tc_ts rs)" and "\<forall>r \<in> set rs. 0 < tc_ts r \<and> t \<le> tc_ts r"
    and "distinct (List.map fst (bd_seen d))" and "map_of (bd_seen d) k = Some t" and "0 < t"
    and "r \<in> set (learned_calls c rs d)" and "learn_key r = k"
  shows "LEARN_DEDUP_SEC \<le> tc_ts r - t"
  using assms
proof (induction rs arbitrary: d)
  case (Cons a rs)
  obtain l d' where step: "learn_call c a d = (l, d')" by (cases "learn_call c a d")
  have late: "LEARN_DEDUP_SEC \<le> tc_ts r - t" if "LEARN_DEDUP_SEC \<le> tc_ts a - t"
    using that Cons.prems(1) subsetD [OF learned_subset Cons.prems(6)] by auto
  show ?case
  proof (cases l)
    case False
    then have same: "bd_seen d' = bd_seen d" using step not_learned_seen by auto
    have "r \<in> set (learned_calls c rs d')" using False step Cons.prems(6) by simp
    then show ?thesis
      by (rule Cons.IH [of d', rotated -2]) (use Cons.prems same in auto)
  next
    case True
    with step have taught: "learn_call c a d = (True, d')" by simp
    note seen = learned_seen [OF taught]
    show ?thesis
    proof (cases "learn_key a = k")
      case True
      with seen Cons.prems(4,5) show ?thesis by (intro late) (auto simp: seen_recently_def)
    next
      case False
      have upd: "map_of (AList.update (learn_key a) (tc_ts a) (bd_seen d)) k = Some t"
        "distinct (List.map fst (AList.update (learn_key a) (tc_ts a) (bd_seen d)))"
        using False Cons.prems(3,4) by (simp_all add: update_conv' distinct_update)
      consider "map_of (bd_seen d') k = Some t" | "LEARN_DEDUP_SEC < tc_ts a - t"
        using prune_seen_map(2) [OF upd(2,1)] seen by auto
      then show ?thesis
      proof cases
        case 1
        from False Cons.prems(6,7) step have "r \<in> set (learned_calls c rs d')"
          by (auto split: if_splits)
        with 1 Cons.prems Cons.IH [of d'] show ?thesis
          using seen prune_seen_map(1) [OF upd(2)] by auto
      qed (auto intro: late)
    qed
  qed
qed simp

text \<open>
  Repeating a call does not train the detector: of the calls with the same caller, tool and
  argument digest in any run with a clock that does not go back, two that are learned lie at least
  ten minutes apart, whatever other calls come between them and however full the memory is.
\<close>

theorem one_lesson_in_ten_minutes:
  assumes "sorted (List.map tc_ts rs)" and "\<forall>r \<in> set rs. 0 < tc_ts r"
    and "distinct (List.map fst (bd_seen d))"
    and "i < j" and "j < length (learned_calls c rs d)"
    and "learn_key (learned_calls c rs d ! i) = learn_key (learned_calls c rs d ! j)"
  shows "600 \<le> tc_ts (learned_calls c rs d ! j) - tc_ts (learned_calls c rs d ! i)"
  using assms
proof (induction rs arbitrary: d i j)
  case (Cons a rs)
  obtain l d' where step: "learn_call c a d = (l, d')" by (cases "learn_call c a d")
  show ?case
  proof (cases l)
    case False
    then have "bd_seen d' = bd_seen d" using step not_learned_seen by auto
    with False step Cons.prems Cons.IH [of d' i j] show ?thesis by auto
  next
    case True
    with step have taught: "learn_call c a d = (True, d')" by simp
    note seen = learned_seen [OF taught]
    have upd: "map_of (AList.update (learn_key a) (tc_ts a) (bd_seen d)) (learn_key a) = Some (tc_ts a)"
      "distinct (List.map fst (AList.update (learn_key a) (tc_ts a) (bd_seen d)))"
      using Cons.prems(3) by (simp_all add: update_conv' distinct_update)
    have d': "distinct (List.map fst (bd_seen d'))" "map_of (bd_seen d') (learn_key a) = Some (tc_ts a)"
      using seen prune_seen_map(1) [OF upd(2), of "tc_ts a"] prune_seen_map(2) [OF upd(2,1), of "tc_ts a"] by (auto simp: LEARN_DEDUP_SEC_def)
    have run: "learned_calls c (a # rs) d = a # learned_calls c rs d'" using step True by simp
    obtain j' where j: "j = Suc j'" using Cons.prems(4) by (cases j) auto
    show ?thesis
    proof (cases i)
      case 0
      have "LEARN_DEDUP_SEC \<le> tc_ts (learned_calls c rs d' ! j') - tc_ts a"
      proof (rule learned_later [OF _ _ d'])
        show "learned_calls c rs d' ! j' \<in> set (learned_calls c rs d')" using Cons.prems(5) run j by simp
      qed (use Cons.prems 0 run j in auto)
      with 0 j run show ?thesis by (simp add: LEARN_DEDUP_SEC_def)
    next
      case (Suc i')
      with Cons.prems run j Cons.IH [OF _ _ d'(1), of i' j'] show ?thesis by auto
    qed
  qed
qed simp

section \<open>The state's invariant\<close>

lemma cnt_total_bump: "distinct (List.map fst c) \<Longrightarrow> cnt_total (bump k c) = Suc (cnt_total c)"
proof -
  have "cnt_total (AList.update k v c) + cnt c k = cnt_total c + v" if "distinct (List.map fst c)" for v
    using that
  proof (induction c)
    case (Cons x c)
    from Cons.prems have "map_of c (fst x) = None" by (simp add: map_of_eq_None_iff)
    then have "cnt c (fst x) = 0" by (simp add: cnt_def)
    with Cons show ?case by (cases x) (auto simp: cnt_total_def cnt_def)
  qed (simp add: cnt_total_def cnt_def)
  then show "distinct (List.map fst c) \<Longrightarrow> cnt_total (bump k c) = Suc (cnt_total c)"
    unfolding bump_def by (metis add.commute add_Suc_right add_left_imp_eq)
qed

lemma bump_distinct: "distinct (List.map fst c) \<Longrightarrow> distinct (List.map fst (bump k c))"
  by (simp add: bump_def distinct_update)

lemma cnt_bump: "cnt (bump k c) k' = (if k' = k then Suc (cnt c k) else cnt c k')"
  by (simp add: bump_def cnt_def update_conv')

lemma bump_at_facts:
  "length (bump_at i xs) = length xs"
  "i < length xs \<Longrightarrow> sum_list (bump_at i xs) = Suc (sum_list xs)"
proof -
  show "length (bump_at i xs) = length xs" by (simp add: bump_at_def)
  assume "i < length xs"
  then show "sum_list (bump_at i xs) = Suc (sum_list xs)"
    using member_le_sum_list [of "xs ! i" xs] by (simp add: bump_at_def sum_list_update)
qed

text \<open>A fingerprint: every sample is counted in one hour, one weekday and one decision.\<close>

definition signature_ok :: "signature \<Rightarrow> bool" where
  "signature_ok s \<longleftrightarrow>
     length (sg_hourly s) = 24 \<and> sum_list (sg_hourly s) = sg_count s \<and>
     length (sg_weekday s) = 7 \<and> sum_list (sg_weekday s) = sg_count s \<and>
     distinct (List.map fst (sg_decisions s)) \<and> cnt_total (sg_decisions s) = sg_count s"

lemma new_signature_ok: "signature_ok new_signature"
  by (simp add: signature_ok_def new_signature_def cnt_total_def sum_list_replicate)

lemma count_minute_keeps:
  "sg_hourly (count_minute t s) = sg_hourly s" "sg_weekday (count_minute t s) = sg_weekday s"
  "sg_count (count_minute t s) = sg_count s" "sg_decisions (count_minute t s) = sg_decisions s"
  by (simp_all add: count_minute_def Let_def)

lemma sig_update_count: "sg_count (sig_update t h w f role src dec dur s) = Suc (sg_count s)"
  by (simp add: sig_update_def Let_def count_minute_keeps)

lemma sig_update_ok:
  assumes "signature_ok s" and "h < 24" and "w < 7" and "dec \<noteq> []"
  shows "signature_ok (sig_update t h w f role src dec dur s)"
  using assms bump_at_facts(2) [of h "sg_hourly s"] bump_at_facts(2) [of w "sg_weekday s"]
  by (simp add: signature_ok_def sig_update_def Let_def count_minute_keeps bump_at_facts(1) bump_text_def
      cnt_total_bump bump_distinct)

lemma utc_ranges: "utc_hour t < 24" "utc_weekday t < 7"
  by (simp_all add: utc_hour_def utc_weekday_def nat_less_iff)

text \<open>The detector: the names that stand for no caller of their own are left out of the last part.\<close>

definition detector_ok :: "detector \<Rightarrow> bool" where
  "detector_ok d \<longleftrightarrow>
     distinct (List.map fst (bd_sigs d)) \<and> (\<forall>(k, s) \<in> set (bd_sigs d). signature_ok s) \<and>
     distinct (List.map fst (bd_seen d)) \<and> length (bd_anomalies d) \<le> ANOMALY_MAX \<and>
     (\<forall>c. length (bd_hist d c) \<le> HISTORY_MAX \<and> distinct (List.map fst (bd_tools d c)) \<and>
          bd_n d c = cnt_total (bd_tools d c)) \<and>
     (\<forall>c name. c \<notin> {[], ''unknown'', GLOBAL_CALLER} \<longrightarrow>
        sg_count (sig_or_new d name c) = cnt (bd_tools d c) name)"

lemma new_detector_ok: "detector_ok new_detector"
  by (simp add: detector_ok_def new_detector_def sig_or_new_def sig_of_def new_signature_def cnt_total_def cnt_def)

lemma bounded_append_length: "length (bounded_append n xs x) \<le> n"
  by (simp add: bounded_append_def Let_def)

lemma learn_sequence_ok: "detector_ok d \<Longrightarrow> detector_ok (learn_sequence r d)"
proof -
  assume ok: "detector_ok d"
  have "length (bd_hist (learn_sequence r d) c) \<le> HISTORY_MAX" for c
  proof (cases "c = tc_caller r")
    case True
    have "bd_hist (learn_sequence r d) (tc_caller r) = dropWhile (\<lambda>(_, t). t < tc_ts r - 3600)
        (bounded_append HISTORY_MAX (bd_hist d (tc_caller r)) (tc_tool r, tc_ts r))"
      by (simp add: learn_sequence_def Let_def)
    then show ?thesis using le_trans [OF length_dropWhile_le bounded_append_length] True by metis
  next
    case False
    then show ?thesis using ok by (simp add: learn_sequence_def Let_def detector_ok_def)
  qed
  with ok show "detector_ok (learn_sequence r d)"
    by (simp add: detector_ok_def learn_sequence_keeps sig_or_new_def sig_of_def)
qed

lemma set_update_subset: "x \<in> set (AList.update k v xs) \<Longrightarrow> x \<in> set xs \<or> x = (k, v)"
  by (induction xs) (auto split: if_splits)

lemma learn_signature_ok:
  assumes "distinct (List.map fst (bd_sigs d)) \<and> (\<forall>(k, s) \<in> set (bd_sigs d). signature_ok s)"
  shows "distinct (List.map fst (bd_sigs (learn_signature c r k d))) \<and>
    (\<forall>(k, s) \<in> set (bd_sigs (learn_signature c r k d)). signature_ok s)"
proof -
  have "signature_ok (sig_or_new d (tc_tool r) k)"
    using assms new_signature_ok by (auto simp: sig_or_new_def sig_of_def split: option.splits dest: map_of_SomeD)
  moreover have "decision_text (tc_decision r) \<noteq> []" by (cases "tc_decision r") simp_all
  ultimately show ?thesis
    using assms set_update_subset by (fastforce simp: learn_signature_def distinct_update sig_update_ok utc_ranges)
qed

lemma learn_signature_count:
  "sg_count (sig_or_new (learn_signature c r k d) name k') =
     (if name = tc_tool r \<and> k' = k then Suc (sg_count (sig_or_new d name k)) else sg_count (sig_or_new d name k'))"
  by (simp add: sig_or_new_def sig_of_def learn_signature_def update_conv' sig_update_count)

lemma learn_signature_same:
  "sig_or_new (d\<lparr>bd_seen := x, bd_tools := y, bd_n := z\<rparr>) name k = sig_or_new d name k"
  "sig_or_new (d\<lparr>bd_seen := x\<rparr>) name k = sig_or_new d name k"
  "sig_or_new (d\<lparr>bd_tools := y, bd_n := z\<rparr>) name k = sig_or_new d name k"
  by (simp_all add: sig_or_new_def sig_of_def)

lemma taught_ok:
  assumes ok: "detector_ok d1"
    and d3: "d3 = learn_signature c r GLOBAL_CALLER (learn_signature c r (or_default (tc_caller r) ''unknown'') (d1\<lparr>bd_seen := seen\<rparr>))"
    and seen: "distinct (List.map fst seen)"
  shows "detector_ok (d3\<lparr>bd_tools := (bd_tools d3)(tc_caller r := bump (tc_tool r) (bd_tools d3 (tc_caller r))),
                         bd_n := (bd_n d3)(tc_caller r := Suc (bd_n d3 (tc_caller r)))\<rparr>)"
proof -
  have "distinct (List.map fst (bd_sigs d3)) \<and> (\<forall>(k, s) \<in> set (bd_sigs d3). signature_ok s)"
    unfolding d3 by (rule learn_signature_ok, rule learn_signature_ok) (use ok in \<open>simp add: detector_ok_def\<close>)
  moreover have rest: "bd_tools d3 = bd_tools d1" "bd_n d3 = bd_n d1" "bd_seen d3 = seen" "bd_hist d3 = bd_hist d1"
    "bd_anomalies d3 = bd_anomalies d1"
    by (simp_all add: d3 learn_signature_keeps)
  moreover have "sg_count (sig_or_new d3 name k) =
      (if name = tc_tool r \<and> k = tc_caller r then Suc (sg_count (sig_or_new d1 name k)) else sg_count (sig_or_new d1 name k))"
    if "k \<notin> {[], ''unknown'', GLOBAL_CALLER}" for name k
    using that by (auto simp: d3 learn_signature_count learn_signature_same or_default_def)
  ultimately show ?thesis
    using ok seen unfolding detector_ok_def
    by (auto simp: learn_signature_same cnt_bump cnt_total_bump bump_distinct)
qed

lemma learn_call_ok: "detector_ok d \<Longrightarrow> detector_ok (snd (learn_call c r d))"
proof -
  assume ok: "detector_ok d"
  note ok1 = learn_sequence_ok [OF ok, of r]
  then have "distinct (List.map fst (prune_seen (tc_ts r) (AList.update (learn_key r) (tc_ts r) (bd_seen (learn_sequence r d)))))"
    by (intro prune_seen_map(1)) (simp add: detector_ok_def distinct_update)
  from taught_ok [OF ok1 refl this, of c] ok1
  show "detector_ok (snd (learn_call c r d))"
    unfolding learn_call_def Let_def by simp
qed

text \<open>A run of the detector: calls observed after their execution, under any configuration, and resets.\<close>

datatype det_event = Observed det_config tool_record "sig_report option" | Reset

fun det_step :: "det_event \<Rightarrow> detector \<Rightarrow> detector" where
  "det_step (Observed c r rep) d = snd (observe_post_exec c r rep d)"
| "det_step Reset d = det_reset d"

lemma record_anomaly_ok: "detector_ok d \<Longrightarrow> detector_ok (record_anomaly c r p d)"
  using bounded_append_length
  by (simp add: detector_ok_def record_anomaly_def sig_or_new_def sig_of_def)

lemma det_step_ok: "detector_ok d \<Longrightarrow> detector_ok (det_step e d)"
proof (induction e)
  case (Observed c r rep)
  then show ?case using learn_call_ok [of d c r]
    by (cases "learn_call c r d") (auto simp: observe_post_exec_def record_anomaly_ok split: option.splits)
qed (simp add: det_reset_def new_detector_ok)

text \<open>
  C36. The detector's state is consistent after every run: the hours, the weekdays and the decisions
  of a fingerprint each add up to its number of samples; the fingerprint of a caller counts exactly
  the calls of the tool the caller's histogram counts, and the histogram adds up to the caller's
  total; the histories hold at most 80 calls and the list of anomalies at most 200.
\<close>

theorem detector_invariant: "detector_ok (fold det_step es new_detector)"
proof -
  have "detector_ok d \<Longrightarrow> detector_ok (fold det_step es d)" for d
    by (induction es arbitrary: d) (simp_all add: det_step_ok)
  then show ?thesis using new_detector_ok by blast
qed

section \<open>What the learning lets through\<close>

text \<open>A caller that calls itself \<open>*\<close> feeds the fingerprint of the tool twice with every call.\<close>

lemma learned_fingerprints:
  assumes "learn_call c r d = (True, d')" and "tc_caller r \<noteq> []"
  shows "sg_count (sig_or_new d' (tc_tool r) k) =
    sg_count (sig_or_new d (tc_tool r) k) + (if k = tc_caller r then 1 else 0) + (if k = GLOBAL_CALLER then 1 else 0)"
proof -
  have "sig_or_new (learn_sequence r d) n k' = sig_or_new d n k'" for n k'
    by (simp add: sig_or_new_def sig_of_def learn_sequence_keeps)
  with assms show ?thesis
    unfolding learn_call_def Let_def
    by (auto simp: learn_signature_count learn_signature_same or_default_def split: if_splits)
qed

theorem star_caller_counts_twice:
  assumes "learn_call c r d = (True, d')" and "tc_caller r = GLOBAL_CALLER"
  shows "sg_count (sig_or_new d' (tc_tool r) GLOBAL_CALLER) = sg_count (sig_or_new d (tc_tool r) GLOBAL_CALLER) + 2"
  using learned_fingerprints [OF assms(1)] assms(2) by (simp add: GLOBAL_CALLER_def)

text \<open>
  A call that only waits for its confirmation is learned: from then on its caller is known to
  the tool, and the check of \<open>new_caller_is_anomalous\<close> no longer applies to it, whether a
  human ever confirms the call or refuses it.
\<close>

theorem unconfirmed_call_makes_caller_known:
  assumes "should_learn r" and "\<not> seen_recently r d" and "tc_decision r = RequireConfirmation"
    and "tc_caller r \<noteq> []" and "r' = r\<lparr>tc_ts := t, tc_args := a, tc_digest := x\<rparr>" and "sg_roles g = []" and "sg_sources g = []"
    and "0 < min_n" and "observe_post_exec c r None d = (None, d')" and "det_enabled c"
  shows "tool_callers_score d' r' g min_n = 0"
proof -
  obtain d1 where d1: "learn_call c r d = (True, d1)"
    using assms(1,2) by (auto simp: learn_call_def Let_def seen_recently_def learn_sequence_keeps)
  then have "d' = d1" using assms(9,10) by (simp add: observe_post_exec_def)
  with learned_fingerprints [OF d1 assms(4), of "tc_caller r"] have "0 < sg_count (sig_or_new d' (tc_tool r) (tc_caller r))"
    by simp
  then have "(case sig_of d' (tc_tool r) (tc_caller r) of Some s \<Rightarrow> sg_count s | None \<Rightarrow> 0) \<noteq> 0"
    by (auto simp: sig_or_new_def new_signature_def split: option.splits)
  then show ?thesis
    using assms(5-8) by (simp add: tool_callers_score_def role_score_def cnt_total_def)
qed

section \<open>Witnesses\<close>

definition demo_sig_env :: sig_env where
  "demo_sig_env = \<lparr>se_sqrt = id, se_ln = (\<lambda>x. x - 1), se_float = (\<lambda>_. None), se_hash = id, se_round = id\<rparr>"

definition demo_dc :: "string \<Rightarrow> det_config" where
  "demo_dc m = \<lparr>dc_settings = None,
     dc_over = \<lparr>ov_enabled = None, ov_min_samples = Some 1, ov_warn = None, ov_mode = Some m, ov_weights = None\<rparr>,
     dc_sig = demo_sig_env\<rparr>"

definition demo_rec :: "string \<Rightarrow> string \<Rightarrow> time \<Rightarrow> decision_status \<Rightarrow> tool_record" where
  "demo_rec who how t dec =
     \<lparr>tc_ts = t, tc_tool = ''alert_only'', tc_caller = who, tc_role = ''analyst'', tc_source = ''mcp_guard'',
      tc_session = [], tc_trace = [], tc_event = 0, tc_args = [(''message'', PyStr ''hi'')], tc_digest = ''d'',
      tc_decision = dec, tc_status = None, tc_duration = 0, tc_match = how\<rparr>"

theorem escalation_needs_evidence_witness:
  "det_mode_of (demo_dc ''deny'') \<noteq> Shadow \<and>
   sr_anomaly (score_call (demo_dc ''deny'') new_detector (demo_rec ''bot'' ''fuzzy'' 1000 Allow))"
proof -
  have "sr_action (score_call (demo_dc ''deny'') new_detector (demo_rec ''bot'' ''fuzzy'' 1000 Allow)) \<noteq> Logged"
    by code_simp
  from escalation_needs_evidence [OF this] show ?thesis by simp
qed

theorem score_is_weighted_mean_witness:
  "weighted_score DEFAULT_WEIGHTS (dimension_scores (demo_dc ''deny'') new_detector (demo_rec ''bot'' ''fuzzy'' 1000 Allow)) \<le> 1"
proof -
  let ?dims = "dimension_scores (demo_dc ''deny'') new_detector (demo_rec ''bot'' ''fuzzy'' 1000 Allow)"
  have "\<forall>n. 0 \<le> weight_of DEFAULT_WEIGHTS n" by (simp add: weight_of_def DEFAULT_WEIGHTS_def)
  moreover have "0 < (\<Sum>(n, v)\<leftarrow>?dims. weight_of DEFAULT_WEIGHTS n)" by code_simp
  ultimately have "weighted_score DEFAULT_WEIGHTS ?dims \<le> max_dim ?dims" "max_dim ?dims \<le> 1"
    using score_is_weighted_mean [OF _ refl] by blast+
  then show ?thesis by simp
qed

definition known_tool :: detector where
  "known_tool = new_detector\<lparr>bd_sigs := [((''alert_only'', ''*''), new_signature\<lparr>sg_count := 5\<rparr>)]\<rparr>"

theorem new_caller_is_anomalous_witness:
  "sr_action (score_call (demo_dc ''enforce'') known_tool (demo_rec ''bot'' ''exact'' 1000 Allow)) \<noteq> Logged"
proof -
  have "sig_of known_tool (tc_tool (demo_rec ''bot'' ''exact'' 1000 Allow)) GLOBAL_CALLER = Some (new_signature\<lparr>sg_count := 5\<rparr>)"
    "min_samples (demo_dc ''enforce'') \<le> sg_count (new_signature\<lparr>sg_count := 5\<rparr>)"
    "sig_of known_tool (tc_tool (demo_rec ''bot'' ''exact'' 1000 Allow)) (tc_caller (demo_rec ''bot'' ''exact'' 1000 Allow)) = None"
    "det_mode_of (demo_dc ''enforce'') \<noteq> Shadow" "confirm_threshold (demo_dc ''enforce'') \<le> 85 / 100"
    by (simp_all add: sig_of_def known_tool_def demo_rec_def GLOBAL_CALLER_def min_samples_def demo_dc_def chosen_def
        det_mode_of_def canonical_mode_def MODE_ALIASES_def confirm_threshold_def) code_simp
  then show ?thesis using new_caller_is_anomalous by blast
qed

theorem refused_call_teaches_nothing_witness:
  "bd_sigs (snd (observe_post_exec (demo_dc ''deny'') (demo_rec ''bot'' ''exact'' 1000 Deny) None known_tool)) = bd_sigs known_tool"
  using refused_call_teaches_nothing [OF _ refl, of "demo_rec ''bot'' ''exact'' 1000 Deny"]
  by (simp add: demo_rec_def)

theorem one_lesson_in_ten_minutes_witness:
  "let run = learned_calls (demo_dc ''deny'') [demo_rec ''bot'' ''exact'' 1000 Allow, demo_rec ''bot'' ''exact'' 1100 Allow,
       demo_rec ''bot'' ''exact'' 1700 Allow] new_detector
   in length run = 2 \<and> 600 \<le> tc_ts (run ! 1) - tc_ts (run ! 0)"
proof -
  let ?rs = "[demo_rec ''bot'' ''exact'' 1000 Allow, demo_rec ''bot'' ''exact'' 1100 Allow, demo_rec ''bot'' ''exact'' 1700 Allow]"
  let ?run = "learned_calls (demo_dc ''deny'') ?rs new_detector"
  have run: "length ?run = 2" "learn_key (?run ! 0) = learn_key (?run ! 1)" by code_simp+
  have "600 \<le> tc_ts (?run ! 1) - tc_ts (?run ! 0)"
    by (rule one_lesson_in_ten_minutes) (use run in \<open>auto simp: demo_rec_def new_detector_def\<close>)
  with run show ?thesis by (simp add: Let_def)
qed

theorem unconfirmed_call_makes_caller_known_witness:
  "tool_callers_score (snd (observe_post_exec (demo_dc ''enforce'') (demo_rec ''bot'' ''exact'' 1000 RequireConfirmation) None known_tool))
     (demo_rec ''bot'' ''exact'' 1100 RequireConfirmation) (new_signature\<lparr>sg_count := 5\<rparr>) 1 = 0"
proof -
  let ?r = "demo_rec ''bot'' ''exact'' 1000 RequireConfirmation"
  have r: "should_learn ?r" "\<not> seen_recently ?r known_tool" "tc_decision ?r = RequireConfirmation" "tc_caller ?r \<noteq> []"
    "demo_rec ''bot'' ''exact'' 1100 RequireConfirmation = ?r\<lparr>tc_ts := 1100, tc_args := tc_args ?r, tc_digest := tc_digest ?r\<rparr>"
    by (simp_all add: should_learn_def demo_rec_def seen_recently_def known_tool_def new_detector_def)
  have c: "det_enabled (demo_dc ''enforce'')" by (simp add: det_enabled_def demo_dc_def chosen_def)
  obtain d' where d': "observe_post_exec (demo_dc ''enforce'') ?r None known_tool = (None, d')"
    by (cases "learn_call (demo_dc ''enforce'') ?r known_tool") (simp add: observe_post_exec_def c)
  have "sg_roles (new_signature\<lparr>sg_count := 5\<rparr>) = []" "sg_sources (new_signature\<lparr>sg_count := 5\<rparr>) = []"
    by (simp_all add: new_signature_def)
  from unconfirmed_call_makes_caller_known [OF r this _ d' c, of 1] show ?thesis by (simp add: d')
qed

end
