(* ===== verification/McpGuard.thy ===== *)
theory McpGuard
  imports BehaviorDetector
begin

text \<open>
  The gateway every tool call passes (\<open>src/backend/mcp_guard/guard_server.py\<close>): the four
  checks, the behaviour fingerprint, which may only raise the decision, then the execution, the
  approval ticket or the refusal, and the lesson for the detector.  The trace context, the clock,
  the uuid of a ticket, the conversions of Pydantic, the JSON text of the arguments and the display
  texts (reasons) are parameters (\<open>guard_env\<close>).  The audit trail, the call logger and the
  published events only receive copies and are left out.  A call is one step: the code runs calls on
  several threads, but between its lock-protected parts it touches only its own record.
\<close>

section \<open>Requests, decisions and state\<close>

record tool_request =
  rq_tool :: string
  rq_args :: pydict
  rq_role :: string
  rq_reason :: string
  rq_caller :: string
  rq_source :: string
  rq_session :: string
  rq_trace :: string
  rq_event :: int
  rq_match :: string

record guard_decision =
  gd_status :: decision_status
  gd_risk :: string
  gd_checks :: "(string \<times> bool) list"
  gd_args :: "pydict option"

record trace_context =
  cx_caller :: string
  cx_session :: string
  cx_trace :: string
  cx_event :: int

record guard_env =
  ge_pd_int :: "pyval \<Rightarrow> int option"
  ge_json :: json_env
  ge_det :: det_config
  ge_trace :: trace_context
  ge_now :: time
  ge_local :: string
  ge_uid :: string
  ge_text :: "tool_request \<Rightarrow> guard_decision \<Rightarrow> sig_report option \<Rightarrow> string"
  ge_reasons :: "sig_report \<Rightarrow> string list"

record guard_state =
  gs_det :: detector
  gs_queue :: mcp_queue

definition new_guard :: guard_state where
  "new_guard = \<lparr>gs_det = new_detector, gs_queue = []\<rparr>"

datatype execution = Ran tool_result | Waiting string string | NotRun

record guard_response =
  rs_decision :: decision_status
  rs_risk :: string
  rs_checks :: "(string \<times> bool) list"
  rs_execution :: execution
  rs_signature :: "sig_report option"
  rs_ticket :: "string option"

section \<open>The checks\<close>

definition refused :: "(string \<times> bool) list \<Rightarrow> guard_decision" where
  "refused checks = \<lparr>gd_status = Deny, gd_risk = [], gd_checks = checks, gd_args = None\<rparr>"

text \<open>The decision of the first four layers, with the normalised arguments.\<close>

definition static_decision :: "guard_env \<Rightarrow> tool_request \<Rightarrow> guard_decision" where
  "static_decision env rq =
     (case get_tool (rq_tool rq) of
        None \<Rightarrow> refused [(''registry'', False)]
      | Some t \<Rightarrow>
          if permission_check (rq_role rq) (rq_tool rq) \<noteq> RoleOk
          then refused [(''registry'', True), (''permission'', False)]
          else (case validate_args (ge_pd_int env) (rq_tool rq) (rq_args rq) of
                  ArgsOk d \<Rightarrow>
                    (let dec = fst (evaluate DEFAULT_RULES (rq_tool rq) (ti_risk t) d (rq_role rq)) in
                     \<lparr>gd_status = dec, gd_risk = ti_risk t,
                      gd_checks = [(''registry'', True), (''permission'', True), (''params'', True), (''policy'', dec \<noteq> Deny)],
                      gd_args = Some d\<rparr>)
                | _ \<Rightarrow> refused [(''registry'', True), (''permission'', True), (''params'', False)]))"

definition identity_of :: "guard_env \<Rightarrow> tool_request \<Rightarrow> tool_request" where
  "identity_of env rq =
     (let cx = ge_trace env in
      rq\<lparr>rq_caller := or_default (or_default (rq_caller rq) (cx_caller cx)) ''unknown'',
         rq_source := or_default (rq_source rq) ''mcp_guard'',
         rq_session := or_default (rq_session rq) (cx_session cx),
         rq_trace := or_default (rq_trace rq) (cx_trace cx),
         rq_event := (if rq_event rq = 0 then cx_event cx else rq_event rq),
         rq_match := or_default (rq_match rq) ''exact''\<rparr>)"

definition make_record :: "guard_env \<Rightarrow> tool_request \<Rightarrow> guard_decision \<Rightarrow> tool_record" where
  "make_record env rq gd =
     (let who = identity_of env rq in
      new_record (ge_json env) (ge_now env) (rq_role rq) (rq_tool rq)
        (case gd_args gd of Some d \<Rightarrow> d | None \<Rightarrow> rq_args rq) (gd_status gd)
        (rq_caller who) (rq_source who) (rq_session who) (rq_trace who) (rq_event who) (rq_match who))"

definition attach_signature_check :: "sig_report option \<Rightarrow> guard_decision \<Rightarrow> guard_decision" where
  "attach_signature_check rep gd =
     (case rep of
        None \<Rightarrow> gd
      | Some p \<Rightarrow> gd\<lparr>gd_checks := gd_checks gd @ [(''behavior_signature'', \<not> sr_anomaly p)]\<rparr>)"

definition apply_enforcement :: "sig_report option \<Rightarrow> guard_decision \<Rightarrow> guard_decision" where
  "apply_enforcement rep gd =
     (case rep of
        None \<Rightarrow> gd
      | Some p \<Rightarrow>
          if sr_action p = Logged then gd
          else (let desired = (if sr_action p = AskDeny then Deny else RequireConfirmation) in
                if decision_rank desired \<le> decision_rank (gd_status gd) then gd
                else gd\<lparr>gd_status := desired\<rparr>))"

definition ticket_trigger :: "sig_report option \<Rightarrow> string" where
  "ticket_trigger rep =
     (case rep of
        Some p \<Rightarrow> if sr_action p \<noteq> Logged then ''behavior_signature'' else ''policy''
      | None \<Rightarrow> ''policy'')"

definition enqueue_approval ::
  "guard_env \<Rightarrow> tool_request \<Rightarrow> guard_decision \<Rightarrow> tool_record \<Rightarrow> sig_report option \<Rightarrow> mcp_queue \<Rightarrow> mcp_ticket \<times> mcp_queue"
where
  "enqueue_approval env rq gd r rep q =
     create_ticket (ge_uid env) (ge_local env) (rq_tool rq) (tc_args r) (rq_role rq) (rq_reason rq)
       (ge_text env rq gd rep) (ticket_trigger rep)
       (case rep of Some p \<Rightarrow> sr_score p | None \<Rightarrow> None)
       (case rep of Some p \<Rightarrow> ge_reasons env p | None \<Rightarrow> []) q"

section \<open>The call\<close>

text \<open>What follows from the decision: the execution, and the queue when a ticket is made.\<close>

definition carry_out ::
  "guard_env \<Rightarrow> tool_request \<Rightarrow> guard_decision \<Rightarrow> tool_record \<Rightarrow> sig_report option \<Rightarrow> mcp_queue \<Rightarrow> execution \<times> mcp_queue"
where
  "carry_out env rq gd r rep q =
     (case gd_status gd of
        Allow \<Rightarrow> (Ran (tool_execute (rq_tool rq) (case gd_args gd of Some d \<Rightarrow> d | None \<Rightarrow> [])), q)
      | RequireConfirmation \<Rightarrow>
          (case enqueue_approval env rq gd r rep q of (t, q') \<Rightarrow> (Waiting (ticket_id t) (trigger t), q'))
      | Deny \<Rightarrow> (NotRun, q))"

fun execution_status :: "execution \<Rightarrow> string option" where
  "execution_status (Ran res) = Some (tr_status res)"
| "execution_status (Waiting i trig) = Some ''pending''"
| "execution_status NotRun = None"

fun execution_ticket :: "execution \<Rightarrow> string option" where
  "execution_ticket (Waiting i trig) = Some i"
| "execution_ticket _ = None"

definition finish_call :: "guard_env \<Rightarrow> tool_request \<Rightarrow> guard_decision \<Rightarrow> guard_state \<Rightarrow> guard_response \<times> guard_state" where
  "finish_call env rq gd0 st =
     (let r = make_record env rq gd0;
          rep = observe_pre_exec (ge_det env) (gs_det st) r;
          gd = apply_enforcement rep (attach_signature_check rep gd0)
      in case carry_out env rq gd r rep (gs_queue st) of (ex, q) \<Rightarrow>
         (let r' = r\<lparr>tc_decision := gd_status gd, tc_status := execution_status ex\<rparr>
          in case observe_post_exec (ge_det env) r' rep (gs_det st) of (rep', d) \<Rightarrow>
             (\<lparr>rs_decision = gd_status gd, rs_risk = gd_risk gd, rs_checks = gd_checks gd, rs_execution = ex,
               rs_signature = rep', rs_ticket = execution_ticket ex\<rparr>,
              \<lparr>gs_det = d, gs_queue = q\<rparr>)))"

definition call_tool :: "guard_env \<Rightarrow> tool_request \<Rightarrow> guard_state \<Rightarrow> guard_response \<times> guard_state" where
  "call_tool env rq st = finish_call env rq (static_decision env rq) st"

text \<open>A run: calls, operations on the queue, and resets of the detector.\<close>

datatype guard_event = Call guard_env tool_request | QueueOp mcp_event | ResetDetector

fun guard_step :: "guard_state \<Rightarrow> guard_event \<Rightarrow> guard_response option \<times> guard_state" where
  "guard_step st (Call env rq) = (case call_tool env rq st of (rs, st') \<Rightarrow> (Some rs, st'))"
| "guard_step st (QueueOp e) = (None, st\<lparr>gs_queue := mcp_step (gs_queue st) e\<rparr>)"
| "guard_step st ResetDetector = (None, st\<lparr>gs_det := det_reset (gs_det st)\<rparr>)"

fun guard_run :: "guard_state \<Rightarrow> guard_event list \<Rightarrow> (guard_event \<times> guard_response) list \<times> guard_state" where
  "guard_run st [] = ([], st)"
| "guard_run st (e # es) =
     (case guard_step st e of (rs, st1) \<Rightarrow> case guard_run st1 es of (rss, st2) \<Rightarrow>
        ((case rs of Some x \<Rightarrow> [(e, x)] | None \<Rightarrow> []) @ rss, st2))"

section \<open>Lemmas\<close>

lemma enforcement_status:
  "gd_status (apply_enforcement rep gd) =
     (case rep of None \<Rightarrow> gd_status gd
      | Some p \<Rightarrow>
          (case sr_action p of Logged \<Rightarrow> gd_status gd | AskDeny \<Rightarrow> Deny
           | AskConfirm \<Rightarrow> if gd_status gd = Allow then RequireConfirmation else gd_status gd))"
  by (cases "gd_status gd") (auto simp: apply_enforcement_def Let_def split: option.splits sig_action.splits)

lemma enforcement_keeps:
  "gd_args (apply_enforcement rep gd) = gd_args gd" "gd_risk (apply_enforcement rep gd) = gd_risk gd"
  "gd_checks (apply_enforcement rep gd) = gd_checks gd"
  by (auto simp: apply_enforcement_def Let_def split: option.splits)

lemma attach_keeps:
  "gd_args (attach_signature_check rep gd) = gd_args gd" "gd_status (attach_signature_check rep gd) = gd_status gd"
  "gd_risk (attach_signature_check rep gd) = gd_risk gd"
  by (auto simp: attach_signature_check_def split: option.splits)

lemma call_result:
  assumes "call_tool env rq st = (rs, st')"
  obtains rep gd where
    "rep = observe_pre_exec (ge_det env) (gs_det st) (make_record env rq (static_decision env rq))"
    "gd = apply_enforcement rep (attach_signature_check rep (static_decision env rq))"
    "rs_decision rs = gd_status gd"
    "(rs_execution rs, gs_queue st') =
       carry_out env rq gd (make_record env rq (static_decision env rq)) rep (gs_queue st)"
    "rs_ticket rs = execution_ticket (rs_execution rs)"
  using assms unfolding call_tool_def finish_call_def Let_def by (auto split: prod.splits)

lemma static_allows:
  assumes "gd_status (static_decision env rq) \<noteq> Deny"
  obtains t d where "get_tool (rq_tool rq) = Some t" "permission_check (rq_role rq) (rq_tool rq) = RoleOk"
    "validate_args (ge_pd_int env) (rq_tool rq) (rq_args rq) = ArgsOk d"
    "gd_args (static_decision env rq) = Some d"
    "gd_status (static_decision env rq) =
       (if rq_tool rq \<in> {''rate_limit'', ''alert_only'', ''vulnerability_scan''} then Allow else RequireConfirmation)"
  using assms default_decision unfolding static_decision_def refused_def Let_def
  by (auto split: option.splits if_splits arg_check.splits)

section \<open>What a call may do\<close>

lemma validated_call_succeeds:
  assumes "validate_args pd n d = ArgsOk d'" and "get_tool n = Some t"
  shows "tr_status (tool_execute n d') = ''success''"
proof -
  obtain fs where fs: "arg_model pd n = Some fs" using assms(1) by (auto simp: validate_args_def split: option.splits)
  have keys: "fst ` set d' = fst ` set fs" using validated_fields(1) [OF assms(1) fs] by (metis list.set_map)
  then have dom: "map_of d' k \<noteq> None" if "k \<in> fst ` set fs" for k using that by (simp add: map_of_eq_None_iff)
  show ?thesis
    using get_tool_cases [OF assms(2)] fs dom [of "''ip''"] dom [of "''host''"]
    by (auto simp: tool_execute_def arg_model_def PLATFORM_TOOLS_def tool_def tool_ok_def split: if_splits option.splits)
qed

text \<open>
  C10. A tool runs only for a call every layer allows: the tool is registered, the role may call it,
  its arguments pass the model, it is one of the three tools the rules allow without a human, and
  the detector asks for nothing; it runs on the normalised arguments and succeeds, and no ticket is
  made.
\<close>

theorem tool_runs_only_if_allowed:
  assumes "call_tool env rq st = (rs, st')" and "rs_execution rs = Ran res"
  shows "\<exists>d. validate_args (ge_pd_int env) (rq_tool rq) (rq_args rq) = ArgsOk d \<and>
    permission_check (rq_role rq) (rq_tool rq) = RoleOk \<and>
    rq_tool rq \<in> {''rate_limit'', ''alert_only'', ''vulnerability_scan''} \<and>
    res = tool_execute (rq_tool rq) d \<and> tr_status res = ''success'' \<and>
    rs_decision rs = Allow \<and> gs_queue st' = gs_queue st \<and>
    (\<forall>p. observe_pre_exec (ge_det env) (gs_det st) (make_record env rq (static_decision env rq)) = Some p
       \<longrightarrow> sr_action p = Logged)"
proof -
  obtain rep gd where
    rep: "rep = observe_pre_exec (ge_det env) (gs_det st) (make_record env rq (static_decision env rq))"
    and gd: "gd = apply_enforcement rep (attach_signature_check rep (static_decision env rq))"
    and dec: "rs_decision rs = gd_status gd"
    and ex: "(rs_execution rs, gs_queue st') =
      carry_out env rq gd (make_record env rq (static_decision env rq)) rep (gs_queue st)"
    using assms(1) by (rule call_result)
  have allow: "gd_status gd = Allow"
    using ex assms(2) by (cases "gd_status gd") (auto simp: carry_out_def split: prod.splits)
  then have static: "gd_status (static_decision env rq) = Allow"
    and quiet: "\<forall>p. rep = Some p \<longrightarrow> sr_action p = Logged"
    by (auto simp: gd enforcement_status attach_keeps split: option.splits sig_action.splits if_splits)
  from static obtain t d where *: "get_tool (rq_tool rq) = Some t" "permission_check (rq_role rq) (rq_tool rq) = RoleOk"
    "validate_args (ge_pd_int env) (rq_tool rq) (rq_args rq) = ArgsOk d"
    "gd_args (static_decision env rq) = Some d"
    "rq_tool rq \<in> {''rate_limit'', ''alert_only'', ''vulnerability_scan''}"
    by (rule_tac static_allows [of env rq]) (auto split: if_splits)
  have "gd_args gd = Some d" using *(4) by (simp add: gd enforcement_keeps attach_keeps)
  then have "res = tool_execute (rq_tool rq) d" "gs_queue st' = gs_queue st"
    using ex allow assms(2) by (auto simp: carry_out_def)
  then show ?thesis
    using * quiet allow dec rep validated_call_succeeds [OF *(3,1)] by auto
qed

text \<open>
  C11. The detector may only raise a decision: the final decision is never below that of the four
  checks, and it differs from it only when the detector is enabled, not in shadow mode, and its
  report asks for exactly the new decision.
\<close>

theorem detector_only_raises:
  assumes "call_tool env rq st = (rs, st')"
  shows "decision_rank (gd_status (static_decision env rq)) \<le> decision_rank (rs_decision rs) \<and>
    (rs_decision rs = gd_status (static_decision env rq) \<or>
     (det_enabled (ge_det env) \<and> det_mode_of (ge_det env) \<noteq> Shadow \<and>
      sr_action (score_call (ge_det env) (gs_det st) (make_record env rq (static_decision env rq))) =
        (if rs_decision rs = Deny then AskDeny else AskConfirm)))"
proof -
  obtain rep gd where
    rep: "rep = observe_pre_exec (ge_det env) (gs_det st) (make_record env rq (static_decision env rq))"
    and gd: "gd = apply_enforcement rep (attach_signature_check rep (static_decision env rq))"
    and dec: "rs_decision rs = gd_status gd"
    using assms by (rule call_result)
  let ?p = "score_call (ge_det env) (gs_det st) (make_record env rq (static_decision env rq))"
  have mode: "det_mode_of (ge_det env) \<noteq> Shadow" if "sr_action ?p \<noteq> Logged"
    using that by (auto simp: score_call_def Let_def action_for_def split: if_splits)
  show ?thesis
  proof (cases rep)
    case None
    then show ?thesis by (simp add: dec gd enforcement_status attach_keeps)
  next
    case (Some p)
    then have p: "p = ?p" and on: "det_enabled (ge_det env)"
      using rep by (auto simp: observe_pre_exec_def split: if_splits)
    show ?thesis
      using mode on Some p
      by (cases "sr_action p"; cases "gd_status (static_decision env rq)")
        (auto simp: dec gd enforcement_status attach_keeps)
  qed
qed

text \<open>
  A call that needs a confirmation runs nothing: it appends one pending ticket with the tool,
  the role and the sanitised arguments, whose id the response carries, and leaves the other tickets
  as they are.
\<close>

theorem confirmation_makes_one_ticket:
  assumes "call_tool env rq st = (rs, st')" and "rs_decision rs = RequireConfirmation"
  shows "\<exists>t d. gs_queue st' = gs_queue st @ [t] \<and> mcp_status t = Pending \<and> tool_name t = rq_tool rq \<and>
    user_role t = rq_role rq \<and> validate_args (ge_pd_int env) (rq_tool rq) (rq_args rq) = ArgsOk d \<and>
    arguments t = sanitize_args (ge_json env) d \<and> rs_ticket rs = Some (ticket_id t) \<and>
    rs_execution rs = Waiting (ticket_id t) (trigger t)"
proof -
  obtain rep gd where
    gd: "gd = apply_enforcement rep (attach_signature_check rep (static_decision env rq))"
    and dec: "rs_decision rs = gd_status gd"
    and ex: "(rs_execution rs, gs_queue st') =
      carry_out env rq gd (make_record env rq (static_decision env rq)) rep (gs_queue st)"
    and tk: "rs_ticket rs = execution_ticket (rs_execution rs)"
    using assms(1) by (rule call_result)
  have "gd_status (static_decision env rq) \<noteq> Deny"
    using assms(2) dec by (auto simp: gd enforcement_status attach_keeps split: option.splits sig_action.splits if_splits)
  then obtain d where d: "validate_args (ge_pd_int env) (rq_tool rq) (rq_args rq) = ArgsOk d"
    "gd_args (static_decision env rq) = Some d"
    by (rule static_allows)
  then have "tc_args (make_record env rq (static_decision env rq)) = sanitize_args (ge_json env) d"
    by (simp add: make_record_def new_record_def sanitize_record_def Let_def)
  with ex tk assms(2) dec d(1) show ?thesis
    by (auto simp: carry_out_def enqueue_approval_def create_ticket_def Let_def)
qed

text \<open>
  In any run of the gateway, whatever tickets are approved in it, the tools that block an
  address, isolate a host or end a process never run: only the three tools the rules allow do.
\<close>

theorem containment_tools_never_run:
  assumes "(Call env rq, rs) \<in> set (fst (guard_run st es))" and "rs_execution rs = Ran res"
  shows "rq_tool rq \<in> {''rate_limit'', ''alert_only'', ''vulnerability_scan''}"
  using assms
proof (induction es arbitrary: st)
  case (Cons e es)
  obtain r st1 where step: "guard_step st e = (r, st1)" by (cases "guard_step st e")
  obtain rss st2 where rest: "guard_run st1 es = (rss, st2)" by (cases "guard_run st1 es")
  from Cons.prems(1) step rest consider "r = Some rs" "e = Call env rq" | "(Call env rq, rs) \<in> set rss"
    by (auto split: option.splits)
  then show ?case
  proof cases
    case 1
    with step obtain st' where "call_tool env rq st = (rs, st')" by (auto split: prod.splits)
    then show ?thesis using tool_runs_only_if_allowed Cons.prems(2) by blast
  next
    case 2
    with Cons.IH [of st1] Cons.prems(2) rest show ?thesis by simp
  qed
qed simp

text \<open>
  A caller that a tool with an established baseline has not seen does not get through on its
  own: unless the detector is off, in shadow mode or configured above 0.85, its call is refused or
  waits for a confirmation, and no tool runs.
\<close>

theorem new_caller_never_runs:
  assumes call: "call_tool env rq st = (rs, st')" and r: "r = make_record env rq (static_decision env rq)"
    and on: "det_enabled (ge_det env)" and mode: "det_mode_of (ge_det env) \<noteq> Shadow"
    and thr: "confirm_threshold (ge_det env) \<le> 85 / 100"
    and base: "sig_of (gs_det st) (tc_tool r) GLOBAL_CALLER = Some g" "min_samples (ge_det env) \<le> sg_count g"
    and some: "0 < min_samples (ge_det env)"
    and new: "sig_of (gs_det st) (tc_tool r) (tc_caller r) = None"
  shows "rs_decision rs \<noteq> Allow \<and> (\<forall>res. rs_execution rs \<noteq> Ran res)"
proof -
  have asks: "sr_action (score_call (ge_det env) (gs_det st) r) \<noteq> Logged"
    using new_caller_is_anomalous [OF base new mode thr] by blast
  have no_fault: "\<not> score_raises (ge_det env) (gs_det st) r" using some by (simp add: score_raises_def)
  have runs: "rs_execution rs \<noteq> Ran res" for res
  proof
    assume "rs_execution rs = Ran res"
    from tool_runs_only_if_allowed [OF call this] on asks no_fault show False
      unfolding r observe_pre_exec_def by auto
  qed
  obtain rep gd where
    "rep = observe_pre_exec (ge_det env) (gs_det st) r"
    "gd = apply_enforcement rep (attach_signature_check rep (static_decision env rq))" "rs_decision rs = gd_status gd"
    using call unfolding r by (rule call_result)
  with on asks no_fault have "rs_decision rs \<noteq> Allow"
    by (auto simp: observe_pre_exec_def enforcement_status attach_keeps split: sig_action.splits)
  with runs show ?thesis by blast
qed

section \<open>The gateway and its queue\<close>

text \<open>The event of the queue a call stands for, and those of a run.\<close>

definition ticket_event :: "guard_env \<Rightarrow> tool_request \<Rightarrow> guard_state \<Rightarrow> mcp_event option" where
  "ticket_event env rq st =
     (let r = make_record env rq (static_decision env rq); rep = observe_pre_exec (ge_det env) (gs_det st) r;
          gd = apply_enforcement rep (attach_signature_check rep (static_decision env rq))
      in if gd_status gd = RequireConfirmation
         then Some (Create (ge_uid env) (ge_local env) (rq_tool rq) (tc_args r) (rq_role rq) (rq_reason rq)
                      (ge_text env rq gd rep) (ticket_trigger rep)
                      (case rep of Some p \<Rightarrow> sr_score p | None \<Rightarrow> None)
                      (case rep of Some p \<Rightarrow> ge_reasons env p | None \<Rightarrow> []))
         else None)"

fun queue_events :: "guard_state \<Rightarrow> guard_event list \<Rightarrow> mcp_event list" where
  "queue_events st [] = []"
| "queue_events st (e # es) =
     (case e of Call env rq \<Rightarrow> (case ticket_event env rq st of Some x \<Rightarrow> [x] | None \<Rightarrow> [])
      | QueueOp x \<Rightarrow> [x] | ResetDetector \<Rightarrow> []) @ queue_events (snd (guard_step st e)) es"

lemma call_queue:
  "gs_queue (snd (call_tool env rq st)) = foldl mcp_step (gs_queue st) (case ticket_event env rq st of Some x \<Rightarrow> [x] | None \<Rightarrow> [])"
  unfolding call_tool_def finish_call_def ticket_event_def Let_def carry_out_def enqueue_approval_def
  by (auto split: prod.splits decision_status.splits)

text \<open>
  The gateway refines the approval queue: after any run its queue is the one the queue's own
  operations leave when they are run on the tickets of its calls and the decisions in between, in
  their order.
\<close>

theorem guard_refines_queue:
  "gs_queue (snd (guard_run st es)) = foldl mcp_step (gs_queue st) (queue_events st es)"
proof (induction es arbitrary: st)
  case (Cons e es)
  have "gs_queue (snd (guard_step st e)) = foldl mcp_step (gs_queue st)
      (case e of Call env rq \<Rightarrow> (case ticket_event env rq st of Some x \<Rightarrow> [x] | None \<Rightarrow> [])
       | QueueOp x \<Rightarrow> [x] | ResetDetector \<Rightarrow> [])"
  proof (cases e)
    case (Call env rq)
    with call_queue [of env rq st] show ?thesis by (cases "call_tool env rq st") simp
  qed simp_all
  moreover have "snd (guard_run st (e # es)) = snd (guard_run (snd (guard_step st e)) es)"
    by (simp split: prod.splits)
  ultimately show ?case using Cons.IH [of "snd (guard_step st e)"] by simp
qed simp

text \<open>
  Over any run of the gateway a ticket is approved at most once, when the uuids of its tickets
  are fresh.
\<close>

theorem guard_tickets_approved_once:
  assumes "fresh_ids mcp_status_of mcp_created [] (queue_events new_guard es)"
  shows "count_list (approvals mcp_step mcp_approved [] (queue_events new_guard es)) i \<le> 1"
  by (rule mcp_approvals.approved_at_most_once [OF _ assms]) (simp add: mcp_ids_distinct_def)

section \<open>Witnesses\<close>

definition demo_json :: json_env where
  "demo_json = \<lparr>json_text = (\<lambda>d. []), json_digest = (\<lambda>d. ''digest'')\<rparr>"

definition demo_ge :: "string \<Rightarrow> time \<Rightarrow> guard_env" where
  "demo_ge m t =
     \<lparr>ge_pd_int = (\<lambda>v. case v of PyInt n \<Rightarrow> Some n | _ \<Rightarrow> None), ge_json = demo_json, ge_det = demo_dc m,
      ge_trace = \<lparr>cx_caller = [], cx_session = [], cx_trace = [], cx_event = 0\<rparr>, ge_now = t, ge_local = ''t'',
      ge_uid = ''0a1b2c3d4e'', ge_text = (\<lambda>rq gd rep. []), ge_reasons = (\<lambda>p. [])\<rparr>"

definition demo_rq :: "string \<Rightarrow> pydict \<Rightarrow> tool_request" where
  "demo_rq n d =
     \<lparr>rq_tool = n, rq_args = d, rq_role = ''admin'', rq_reason = [], rq_caller = ''bot'', rq_source = [],
      rq_session = [], rq_trace = [], rq_event = 0, rq_match = []\<rparr>"

definition demo_alert :: tool_request where
  "demo_alert = demo_rq ''alert_only'' [(''message'', PyStr ''hello'')]"

definition demo_isolate :: "string \<Rightarrow> tool_request" where
  "demo_isolate h = demo_rq ''isolate_host'' [(''host'', PyStr h)]"

theorem tool_runs_only_if_allowed_witness:
  "\<exists>res. rs_execution (fst (call_tool (demo_ge ''enforce'' 1000) demo_alert new_guard)) = Ran res \<and>
     tr_status res = ''success''"
proof -
  obtain rs st' where x: "call_tool (demo_ge ''enforce'' 1000) demo_alert new_guard = (rs, st')" by (metis surj_pair)
  have "case rs_execution (fst (call_tool (demo_ge ''enforce'' 1000) demo_alert new_guard)) of Ran res \<Rightarrow> True | _ \<Rightarrow> False"
    by code_simp
  then obtain res where res: "rs_execution rs = Ran res" by (auto simp: x split: execution.splits)
  with tool_runs_only_if_allowed [OF x res] show ?thesis by (auto simp: x)
qed

theorem detector_only_raises_witness:
  "decision_rank (gd_status (static_decision (demo_ge ''enforce'' 1000) demo_alert)) \<le>
     decision_rank (rs_decision (fst (call_tool (demo_ge ''enforce'' 1000) demo_alert \<lparr>gs_det = known_tool, gs_queue = []\<rparr>)))"
  using detector_only_raises [OF surjective_pairing] by blast

theorem confirmation_makes_one_ticket_witness:
  "length (gs_queue (snd (call_tool (demo_ge ''enforce'' 1000) (demo_isolate ''web1'') new_guard))) = 1"
proof -
  obtain rs st' where x: "call_tool (demo_ge ''enforce'' 1000) (demo_isolate ''web1'') new_guard = (rs, st')" by (metis surj_pair)
  have "rs_decision (fst (call_tool (demo_ge ''enforce'' 1000) (demo_isolate ''web1'') new_guard)) = RequireConfirmation"
    by code_simp
  then have "rs_decision rs = RequireConfirmation" by (simp add: x)
  from confirmation_makes_one_ticket [OF x this] have "length (gs_queue st') = 1" by (auto simp: new_guard_def)
  then show ?thesis by (simp add: x)
qed

theorem containment_tools_never_run_witness:
  "\<exists>rs. fst (guard_run new_guard [Call (demo_ge ''enforce'' 1000) demo_alert]) = [(Call (demo_ge ''enforce'' 1000) demo_alert, rs)] \<and>
     rq_tool demo_alert \<in> {''rate_limit'', ''alert_only'', ''vulnerability_scan''}"
proof -
  obtain rs st' where x: "call_tool (demo_ge ''enforce'' 1000) demo_alert new_guard = (rs, st')" by (metis surj_pair)
  have "case rs_execution (fst (call_tool (demo_ge ''enforce'' 1000) demo_alert new_guard)) of Ran res \<Rightarrow> True | _ \<Rightarrow> False"
    by code_simp
  then obtain res where res: "rs_execution rs = Ran res" by (auto simp: x split: execution.splits)
  have run: "fst (guard_run new_guard [Call (demo_ge ''enforce'' 1000) demo_alert]) = [(Call (demo_ge ''enforce'' 1000) demo_alert, rs)]"
    by (simp add: x)
  then have "(Call (demo_ge ''enforce'' 1000) demo_alert, rs) \<in> set (fst (guard_run new_guard [Call (demo_ge ''enforce'' 1000) demo_alert]))"
    by simp
  from containment_tools_never_run [OF this res] run show ?thesis by blast
qed

theorem new_caller_never_runs_witness:
  "rs_decision (fst (call_tool (demo_ge ''enforce'' 1000) demo_alert \<lparr>gs_det = known_tool, gs_queue = []\<rparr>)) \<noteq> Allow"
proof -
  let ?st = "\<lparr>gs_det = known_tool, gs_queue = []\<rparr>" and ?env = "demo_ge ''enforce'' 1000"
  let ?r = "make_record ?env demo_alert (static_decision ?env demo_alert)"
  obtain rs st' where x: "call_tool ?env demo_alert ?st = (rs, st')" by (metis surj_pair)
  have c: "det_enabled (ge_det ?env)" "det_mode_of (ge_det ?env) \<noteq> Shadow"
    "confirm_threshold (ge_det ?env) \<le> 85 / 100"
    "min_samples (ge_det ?env) \<le> sg_count (new_signature\<lparr>sg_count := 5\<rparr>)" "0 < min_samples (ge_det ?env)"
    by (simp_all add: demo_ge_def det_enabled_def demo_dc_def chosen_def det_mode_of_def canonical_mode_def
        MODE_ALIASES_def confirm_threshold_def min_samples_def) code_simp
  have names: "tc_tool ?r = ''alert_only''" "tc_caller ?r = ''bot''" by code_simp+
  have "sig_of (gs_det ?st) (tc_tool ?r) GLOBAL_CALLER = Some (new_signature\<lparr>sg_count := 5\<rparr>)"
    "sig_of (gs_det ?st) (tc_tool ?r) (tc_caller ?r) = None"
    unfolding names by (simp_all add: sig_of_def known_tool_def GLOBAL_CALLER_def)
  from new_caller_never_runs [OF x refl c(1-3) this(1) c(4,5) this(2)] show ?thesis by (simp add: x)
qed

definition demo_guard_run :: "guard_event list" where
  "demo_guard_run =
     [Call (demo_ge ''enforce'' 1000) (demo_isolate ''web1''), QueueOp (McpApprove ''t1'' ''TK-0A1B2C3D'' ''admin'' None),
      QueueOp (McpApprove ''t2'' ''TK-0A1B2C3D'' ''admin'' None)]"

theorem guard_tickets_approved_once_witness:
  "count_list (approvals mcp_step mcp_approved [] (queue_events new_guard demo_guard_run)) ''TK-0A1B2C3D'' \<le> 1"
  by (rule guard_tickets_approved_once)
    (simp add: demo_guard_run_def mcp_status_of_def split: option.splits)

text \<open>The ticket a human decides on may name another host than the call.\<close>

theorem ticket_names_another_host:
  "List.map arguments (gs_queue (snd (call_tool (demo_ge ''enforce'' 1000) (demo_isolate ''web|1'') new_guard))) =
     [[(''host'', PyStr ''web 1''), (''isolation_type'', PyStr ''network'')]]"
  by code_simp

end
