(* ===== verification/Json.thy ===== *)
theory Json
  imports Prelude
begin

text \<open>
  The values of parsed JSON that the audit path reads: event dicts, tool results and the answers of
  a model.  \<open>jget\<close> is \<open>dict.get\<close> (of a value that is no dict it is \<open>None\<close>, where the code
  tests the type first), \<open>jtruthy\<close> is Python's truth value and \<open>jor\<close> its \<open>or\<close>.  The
  text of a value that is no text is a parameter, as is the number read from a text.
\<close>

datatype json = JNull | JBool bool | JNum rat | JStr string | JList "json list" | JObj "(string \<times> json) list"

record json_text =
  jt_str :: "json \<Rightarrow> string"
  jt_float :: "string \<Rightarrow> rat option"
  jt_round :: "rat \<Rightarrow> rat"

fun jget :: "json \<Rightarrow> string \<Rightarrow> json" where
  "jget (JObj d) k = (case map_of d k of Some v \<Rightarrow> v | None \<Rightarrow> JNull)"
| "jget _ k = JNull"

fun jhas :: "json \<Rightarrow> string \<Rightarrow> bool" where
  "jhas (JObj d) k = (map_of d k \<noteq> None)"
| "jhas _ k = False"

fun jtruthy :: "json \<Rightarrow> bool" where
  "jtruthy JNull = False"
| "jtruthy (JBool b) = b"
| "jtruthy (JNum x) = (x \<noteq> 0)"
| "jtruthy (JStr s) = (s \<noteq> [])"
| "jtruthy (JList xs) = (xs \<noteq> [])"
| "jtruthy (JObj d) = (d \<noteq> [])"

definition jor :: "json \<Rightarrow> json \<Rightarrow> json" where
  "jor a b = (if jtruthy a then a else b)"

text \<open>\<open>str(x or default)\<close>.\<close>

definition jtext :: "json_text \<Rightarrow> json \<Rightarrow> string" where
  "jtext jt v = (case v of JStr s \<Rightarrow> s | _ \<Rightarrow> jt_str jt v)"

definition jtext_or :: "json_text \<Rightarrow> json \<Rightarrow> string \<Rightarrow> string" where
  "jtext_or jt v dflt = (if jtruthy v then jtext jt v else dflt)"

text \<open>\<open>float(x or 0)\<close>; \<open>None\<close> is a conversion that raises.\<close>

definition jfloat :: "json_text \<Rightarrow> json \<Rightarrow> rat option" where
  "jfloat jt v =
     (if \<not> jtruthy v then Some 0
      else (case v of JNum x \<Rightarrow> Some x | JBool b \<Rightarrow> Some 1 | JStr s \<Rightarrow> jt_float jt s | _ \<Rightarrow> None))"

fun is_obj :: "json \<Rightarrow> bool" where
  "is_obj (JObj d) = True"
| "is_obj _ = False"

fun jitems :: "json \<Rightarrow> json list" where
  "jitems (JList xs) = xs"
| "jitems _ = []"

fun jset :: "string \<Rightarrow> json \<Rightarrow> json \<Rightarrow> json" where
  "jset k v (JObj d) = JObj (AList.update k v d)"
| "jset k v _ = JObj [(k, v)]"

text \<open>The entries of a list without later repetitions (\<open>dict.fromkeys\<close>).\<close>

definition first_of_each :: "'a list \<Rightarrow> 'a list" where
  "first_of_each xs = rev (remdups (rev xs))"

lemma first_of_each_set [simp]: "set (first_of_each xs) = set xs"
  by (simp add: first_of_each_def)

lemma jget_jset: "is_obj v \<Longrightarrow> jget (jset k x v) k' = (if k' = k then x else jget v k')"
  by (cases v) (auto simp: update_conv')

lemma jset_obj [simp]: "is_obj (jset k x v)"
  by (cases v) simp_all

end
