(* ===== verification/VetoGates.thy ===== *)
theory VetoGates
  imports Json IpAddress "HOL-Library.Multiset" "HOL-Library.Sublist"
begin

text \<open>
  The veto gates of the audit (\<open>src/backend/veto_gates.py\<close>): claims without evidence are taken
  out of the vote, a threat is confirmed only with a signal of a detector that is no language model,
  rounds are merged without an \<open>or\<close>, severities are capped, and a review may only lower a
  conclusion.  Display reasons are left out.  The inference of a threat type from a name
  (\<open>correlation_engine.infer_threat_type\<close>) is the parameter \<open>infer\<close>; an exception in it is
  the empty text.
\<close>

section \<open>Claims\<close>

record claim =
  cl_body :: json
  cl_ids :: "string list"
  cl_quotes :: "string list"

text \<open>A report of the grounding verifier: its verdict, which is not empty, and its score.\<close>

record claim_report =
  rp_verdict :: string
  rp_score :: "rat option"

record judged_claim =
  jc_claim :: claim
  jc_verdict :: string
  jc_score :: rat

definition GROUNDED :: string where "GROUNDED = ''grounded''"
definition PARTIALLY_GROUNDED :: string where "PARTIALLY_GROUNDED = ''partially_grounded''"
definition UNGROUNDED :: string where "UNGROUNDED = ''ungrounded''"
definition ADMITTED_VERDICTS :: "string list" where "ADMITTED_VERDICTS = [GROUNDED, PARTIALLY_GROUNDED]"

definition judge_claim :: "json_text \<Rightarrow> claim_report option \<Rightarrow> claim \<Rightarrow> judged_claim" where
  "judge_claim jt rep c =
     (case (case rep of
              Some r \<Rightarrow> (rp_verdict r, case rp_score r of Some x \<Rightarrow> x | None \<Rightarrow> 0)
            | None \<Rightarrow>
                (if cl_ids c \<noteq> [] \<and> cl_quotes c \<noteq> [] then (PARTIALLY_GROUNDED, 5 / 10)
                 else if cl_ids c \<noteq> [] then (PARTIALLY_GROUNDED, 4 / 10)
                 else (UNGROUNDED, 0))) of
        (v, x) \<Rightarrow> \<lparr>jc_claim = c, jc_verdict = v, jc_score = jt_round jt x\<rparr>)"

text \<open>The reports are aligned with the claims; claims beyond the last report have none.\<close>

fun judge_all :: "json_text \<Rightarrow> claim_report list \<Rightarrow> claim list \<Rightarrow> judged_claim list" where
  "judge_all jt rs [] = []"
| "judge_all jt [] (c # cs) = judge_claim jt None c # judge_all jt [] cs"
| "judge_all jt (r # rs) (c # cs) = judge_claim jt (Some r) c # judge_all jt rs cs"

definition admitted_claim :: "judged_claim \<Rightarrow> bool" where
  "admitted_claim j \<longleftrightarrow> jc_verdict j \<in> set ADMITTED_VERDICTS"

definition strip_ungrounded_claims ::
  "json_text \<Rightarrow> claim list \<Rightarrow> claim_report list option \<Rightarrow> judged_claim list \<times> judged_claim list"
where
  "strip_ungrounded_claims jt cs reports =
     (let js = judge_all jt (case reports of Some rs \<Rightarrow> rs | None \<Rightarrow> []) cs in
      (filter admitted_claim js, filter (\<lambda>j. \<not> admitted_claim j) js))"

definition has_admitted_threat_claims :: "judged_claim list \<Rightarrow> bool" where
  "has_admitted_threat_claims js = list_ex admitted_claim js"

section \<open>Signals\<close>

definition TYPE_SIGNAL_EVENTS :: "string list" where
  "TYPE_SIGNAL_EVENTS =
     [''BRUTE_FORCE'', ''SSH_BRUTE'', ''C2_BEACON'', ''DATA_EXFIL'', ''LATERAL_MOVE'', ''LATERAL_MOVEMENT'',
      ''PORT_SCAN'', ''MALWARE_DETECT'', ''RANSOMWARE'', ''DDOS_TRAFFIC'', ''DDOS'', ''COMMAND_INJECTION'',
      ''SQL_INJECTION'', ''XSS_ATTACK'', ''PRIVILEGE_ESCALATION'', ''PRIV_ESC'']"

definition HIGH_RISK_EVENT_TYPES :: "string list" where
  "HIGH_RISK_EVENT_TYPES =
     [''C2_BEACON'', ''DATA_EXFIL'', ''MALWARE_DETECT'', ''RANSOMWARE'', ''LATERAL_MOVE'', ''PRIV_ESC'',
      ''PRIVILEGE_ESCALATION'', ''COMMAND_INJECTION'']"

definition ANOMALY_SIGNAL_THRESHOLD :: rat where "ANOMALY_SIGNAL_THRESHOLD = 6 / 10"

record signals =
  ns_sigma :: bool
  ns_sigma_severity :: string
  ns_chain :: bool
  ns_anomaly :: bool
  ns_score :: rat
  ns_ioc :: bool
  ns_type :: bool

definition no_signals :: signals where
  "no_signals = \<lparr>ns_sigma = False, ns_sigma_severity = [], ns_chain = False, ns_anomaly = False, ns_score = 0,
     ns_ioc = False, ns_type = False\<rparr>"

definition has_signal :: "signals \<Rightarrow> bool" where
  "has_signal s \<longleftrightarrow> ns_sigma s \<or> ns_chain s \<or> ns_anomaly s \<or> ns_ioc s \<or> ns_type s"

definition event_name :: "json_text \<Rightarrow> json \<Rightarrow> string" where
  "event_name jt ev = jtext_or jt (jor (jget ev ''event'') (jor (jget ev ''event_type'') (jget ev ''type''))) []"

definition underscored_type :: "string \<Rightarrow> string" where
  "underscored_type s = List.map (\<lambda>c. if c = CHR ''-'' \<or> c = CHR '' '' then CHR ''_'' else c) (upper (strip s))"

definition event_class :: "json_text \<Rightarrow> (string \<Rightarrow> string) \<Rightarrow> json \<Rightarrow> string" where
  "event_class jt infer ev =
     (let t = underscored_type (event_name jt ev); i = infer (event_name jt ev) in
      if t \<notin> set TYPE_SIGNAL_EVENTS \<and> i \<noteq> [] then upper (strip i) else t)"

definition anomaly_score_of :: "json_text \<Rightarrow> rat option \<Rightarrow> json \<Rightarrow> rat" where
  "anomaly_score_of jt given ev =
     (case given of
        Some x \<Rightarrow> x
      | None \<Rightarrow>
          (let v = (if jget ev ''_anomaly_score'' \<noteq> JNull then jget ev ''_anomaly_score''
                    else jget (jget ev ''_anomaly'') ''score'')
           in case jfloat jt v of Some x \<Rightarrow> x | None \<Rightarrow> 0))"

definition ioc_of :: "json \<Rightarrow> bool" where
  "ioc_of ev =
     (let ioc = jor (jget ev ''_ioc'') (jor (jget ev ''_ioc_matches'') (jget ev ''ioc_matches''));
          intel = jget ev ''_intel''
      in (case ioc of JList xs \<Rightarrow> xs \<noteq> [] | JObj d \<Rightarrow> jtruthy (jget ioc ''matched'') | JBool b \<Rightarrow> b | _ \<Rightarrow> False) \<or>
         jtruthy (jget intel ''matched'') \<or> jtruthy (jget intel ''hit''))"

text \<open>A tool result: its tool, whether it succeeded, its data.\<close>

record tool_outcome =
  to_tool :: string
  to_success :: bool
  to_data :: json

definition chain_of_tool :: "tool_outcome \<Rightarrow> bool" where
  "chain_of_tool r \<longleftrightarrow>
     to_success r \<and> jtruthy (to_data r) \<and> \<not> starts_with ''causal'' (to_tool r) \<and>
     to_tool r = ''correlation.chains'' \<and> jitems (to_data r) \<noteq> []"

text \<open>The texts for no chain are Chinese in the code; the model has the one in ASCII brackets.\<close>

definition extract_non_llm_signals ::
  "json_text \<Rightarrow> (string \<Rightarrow> string) \<Rightarrow> string list \<Rightarrow> json \<Rightarrow> tool_outcome list \<Rightarrow> string \<Rightarrow> rat option \<Rightarrow> signals"
where
  "extract_non_llm_signals jt infer no_chain ev tools chain given =
     (let sigma = jget ev ''_sigma''; hit = jtruthy (jget sigma ''detected''); x = anomaly_score_of jt given ev in
      \<lparr>ns_sigma = hit,
       ns_sigma_severity = (if hit then jtext_or jt (jget sigma ''max_severity'') [] else []),
       ns_chain = (strip chain \<noteq> [] \<and> strip chain \<notin> set no_chain) \<or> list_ex chain_of_tool tools,
       ns_anomaly = ANOMALY_SIGNAL_THRESHOLD \<le> x, ns_score = x, ns_ioc = ioc_of ev,
       ns_type = event_class jt infer ev \<in> set TYPE_SIGNAL_EVENTS\<rparr>)"

section \<open>Confirmation\<close>

datatype audit_verdict = Confirmed | Suspicious | FalsePositive | Insufficient

record confirmation =
  cd_threat :: bool
  cd_verdict :: audit_verdict
  cd_human :: bool

definition confirmation_of :: "bool \<Rightarrow> audit_verdict \<Rightarrow> bool \<Rightarrow> confirmation" where
  "confirmation_of t v h = \<lparr>cd_threat = t, cd_verdict = v, cd_human = h\<rparr>"

definition apply_confirmation_gate :: "bool \<Rightarrow> bool \<Rightarrow> signals \<Rightarrow> bool \<Rightarrow> bool \<Rightarrow> confirmation" where
  "apply_confirmation_gate llm_threat llm_abstain s admitted extra_human =
     (if llm_abstain then confirmation_of False Insufficient True
      else if \<not> admitted then confirmation_of False Insufficient True
      else if llm_threat \<and> has_signal s then confirmation_of True Confirmed extra_human
      else if llm_threat \<and> \<not> has_signal s then confirmation_of False Suspicious True
      else if \<not> llm_threat \<and> has_signal s then confirmation_of False Suspicious True
      else confirmation_of False FalsePositive extra_human)"

section \<open>Severities\<close>

definition SEVERITIES :: "string list" where
  "SEVERITIES = [''info'', ''low'', ''medium'', ''high'', ''critical'']"

fun position :: "'a \<Rightarrow> 'a list \<Rightarrow> nat option" where
  "position x [] = None"
| "position x (y # ys) = (if x = y then Some 0 else map_option Suc (position x ys))"

definition severity_rank :: "string \<Rightarrow> nat" where
  "severity_rank s = (case position (lower (if s = [] then ''info'' else s)) SEVERITIES of Some i \<Rightarrow> i | None \<Rightarrow> 0)"

definition SEVERITY_CEILING_BY_TYPE :: "(string \<times> string) list" where
  "SEVERITY_CEILING_BY_TYPE =
     [(''PORT_SCAN'', ''high''), (''XSS_ATTACK'', ''high''), (''DNS_QUERY'', ''medium''), (''USER_LOGIN'', ''medium'')]"

definition type_key :: "string \<Rightarrow> string" where
  "type_key etype = List.map (\<lambda>c. if c = CHR ''-'' then CHR ''_'' else c) (upper etype)"

definition severity_limit :: "string \<Rightarrow> string \<Rightarrow> string \<Rightarrow> bool \<Rightarrow> nat" where
  "severity_limit etype esev ssev chain =
     (let base = max (severity_rank esev) (severity_rank ssev);
          one_up = min (base + 1) 4;
          et = type_key etype;
          top = (if et \<in> set HIGH_RISK_EVENT_TYPES then 4
                 else if chain then max one_up (severity_rank ''high'') else one_up)
      in case map_of SEVERITY_CEILING_BY_TYPE et of
           Some c \<Rightarrow> min top (severity_rank c) | None \<Rightarrow> top)"

definition cap_reported_severity :: "string \<Rightarrow> string \<Rightarrow> string \<Rightarrow> string \<Rightarrow> bool \<Rightarrow> string" where
  "cap_reported_severity llm0 etype esev ssev chain =
     (let l = lower (if llm0 = [] then ''info'' else llm0); llm = (if l \<in> set SEVERITIES then l else ''info'') in
      if etype = [] \<and> esev = [] \<and> ssev = [] then llm
      else SEVERITIES ! min (severity_rank llm) (severity_limit etype esev ssev chain))"

section \<open>Techniques without evidence\<close>

definition technique_id :: "json_text \<Rightarrow> json \<Rightarrow> string" where
  "technique_id jt item =
     (if is_obj item then jtext_or jt (jor (jget item ''id'') (jor (jget item ''technique'') (jget item ''mitre_id''))) []
      else jtext_or jt item [])"

definition technique_supported :: "string \<Rightarrow> string \<Rightarrow> bool" where
  "technique_supported evidence i = (let t = strip (upper i) in t \<noteq> [] \<and> contains t (upper evidence))"

definition phantom_techniques :: "json \<Rightarrow> string list" where
  "phantom_techniques merged =
     List.map_filter (\<lambda>v. case v of JStr s \<Rightarrow> if starts_with ''T'' (upper s) then Some s else None | _ \<Rightarrow> None)
       (jitems (jget (jget merged ''faithfulness'') ''phantom_entities''))"

definition strip_phantom_mitre :: "json_text \<Rightarrow> json \<Rightarrow> string \<Rightarrow> json" where
  "strip_phantom_mitre jt merged evidence =
     (let techs = jitems (jor (jget merged ''mitre_techniques'') (jget merged ''techniques''));
          kept = filter (\<lambda>t. technique_supported evidence (technique_id jt t)) techs;
          stripped = filter (\<lambda>i. i \<noteq> [] \<and> \<not> technique_supported evidence i) (List.map (technique_id jt) techs);
          labeled = first_of_each (filter (\<lambda>i. i \<noteq> []) (stripped @ phantom_techniques merged));
          out = jset ''mitre_techniques'' (JList kept) merged
      in if labeled \<noteq> [] then jset ''stripped_mitre'' (JList (List.map JStr labeled)) out else out)"

definition sanitize_merged_audit :: "json_text \<Rightarrow> json \<Rightarrow> string \<Rightarrow> string \<Rightarrow> string \<Rightarrow> string \<Rightarrow> bool \<Rightarrow> json" where
  "sanitize_merged_audit jt merged evidence etype esev ssev chain =
     strip_phantom_mitre jt
       (jset ''severity'' (JStr (cap_reported_severity (jtext_or jt (jget merged ''severity'') ''info'') etype esev ssev chain)) merged)
       evidence"

section \<open>Rounds\<close>

text \<open>A round: the audit's fields, with the defaults of the reads, the review's conclusion and new findings.\<close>

record audit_round =
  rd_threat :: bool
  rd_verdict :: "audit_verdict option"
  rd_conclusion :: "audit_verdict option"
  rd_confidence :: rat
  rd_severity :: string
  rd_human :: bool
  rd_signal :: bool
  rd_missed :: "json list"

record merged_audit =
  mg_threat :: bool
  mg_verdict :: audit_verdict
  mg_confidence :: rat
  mg_severity :: string
  mg_human :: bool
  mg_rounds :: nat
  mg_missed :: nat
  mg_confirming :: nat

definition missed_threat_is_actionable :: "json_text \<Rightarrow> json \<Rightarrow> bool" where
  "missed_threat_is_actionable jt m \<longleftrightarrow>
     is_obj m \<and>
     (jtruthy (jget m ''evidence_ids'') \<or>
      list_ex (\<lambda>p. strip p \<noteq> [] \<and> list_all is_digit (strip p))
        (split_on CHR '','' (jtext_or jt (jget m ''evidence'') [])))"

definition filter_missed_threats :: "json_text \<Rightarrow> json list \<Rightarrow> json list" where
  "filter_missed_threats jt ms = filter (missed_threat_is_actionable jt) ms"

text \<open>The new findings of all rounds, without repeated descriptions.\<close>

definition missed_descriptions :: "json_text \<Rightarrow> audit_round list \<Rightarrow> json list" where
  "missed_descriptions jt rs =
     first_of_each (filter jtruthy
       (List.map (\<lambda>m. jget m ''description'') (concat (List.map (\<lambda>r. filter_missed_threats jt (rd_missed r)) rs))))"

fun round_weights :: "nat \<Rightarrow> audit_round list \<Rightarrow> rat list" where
  "round_weights i [] = []"
| "round_weights i (r # rs) =
     (if i = 0 then 6 / 10 else if i = 1 then 3 / 10 else if i = 2 then 1 / 10 else 5 / 100) # round_weights (Suc i) rs"

definition weighted_confidence :: "audit_round list \<Rightarrow> rat" where
  "weighted_confidence rs =
     (let ws = round_weights 0 rs in sum_list (List.map (\<lambda>(r, w). rd_confidence r * w) (zip rs ws)) / sum_list ws)"

definition median_severity :: "string list \<Rightarrow> string" where
  "median_severity ss =
     (if ss = [] then ''info''
      else (let idxs = sort (List.map severity_rank ss); sev = SEVERITIES ! (idxs ! ((length idxs - 1) div 2)) in
            if severity_rank ''medium'' < severity_rank sev then ''medium'' else sev))"

text \<open>\<open>max\<close> with a key takes the first of the largest.\<close>

fun highest_severity :: "string list \<Rightarrow> string" where
  "highest_severity [] = ''info''"
| "highest_severity [s] = s"
| "highest_severity (s # ss) =
     (let t = highest_severity ss in if severity_rank s < severity_rank t then t else s)"

definition confirming_round :: "audit_round \<Rightarrow> bool" where
  "confirming_round r \<longleftrightarrow> rd_threat r \<or> rd_verdict r = Some Confirmed"

definition round_verdict :: "audit_round \<Rightarrow> audit_verdict option" where
  "round_verdict r = (case rd_verdict r of Some v \<Rightarrow> Some v | None \<Rightarrow> rd_conclusion r)"

definition merge_audit_rounds :: "json_text \<Rightarrow> audit_round list \<Rightarrow> signals \<Rightarrow> merged_audit" where
  "merge_audit_rounds jt rs s0 =
     (if rs = [] then
        \<lparr>mg_threat = False, mg_verdict = Insufficient, mg_confidence = 0, mg_severity = ''info'', mg_human = False,
         mg_rounds = 0, mg_missed = 0, mg_confirming = 0\<rparr>
      else
        (let s = (if list_ex rd_signal rs then s0\<lparr>ns_chain := True\<rparr> else s0);
             threats = filter confirming_round rs;
             human = list_ex rd_human rs;
             med = median_severity (List.map rd_severity rs);
             out = (\<lambda>t v sev h. \<lparr>mg_threat = t, mg_verdict = v,
                      mg_confidence = jt_round jt (min (weighted_confidence rs) 1), mg_severity = sev, mg_human = h,
                      mg_rounds = length rs, mg_missed = length (missed_descriptions jt rs),
                      mg_confirming = length threats\<rparr>)
         in if threats \<noteq> [] \<and> has_signal s then out True Confirmed (highest_severity (List.map rd_severity threats)) human
            else if threats \<noteq> [] then out False Suspicious med True
            else if Some Suspicious \<in> set (List.map round_verdict rs) then out False Suspicious med True
            else out False FalsePositive med human))"

section \<open>Budgets and the review\<close>

text \<open>What a hop reads of the verdict of a chunk.\<close>

record chunk_verdict =
  ck_risk :: rat
  ck_grounding :: rat
  ck_claims :: nat
  ck_discarded :: nat

record hop_stats =
  hs_risk :: rat
  hs_completeness :: rat
  hs_grounding :: rat
  hs_admitted :: nat
  hs_discarded :: nat

definition hop_stats_from_verdicts :: "chunk_verdict list \<Rightarrow> hop_stats" where
  "hop_stats_from_verdicts vs =
     (if vs = [] then \<lparr>hs_risk = 0, hs_completeness = 1, hs_grounding = 1, hs_admitted = 0, hs_discarded = 0\<rparr>
      else (let n = of_nat (length vs); kept = sum_list (List.map ck_claims vs); gone = sum_list (List.map ck_discarded vs) in
            \<lparr>hs_risk = sum_list (List.map ck_risk vs) / n,
             hs_completeness = (if kept + gone = 0 then 1 else of_nat kept / of_nat (kept + gone)),
             hs_grounding = sum_list (List.map (\<lambda>v. if ck_grounding v = 0 then 1 else ck_grounding v) vs) / n,
             hs_admitted = kept, hs_discarded = gone\<rparr>))"

definition skip_reasoning :: "hop_stats \<Rightarrow> bool" where
  "skip_reasoning s \<longleftrightarrow> 3 / 10 < hs_risk s \<or> hs_grounding s < 5 / 10 \<or> hs_completeness s < 3 / 10"

definition CONCLUSION_RANK :: "(string \<times> nat) list" where
  "CONCLUSION_RANK = [(''false_positive'', 0), (''insufficient_evidence'', 1), (''suspicious'', 2), (''threat_confirmed'', 3)]"

definition executor_conclusion_floor :: "bool \<Rightarrow> audit_verdict \<Rightarrow> bool \<Rightarrow> string" where
  "executor_conclusion_floor threat v human =
     (if v = Confirmed \<or> (threat \<and> v \<noteq> Suspicious) then ''threat_confirmed''
      else if v = Insufficient then ''insufficient_evidence''
      else if v = Suspicious \<or> human then ''suspicious''
      else ''false_positive'')"

definition known_conclusion :: "string \<Rightarrow> string" where
  "known_conclusion c = (if map_of CONCLUSION_RANK c = None then ''suspicious'' else c)"

definition conclusion_rank :: "string \<Rightarrow> nat" where
  "conclusion_rank c = the (map_of CONCLUSION_RANK (known_conclusion c))"

definition clamp_reviewer_conclusion :: "string \<Rightarrow> string \<Rightarrow> string" where
  "clamp_reviewer_conclusion executor reviewer =
     (if conclusion_rank executor < conclusion_rank reviewer then known_conclusion executor else known_conclusion reviewer)"

definition should_run_llm_reviewer :: "string \<Rightarrow> bool" where
  "should_run_llm_reviewer depth \<longleftrightarrow> depth = ''deep''"

definition should_run_deep_llm_hops :: "string \<Rightarrow> bool \<Rightarrow> bool" where
  "should_run_deep_llm_hops depth skip \<longleftrightarrow> depth = ''deep'' \<and> \<not> skip"

section \<open>Lemmas\<close>

lemma judge_verdict:
  "jc_verdict (judge_claim jt (Some r) c) = rp_verdict r"
  "jc_verdict (judge_claim jt None c) = (if cl_ids c \<noteq> [] then PARTIALLY_GROUNDED else UNGROUNDED)"
  by (simp_all add: judge_claim_def)

lemma judge_body [simp]: "jc_claim (judge_claim jt rep c) = c"
  by (simp add: judge_claim_def split: prod.splits)

lemma judge_all_claims: "List.map jc_claim (judge_all jt rs cs) = cs"
  by (induction jt rs cs rule: judge_all.induct) auto

lemma judge_all_verdict:
  "j \<in> set (judge_all jt rs cs) \<Longrightarrow> \<exists>rep. (rep = None \<or> rep \<in> Some ` set rs) \<and> j = judge_claim jt rep (jc_claim j)"
proof (induction jt rs cs rule: judge_all.induct)
  case (3 jt r rs c cs)
  then consider "j = judge_claim jt (Some r) c" | "j \<in> set (judge_all jt rs cs)" by auto
  then show ?case
  proof cases
    case 1
    then have "j = judge_claim jt (Some r) (jc_claim j)" by simp
    then show ?thesis by auto
  next
    case 2
    with 3 show ?thesis by auto
  qed
qed (auto intro: exI [of _ None])

text \<open>
  Taking out the claims without evidence loses and invents nothing: every claim is either
  admitted or discarded, once, in its order; and an admitted claim has a report that calls it
  grounded, or, without a report, names the evidence it rests on.
\<close>

theorem strip_splits_claims:
  assumes "strip_ungrounded_claims jt cs reports = (ok, gone)"
  shows "mset (List.map jc_claim ok) + mset (List.map jc_claim gone) = mset cs \<and>
    subseq (List.map jc_claim ok) cs \<and>
    list_all (\<lambda>j. (\<exists>r \<in> set (case reports of Some rs \<Rightarrow> rs | None \<Rightarrow> []). rp_verdict r \<in> set ADMITTED_VERDICTS) \<or>
                   cl_ids (jc_claim j) \<noteq> []) ok"
proof -
  let ?rs = "case reports of Some rs \<Rightarrow> rs | None \<Rightarrow> []"
  let ?js = "judge_all jt ?rs cs"
  have parts: "ok = filter admitted_claim ?js" "gone = filter (\<lambda>j. \<not> admitted_claim j) ?js"
    using assms by (auto simp: strip_ungrounded_claims_def Let_def)
  have "mset ok + mset gone = mset ?js" unfolding parts by (simp add: multiset_partition [symmetric])
  then have "mset (List.map jc_claim ok) + mset (List.map jc_claim gone) = mset cs"
    by (metis image_mset_union judge_all_claims mset_map)
  moreover have "subseq (List.map jc_claim ok) cs"
    unfolding parts by (metis judge_all_claims subseq_filter_left subseq_map)
  moreover have "(\<exists>r \<in> set ?rs. rp_verdict r \<in> set ADMITTED_VERDICTS) \<or> cl_ids (jc_claim j) \<noteq> []" if "j \<in> set ok" for j
  proof -
    from that have "j \<in> set ?js" and adm: "admitted_claim j" by (auto simp: parts)
    then obtain rep where "rep = None \<or> rep \<in> Some ` set ?rs" "j = judge_claim jt rep (jc_claim j)"
      using judge_all_verdict by blast
    show ?thesis
    proof (cases rep)
      case None
      with \<open>j = judge_claim jt rep (jc_claim j)\<close> have "jc_verdict j = (if cl_ids (jc_claim j) \<noteq> [] then PARTIALLY_GROUNDED else UNGROUNDED)"
        by (metis judge_verdict(2))
      with adm show ?thesis
        by (auto simp: admitted_claim_def ADMITTED_VERDICTS_def UNGROUNDED_def GROUNDED_def PARTIALLY_GROUNDED_def split: if_splits)
    next
      case (Some r)
      with \<open>j = judge_claim jt rep (jc_claim j)\<close> have "jc_verdict j = rp_verdict r" by (metis judge_verdict(1))
      moreover have "r \<in> set ?rs" using Some \<open>rep = None \<or> rep \<in> Some ` set ?rs\<close> by auto
      ultimately show ?thesis using adm by (auto simp: admitted_claim_def)
    qed
  qed
  ultimately show ?thesis by (auto simp: list_all_iff)
qed

subsection \<open>Severities\<close>

lemma position_less: "position x ys = Some i \<Longrightarrow> i < length ys \<and> ys ! i = x"
  by (induction ys arbitrary: i) (auto split: if_splits)

lemma severity_rank_le: "severity_rank s \<le> 4"
proof (cases "position (lower (if s = [] then ''info'' else s)) SEVERITIES")
  case (Some i)
  with position_less [OF this] show ?thesis by (simp add: severity_rank_def SEVERITIES_def)
qed (simp add: severity_rank_def)

lemma nat_upto4: "i \<le> 4 \<Longrightarrow> i = 0 \<or> i = 1 \<or> i = 2 \<or> i = 3 \<or> i = (4::nat)" by linarith

lemma rank_of_nth: "i \<le> 4 \<Longrightarrow> severity_rank (SEVERITIES ! i) = i"
  by (drule nat_upto4) (auto simp: severity_rank_def SEVERITIES_def lower_def lower_char_def)

lemma severity_limit_le: "severity_limit etype esev ssev chain \<le> 4"
  using severity_rank_le by (simp add: severity_limit_def Let_def min.coboundedI1 split: option.splits)

lemma known_severity: "l \<in> set SEVERITIES \<Longrightarrow> lower l = l \<and> l \<noteq> []"
  by (auto simp: SEVERITIES_def lower_def lower_char_def)

definition claimed_severity :: "string \<Rightarrow> string" where
  "claimed_severity llm0 =
     (let l = lower (if llm0 = [] then ''info'' else llm0) in if l \<in> set SEVERITIES then l else ''info'')"

lemma claimed_rank: "severity_rank (claimed_severity llm0) = severity_rank llm0"
proof (cases "lower (if llm0 = [] then ''info'' else llm0) \<in> set SEVERITIES")
  case True
  with known_severity [OF True] show ?thesis by (simp add: claimed_severity_def severity_rank_def Let_def)
next
  case False
  have "position x ys = None" if "x \<notin> set ys" for x :: string and ys using that by (induction ys) auto
  with False show ?thesis by (simp add: claimed_severity_def severity_rank_def Let_def SEVERITIES_def lower_def lower_char_def)
qed

lemma cap_eq:
  "cap_reported_severity llm0 etype esev ssev chain =
     (if etype = [] \<and> esev = [] \<and> ssev = [] then claimed_severity llm0
      else SEVERITIES ! min (severity_rank llm0) (severity_limit etype esev ssev chain))"
  using claimed_rank [of llm0] by (simp add: cap_reported_severity_def claimed_severity_def Let_def)

lemma cap_rank:
  "severity_rank (cap_reported_severity llm0 etype esev ssev chain) =
     (if etype = [] \<and> esev = [] \<and> ssev = [] then severity_rank llm0
      else min (severity_rank llm0) (severity_limit etype esev ssev chain))"
  using severity_limit_le severity_rank_le by (auto simp: cap_eq claimed_rank rank_of_nth min.coboundedI1)

text \<open>
  C21. Capping a reported severity never raises it, changes an already capped severity no more, and,
  once the event is known, leaves it at most one level above the event's and the rules' own severity
  unless the event is of a high-risk type or part of a chain; a scan never gets above \<open>high\<close>.
\<close>

theorem capped_severity_bounds:
  assumes "out = cap_reported_severity llm etype esev ssev chain"
  shows "severity_rank out \<le> severity_rank llm \<and> cap_reported_severity out etype esev ssev chain = out \<and>
    (etype \<noteq> [] \<and> \<not> chain \<and> type_key etype \<notin> set HIGH_RISK_EVENT_TYPES \<longrightarrow>
       severity_rank out \<le> max (severity_rank esev) (severity_rank ssev) + 1) \<and>
    (type_key etype = ''PORT_SCAN'' \<longrightarrow> severity_rank out \<le> severity_rank ''high'')"
proof (intro conjI impI)
  have rank: "severity_rank out = (if etype = [] \<and> esev = [] \<and> ssev = [] then severity_rank llm
      else min (severity_rank llm) (severity_limit etype esev ssev chain))"
    using cap_rank assms by simp
  then show "severity_rank out \<le> severity_rank llm" by simp
  have known: "out \<in> set SEVERITIES"
  proof (cases "etype = [] \<and> esev = [] \<and> ssev = []")
    case True
    then show ?thesis using assms by (simp add: cap_eq claimed_severity_def SEVERITIES_def Let_def)
  next
    case False
    have "min (severity_rank llm) (severity_limit etype esev ssev chain) < length SEVERITIES"
      using severity_rank_le [of llm] by (simp add: SEVERITIES_def min_less_iff_disj)
    with False show ?thesis using assms by (simp only: cap_eq if_False nth_mem)
  qed
  then have same: "claimed_severity out = out" by (simp add: claimed_severity_def known_severity Let_def)
  have "SEVERITIES ! severity_rank out = out"
    using known by (auto simp: SEVERITIES_def severity_rank_def lower_def lower_char_def)
  with same rank show "cap_reported_severity out etype esev ssev chain = out"
    by (auto simp: cap_eq [of out] min_absorb1)
next
  assume e: "etype \<noteq> [] \<and> \<not> chain \<and> type_key etype \<notin> set HIGH_RISK_EVENT_TYPES"
  then have "severity_limit etype esev ssev chain \<le> max (severity_rank esev) (severity_rank ssev) + 1"
    by (simp add: severity_limit_def Let_def min.coboundedI1 split: option.splits)
  then show "severity_rank out \<le> max (severity_rank esev) (severity_rank ssev) + 1"
    using e by (simp add: assms cap_rank min.coboundedI2)
next
  assume e: "type_key etype = ''PORT_SCAN''"
  then have "etype \<noteq> []" by (auto simp: type_key_def upper_def)
  moreover have "severity_limit etype esev ssev chain \<le> severity_rank ''high''"
    using e by (simp add: severity_limit_def SEVERITY_CEILING_BY_TYPE_def Let_def)
  ultimately show "severity_rank out \<le> severity_rank ''high''" by (simp add: assms cap_rank min.coboundedI2)
qed

subsection \<open>What confirms a threat\<close>

text \<open>
  A threat is confirmed, by the gate and after any review of its result, only when the model
  reports it, does not abstain, at least one claim is admitted and a detector that is no language
  model has a signal; without a review the converse holds as well.
\<close>

theorem confirmation_needs_detector:
  assumes "d = apply_confirmation_gate llm abst s admitted extra"
  shows "(cd_threat d \<longleftrightarrow> llm \<and> \<not> abst \<and> admitted \<and> has_signal s) \<and> (cd_threat d \<longleftrightarrow> cd_verdict d = Confirmed) \<and>
    (clamp_reviewer_conclusion (executor_conclusion_floor (cd_threat d) (cd_verdict d) (cd_human d)) reviewer = ''threat_confirmed''
       \<longrightarrow> cd_threat d)"
  using assms
  by (auto simp: apply_confirmation_gate_def confirmation_of_def clamp_reviewer_conclusion_def executor_conclusion_floor_def
      conclusion_rank_def known_conclusion_def CONCLUSION_RANK_def split: if_splits)

lemma known_rank: "map_of CONCLUSION_RANK (known_conclusion c) \<noteq> None"
  by (simp add: known_conclusion_def CONCLUSION_RANK_def)

lemma known_known: "known_conclusion (known_conclusion c) = known_conclusion c"
  by (simp add: known_conclusion_def CONCLUSION_RANK_def)

text \<open>
  A review can only lower a conclusion: the clamped conclusion ranks at most as high as the
  executor's and as the reviewer's own, is one of the four, and clamping it again changes nothing.
\<close>

theorem review_only_lowers:
  fixes executor reviewer :: string
  shows "conclusion_rank (clamp_reviewer_conclusion executor reviewer) = min (conclusion_rank executor) (conclusion_rank reviewer) \<and>
    map_of CONCLUSION_RANK (clamp_reviewer_conclusion executor reviewer) \<noteq> None \<and>
    clamp_reviewer_conclusion executor (clamp_reviewer_conclusion executor reviewer) = clamp_reviewer_conclusion executor reviewer"
proof -
  have "conclusion_rank (known_conclusion c) = conclusion_rank c" for c by (simp add: conclusion_rank_def known_known)
  then show ?thesis
    using known_rank by (auto simp: clamp_reviewer_conclusion_def known_known)
qed

subsection \<open>Merging rounds\<close>

lemma median_capped: "severity_rank (median_severity ss) \<le> severity_rank ''medium''"
proof -
  have "severity_rank ''info'' \<le> severity_rank ''medium''" "severity_rank ''medium'' = 2" "severity_rank ''info'' = 0"
    by (simp_all add: severity_rank_def SEVERITIES_def lower_def lower_char_def)
  then show ?thesis by (simp add: median_severity_def Let_def)
qed

lemma highest_severity_max:
  "ss \<noteq> [] \<Longrightarrow> highest_severity ss \<in> set ss \<and> (\<forall>s \<in> set ss. severity_rank s \<le> severity_rank (highest_severity ss))"
  by (induction ss rule: highest_severity.induct) (auto simp: Let_def)

text \<open>
  Merging rounds: the result is a threat exactly when some round confirms and some signal, of
  the event or of a round, backs it; its severity is then the highest of the confirming rounds, and
  otherwise at most medium, however severe the rounds claim to be.
\<close>

theorem merge_confirms_iff:
  assumes "m = merge_audit_rounds jt rs s"
  shows "(mg_threat m \<longleftrightarrow> mg_verdict m = Confirmed) \<and>
    (mg_threat m \<longleftrightarrow> list_ex confirming_round rs \<and> (has_signal s \<or> list_ex rd_signal rs)) \<and>
    (if mg_threat m then mg_severity m \<in> set (List.map rd_severity (filter confirming_round rs)) \<and>
        list_all (\<lambda>r. confirming_round r \<longrightarrow> severity_rank (rd_severity r) \<le> severity_rank (mg_severity m)) rs
     else severity_rank (mg_severity m) \<le> severity_rank ''medium'')"
proof (cases "rs = []")
  case True
  have "severity_rank ''info'' \<le> severity_rank ''medium''"
    by (simp add: severity_rank_def SEVERITIES_def lower_def lower_char_def)
  with True show ?thesis by (simp add: assms merge_audit_rounds_def)
next
  case False
  let ?s = "if list_ex rd_signal rs then s\<lparr>ns_chain := True\<rparr> else s"
  let ?ts = "filter confirming_round rs"
  have sig: "has_signal ?s \<longleftrightarrow> has_signal s \<or> list_ex rd_signal rs" by (simp add: has_signal_def)
  have some: "?ts \<noteq> [] \<longleftrightarrow> list_ex confirming_round rs" by (auto simp: filter_empty_conv list_ex_iff)
  show ?thesis
  proof (cases "?ts \<noteq> [] \<and> has_signal ?s")
    case True
    then have "List.map rd_severity ?ts \<noteq> []" by simp
    from highest_severity_max [OF this] True show ?thesis
      unfolding assms merge_audit_rounds_def Let_def if_not_P [OF False] if_P [OF True]
      using sig some by (auto simp: list_all_iff)
  next
    case nconf: False
    with sig some show ?thesis
      unfolding assms merge_audit_rounds_def Let_def if_not_P [OF False] if_not_P [OF nconf]
      by (auto simp: median_capped)
  qed
qed

text \<open>A round as the executor writes it from the gate's decision.\<close>

record gate_input =
  gi_llm :: bool
  gi_abstain :: bool
  gi_signals :: signals
  gi_admitted :: bool
  gi_extra :: bool

definition gate_decision :: "gate_input \<Rightarrow> confirmation" where
  "gate_decision g = apply_confirmation_gate (gi_llm g) (gi_abstain g) (gi_signals g) (gi_admitted g) (gi_extra g)"

definition gated_round :: "audit_round \<Rightarrow> gate_input \<Rightarrow> audit_round" where
  "gated_round r g =
     r\<lparr>rd_threat := cd_threat (gate_decision g), rd_verdict := Some (cd_verdict (gate_decision g)),
       rd_human := cd_human (gate_decision g), rd_signal := has_signal (gi_signals g)\<rparr>"

text \<open>
  C12. However many rounds a language model is asked and whatever it answers, the merged result of
  gated rounds is a threat exactly when one single round had everything the gate asks for: the
  model's report, no abstention, an admitted claim and a signal of another detector.
\<close>

theorem no_confirmation_by_repetition:
  "mg_threat (merge_audit_rounds jt (List.map (\<lambda>(r, g). gated_round r g) rgs) s) \<longleftrightarrow>
     list_ex (\<lambda>(r, g). gi_llm g \<and> \<not> gi_abstain g \<and> gi_admitted g \<and> has_signal (gi_signals g)) rgs"
proof -
  have conf: "confirming_round (gated_round r g) \<longleftrightarrow> gi_llm g \<and> \<not> gi_abstain g \<and> gi_admitted g \<and> has_signal (gi_signals g)" for r g
    using confirmation_needs_detector [OF gate_decision_def [of g]] by (auto simp: confirming_round_def gated_round_def)
  have sig: "rd_signal (gated_round r g) = has_signal (gi_signals g)" for r g by (simp add: gated_round_def)
  show ?thesis
    using merge_confirms_iff [OF refl, of jt "List.map (\<lambda>(r, g). gated_round r g) rgs" s]
    by (fastforce simp: list_ex_iff conf sig)
qed

subsection \<open>What slips through\<close>

text \<open>Rounds that all lack evidence merge to the verdict that there is no threat.\<close>

theorem insufficient_rounds_merge_to_false_positive:
  assumes "rs \<noteq> []" and "list_all (\<lambda>r. \<not> rd_threat r \<and> rd_verdict r = Some Insufficient) rs"
  shows "mg_verdict (merge_audit_rounds jt rs s) = FalsePositive"
proof -
  have "filter confirming_round rs = []" "Some Suspicious \<notin> set (List.map round_verdict rs)"
    using assms(2) by (auto simp: filter_empty_conv confirming_round_def round_verdict_def list_all_iff)
  then show ?thesis using assms(1) by (simp add: merge_audit_rounds_def Let_def)
qed

text \<open>A chunk whose claims have no support at all counts as fully grounded.\<close>

theorem zero_grounding_counts_as_full:
  assumes "vs \<noteq> []" and "list_all (\<lambda>v. ck_grounding v = 0 \<and> ck_risk v = 0 \<and> ck_discarded v = 0) vs"
  shows "hs_grounding (hop_stats_from_verdicts vs) = 1 \<and> \<not> skip_reasoning (hop_stats_from_verdicts vs)"
proof -
  have "List.map (\<lambda>v. if ck_grounding v = 0 then 1 else ck_grounding v) vs = replicate (length vs) 1"
    "List.map ck_risk vs = replicate (length vs) 0" "List.map ck_discarded vs = replicate (length vs) 0"
    using assms(2) by (auto simp: list_all_iff map_replicate_const [symmetric])
  then have sums: "sum_list (List.map (\<lambda>v. if ck_grounding v = 0 then 1 else ck_grounding v) vs) = of_nat (length vs)"
    "sum_list (List.map ck_risk vs) = 0" "sum_list (List.map ck_discarded vs) = 0"
    by (simp_all add: sum_list_replicate)
  then show ?thesis
    using assms(1) unfolding hop_stats_from_verdicts_def skip_reasoning_def Let_def if_not_P [OF assms(1)] sums by simp
qed

section \<open>Applications\<close>

definition demo_jt :: json_text where
  "demo_jt = \<lparr>jt_str = (\<lambda>_. []), jt_float = (\<lambda>_. None), jt_round = id\<rparr>"

theorem strip_splits_claims_witness:
  "let c = \<lparr>cl_body = JNull, cl_ids = [''7''], cl_quotes = []\<rparr>; x = strip_ungrounded_claims demo_jt [c] None in
   List.map jc_claim (fst x) = [c] \<and>
   mset (List.map jc_claim (fst x)) + mset (List.map jc_claim (snd x)) = {#c#}"
proof -
  let ?c = "\<lparr>cl_body = JNull, cl_ids = [''7''], cl_quotes = []\<rparr>"
  have "List.map jc_claim (fst (strip_ungrounded_claims demo_jt [?c] None)) = [?c]" by code_simp
  moreover have "mset (List.map jc_claim (fst (strip_ungrounded_claims demo_jt [?c] None))) +
      mset (List.map jc_claim (snd (strip_ungrounded_claims demo_jt [?c] None))) = mset [?c]"
    using strip_splits_claims [OF surjective_pairing, of demo_jt "[?c]" None] by blast
  ultimately show ?thesis by (simp add: Let_def del: mset_map)
qed

theorem capped_severity_bounds_witness:
  "cap_reported_severity ''critical'' ''PORT_SCAN'' ''low'' '''' True = ''high'' \<and>
   severity_rank (cap_reported_severity ''critical'' ''PORT_SCAN'' ''low'' '''' True) \<le> severity_rank ''high''"
proof -
  have "cap_reported_severity ''critical'' ''PORT_SCAN'' ''low'' '''' True = ''high''" by code_simp
  moreover have "type_key ''PORT_SCAN'' = ''PORT_SCAN''" by code_simp
  ultimately show ?thesis
    using capped_severity_bounds [OF refl, of "''critical''" "''PORT_SCAN''" "''low''" "''''" True] by blast
qed

theorem confirmation_needs_detector_witness:
  "\<not> cd_threat (apply_confirmation_gate True False no_signals True False)"
  using confirmation_needs_detector [OF refl, of True False no_signals True False]
  by (simp add: no_signals_def has_signal_def)

definition demo_round :: audit_round where
  "demo_round = \<lparr>rd_threat = True, rd_verdict = Some Suspicious, rd_conclusion = None, rd_confidence = 9 / 10,
     rd_severity = ''critical'', rd_human = False, rd_signal = False, rd_missed = []\<rparr>"

theorem merge_confirms_iff_witness:
  "\<not> mg_threat (merge_audit_rounds demo_jt [demo_round, demo_round] no_signals) \<and>
   severity_rank (mg_severity (merge_audit_rounds demo_jt [demo_round, demo_round] no_signals)) \<le> severity_rank ''medium''"
proof -
  have "\<not> has_signal no_signals \<and> \<not> list_ex rd_signal [demo_round, demo_round]"
    by (simp add: has_signal_def no_signals_def demo_round_def)
  then have "\<not> mg_threat (merge_audit_rounds demo_jt [demo_round, demo_round] no_signals)"
    using merge_confirms_iff [OF refl, of demo_jt "[demo_round, demo_round]" no_signals] by blast
  then show ?thesis
    using merge_confirms_iff [OF refl, of demo_jt "[demo_round, demo_round]" no_signals] by presburger
qed

end
