(* ===== verification/AuditTriage.thy ===== *)
theory AuditTriage
  imports VetoGates
begin

text \<open>
  The triage of an event before its audit (\<open>src/backend/audit_triage.py\<close>): a priority, a tier
  and a lane from signals that are no language model, and the admission by the budget's water level.
  The settings read are parameters; the display reasons and the summary of the signals, of which the
  admission only sets a flag, are left out.
\<close>

datatype tier = P0 | P1 | P2 | P3

datatype lane = LlmAgent | LlmSingle | LlmDeep | LlmStandard | LlmLight | ToolsOnly | RuleClose | ManualReview

definition AGENT_LANES :: "lane list" where "AGENT_LANES = [LlmAgent, LlmDeep]"
definition SINGLE_LANES :: "lane list" where "SINGLE_LANES = [LlmSingle, LlmStandard, LlmLight]"
definition LLM_LANES :: "lane list" where "LLM_LANES = AGENT_LANES @ SINGLE_LANES"

definition VOLUMETRIC_EVENT_TYPES :: "string list" where
  "VOLUMETRIC_EVENT_TYPES = [''DDOS_TRAFFIC'', ''DDOS'', ''PORT_SCAN'', ''SYN_FLOOD'', ''FLOOD'', ''HTTP_FLOOD'']"

record triage =
  tg_priority :: int
  tg_tier :: tier
  tg_lane :: lane
  tg_fused :: rat
  tg_skip :: bool
  tg_depth :: string
  tg_demoted :: bool
  tg_strong :: nat

section \<open>Scoring\<close>

definition hit_confidence :: "json_text \<Rightarrow> json \<Rightarrow> rat" where
  "hit_confidence jt hit =
     (let c = lower (jtext_or jt (jget hit ''confidence'') []) in
      if c = ''high'' then 85 / 100 else if c = ''medium'' then 65 / 100 else if c = ''low'' then 45 / 100 else 5 / 10)"

definition sigma_severity_of :: "json_text \<Rightarrow> json \<Rightarrow> string" where
  "sigma_severity_of jt ev = lower (jtext_or jt (jget (jget ev ''_sigma'') ''max_severity'') [])"

definition sigma_detected :: "json \<Rightarrow> bool" where
  "sigma_detected ev = jtruthy (jget (jget ev ''_sigma'') ''detected'')"

text \<open>A confidence above 1 is a percentage; one that is no number counts as 0.\<close>

definition event_confidence :: "json_text \<Rightarrow> json \<Rightarrow> rat" where
  "event_confidence jt ev =
     (case jfloat jt (jget ev ''confidence'') of
        None \<Rightarrow> 0 | Some x \<Rightarrow> if 1 < x then x / 100 else x)"

definition fused_confidence :: "json_text \<Rightarrow> json \<Rightarrow> rat \<Rightarrow> rat" where
  "fused_confidence jt ev anomaly =
     (let hits = filter is_obj (jitems (jget (jget ev ''_sigma'') ''hits''));
          s0 = fold max (List.map (hit_confidence jt) hits) 0;
          s = (if sigma_detected ev \<and> sigma_severity_of jt ev = ''critical'' then max s0 (85 / 100) else s0)
      in min 1 (max (max (anomaly * (12 / 10)) s) (event_confidence jt ev)))"

definition triage_type :: "json_text \<Rightarrow> json \<Rightarrow> string" where
  "triage_type jt ev =
     upper (jtext_or jt (jor (jget ev ''threat_type'') (jor (jget ev ''event'') (jget ev ''type''))) ''UNKNOWN'')"

definition severity_points :: "string \<Rightarrow> int" where
  "severity_points s = (if s = ''critical'' then 35 else if s = ''high'' then 25 else if s = ''medium'' then 12 else 0)"

definition anomaly_points :: "rat \<Rightarrow> int" where
  "anomaly_points x = (if 7 / 10 \<le> x then 25 else if 5 / 10 \<le> x then 15 else if 3 / 10 \<le> x then 8 else 0)"

definition triage_priority ::
  "string \<Rightarrow> bool \<Rightarrow> string \<Rightarrow> rat \<Rightarrow> bool \<Rightarrow> string \<Rightarrow> rat \<Rightarrow> string \<Rightarrow> int"
where
  "triage_priority sev hit ssev anomaly signal etype fused asset =
     max 0 (min 100
       (20 + severity_points sev + (if hit \<and> ssev = ''critical'' then 40 else if hit then 20 else 0) +
        anomaly_points anomaly + (if signal then 15 else 0) +
        (if etype \<in> set HIGH_RISK_EVENT_TYPES \<or> etype \<in> set TYPE_SIGNAL_EVENTS then 10 else 0) +
        (if 85 / 100 \<le> fused then 15 else if 7 / 10 \<le> fused then 8 else 0) +
        (if asset \<in> {''critical'', ''high''} then 12 else 0)))"

definition strong_signals :: "bool \<Rightarrow> rat \<Rightarrow> bool \<Rightarrow> bool \<Rightarrow> nat" where
  "strong_signals sigma_critical fused high_risk ioc =
     (if sigma_critical then 1 else 0) + (if 85 / 100 \<le> fused then 1 else 0) +
     (if high_risk then 1 else 0) + (if ioc then 1 else 0)"

definition default_lane :: "bool \<Rightarrow> bool \<Rightarrow> bool \<Rightarrow> nat \<Rightarrow> bool \<Rightarrow> bool \<Rightarrow> string \<Rightarrow> rat \<Rightarrow> tier \<times> lane \<times> string" where
  "default_lane skip_vol volumetric sigma_critical strong hit high_risk sev anomaly =
     (if volumetric \<and> skip_vol \<and> \<not> sigma_critical then (P2, ToolsOnly, ''quick'')
      else if 2 \<le> strong then (P0, LlmAgent, ''deep'')
      else if \<not> volumetric \<and> (hit \<or> high_risk \<or> sev = ''critical'') then (P1, LlmSingle, ''quick'')
      else if sev = ''medium'' \<or> 3 / 10 \<le> anomaly \<or> volumetric then (P2, ToolsOnly, ''quick'')
      else (P3, RuleClose, ''quick''))"

definition demote_replay :: "bool \<Rightarrow> bool \<Rightarrow> rat \<Rightarrow> tier \<times> lane \<times> string \<Rightarrow> tier \<times> lane \<times> string" where
  "demote_replay fastpath sigma_critical fused x =
     (if fastpath \<and> \<not> (sigma_critical \<or> 9 / 10 \<le> fused)
      then (if fst x = P0 \<or> fst x = P1 then P2 else fst x, ToolsOnly, ''quick'') else x)"

definition sigma_critical :: "json_text \<Rightarrow> json \<Rightarrow> bool" where
  "sigma_critical jt ev \<longleftrightarrow> sigma_detected ev \<and> sigma_severity_of jt ev = ''critical''"

definition event_signals :: "json_text \<Rightarrow> (string \<Rightarrow> string) \<Rightarrow> json \<Rightarrow> rat \<Rightarrow> signals" where
  "event_signals jt infer ev anomaly = extract_non_llm_signals jt infer [] ev [] [] (Some anomaly)"

definition event_strong :: "json_text \<Rightarrow> (string \<Rightarrow> string) \<Rightarrow> json \<Rightarrow> rat \<Rightarrow> nat" where
  "event_strong jt infer ev anomaly =
     strong_signals (sigma_critical jt ev) (fused_confidence jt ev anomaly)
       (triage_type jt ev \<in> set HIGH_RISK_EVENT_TYPES) (ns_ioc (event_signals jt infer ev anomaly))"

definition event_severity :: "json_text \<Rightarrow> json \<Rightarrow> string" where
  "event_severity jt ev = lower (jtext_or jt (jget ev ''severity'') ''info'')"

definition event_lane :: "json_text \<Rightarrow> (string \<Rightarrow> string) \<Rightarrow> bool \<Rightarrow> json \<Rightarrow> rat \<Rightarrow> bool \<Rightarrow> tier \<times> lane \<times> string" where
  "event_lane jt infer skip_vol ev anomaly fastpath =
     demote_replay fastpath (sigma_critical jt ev) (fused_confidence jt ev anomaly)
       (default_lane skip_vol (triage_type jt ev \<in> set VOLUMETRIC_EVENT_TYPES) (sigma_critical jt ev)
          (event_strong jt infer ev anomaly) (sigma_detected ev) (triage_type jt ev \<in> set HIGH_RISK_EVENT_TYPES)
          (event_severity jt ev) anomaly)"

definition score_event ::
  "json_text \<Rightarrow> (string \<Rightarrow> string) \<Rightarrow> bool \<Rightarrow> json \<Rightarrow> rat \<Rightarrow> bool \<Rightarrow> string \<Rightarrow> triage"
where
  "score_event jt infer skip_vol ev anomaly fastpath asset =
     (let fused = fused_confidence jt ev anomaly; x = event_lane jt infer skip_vol ev anomaly fastpath in
      \<lparr>tg_priority = triage_priority (event_severity jt ev) (sigma_detected ev) (sigma_severity_of jt ev) anomaly
                       (has_signal (event_signals jt infer ev anomaly)) (triage_type jt ev) fused (lower asset),
       tg_tier = fst x, tg_lane = fst (snd x), tg_fused = fused,
       tg_skip = fst (snd x) \<in> {ToolsOnly, RuleClose, ManualReview}, tg_depth = snd (snd x),
       tg_demoted = fastpath \<and> \<not> (sigma_critical jt ev \<or> 9 / 10 \<le> fused),
       tg_strong = event_strong jt infer ev anomaly\<rparr>)"

section \<open>Admission\<close>

datatype water = Normal | Soft | Hard

definition budget_water_level :: "rat \<Rightarrow> rat \<Rightarrow> rat \<Rightarrow> water" where
  "budget_water_level usage soft hard = (if hard \<le> usage then Hard else if soft \<le> usage then Soft else Normal)"

text \<open>The copy drops the count of strong signals, which falls back to its default.\<close>

definition admit :: "triage \<Rightarrow> rat \<Rightarrow> bool \<Rightarrow> rat \<Rightarrow> rat \<Rightarrow> bool \<Rightarrow> triage" where
  "admit tg usage over_budget soft hard inflight_full =
     (let water = (if over_budget then Hard else budget_water_level usage soft hard);
          out = tg\<lparr>tg_strong := 0\<rparr>
      in if water = Normal \<and> \<not> inflight_full then out
         else if water = Soft then
           (if tg_tier out = P3 then out\<lparr>tg_lane := RuleClose, tg_skip := True\<rparr> else out)
         else if tg_tier out = P0 then out\<lparr>tg_lane := LlmSingle, tg_skip := False, tg_depth := ''quick''\<rparr>
         else if tg_tier out = P1 then out\<lparr>tg_lane := ToolsOnly, tg_skip := True, tg_depth := ''quick''\<rparr>
         else if inflight_full then
           out\<lparr>tg_lane := (if tg_tier out = P3 then RuleClose else ToolsOnly), tg_skip := True, tg_depth := ''quick''\<rparr>
         else out\<lparr>tg_lane := RuleClose, tg_skip := True, tg_depth := ''quick''\<rparr>)"

definition needs_llm :: "lane \<Rightarrow> bool" where "needs_llm l \<longleftrightarrow> l \<in> set LLM_LANES"
definition uses_temporal :: "lane \<Rightarrow> bool" where "uses_temporal l \<longleftrightarrow> l \<in> set AGENT_LANES"
definition uses_llm_single :: "lane \<Rightarrow> bool" where "uses_llm_single l \<longleftrightarrow> l \<in> set SINGLE_LANES"

text \<open>Settings that are zero fall back to their default, as \<open>or\<close> does.\<close>

definition lane_max_rounds :: "int \<Rightarrow> int \<Rightarrow> lane \<Rightarrow> int \<Rightarrow> int" where
  "lane_max_rounds agent_cap deep_cap l requested =
     (if l \<in> set AGENT_LANES then
        (let cap = (if agent_cap \<noteq> 0 then agent_cap else if deep_cap \<noteq> 0 then deep_cap else 1);
             req = (if requested = 0 then cap else requested)
         in max 1 (min req cap))
      else if l \<in> set SINGLE_LANES then max 1 (min (if requested = 0 then 1 else requested) 1)
      else 1)"

definition set_or :: "'a::zero \<Rightarrow> 'a \<Rightarrow> 'a" where
  "set_or x dflt = (if x = 0 then dflt else x)"

definition lane_timeout_s :: "rat \<Rightarrow> rat \<Rightarrow> rat \<Rightarrow> rat \<Rightarrow> tier \<Rightarrow> rat" where
  "lane_timeout_s s0 s1 s2 s3 t =
     (case t of P0 \<Rightarrow> set_or s0 90 | P1 \<Rightarrow> set_or s1 45 | P3 \<Rightarrow> set_or s3 10 | P2 \<Rightarrow> set_or s2 20)"

definition pq_ttl_for_tier :: "int \<Rightarrow> int \<Rightarrow> int \<Rightarrow> int \<Rightarrow> tier \<Rightarrow> int" where
  "pq_ttl_for_tier s0 s1 s2 s t =
     (case t of P0 \<Rightarrow> set_or s0 3600 | P1 \<Rightarrow> set_or s1 1800 | P2 \<Rightarrow> set_or s2 300 | P3 \<Rightarrow> set_or s 900)"

section \<open>Properties\<close>

lemma demoted_tier: "fst (demote_replay f c x y) = P0 \<Longrightarrow> demote_replay f c x y = y"
  by (auto simp: demote_replay_def split: if_splits)

lemma default_P0:
  "fst (default_lane sv v c n h hr sev a) = P0 \<longleftrightarrow> 2 \<le> n \<and> \<not> (v \<and> sv \<and> \<not> c)"
  "fst (default_lane sv v c n h hr sev a) = P0 \<Longrightarrow> default_lane sv v c n h hr sev a = (P0, LlmAgent, ''deep'')"
  by (auto simp: default_lane_def split: if_splits)

lemma top_lane:
  assumes "fst (event_lane jt infer sv ev a f) = P0"
  shows "event_lane jt infer sv ev a f = (P0, LlmAgent, ''deep'') \<and> 2 \<le> event_strong jt infer ev a"
proof -
  note same = demoted_tier [OF assms [unfolded event_lane_def]]
  have "fst (default_lane sv (triage_type jt ev \<in> set VOLUMETRIC_EVENT_TYPES) (sigma_critical jt ev)
      (event_strong jt infer ev a) (sigma_detected ev) (triage_type jt ev \<in> set HIGH_RISK_EVENT_TYPES)
      (event_severity jt ev) a) = P0"
    using assms unfolding event_lane_def same .
  from default_P0(2) [OF this] default_P0(1) [THEN iffD1, OF this]
  show ?thesis unfolding event_lane_def same by simp
qed

text \<open>
  C17. An event of the top tier always reaches a language model: whatever the budget, the water
  levels and the load, the admission leaves it in a lane with a model, never skips it, and keeps its
  tier; and only an event with two independent strong signals gets that tier.
\<close>

theorem top_tier_never_shut_out:
  assumes "tg = score_event jt infer skip_vol ev anomaly fastpath asset" and "tg_tier tg = P0"
    and "out = admit tg usage over soft hard full"
  shows "needs_llm (tg_lane out) \<and> \<not> tg_skip out \<and> tg_tier out = P0 \<and> 2 \<le> tg_strong tg"
proof -
  have "fst (event_lane jt infer skip_vol ev anomaly fastpath) = P0" using assms(1,2) by (simp add: score_event_def Let_def)
  note top = top_lane [OF this]
  then have "tg_lane tg = LlmAgent \<and> \<not> tg_skip tg \<and> 2 \<le> tg_strong tg" by (simp add: assms(1) score_event_def Let_def)
  then show ?thesis
    using assms(2,3) by (auto simp: admit_def Let_def needs_llm_def LLM_LANES_def AGENT_LANES_def SINGLE_LANES_def)
qed

text \<open>How much an event costs: the deeper the lane, the more.\<close>

fun lane_cost :: "lane \<Rightarrow> nat" where
  "lane_cost LlmAgent = 2" | "lane_cost LlmDeep = 2"
| "lane_cost LlmSingle = 1" | "lane_cost LlmStandard = 1" | "lane_cost LlmLight = 1"
| "lane_cost ToolsOnly = 0" | "lane_cost RuleClose = 0" | "lane_cost ManualReview = 0"

fun tier_cost :: "tier \<Rightarrow> nat" where
  "tier_cost P0 = 2" | "tier_cost P1 = 1" | "tier_cost P2 = 0" | "tier_cost P3 = 0"

lemma default_cost:
  "lane_cost (fst (snd (default_lane sv v c n h hr sev a))) = tier_cost (fst (default_lane sv v c n h hr sev a))"
  by (simp add: default_lane_def)

lemma demoted_cost:
  "lane_cost (fst (snd y)) = tier_cost (fst y) \<Longrightarrow>
     lane_cost (fst (snd (demote_replay f c x y))) = tier_cost (fst (demote_replay f c x y))"
  by (cases "fst y") (simp_all add: demote_replay_def)

lemma scored_cost:
  "lane_cost (tg_lane (score_event jt infer sv ev a f as)) = tier_cost (tg_tier (score_event jt infer sv ev a f as))"
  by (simp add: score_event_def Let_def event_lane_def demoted_cost default_cost)

text \<open>
  The admission never makes an event more expensive: its lane asks at most as many models as the
  one the triage chose, and once the budget is exhausted at most one, and that only for the top tier.
\<close>

theorem admission_only_saves:
  assumes "tg = score_event jt infer skip_vol ev anomaly fastpath asset"
    and "out = admit tg usage over soft hard full"
  shows "lane_cost (tg_lane out) \<le> lane_cost (tg_lane tg) \<and>
    (over \<or> hard \<le> usage \<longrightarrow> lane_cost (tg_lane out) = (if tg_tier tg = P0 then 1 else 0))"
proof -
  have "lane_cost (tg_lane tg) = tier_cost (tg_tier tg)" by (simp add: assms(1) scored_cost)
  then show ?thesis
    unfolding assms(2) admit_def Let_def budget_water_level_def
    by (cases "tg_tier tg") auto
qed

text \<open>A full queue is handled as an exhausted budget: with a normal budget it takes the model from the second tier.\<close>

theorem full_queue_acts_as_exhausted_budget:
  assumes "tg_tier tg = P1" and "usage < soft" and "soft \<le> hard"
  shows "tg_lane (admit tg usage False soft hard True) = ToolsOnly \<and>
    tg_lane (admit tg usage False soft hard False) = tg_lane tg"
  using assms by (simp add: admit_def budget_water_level_def Let_def)

definition demo_event :: json where
  "demo_event = JObj [(''severity'', JStr ''critical''), (''event'', JStr ''C2_BEACON''),
     (''_sigma'', JObj [(''detected'', JBool True), (''max_severity'', JStr ''critical'')])]"

theorem top_tier_never_shut_out_witness:
  "needs_llm (tg_lane (admit (score_event demo_jt (\<lambda>_. []) True demo_event (9 / 10) False []) 99 True 70 95 True))"
proof -
  have "tg_tier (score_event demo_jt (\<lambda>_. []) True demo_event (9 / 10) False []) = P0" by code_simp
  from top_tier_never_shut_out [OF refl this refl] show ?thesis by blast
qed

theorem admission_only_saves_witness:
  "lane_cost (tg_lane (admit (score_event demo_jt (\<lambda>_. []) True demo_event (9 / 10) False []) 99 False 70 95 False)) \<le> 2"
proof -
  have "lane_cost (tg_lane (score_event demo_jt (\<lambda>_. []) True demo_event (9 / 10) False [])) = 2" by code_simp
  then show ?thesis using admission_only_saves [OF refl refl] by (metis (no_types, lifting))
qed

end
