(* ===== verification/FaithfulnessGate.thy ===== *)
theory FaithfulnessGate
  imports AuditTriage
begin

text \<open>
  The faithfulness gate of a merged audit (\<open>src/backend/faithfulness_gate.py\<close>) with the parts of
  \<open>eval_metrics.py\<close> it calls.  A text that is not backed by the evidence forces a human review and
  takes back a confirmation.  Texts are ASCII, so the tokens of Chinese characters do not occur.  The
  entities the regular expressions find in a claim are a parameter, a list for the Python set.  The merged result
  is the JSON dict the code updates; of the report inside it only the fields other code reads are
  written.
\<close>

record faith_env =
  fe_json :: json_text
  fe_entities :: "string \<Rightarrow> string list"

section \<open>Support of a claim\<close>

definition LEXICAL_SUPPORT_THRESHOLD :: rat where "LEXICAL_SUPPORT_THRESHOLD = 35 / 100"
definition FAITHFULNESS_THRESHOLD :: rat where "FAITHFULNESS_THRESHOLD = 75 / 100"
definition UNSUPPORTED_RATIO_THRESHOLD :: rat where "UNSUPPORTED_RATIO_THRESHOLD = 75 / 100"

definition word_char :: "char \<Rightarrow> bool" where
  "word_char c =
     (let n = (of_char c :: int) in
      is_digit c \<or> (65 \<le> n \<and> n \<le> 90) \<or> (97 \<le> n \<and> n \<le> 122) \<or> c = CHR ''_'')"

text \<open>The longest runs of word characters, in lower case.\<close>

definition tokenize :: "string \<Rightarrow> string list" where
  "tokenize s =
     List.map lower (filter (\<lambda>w. w \<noteq> []) (split_on CHR '' '' (List.map (\<lambda>c. if word_char c then c else CHR '' '') s)))"

definition lexical_overlap_score :: "string \<Rightarrow> string \<Rightarrow> rat" where
  "lexical_overlap_score l r =
     (let a = remdups (tokenize l); b = tokenize r in
      if a = [] \<or> b = [] then 0
      else of_nat (length (filter (\<lambda>t. t \<in> set b) a)) / of_nat (length a))"

text \<open>The full stops of the code are Chinese; of its separators only the line feed is ASCII.\<close>

definition split_claims :: "string \<Rightarrow> string list" where
  "split_claims answer =
     filter (\<lambda>c. 8 \<le> length c) (List.map strip (split_on (CHR 0x0A) answer))"

definition after_colon :: "string \<Rightarrow> string" where
  "after_colon e = tl (dropWhile (\<lambda>c. c \<noteq> CHR '':'') e)"

definition entity_in :: "string \<Rightarrow> string \<Rightarrow> bool" where
  "entity_in evidence e =
     (if starts_with ''port:'' e then contains (after_colon e) evidence
      else if starts_with ''CVE-'' e \<or> starts_with ''T'' e then contains e (upper evidence)
      else contains e (lower evidence))"

definition entity_entailment_ok :: "faith_env \<Rightarrow> string \<Rightarrow> string \<Rightarrow> bool" where
  "entity_entailment_ok env c evidence = list_all (entity_in evidence) (fe_entities env c)"

definition claim_is_supported :: "faith_env \<Rightarrow> string \<Rightarrow> string \<Rightarrow> bool" where
  "claim_is_supported env c evidence \<longleftrightarrow>
     strip c = [] \<or> (entity_entailment_ok env c evidence \<and> LEXICAL_SUPPORT_THRESHOLD \<le> lexical_overlap_score c evidence)"

text \<open>The report's own test of an entity: a short one that starts with \<open>T\<close> is looked up in lower case.\<close>

definition phantom_entity :: "string \<Rightarrow> string \<Rightarrow> bool" where
  "phantom_entity evidence e =
     (if starts_with ''port:'' e then \<not> contains (after_colon e) evidence
      else if starts_with ''CVE-'' e \<or> (starts_with ''T'' e \<and> 5 \<le> length e) then \<not> contains e (upper evidence)
      else \<not> contains e (lower evidence))"

definition context_text :: "json_text \<Rightarrow> json \<Rightarrow> string" where
  "context_text jt c = jtext_or jt (jor (jget c ''content'') (jget c ''text'')) []"

definition evidence_blob :: "json_text \<Rightarrow> json list \<Rightarrow> string" where
  "evidence_blob jt cs = join [CHR 0x0A] (List.map (context_text jt) (filter jtruthy cs))"

record faith_report =
  fr_claims :: nat
  fr_supported :: nat
  fr_faithfulness :: rat
  fr_unsupported :: rat
  fr_phantom :: "string list"
  fr_passed :: bool

definition compute_faithfulness :: "faith_env \<Rightarrow> string \<Rightarrow> json list \<Rightarrow> faith_report" where
  "compute_faithfulness env answer contexts =
     (let jt = fe_json env; evidence = evidence_blob jt contexts; claims = split_claims answer; n = length claims in
      if claims = [] then
        \<lparr>fr_claims = 0, fr_supported = 0, fr_faithfulness = 1, fr_unsupported = 1, fr_phantom = [], fr_passed = True\<rparr>
      else
        (let ok = length (filter (\<lambda>c. claim_is_supported env c evidence) claims);
             faith = jt_round jt (of_nat ok / of_nat n);
             unsup = jt_round jt (1 - of_nat (n - ok) / of_nat n);
             phantom = filter (phantom_entity evidence) (concat (List.map (fe_entities env) claims))
         in \<lparr>fr_claims = n, fr_supported = ok, fr_faithfulness = faith, fr_unsupported = unsup,
             fr_phantom = take 12 phantom,
             fr_passed = FAITHFULNESS_THRESHOLD \<le> faith \<and> UNSUPPORTED_RATIO_THRESHOLD \<le> unsup \<and> phantom = []\<rparr>))"

section \<open>The gate\<close>

definition report_json :: "faith_report \<Rightarrow> bool \<Rightarrow> json" where
  "report_json r abst =
     JObj [(''claim_count'', JNum (of_nat (fr_claims r))), (''supported_count'', JNum (of_nat (fr_supported r))),
           (''faithfulness'', JNum (fr_faithfulness r)), (''unsupported_claim_ratio_score'', JNum (fr_unsupported r)),
           (''phantom_entities'', JList (List.map JStr (fr_phantom r))), (''passed'', JBool (fr_passed r \<and> \<not> abst))]"

definition has_non_llm_threat_signal :: "json_text \<Rightarrow> json \<Rightarrow> bool" where
  "has_non_llm_threat_signal jt s \<longleftrightarrow>
     jtruthy s \<and>
     (jtruthy (jget s ''sigma_detected'') \<or> jtruthy (jget s ''detected'') \<or>
      jtruthy (jget s ''has_admitted_claims'') \<or> jtruthy (jget s ''confirmation_admitted'') \<or>
      (case jfloat jt (jget s ''anomaly_score'') of Some x \<Rightarrow> 6 / 10 \<le> x | None \<Rightarrow> False) \<or>
      jtruthy (jor (jget s ''hits'') (jget s ''sigma_hits'')))"

definition claims_threat :: "json \<Rightarrow> bool" where
  "claims_threat m \<longleftrightarrow> jget m ''verdict'' = JStr ''confirmed'' \<or> jtruthy (jget m ''threat_detected'')"

definition soft_demote :: "json \<Rightarrow> json" where
  "soft_demote m =
     jset ''demoted_by'' (JStr ''faithfulness_gate_soft'') (jset ''response_blocked'' (JBool False)
       (jset ''threat_detected'' (JBool True) (jset ''verdict'' (JStr ''suspicious'') m)))"

definition hard_demote :: "bool \<Rightarrow> json \<Rightarrow> json" where
  "hard_demote abst m0 =
     (let m1 = jset ''response_blocked'' (JBool True) m0;
          m2 = (if claims_threat m1 then jset ''demoted_by'' (JStr ''faithfulness_gate'')
                    (jset ''threat_detected'' (JBool False) (jset ''verdict'' (JStr ''suspicious'') m1)) else m1)
      in if abst \<and> jget m2 ''verdict'' \<noteq> JStr ''false_positive'' \<and> \<not> jtruthy (jget m2 ''threat_detected'')
         then jset ''verdict'' (JStr ''insufficient_evidence'') m2 else m2)"

definition gate_merged :: "json_text \<Rightarrow> bool \<Rightarrow> bool \<Rightarrow> json \<Rightarrow> json \<Rightarrow> json" where
  "gate_merged jt blocked abst sigs m =
     (if blocked then
        (let m1 = jset ''needs_human'' (JBool True) m in
         if has_non_llm_threat_signal jt sigs \<and> claims_threat m1 then soft_demote m1 else hard_demote abst m1)
      else if \<not> jhas m ''response_blocked'' then jset ''response_blocked'' (JBool False) m else m)"

definition apply_faithfulness_gate :: "faith_env \<Rightarrow> json \<Rightarrow> string \<Rightarrow> json list \<Rightarrow> bool \<Rightarrow> json \<Rightarrow> json" where
  "apply_faithfulness_gate env merged answer contexts abst sigs =
     (let jt = fe_json env; r = compute_faithfulness env answer contexts;
          out = jset ''faithfulness'' (report_json r abst) merged;
          gated = gate_merged jt (\<not> fr_passed r \<or> abst) abst sigs out
      in sanitize_merged_audit jt gated (evidence_blob jt contexts)
           (jtext_or jt (jget sigs ''event_type'') []) (jtext_or jt (jget sigs ''event_severity'') [])
           (jtext_or jt (jget sigs ''sigma_severity'') []) (jtruthy (jor (jget sigs ''cep_chain'') (jget sigs ''chain''))))"

definition llm_alone_false_positive_rate :: "json list \<Rightarrow> rat" where
  "llm_alone_false_positive_rate ds =
     (if ds = [] then 0 else of_nat (length (filter claims_threat ds)) / of_nat (length ds))"

section \<open>Properties\<close>

lemma sanitize_keeps:
  assumes "is_obj m" and "k \<notin> {''severity'', ''mitre_techniques'', ''stripped_mitre''}"
  shows "jget (sanitize_merged_audit jt m ev et es ss ch) k = jget m k"
  using assms by (simp add: sanitize_merged_audit_def strip_phantom_mitre_def Let_def jget_jset)

text \<open>
  C13. A merged audit whose text the evidence does not support, or whose model abstained, is never
  left confirmed: a human has to review it; if no other detector backs a threat in it, it is no
  threat any more and its automatic response is blocked; if one does, it stays a threat, but only a
  suspicion.
\<close>

theorem unfaithful_audit_not_confirmed:
  assumes "out = apply_faithfulness_gate env merged answer contexts abst sigs" and "is_obj merged"
    and "\<not> fr_passed (compute_faithfulness env answer contexts) \<or> abst"
  shows "jget out ''verdict'' \<noteq> JStr ''confirmed'' \<and> jget out ''needs_human'' = JBool True \<and>
    (if has_non_llm_threat_signal (fe_json env) sigs \<and> claims_threat merged
     then jget out ''verdict'' = JStr ''suspicious'' \<and> jget out ''threat_detected'' = JBool True
     else \<not> jtruthy (jget out ''threat_detected'') \<and> jget out ''response_blocked'' = JBool True)"
  using assms(3)
  by (simp add: assms(1,2) apply_faithfulness_gate_def Let_def sanitize_keeps gate_merged_def soft_demote_def
      hard_demote_def jget_jset claims_threat_def)

text \<open>
  In an audit that passes the gate every entity of its claims occurs in the evidence, and at
  least three quarters of its claims are supported, up to the rounding of the ratio.
\<close>

theorem passed_report_supported:
  assumes "fr_passed (compute_faithfulness env answer contexts)" and "split_claims answer \<noteq> []"
  shows "list_all (\<lambda>c. list_all (\<lambda>e. \<not> phantom_entity (evidence_blob (fe_json env) contexts) e) (fe_entities env c)) (split_claims answer) \<and>
    75 / 100 \<le> jt_round (fe_json env)
      (of_nat (length (filter (\<lambda>c. claim_is_supported env c (evidence_blob (fe_json env) contexts)) (split_claims answer))) /
       of_nat (length (split_claims answer)))"
  using assms by (auto simp: compute_faithfulness_def Let_def FAITHFULNESS_THRESHOLD_def list_all_iff filter_empty_conv)

text \<open>An entity counts as found inside a longer one.\<close>

theorem longer_entity_supports:
  assumes "\<not> starts_with ''port:'' e" and "\<not> starts_with ''CVE-'' e" and "\<not> starts_with ''T'' e"
    and "contains e (lower evidence)"
  shows "entity_in evidence e \<and> \<not> phantom_entity evidence e"
  using assms by (simp add: entity_in_def phantom_entity_def)

definition demo_fe :: faith_env where
  "demo_fe = \<lparr>fe_json = demo_jt, fe_entities = (\<lambda>s. [])\<rparr>"

definition demo_merged :: json where
  "demo_merged = JObj [(''verdict'', JStr ''confirmed''), (''threat_detected'', JBool True), (''severity'', JStr ''critical'')]"

theorem unfaithful_audit_not_confirmed_witness:
  "jget (apply_faithfulness_gate demo_fe demo_merged ''the host talks to 203.0.113.9'' [] False JNull) ''verdict'' \<noteq> JStr ''confirmed''"
proof -
  have "\<not> fr_passed (compute_faithfulness demo_fe ''the host talks to 203.0.113.9'' [])" by code_simp
  moreover have "is_obj demo_merged" by (simp add: demo_merged_def)
  ultimately show ?thesis using unfaithful_audit_not_confirmed [OF refl] by blast
qed

theorem passed_report_supported_witness:
  "75 / 100 \<le> (of_nat (length (filter (\<lambda>c. claim_is_supported demo_fe c
      (evidence_blob demo_jt [JObj [(''content'', JStr ''the host is fine'')]])) (split_claims ''the host is fine''))) /
      of_nat (length (split_claims ''the host is fine'')) :: rat)"
proof -
  have "fr_passed (compute_faithfulness demo_fe ''the host is fine'' [JObj [(''content'', JStr ''the host is fine'')]])"
    and "split_claims ''the host is fine'' \<noteq> []" by code_simp+
  from passed_report_supported [OF this] show ?thesis by (simp add: demo_fe_def demo_jt_def)
qed

end
