(* ===== verification/LlmLimiter.thy ===== *)
theory LlmLimiter
  imports Prelude
begin

text \<open>
  The gate in front of every call of a language model (\<open>src/backend/llm_limiter.py\<close>).  Calls
  enter while slots are free; calls of the top tier may take every slot, the others leave a
  reserve.  \<open>_enter\<close> holds the lock except while it waits on the condition variable, so its
  turns are atomic: the first one, and one after each wake-up.  The model keeps the tasks that
  wait and the tasks that hold a slot beside the counters of the code and shows that the counters
  are what they claim to be.  The settings are read once per call and taken as fixed; the metrics
  are left out.
\<close>

section \<open>The counters and their turns\<close>

record llm_settings =
  llm_global_concurrency :: int
  llm_p0_reserve :: int

record llm_limiter =
  used :: int
  p0_used :: int
  waiters :: int

definition new_llm_limiter :: llm_limiter where
  "new_llm_limiter = \<lparr>used = 0, p0_used = 0, waiters = 0\<rparr>"

definition slot_limit :: "llm_settings \<Rightarrow> int" where
  "slot_limit cfg =
     max 1 (if llm_global_concurrency cfg = 0 then 8 else llm_global_concurrency cfg)"

definition slot_reserve :: "llm_settings \<Rightarrow> int" where
  "slot_reserve cfg =
     (let n = slot_limit cfg; r = max 0 (llm_p0_reserve cfg) in min r (max 0 (n - 1)))"

definition is_p0 :: "string \<Rightarrow> bool" where
  "is_p0 tier \<longleftrightarrow> upper tier = ''P0''"

definition can_enter :: "llm_settings \<Rightarrow> bool \<Rightarrow> llm_limiter \<Rightarrow> bool" where
  "can_enter cfg p0 l =
     (let limit = slot_limit cfg; reserved = slot_reserve cfg in
      if used l \<ge> limit then False
      else if p0 then True
      else max 0 (used l - p0_used l) < max 0 (limit - reserved))"

datatype enter_result = Entered | Waits | SlotTimeout

text \<open>
  One turn of the loop of \<open>_enter\<close>; \<open>expired\<close> says that the deadline has passed.  Leaving the
  loop either way runs the \<open>finally\<close> block.
\<close>

definition enter_turn :: "llm_settings \<Rightarrow> bool \<Rightarrow> bool \<Rightarrow> llm_limiter \<Rightarrow> enter_result \<times> llm_limiter" where
  "enter_turn cfg p0 expired l =
     (let done = l\<lparr>waiters := max 0 (waiters l - 1)\<rparr> in
      if can_enter cfg p0 l
      then (Entered, done\<lparr>used := used l + 1, p0_used := (if p0 then p0_used l + 1 else p0_used l)\<rparr>)
      else if expired then (SlotTimeout, done)
      else (Waits, l))"

definition enter_start :: "llm_settings \<Rightarrow> string \<Rightarrow> bool \<Rightarrow> llm_limiter \<Rightarrow> enter_result \<times> llm_limiter" where
  "enter_start cfg tier expired l =
     enter_turn cfg (is_p0 tier) expired (l\<lparr>waiters := waiters l + 1\<rparr>)"

text \<open>The wait times out or its task is cancelled.\<close>

definition give_up :: "llm_limiter \<Rightarrow> llm_limiter" where
  "give_up l = l\<lparr>waiters := max 0 (waiters l - 1)\<rparr>"

definition leave :: "string \<Rightarrow> llm_limiter \<Rightarrow> llm_limiter" where
  "leave tier l =
     l\<lparr>used := max 0 (used l - 1),
       p0_used := (if is_p0 tier then max 0 (p0_used l - 1) else p0_used l)\<rparr>"

definition limiter_snapshot :: "llm_settings \<Rightarrow> llm_limiter \<Rightarrow> (string \<times> int) list" where
  "limiter_snapshot cfg l =
     [(''used'', used l), (''p0_used'', p0_used l), (''waiters'', waiters l),
      (''limit'', slot_limit cfg), (''reserve'', slot_reserve cfg)]"

section \<open>The tasks around the gate\<close>

text \<open>
  A task is a number with the tier it passes to \<open>acquire\<close>.  It starts, and enters, waits or
  times out; a waiting one is woken and tries again, or gives up; one that holds a slot leaves,
  with the tier it entered with.
\<close>

type_synonym task = "nat \<times> string"

record gate =
  lim :: llm_limiter
  waiting :: "task list"
  holding :: "task list"

definition new_gate :: gate where
  "new_gate = \<lparr>lim = new_llm_limiter, waiting = [], holding = []\<rparr>"

inductive gate_step :: "llm_settings \<Rightarrow> gate \<Rightarrow> gate \<Rightarrow> bool" for cfg :: llm_settings where
  start_enters: "enter_start cfg (snd t) x (lim g) = (Entered, l) \<Longrightarrow>
    gate_step cfg g (g\<lparr>lim := l, holding := t # holding g\<rparr>)"
| start_waits: "enter_start cfg (snd t) x (lim g) = (Waits, l) \<Longrightarrow>
    gate_step cfg g (g\<lparr>lim := l, waiting := waiting g @ [t]\<rparr>)"
| start_times_out: "enter_start cfg tier x (lim g) = (SlotTimeout, l) \<Longrightarrow>
    gate_step cfg g (g\<lparr>lim := l\<rparr>)"
| wake_enters: "t \<in> set (waiting g) \<Longrightarrow> enter_turn cfg (is_p0 (snd t)) x (lim g) = (Entered, l) \<Longrightarrow>
    gate_step cfg g (g\<lparr>lim := l, waiting := remove1 t (waiting g), holding := t # holding g\<rparr>)"
| wake_waits: "t \<in> set (waiting g) \<Longrightarrow> enter_turn cfg (is_p0 (snd t)) x (lim g) = (Waits, l) \<Longrightarrow>
    gate_step cfg g (g\<lparr>lim := l\<rparr>)"
| wake_times_out: "t \<in> set (waiting g) \<Longrightarrow> enter_turn cfg (is_p0 (snd t)) x (lim g) = (SlotTimeout, l) \<Longrightarrow>
    gate_step cfg g (g\<lparr>lim := l, waiting := remove1 t (waiting g)\<rparr>)"
| gives_up: "t \<in> set (waiting g) \<Longrightarrow>
    gate_step cfg g (g\<lparr>lim := give_up (lim g), waiting := remove1 t (waiting g)\<rparr>)"
| leaves: "t \<in> set (holding g) \<Longrightarrow>
    gate_step cfg g (g\<lparr>lim := leave (snd t) (lim g), holding := remove1 t (holding g)\<rparr>)"

definition p0_tasks :: "task list \<Rightarrow> task list" where
  "p0_tasks ts = filter (\<lambda>t. is_p0 (snd t)) ts"

definition other_tasks :: "task list \<Rightarrow> task list" where
  "other_tasks ts = filter (\<lambda>t. \<not> is_p0 (snd t)) ts"

text \<open>The counters count the tasks, and the bounds hold.\<close>

definition gate_ok :: "llm_settings \<Rightarrow> gate \<Rightarrow> bool" where
  "gate_ok cfg g \<longleftrightarrow>
     used (lim g) = int (length (holding g)) \<and>
     p0_used (lim g) = int (length (p0_tasks (holding g))) \<and>
     waiters (lim g) = int (length (waiting g)) \<and>
     int (length (holding g)) \<le> slot_limit cfg \<and>
     int (length (other_tasks (holding g))) \<le> slot_limit cfg - slot_reserve cfg"

section \<open>The invariant\<close>

lemma limit_pos: "1 \<le> slot_limit cfg"
  by (simp add: slot_limit_def)

lemma reserve_bounds: "0 \<le> slot_reserve cfg" "slot_reserve cfg < slot_limit cfg"
  using limit_pos [of cfg] by (auto simp: slot_reserve_def Let_def)

lemma split_tasks: "length (p0_tasks ts) + length (other_tasks ts) = length ts"
  unfolding p0_tasks_def other_tasks_def by (rule sum_length_filter_compl)

lemma p0_tasks_Cons: "p0_tasks (t # ts) = (if is_p0 (snd t) then t # p0_tasks ts else p0_tasks ts)"
  by (simp add: p0_tasks_def)

lemma other_tasks_Cons:
  "other_tasks (t # ts) = (if is_p0 (snd t) then other_tasks ts else t # other_tasks ts)"
  by (simp add: other_tasks_def)

lemma length_remove: "t \<in> set ts \<Longrightarrow> int (length (remove1 t ts)) = int (length ts) - 1"
  using length_pos_if_in_set [of t ts] by (simp add: length_remove1 of_nat_diff Suc_leI)

lemma length_remove_p0: "t \<in> set ts \<Longrightarrow>
  int (length (p0_tasks (remove1 t ts))) = int (length (p0_tasks ts)) - (if is_p0 (snd t) then 1 else 0)"
  using length_remove [of t "p0_tasks ts"]
  unfolding p0_tasks_def by (auto simp: filter_remove1 remove1_idem)

lemma length_remove_other: "t \<in> set ts \<Longrightarrow>
  int (length (other_tasks (remove1 t ts))) =
    int (length (other_tasks ts)) - (if is_p0 (snd t) then 0 else 1)"
  using length_remove [of t "other_tasks ts"]
  unfolding other_tasks_def by (auto simp: filter_remove1 remove1_idem)

lemma some_p0: "t \<in> set ts \<Longrightarrow> is_p0 (snd t) \<Longrightarrow> 1 \<le> int (length (p0_tasks ts))"
  unfolding p0_tasks_def by (cases "filter (\<lambda>t. is_p0 (snd t)) ts") (auto simp: filter_empty_conv)

lemma some_task: "t \<in> set ts \<Longrightarrow> 1 \<le> int (length ts)"
  by (cases ts) auto

lemma can_enter_iff:
  assumes "gate_ok cfg g"
  shows "can_enter cfg p0 ((lim g)\<lparr>waiters := w\<rparr>) \<longleftrightarrow>
    int (length (holding g)) < slot_limit cfg \<and>
    (p0 \<or> int (length (other_tasks (holding g))) < slot_limit cfg - slot_reserve cfg)"
  using assms split_tasks [of "holding g"] reserve_bounds [of cfg]
  by (auto simp: can_enter_def gate_ok_def Let_def)

lemma can_enter_iff_now:
  "gate_ok cfg g \<Longrightarrow> can_enter cfg p0 (lim g) \<longleftrightarrow>
    int (length (holding g)) < slot_limit cfg \<and>
    (p0 \<or> int (length (other_tasks (holding g))) < slot_limit cfg - slot_reserve cfg)"
  using can_enter_iff [of cfg g p0 "waiters (lim g)"] by simp

lemmas gate_simps = gate_ok_def p0_tasks_Cons other_tasks_Cons length_remove_p0 length_remove_other
  length_remove

lemma gate_step_ok:
  assumes "gate_step cfg g g'" and ok: "gate_ok cfg g"
  shows "gate_ok cfg g'"
  using assms(1)
proof cases
  case (start_enters t x l)
  then have "can_enter cfg (is_p0 (snd t)) ((lim g)\<lparr>waiters := waiters (lim g) + 1\<rparr>)"
    by (auto simp: enter_start_def enter_turn_def Let_def split: if_splits)
  with start_enters ok show ?thesis
    unfolding can_enter_iff [OF ok]
    by (auto simp: gate_simps enter_start_def enter_turn_def Let_def split: if_splits)
next
  case (start_waits t x l)
  with ok show ?thesis
    by (auto simp: gate_simps enter_start_def enter_turn_def Let_def split: if_splits)
next
  case (start_times_out tier x l)
  with ok show ?thesis
    by (auto simp: gate_simps enter_start_def enter_turn_def Let_def split: if_splits)
next
  case (wake_enters t x l)
  then have "can_enter cfg (is_p0 (snd t)) (lim g)"
    by (auto simp: enter_turn_def Let_def split: if_splits)
  with wake_enters ok some_task [OF wake_enters(2)] show ?thesis
    unfolding can_enter_iff_now [OF ok]
    by (auto simp: gate_simps enter_turn_def Let_def split: if_splits)
next
  case (wake_waits t x l)
  with ok show ?thesis by (auto simp: gate_simps enter_turn_def Let_def split: if_splits)
next
  case (wake_times_out t x l)
  with ok some_task [OF wake_times_out(2)] show ?thesis
    by (auto simp: gate_simps enter_turn_def Let_def split: if_splits)
next
  case (gives_up t)
  with ok some_task [OF gives_up(2)] show ?thesis
    by (auto simp: gate_simps give_up_def)
next
  case (leaves t)
  with ok some_task [OF leaves(2)] some_p0 [OF leaves(2)] show ?thesis
    by (auto simp: gate_simps leave_def)
qed

lemma new_gate_ok: "gate_ok cfg new_gate"
  using limit_pos [of cfg] reserve_bounds [of cfg]
  by (simp add: gate_ok_def new_gate_def new_llm_limiter_def p0_tasks_def other_tasks_def)

lemma reached_ok: "(gate_step cfg)\<^sup>*\<^sup>* new_gate g \<Longrightarrow> gate_ok cfg g"
  by (induction rule: rtranclp_induct) (auto intro: new_gate_ok gate_step_ok)

lemma start_result:
  assumes "gate_ok cfg g"
  shows "fst (enter_start cfg tier x (lim g)) = Entered \<longleftrightarrow>
    int (length (holding g)) < slot_limit cfg \<and>
    (is_p0 tier \<or> int (length (other_tasks (holding g))) < slot_limit cfg - slot_reserve cfg)"
  using can_enter_iff [OF assms] by (auto simp: enter_start_def enter_turn_def Let_def)

lemma turn_result:
  assumes "gate_ok cfg g"
  shows "fst (enter_turn cfg (is_p0 tier) x (lim g)) = Entered \<longleftrightarrow>
    int (length (holding g)) < slot_limit cfg \<and>
    (is_p0 tier \<or> int (length (other_tasks (holding g))) < slot_limit cfg - slot_reserve cfg)"
  using can_enter_iff_now [OF assms] by (auto simp: enter_turn_def Let_def)

text \<open>
  C18. The gate never has more calls of language models in flight than its limit, and never more
  calls below the top tier than the limit less the reserve, whatever calls start, wait, are woken,
  time out, are cancelled and leave, in any order; and its counter is the number of calls in
  flight.
\<close>

theorem limiter_bounds:
  assumes "(gate_step cfg)\<^sup>*\<^sup>* new_gate g"
  shows "used (lim g) = int (length (holding g)) \<and>
    int (length (holding g)) \<le> slot_limit cfg \<and>
    int (length (filter (\<lambda>t. \<not> is_p0 (snd t)) (holding g))) \<le> slot_limit cfg - slot_reserve cfg"
  using reached_ok [OF assms] by (auto simp: gate_ok_def other_tasks_def)

text \<open>
  C19. The reserve is there: in every reachable state with fewer top-tier calls in flight than the
  reserve, a top-tier call enters at its first turn, and so does one that is woken.
\<close>

theorem p0_slot_reserved:
  assumes "(gate_step cfg)\<^sup>*\<^sup>* new_gate g"
    and "int (length (filter (\<lambda>t. is_p0 (snd t)) (holding g))) < slot_reserve cfg"
    and "is_p0 tier"
  shows "fst (enter_start cfg tier x (lim g)) = Entered \<and>
    fst (enter_turn cfg (is_p0 tier) x (lim g)) = Entered"
proof -
  note ok = reached_ok [OF assms(1)]
  have "int (length (holding g)) < slot_limit cfg"
    using ok assms(2) split_tasks [of "holding g"] by (auto simp: gate_ok_def p0_tasks_def)
  with assms(3) show ?thesis
    using start_result [OF ok, of tier x] turn_result [OF ok, of tier x] by blast
qed

text \<open>A gate that nothing holds admits every call: the gate cannot block itself.\<close>

lemma idle_gate_admits:
  assumes "(gate_step cfg)\<^sup>*\<^sup>* new_gate g" and "holding g = []"
  shows "fst (enter_start cfg tier x (lim g)) = Entered"
  using start_result [OF reached_ok [OF assms(1)], of tier x] assms(2)
    reserve_bounds [of cfg] by (simp add: other_tasks_def)

section \<open>Concrete runs\<close>

definition demo_llm :: llm_settings where
  "demo_llm = \<lparr>llm_global_concurrency = 2, llm_p0_reserve = 1\<rparr>"

text \<open>One ordinary call in flight, a second one waiting: a top-tier call still enters.\<close>

definition demo_gate :: gate where
  "demo_gate =
     \<lparr>lim = \<lparr>used = 1, p0_used = 0, waiters = 1\<rparr>, waiting = [(2, ''P2'')], holding = [(1, ''P1'')]\<rparr>"

lemma demo_gate_reached: "(gate_step demo_llm)\<^sup>*\<^sup>* new_gate demo_gate"
proof -
  let ?g = "\<lparr>lim = \<lparr>used = 1, p0_used = 0, waiters = 0\<rparr>, waiting = [], holding = [(1, ''P1'')]\<rparr>"
  have "enter_start demo_llm (snd (1::nat, ''P1'')) False (lim new_gate)
      = (Entered, \<lparr>used = 1, p0_used = 0, waiters = 0\<rparr>)"
    by code_simp
  from start_enters [OF this] have "gate_step demo_llm new_gate ?g"
    by (simp add: new_gate_def)
  moreover have "enter_start demo_llm (snd (2::nat, ''P2'')) False (lim ?g)
      = (Waits, \<lparr>used = 1, p0_used = 0, waiters = 1\<rparr>)"
    by code_simp
  from start_waits [OF this] have "gate_step demo_llm ?g demo_gate"
    by (simp add: demo_gate_def)
  ultimately show ?thesis by (meson converse_rtranclp_into_rtranclp rtranclp.rtrancl_refl)
qed

lemma limiter_bounds_witness:
  "int (length (holding demo_gate)) \<le> 2 \<and> int (length (filter (\<lambda>t. \<not> is_p0 (snd t)) (holding demo_gate))) \<le> 1"
proof -
  have "slot_limit demo_llm = 2" "slot_reserve demo_llm = 1" by code_simp+
  with limiter_bounds [OF demo_gate_reached] show ?thesis by simp
qed

lemma p0_slot_reserved_witness: "fst (enter_start demo_llm ''p0'' False (lim demo_gate)) = Entered"
proof -
  have "int (length (filter (\<lambda>t. is_p0 (snd t)) (holding demo_gate))) < slot_reserve demo_llm"
    and "is_p0 ''p0''"
    by code_simp+
  from p0_slot_reserved [OF demo_gate_reached this] show ?thesis by blast
qed

end
