(* ===== verification/EventBus.thy ===== *)
theory EventBus
  imports Json
begin

text \<open>
  The bus that carries events to the browsers (\<open>src/backend/event_bus.py\<close>) and the replay a
  reconnecting browser is given (\<open>events_stream\<close> and \<open>events_recent\<close> of
  \<open>src/backend/routers/chat.py\<close>).  A subscriber is a number with its queue.  Redis only
  carries envelopes between processes: what \<open>publish\<close> sends is a result, and a message of the
  channel is an input of \<open>bridge_message\<close> (\<open>None\<close> where it is no JSON).  The texts of JSON
  values come from a parameter; metrics and logging are left out.
\<close>

section \<open>Events and the state of the bus\<close>

record bus_event =
  be_seq :: nat
  be_type :: json
  be_data :: json
  be_timestamp :: time

record event_bus =
  subscribers :: "(nat \<times> bus_event list) list"
  bus_max :: int
  history :: "bus_event list"
  next_seq :: nat
  redis_on :: bool
  origin_id :: string
  queue_max :: int
  redis_seen :: "(string \<times> time) list"

definition history_max :: nat where
  "history_max = 500"

definition redis_seen_max :: nat where
  "redis_seen_max = 4096"

definition redis_seen_ttl :: time where
  "redis_seen_ttl = 60"

text \<open>
  The constructor, with the maximum of subscribers from its argument or the settings and the length
  of a queue from the environment or the settings.
\<close>

definition int_or :: "int \<Rightarrow> int \<Rightarrow> int" where
  "int_or a b = (if a \<noteq> 0 then a else b)"

definition new_event_bus :: "int \<Rightarrow> int \<Rightarrow> int option \<Rightarrow> int \<Rightarrow> string \<Rightarrow> event_bus" where
  "new_event_bus max_subscribers settings_max env_queue settings_queue origin =
     \<lparr>subscribers = [], bus_max = int_or max_subscribers (int_or settings_max 256),
      history = [], next_seq = 1, redis_on = False, origin_id = origin,
      queue_max = (case env_queue of Some n \<Rightarrow> n | None \<Rightarrow> int_or settings_queue 500),
      redis_seen = []\<rparr>"

definition set_redis :: "event_bus \<Rightarrow> event_bus" where
  "set_redis b = b\<lparr>redis_on := True\<rparr>"

text \<open>The text frame of an event; \<open>dumps\<close> is \<open>json.dumps\<close>.\<close>

definition to_sse :: "(json \<Rightarrow> string) \<Rightarrow> bus_event \<Rightarrow> json" where
  "to_sse dumps e =
     JObj [(''event'', be_type e), (''id'', JStr (dec_nat (be_seq e))),
           (''data'', JStr (dumps (jset ''_ts'' (JNum (be_timestamp e))
              (jset ''_seq'' (JNum (of_nat (be_seq e))) (be_data e)))))]"

section \<open>Publishing\<close>

text \<open>
  A full queue loses its oldest event; the flag says so.  \<open>asyncio\<close> gives a queue no bound when
  its maximum is not positive.
\<close>

definition offer :: "int \<Rightarrow> bus_event \<Rightarrow> bus_event list \<Rightarrow> bus_event list \<times> bool" where
  "offer qmax e q =
     (if 0 < qmax \<and> qmax \<le> int (length q) then (tl q @ [e], True) else (q @ [e], False))"

definition bus_envelope :: "time \<Rightarrow> json \<Rightarrow> json \<Rightarrow> event_bus \<Rightarrow> json" where
  "bus_envelope now etype data b =
     JObj [(''origin'', JStr (origin_id b)), (''type'', etype),
           (''event_id'', jget (jor data (JObj [])) ''event_id''), (''data'', data),
           (''ts'', JNum now)]"

text \<open>\<open>publish\<close>: the bus, the number of lost events and the envelope sent to the channel.\<close>

definition publish ::
  "time \<Rightarrow> json \<Rightarrow> json \<Rightarrow> bool \<Rightarrow> event_bus \<Rightarrow> event_bus \<times> nat \<times> json option" where
  "publish now etype data from_redis b =
     (let e = \<lparr>be_seq = next_seq b, be_type = etype, be_data = data, be_timestamp = now\<rparr>;
          offered = List.map (\<lambda>(i, q). (i, offer (queue_max b) e q)) (subscribers b);
          b' = b\<lparr>next_seq := next_seq b + 1,
                 history := keep_last history_max (history b @ [e]),
                 subscribers := List.map (\<lambda>(i, q, lost). (i, q)) offered\<rparr>
      in (b', length (filter (\<lambda>(i, q, lost). lost) offered),
          if \<not> from_redis \<and> redis_on b then Some (bus_envelope now etype data b) else None))"

section \<open>The bridge from other processes\<close>

text \<open>
  Was a key seen in the last minute?  The table is an ordered dict: a key that is read or written
  moves to its end, and the oldest keys go when it is too long.
\<close>

definition move_to_end :: "string \<Rightarrow> time \<Rightarrow> (string \<times> time) list \<Rightarrow> (string \<times> time) list" where
  "move_to_end k t d = filter (\<lambda>(k', _). k' \<noteq> k) d @ [(k, t)]"

definition redis_recently_seen :: "time \<Rightarrow> string \<Rightarrow> event_bus \<Rightarrow> bool \<times> event_bus" where
  "redis_recently_seen now key b =
     (case map_of (redis_seen b) key of
        Some ts \<Rightarrow>
          if now - ts < redis_seen_ttl
          then (True, b\<lparr>redis_seen := move_to_end key ts (redis_seen b)\<rparr>)
          else (False, b\<lparr>redis_seen := keep_last redis_seen_max (move_to_end key now (redis_seen b))\<rparr>)
      | None \<Rightarrow> (False, b\<lparr>redis_seen := keep_last redis_seen_max (move_to_end key now (redis_seen b))\<rparr>))"

definition dedup_key :: "json_text \<Rightarrow> json \<Rightarrow> json \<Rightarrow> json \<Rightarrow> string" where
  "dedup_key jt org etype eid = jtext jt org @ ''|'' @ jtext jt etype @ ''|'' @ jtext jt eid"

definition bridge_seen ::
  "json_text \<Rightarrow> time \<Rightarrow> json \<Rightarrow> json \<Rightarrow> json \<Rightarrow> event_bus \<Rightarrow> bool \<times> event_bus" where
  "bridge_seen jt now org etype eid b =
     (if eid = JNull then (False, b) else redis_recently_seen now (dedup_key jt org etype eid) b)"

text \<open>
  One message of the channel in the listening task.  \<open>None\<close> is the exception that ends the task:
  an envelope that is JSON and no dict has no \<open>get\<close>.
\<close>

definition bridge_message ::
  "json_text \<Rightarrow> time \<Rightarrow> json option \<Rightarrow> event_bus \<Rightarrow> event_bus option" where
  "bridge_message jt now raw b =
     (case raw of
        None \<Rightarrow> Some b
      | Some env \<Rightarrow>
          if \<not> is_obj env then None
          else if jget env ''origin'' = JStr (origin_id b) then Some b
          else
            let et = jor (jget env ''type'') (JStr '''');
                ed = jor (jget env ''data'') (JObj []);
                ed' = (if is_obj ed then ed else JObj [(''raw'', ed)]);
                eid = (if jget env ''event_id'' = JNull then jget ed' ''event_id''
                       else jget env ''event_id'');
                (seen, b') = bridge_seen jt now (jget env ''origin'') et eid b
            in Some (if seen then b' else fst (publish now et ed' True b')))"

section \<open>Subscribing and reading\<close>

text \<open>\<open>i\<close> is the identity of the new queue.\<close>

definition subscribe :: "nat \<Rightarrow> event_bus \<Rightarrow> bool \<times> event_bus" where
  "subscribe i b =
     (if int (length (subscribers b)) \<ge> bus_max b then (False, b)
      else (True, b\<lparr>subscribers := subscribers b @ [(i, [])]\<rparr>))"

definition unsubscribe :: "nat \<Rightarrow> event_bus \<Rightarrow> event_bus" where
  "unsubscribe i b = b\<lparr>subscribers := filter (\<lambda>(j, q). j \<noteq> i) (subscribers b)\<rparr>"

text \<open>A subscriber takes the oldest event of its queue.\<close>

definition take_event :: "nat \<Rightarrow> event_bus \<Rightarrow> bus_event option \<times> event_bus" where
  "take_event i b =
     (case map_of (subscribers b) i of
        Some (e # q) \<Rightarrow> (Some e,
          b\<lparr>subscribers := List.map (\<lambda>(j, q). if j = i then (j, tl q) else (j, q)) (subscribers b)\<rparr>)
      | _ \<Rightarrow> (None, b))"

text \<open>Python's \<open>xs[-n:]\<close>, also for a zero and a negative \<open>n\<close>.\<close>

definition last_slice :: "int \<Rightarrow> 'a list \<Rightarrow> 'a list" where
  "last_slice n xs = (if 0 < n then keep_last (nat n) xs else drop (nat (- n)) xs)"

definition recent_events :: "int \<Rightarrow> int \<Rightarrow> event_bus \<Rightarrow> bus_event list" where
  "recent_events limit since b =
     last_slice limit (filter (\<lambda>e. int (be_seq e) > since) (history b))"

definition recent :: "(json \<Rightarrow> string) \<Rightarrow> int \<Rightarrow> int \<Rightarrow> event_bus \<Rightarrow> json list" where
  "recent dumps limit since b =
     List.map (\<lambda>e. jset ''ts'' (JNum (be_timestamp e))
       (jset ''seq'' (JNum (of_nat (be_seq e))) (to_sse dumps e))) (recent_events limit since b)"

definition last_seq :: "event_bus \<Rightarrow> nat" where
  "last_seq b = (if history b = [] then 0 else be_seq (last (history b)))"

definition oldest_seq :: "event_bus \<Rightarrow> nat" where
  "oldest_seq b = (if history b = [] then 0 else be_seq (hd (history b)))"

text \<open>
  \<open>events_stream\<close>: what a browser that last saw \<open>resume_from\<close> is sent at first, the flag
  \<open>complete\<close> it is told, and which live events reach it.
\<close>

definition resume_stream :: "nat \<Rightarrow> event_bus \<Rightarrow> bus_event list \<times> bool" where
  "resume_stream resume_from b =
     (let missed = recent_events 200 (int resume_from) b;
          no_history = (oldest_seq b = 0);
          window_intact = (oldest_seq b \<le> resume_from + 1)
      in (missed, resume_from = 0 \<or> (missed = [] \<and> no_history) \<or> window_intact))"

definition live_events :: "nat \<Rightarrow> bus_event list \<Rightarrow> bus_event list" where
  "live_events resume_from q = filter (\<lambda>e. be_seq e > resume_from) q"

section \<open>Runs of the bus\<close>

datatype bus_op = Publish time json json | Bridge time "json option" | SetRedis
  | Subscribe nat | Unsubscribe nat | Take nat

text \<open>A stopped bridge leaves the bus as it is.\<close>

fun bus_step :: "json_text \<Rightarrow> bus_op \<Rightarrow> event_bus \<Rightarrow> event_bus" where
  "bus_step jt (Publish now etype data) b = fst (publish now etype data False b)"
| "bus_step jt (Bridge now raw) b =
     (case bridge_message jt now raw b of Some b' \<Rightarrow> b' | None \<Rightarrow> b)"
| "bus_step jt SetRedis b = set_redis b"
| "bus_step jt (Subscribe i) b = snd (subscribe i b)"
| "bus_step jt (Unsubscribe i) b = unsubscribe i b"
| "bus_step jt (Take i) b = snd (take_event i b)"

definition bus_run :: "json_text \<Rightarrow> bus_op list \<Rightarrow> event_bus \<Rightarrow> event_bus" where
  "bus_run jt ops b = fold (bus_step jt) ops b"

text \<open>A list of events that are the newest ones of the bus, in order and without a gap.\<close>

definition newest :: "nat \<Rightarrow> bus_event list \<Rightarrow> bool" where
  "newest n evs \<longleftrightarrow> map be_seq evs = [n - length evs ..< n] \<and> length evs < n"

definition bus_ok :: "event_bus \<Rightarrow> bool" where
  "bus_ok b \<longleftrightarrow>
     newest (next_seq b) (history b) \<and> length (history b) \<le> history_max \<and>
     length (history b) = min history_max (next_seq b - 1) \<and>
     (\<forall>(i, q) \<in> set (subscribers b). newest (next_seq b) q \<and>
        (0 < queue_max b \<longrightarrow> int (length q) \<le> queue_max b)) \<and>
     (0 \<le> bus_max b \<longrightarrow> int (length (subscribers b)) \<le> bus_max b)"

lemma newest_Nil [simp]: "newest n [] \<longleftrightarrow> 0 < n"
  by (simp add: newest_def)

lemma newest_append:
  assumes "newest n evs" and "be_seq e = n"
  shows "newest (n + 1) (evs @ [e])"
  using assms by (auto simp: newest_def Suc_diff_le)

lemma newest_drop: "newest n evs \<Longrightarrow> newest n (drop k evs)"
proof (cases "k \<le> length evs")
  case True
  then show "newest n evs \<Longrightarrow> ?thesis" by (auto simp: newest_def drop_map [symmetric] drop_upt)
qed (auto simp: newest_def)

lemma newest_tl: "newest n evs \<Longrightarrow> newest n (tl evs)"
  using newest_drop [of n evs 1] by (simp add: drop_Suc)

lemma newest_keep_last: "newest n evs \<Longrightarrow> newest n (keep_last k evs)"
  unfolding keep_last_def by (rule newest_drop)

lemma offer_newest:
  assumes "newest n q" and "be_seq e = n" and "0 < qmax \<longrightarrow> int (length q) \<le> qmax"
  shows "newest (n + 1) (fst (offer qmax e q)) \<and>
    (0 < qmax \<longrightarrow> int (length (fst (offer qmax e q))) \<le> qmax)"
  using newest_append [OF newest_tl [OF assms(1)] assms(2)] newest_append [OF assms(1,2)] assms(3)
  by (cases q) (auto simp: offer_def)

lemma publish_fields:
  "next_seq (fst (publish now et d r b)) = next_seq b + 1"
  "queue_max (fst (publish now et d r b)) = queue_max b"
  "bus_max (fst (publish now et d r b)) = bus_max b"
  "length (subscribers (fst (publish now et d r b))) = length (subscribers b)"
  "history (fst (publish now et d r b)) = keep_last history_max
     (history b @ [\<lparr>be_seq = next_seq b, be_type = et, be_data = d, be_timestamp = now\<rparr>])"
  by (simp_all add: publish_def Let_def)

lemma publish_queue:
  "(i, q) \<in> set (subscribers (fst (publish now et d r b))) \<Longrightarrow>
   \<exists>q0. (i, q0) \<in> set (subscribers b) \<and>
     q = fst (offer (queue_max b) \<lparr>be_seq = next_seq b, be_type = et, be_data = d, be_timestamp = now\<rparr> q0)"
  by (auto simp: publish_def Let_def case_prod_unfold )

lemma publish_ok:
  assumes "bus_ok b"
  shows "bus_ok (fst (publish now et d r b))"
proof -
  let ?e = "\<lparr>be_seq = next_seq b, be_type = et, be_data = d, be_timestamp = now\<rparr>"
  let ?b = "fst (publish now et d r b)"
  have n: "newest (next_seq b) (history b)" using assms by (simp add: bus_ok_def)
  have "newest (next_seq ?b) (history ?b)"
    unfolding publish_fields by (rule newest_keep_last, rule newest_append [OF n]) simp
  moreover have "length (history ?b) = min history_max (next_seq ?b - 1)"
    using assms n by (auto simp: publish_fields bus_ok_def newest_def)
  moreover have "newest (next_seq ?b) q \<and> (0 < queue_max ?b \<longrightarrow> int (length q) \<le> queue_max ?b)"
    if q: "(i, q) \<in> set (subscribers ?b)" for i q
  proof -
    obtain q0 where q0: "(i, q0) \<in> set (subscribers b)" and "q = fst (offer (queue_max b) ?e q0)"
      using publish_queue [OF q] by blast
    moreover have "newest (next_seq b) q0 \<and> (0 < queue_max b \<longrightarrow> int (length q0) \<le> queue_max b)"
      using assms q0 by (auto simp: bus_ok_def)
    ultimately show ?thesis
      using offer_newest [of "next_seq b" q0 ?e "queue_max b"] by (simp add: publish_fields)
  qed
  ultimately show ?thesis using assms by (auto simp: bus_ok_def publish_fields)
qed

lemma seen_ok: "bus_ok b \<Longrightarrow> bus_ok (snd (redis_recently_seen now k b))"
  by (simp add: redis_recently_seen_def bus_ok_def split: option.splits)

lemma bridge_seen_ok: "bus_ok b \<Longrightarrow> bus_ok (snd (bridge_seen jt now org et eid b))"
  by (simp add: bridge_seen_def seen_ok)

lemma bridge_ok:
  assumes "bus_ok b" and "bridge_message jt now raw b = Some b'"
  shows "bus_ok b'"
proof (cases raw)
  case (Some env)
  with assms show ?thesis
    by (auto simp: bridge_message_def Let_def case_prod_unfold bridge_seen_ok publish_ok
        split: if_splits)
qed (use assms in \<open>simp add: bridge_message_def\<close>)

lemma take_ok: "bus_ok b \<Longrightarrow> bus_ok (snd (take_event i b))"
  by (auto simp: take_event_def bus_ok_def newest_tl split: option.splits list.splits if_splits)

lemma unsubscribe_ok: "bus_ok b \<Longrightarrow> bus_ok (unsubscribe i b)"
  using length_filter_le [of "\<lambda>(j, q). j \<noteq> i" "subscribers b"]
  by (auto simp: unsubscribe_def bus_ok_def simp del: length_filter_le)

lemma subscribe_ok: "bus_ok b \<Longrightarrow> bus_ok (snd (subscribe i b))"
  by (auto simp: subscribe_def bus_ok_def newest_def)

lemma set_redis_ok: "bus_ok b \<Longrightarrow> bus_ok (set_redis b)"
  by (simp add: set_redis_def bus_ok_def)

lemma bus_step_ok: "bus_ok b \<Longrightarrow> bus_ok (bus_step jt op b)"
  by (cases op)
    (auto split: option.splits
      intro: publish_ok bridge_ok set_redis_ok subscribe_ok unsubscribe_ok take_ok)

lemma bus_run_ok: "bus_ok b \<Longrightarrow> bus_ok (bus_run jt ops b)"
  unfolding bus_run_def by (induction ops arbitrary: b) (simp_all add: bus_step_ok)

lemma new_bus_ok: "bus_ok (new_event_bus ms sm eq sq org)"
  by (simp add: bus_ok_def new_event_bus_def)

section \<open>What a subscriber and a returning browser see\<close>

lemma filter_upt: "filter (\<lambda>x. s < x) [a ..< n] = [max (Suc s) a ..< n]"
proof (induction n)
  case (Suc n)
  show ?case by (cases "a \<le> n") (auto simp: Suc max_def)
qed simp

lemma newest_filter:
  assumes "newest n evs"
  shows "map be_seq (filter (\<lambda>e. be_seq e > s) evs) = [max (Suc s) (n - length evs) ..< n]"
proof -
  have "map be_seq (filter (\<lambda>e. be_seq e > s) evs) = filter (\<lambda>x. s < x) (map be_seq evs)"
    by (simp add: filter_map o_def)
  with assms show ?thesis by (simp add: newest_def filter_upt)
qed

lemma keep_last_map: "map f (keep_last k xs) = keep_last k (map f xs)"
  by (simp add: keep_last_def drop_map)

lemma keep_last_upt: "keep_last k [a ..< n] = [max a (n - k) ..< n]"
proof (cases "a \<le> n")
  case True
  then have "a + (n - a - k) = max a (n - k)" by linarith
  then show ?thesis by (simp add: keep_last_def)
qed (simp add: keep_last_def)

lemma recent_seqs:
  assumes "bus_ok b" and "0 < limit"
  shows "map be_seq (recent_events limit (int s) b) =
    [max (max (Suc s) (next_seq b - length (history b))) (next_seq b - nat limit) ..< next_seq b]"
proof -
  have "newest (next_seq b) (history b)" using assms(1) by (simp add: bus_ok_def)
  from newest_filter [OF this, of s] show ?thesis
    using assms(2) by (simp add: recent_events_def last_slice_def keep_last_map keep_last_upt)
qed

lemma oldest_seq_ok:
  assumes "bus_ok b"
  shows "oldest_seq b = (if next_seq b = 1 then 0 else next_seq b - min history_max (next_seq b - 1))"
proof (cases "history b")
  case Nil
  with assms show ?thesis by (auto simp: bus_ok_def oldest_seq_def newest_def history_max_def)
next
  case (Cons e es)
  with assms have m: "be_seq e # map be_seq es = [next_seq b - length (history b) ..< next_seq b]"
    and l: "length (history b) = min history_max (next_seq b - 1)" and "length (history b) < next_seq b"
    by (auto simp: bus_ok_def newest_def)
  then have "be_seq e = next_seq b - length (history b)"
    by (metis upt_eq_Cons_conv)
  moreover have "next_seq b \<noteq> 1" using l Cons by auto
  ultimately show ?thesis using Cons l by (simp add: oldest_seq_def)
qed

text \<open>The buses a run reaches from a new one.\<close>

definition reached_bus :: "json_text \<Rightarrow> event_bus \<Rightarrow> bool" where
  "reached_bus jt b \<longleftrightarrow> (\<exists>ms sm eq sq org ops. b = bus_run jt ops (new_event_bus ms sm eq sq org))"

lemma reached_bus_ok: "reached_bus jt b \<Longrightarrow> bus_ok b"
  by (auto simp: reached_bus_def intro: bus_run_ok new_bus_ok)

text \<open>
  Whatever is published, bridged, subscribed and taken: the history holds the newest events,
  at most 500, in order and without a gap, and so does the queue of every subscriber, up to its
  bound: a slow subscriber loses only its oldest events.
\<close>

theorem bus_keeps_newest:
  assumes "reached_bus jt b"
  shows "map be_seq (history b) = [next_seq b - min 500 (next_seq b - 1) ..< next_seq b] \<and>
    list_all (\<lambda>(i, q). map be_seq q = [next_seq b - length q ..< next_seq b] \<and>
      length q \<le> (if 0 < queue_max b then nat (queue_max b) else next_seq b - 1)) (subscribers b)"
proof -
  note ok = reached_bus_ok [OF assms]
  then have "\<And>i q. (i, q) \<in> set (subscribers b) \<Longrightarrow>
      newest (next_seq b) q \<and> (0 < queue_max b \<longrightarrow> int (length q) \<le> queue_max b)"
    by (auto simp: bus_ok_def)
  then show ?thesis
    using ok by (fastforce simp: bus_ok_def newest_def history_max_def list_all_iff)
qed

text \<open>
  C22. A browser that last saw event \<open>s\<close> and missed at most 200 events gets exactly the events
  after \<open>s\<close>, in order, and is told that nothing is missing.
\<close>

theorem reconnect_complete:
  assumes "reached_bus jt b" and "s < next_seq b" and "next_seq b \<le> s + 201"
  shows "map be_seq (fst (resume_stream s b)) = [s + 1 ..< next_seq b] \<and> snd (resume_stream s b)"
proof -
  note ok = reached_bus_ok [OF assms(1)]
  have l: "length (history b) = min 500 (next_seq b - 1)"
    using ok by (simp add: bus_ok_def history_max_def)
  have "max (max (Suc s) (next_seq b - length (history b))) (next_seq b - nat 200) = s + 1"
    using assms(2,3) l by auto
  then have "map be_seq (fst (resume_stream s b)) = [s + 1 ..< next_seq b]"
    using recent_seqs [OF ok, of 200 s] by (simp add: resume_stream_def Let_def)
  moreover have "oldest_seq b \<le> s + 1"
    using assms(2,3) by (auto simp: oldest_seq_ok [OF ok] history_max_def)
  ultimately show ?thesis by (simp add: resume_stream_def Let_def)
qed

text \<open>
  A browser that missed more than 200 events and fewer than 500 gets only the last 200, and is
  told all the same that nothing is missing: the flag compares with the 500 events of the history,
  the replay is cut at 200.
\<close>

theorem resume_gap_called_complete:
  assumes "reached_bus jt b" and "s + 201 < next_seq b" and "next_seq b \<le> s + 501"
  shows "snd (resume_stream s b) \<and> s + 1 \<notin> be_seq ` set (fst (resume_stream s b)) \<and>
    length (fst (resume_stream s b)) = 200"
proof -
  note ok = reached_bus_ok [OF assms(1)]
  have l: "length (history b) = min 500 (next_seq b - 1)"
    using ok by (simp add: bus_ok_def history_max_def)
  have "max (max (Suc s) (next_seq b - length (history b))) (next_seq b - nat 200) = next_seq b - 200"
    using assms(2,3) l by auto
  then have m: "map be_seq (fst (resume_stream s b)) = [next_seq b - 200 ..< next_seq b]"
    using recent_seqs [OF ok, of 200 s] by (simp add: resume_stream_def Let_def)
  have "s + 1 \<notin> set (map be_seq (fst (resume_stream s b)))"
    unfolding m using assms(2) by simp
  moreover have "length (fst (resume_stream s b)) = 200"
    using arg_cong [OF m, of length] assms(2) by simp
  moreover have "oldest_seq b \<le> s + 1"
    using assms(2,3) by (auto simp: oldest_seq_ok [OF ok] history_max_def)
  ultimately show ?thesis by (simp add: resume_stream_def Let_def)
qed

text \<open>
  After a restart the numbers begin again at 1.  A browser that returns with a larger number than
  any of the new process is told that nothing is missing, gets nothing, and gets no live event
  either until the numbers have passed its own.
\<close>

lemma restart_starves:
  assumes "reached_bus jt b" and "next_seq b \<le> s + 1"
  shows "fst (resume_stream s b) = [] \<and> snd (resume_stream s b) \<and>
    (\<forall>(i, q) \<in> set (subscribers b). live_events s q = [])"
proof -
  note ok = reached_bus_ok [OF assms(1)]
  have "map be_seq (fst (resume_stream s b)) = []"
    using recent_seqs [OF ok, of 200 s] assms(2) by (simp add: resume_stream_def Let_def)
  moreover have "oldest_seq b \<le> s + 1"
    using assms(2) by (auto simp: oldest_seq_ok [OF ok])
  moreover have "live_events s q = []" if "(i, q) \<in> set (subscribers b)" for i q
  proof -
    have "newest (next_seq b) q" using ok that by (auto simp: bus_ok_def)
    from newest_filter [OF this, of s] show ?thesis
      using assms(2) by (simp add: live_events_def)
  qed
  ultimately show ?thesis by (auto simp: resume_stream_def Let_def)
qed

text \<open>A limit of zero returns the whole history.\<close>

lemma recent_zero_limit: "recent_events 0 (int s) b = filter (\<lambda>e. be_seq e > s) (history b)"
  by (simp add: recent_events_def last_slice_def)

section \<open>The bridge loses the stages of an event\<close>

lemma map_of_last: "k \<notin> fst ` set xs \<Longrightarrow> map_of (xs @ [(k, t)]) k = Some t"
  by (induction xs) auto

lemma remembered:
  assumes "map_of (redis_seen b) k = None"
  shows "fst (redis_recently_seen now k b) = False \<and>
    map_of (redis_seen (snd (redis_recently_seen now k b))) k = Some now"
proof -
  have "keep_last redis_seen_max (move_to_end k now (redis_seen b)) =
    keep_last (redis_seen_max - 1) (filter (\<lambda>(k', _). k' \<noteq> k) (redis_seen b)) @ [(k, now)]"
    by (simp add: keep_last_def move_to_end_def redis_seen_max_def Suc_diff_le)
  moreover have "k \<notin> fst ` set (keep_last (redis_seen_max - 1) (filter (\<lambda>(k', _). k' \<noteq> k) (redis_seen b)))"
    by (auto simp: keep_last_def dest!: in_set_dropD)
  ultimately show ?thesis
    using assms by (simp add: redis_recently_seen_def map_of_last del: map_of_append)
qed

text \<open>
  Two messages of another process with the same type and event id within a minute: the second one
  is not published, whatever it says.  The stages of one audit are such messages.
\<close>

theorem bridged_repeat_lost:
  assumes e: "is_obj e1" "is_obj e2" "jget e1 ''origin'' = org" "jget e2 ''origin'' = org"
    "org \<noteq> JStr (origin_id b)" "jget e1 ''type'' = t" "jget e2 ''type'' = t"
    "jget e1 ''event_id'' = eid" "jget e2 ''event_id'' = eid" "eid \<noteq> JNull"
    and fresh: "map_of (redis_seen b) (dedup_key jt org (jor t (JStr '''')) eid) = None"
    and time: "later - now < redis_seen_ttl"
    and first: "bridge_message jt now (Some e1) b = Some b1"
    and second: "bridge_message jt later (Some e2) b1 = Some b2"
  shows "next_seq b1 = next_seq b + 1 \<and> next_seq b2 = next_seq b1 \<and>
    history b2 = history b1 \<and> subscribers b2 = subscribers b1"
proof -
  let ?k = "dedup_key jt org (jor t (JStr '''')) eid"
  obtain d where b1: "b1 = fst (publish now (jor t (JStr '''')) d True (snd (redis_recently_seen now ?k b)))"
    using first e remembered [OF fresh, of now]
    by (auto simp: bridge_message_def bridge_seen_def Let_def case_prod_unfold split: if_splits)
  have keep: "redis_seen (fst (publish x y z w c)) = redis_seen c"
    "origin_id (fst (publish x y z w c)) = origin_id c" for x y z w c
    by (simp_all add: publish_def Let_def)
  have same: "next_seq (snd (redis_recently_seen x y c)) = next_seq c"
    "origin_id (snd (redis_recently_seen x y c)) = origin_id c" for x y c
    by (simp_all add: redis_recently_seen_def split: option.splits)
  have "map_of (redis_seen b1) ?k = Some now" and "origin_id b1 = origin_id b"
    using remembered [OF fresh, of now] by (simp_all add: b1 keep same)
  with time second e have "b2 = b1\<lparr>redis_seen := move_to_end ?k now (redis_seen b1)\<rparr>"
    by (auto simp: bridge_message_def bridge_seen_def redis_recently_seen_def Let_def)
  then show ?thesis by (simp add: b1 publish_fields same)
qed

section \<open>Concrete runs\<close>

definition demo_jt :: json_text where
  "demo_jt = \<lparr>jt_str = (\<lambda>v. case v of JNum x \<Rightarrow> dec_int (floor x) | _ \<Rightarrow> ''None''),
    jt_float = (\<lambda>s. None), jt_round = (\<lambda>x. x)\<rparr>"

definition stage_message :: "string \<Rightarrow> json" where
  "stage_message stage = JObj [(''origin'', JStr ''worker''), (''type'', JStr ''agent_stage''),
     (''event_id'', JNum 7), (''data'', JObj [(''event_id'', JNum 7), (''stage'', JStr stage)])]"

definition demo_bus :: event_bus where
  "demo_bus = new_event_bus 0 256 None 500 ''backend''"

lemma bridge_keeps_origin:
  "bridge_message jt now raw b = Some b' \<Longrightarrow> origin_id b' = origin_id b"
  by (auto simp: bridge_message_def bridge_seen_def redis_recently_seen_def publish_def Let_def
      split: option.splits if_splits)

lemma bridged_repeat_lost_witness:
  "\<exists>b1 b2. bridge_message demo_jt 10 (Some (stage_message ''triage'')) demo_bus = Some b1 \<and>
     bridge_message demo_jt 11 (Some (stage_message ''verdict'')) b1 = Some b2 \<and>
     next_seq b2 = 2 \<and> history b2 = history b1"
proof -
  have o: "origin_id demo_bus = ''backend''" "next_seq demo_bus = 1" "redis_seen demo_bus = []"
    by (simp_all add: demo_bus_def new_event_bus_def)
  obtain b1 where b1: "bridge_message demo_jt 10 (Some (stage_message ''triage'')) demo_bus = Some b1"
    by (simp add: bridge_message_def stage_message_def o Let_def case_prod_unfold)
  obtain b2 where b2: "bridge_message demo_jt 11 (Some (stage_message ''verdict'')) b1 = Some b2"
    by (simp add: bridge_message_def stage_message_def bridge_keeps_origin [OF b1] o
        Let_def case_prod_unfold)
  have "next_seq b1 = next_seq demo_bus + 1 \<and> next_seq b2 = next_seq b1 \<and>
      history b2 = history b1 \<and> subscribers b2 = subscribers b1"
    by (rule bridged_repeat_lost [OF _ _ _ _ _ _ _ _ _ _ _ _ b1 b2, where org = "JStr ''worker''"
          and t = "JStr ''agent_stage''" and eid = "JNum 7"])
      (simp_all add: stage_message_def o redis_seen_ttl_def)
  then show ?thesis using b1 b2 o by auto
qed

text \<open>Three events, then a browser that saw the first; 300 events, then one that saw the first.\<close>

definition demo_events :: "nat \<Rightarrow> bus_op list" where
  "demo_events n = List.map (\<lambda>i. Publish (of_nat i) (JStr ''alert'') (JObj [])) [0 ..< n]"

lemma demo_next_seq:
  "next_seq (bus_run jt (demo_events n) b) = next_seq b + n"
  unfolding bus_run_def demo_events_def
  by (induction n arbitrary: b) (simp_all add: publish_fields)

lemma demo_reached: "reached_bus demo_jt (bus_run demo_jt (demo_events n) demo_bus)"
  unfolding reached_bus_def demo_bus_def by blast

lemma demo_numbers: "next_seq (bus_run demo_jt (demo_events n) demo_bus) = Suc n"
  by (simp add: demo_next_seq) (simp add: demo_bus_def new_event_bus_def)

lemma reconnect_complete_witness:
  "map be_seq (fst (resume_stream 1 (bus_run demo_jt (demo_events 3) demo_bus))) = [2, 3]"
proof -
  have "map be_seq (fst (resume_stream 1 (bus_run demo_jt (demo_events 3) demo_bus))) = [1 + 1 ..< 4]"
    using reconnect_complete [OF demo_reached, of 1 3] by (simp add: demo_numbers)
  then show ?thesis by (simp add: upt_rec)
qed

lemma resume_gap_called_complete_witness:
  "snd (resume_stream 1 (bus_run demo_jt (demo_events 300) demo_bus)) \<and>
   length (fst (resume_stream 1 (bus_run demo_jt (demo_events 300) demo_bus))) = 200"
  using resume_gap_called_complete [OF demo_reached, of 1 300] by (simp add: demo_numbers)

text \<open>A subscriber with room for two events that takes none: it keeps the last two.\<close>

definition slow_ops :: "bus_op list" where
  "slow_ops = Subscribe 1 # demo_events 3"

lemma bus_keeps_newest_witness:
  "let b = bus_run demo_jt slow_ops (new_event_bus 0 256 (Some 2) 500 ''backend'') in
     map be_seq (history b) = [1, 2, 3] \<and> map (map be_seq \<circ> snd) (subscribers b) = [[2, 3]]"
proof -
  let ?b = "bus_run demo_jt slow_ops (new_event_bus 0 256 (Some 2) 500 ''backend'')"
  have r: "reached_bus demo_jt ?b" unfolding reached_bus_def by blast
  have n: "next_seq ?b = 4" by (simp add: slow_ops_def bus_run_def demo_events_def publish_fields
        upt_rec subscribe_def new_event_bus_def int_or_def)
  have q: "map (length \<circ> snd) (subscribers ?b) = [2]"
    by (simp add: slow_ops_def bus_run_def demo_events_def upt_rec subscribe_def new_event_bus_def
        int_or_def publish_def offer_def Let_def)
  then obtain i q where s: "subscribers ?b = [(i, q)]" "length q = 2"
    by (cases "subscribers ?b") auto
  from bus_keeps_newest [OF r] show ?thesis
    by (simp add: n s upt_rec)
qed

end
