(* ===== verification/FieldCipher.thy ===== *)
theory FieldCipher
  imports Json
begin

text \<open>
  The encryption of sensitive fields of the messages between the processes
  (\<open>src/backend/field_cipher.py\<close>).  Fernet is a parameter: encryption takes fresh randomness,
  decryption fails with an exception (\<open>None\<close>).  What the code relies on, that decryption
  returns what was encrypted with the same key, is the hypothesis \<open>fernet_ok\<close>.  A key that is missing or malformed leaves the cipher disabled.
\<close>

section \<open>One value\<close>

record fernet =
  fernet_encrypt :: "nat \<Rightarrow> string \<Rightarrow> string"
  fernet_decrypt :: "string \<Rightarrow> string option"

type_synonym field_cipher = "fernet option"

text \<open>
  The constructor: \<open>new_fernet\<close> is the library's constructor, which refuses a malformed key;
  \<open>has_crypto\<close> tells whether the library is installed.
\<close>

definition init_cipher :: "bool \<Rightarrow> (string \<Rightarrow> fernet option) \<Rightarrow> string \<Rightarrow> field_cipher" where
  "init_cipher has_crypto new_fernet key =
     (if \<not> has_crypto then None else if key = [] then None else new_fernet key)"

definition ENC_PREFIX :: string where
  "ENC_PREFIX = ''ENC:''"

definition ENCRYPT_FIELDS :: "string list" where
  "ENCRYPT_FIELDS = [''apiKey'', ''srcIp'', ''dstIp'', ''message'']"

definition RAW_FIELDS :: "string list" where
  "RAW_FIELDS = [''src_ip'', ''dst_ip'', ''message'']"

definition encrypt_value :: "field_cipher \<Rightarrow> nat \<Rightarrow> string \<Rightarrow> string" where
  "encrypt_value fc r plaintext =
     (case fc of
        None \<Rightarrow> plaintext
      | Some f \<Rightarrow>
          if plaintext = [] then plaintext
          else if starts_with ENC_PREFIX plaintext then plaintext
          else ENC_PREFIX @ fernet_encrypt f r plaintext)"

definition decrypt_value :: "field_cipher \<Rightarrow> string \<Rightarrow> string" where
  "decrypt_value fc ciphertext =
     (case fc of
        None \<Rightarrow> ciphertext
      | Some f \<Rightarrow>
          if ciphertext = [] then ciphertext
          else if \<not> starts_with ENC_PREFIX ciphertext then ciphertext
          else (case fernet_decrypt f (drop (length ENC_PREFIX) ciphertext) of
                  Some s \<Rightarrow> s | None \<Rightarrow> ciphertext))"

section \<open>The fields of a message\<close>

text \<open>\<open>field in result and isinstance(result[field], str) and result[field]\<close>, for each field.\<close>

definition on_field :: "(string \<Rightarrow> string \<Rightarrow> string) \<Rightarrow> string \<Rightarrow> json \<Rightarrow> json" where
  "on_field f field m =
     (case jget m field of
        JStr s \<Rightarrow> if s \<noteq> [] then jset field (JStr (f field s)) m else m
      | _ \<Rightarrow> m)"

definition on_fields :: "(string \<Rightarrow> string \<Rightarrow> string) \<Rightarrow> string list \<Rightarrow> json \<Rightarrow> json" where
  "on_fields f ks m = fold (on_field f) ks m"

definition on_raw :: "(string \<Rightarrow> string \<Rightarrow> string) \<Rightarrow> json \<Rightarrow> json" where
  "on_raw f m =
     (case jget m ''rawData'' of
        JObj d \<Rightarrow> jset ''rawData'' (on_fields f RAW_FIELDS (JObj d)) m
      | _ \<Rightarrow> m)"

text \<open>\<open>rnd\<close> is the randomness of each encryption, by the place of the field.\<close>

definition encrypt_message :: "field_cipher \<Rightarrow> (bool \<Rightarrow> string \<Rightarrow> nat) \<Rightarrow> json \<Rightarrow> json" where
  "encrypt_message fc rnd m =
     (if fc = None then m
      else on_raw (\<lambda>k. encrypt_value fc (rnd True k))
             (on_fields (\<lambda>k. encrypt_value fc (rnd False k)) ENCRYPT_FIELDS m))"

definition decrypt_message :: "field_cipher \<Rightarrow> json \<Rightarrow> json" where
  "decrypt_message fc m =
     (if fc = None then m
      else on_raw (\<lambda>k. decrypt_value fc) (on_fields (\<lambda>k. decrypt_value fc) ENCRYPT_FIELDS m))"

section \<open>Fields of a dict as a map over its entries\<close>

definition text_entry :: "(string \<Rightarrow> string \<Rightarrow> string) \<Rightarrow> string list \<Rightarrow> string \<times> json \<Rightarrow> string \<times> json" where
  "text_entry f ks e =
     (fst e, case snd e of JStr s \<Rightarrow> if fst e \<in> set ks \<and> s \<noteq> [] then JStr (f (fst e) s) else JStr s
             | v \<Rightarrow> v)"

lemma update_map: "distinct (map fst d) \<Longrightarrow> map_of d k = Some v \<Longrightarrow>
  AList.update k (g v) d = map (\<lambda>e. if fst e = k then (k, g (snd e)) else e) d"
proof (induction d)
  case (Cons e d)
  then show ?case by (cases e) (auto intro!: map_idI [symmetric] simp: image_iff)
qed simp

lemma fst_text_entry [simp]: "fst (text_entry f fs e) = fst e"
  by (simp add: text_entry_def)

lemma keys_text_entry [simp]: "map fst (map (text_entry f fs) d) = map fst d"
  by simp

lemma on_field_map:
  assumes "distinct (map fst d)"
  shows "on_field f k (JObj d) = JObj (map (text_entry f [k]) d)"
proof (cases "\<exists>s. map_of d k = Some (JStr s) \<and> s \<noteq> []")
  case True
  then obtain s where s: "map_of d k = Some (JStr s)" "s \<noteq> []" by blast
  have "AList.update k (JStr (f k s)) d =
      map (\<lambda>e. if fst e = k then (k, JStr (f k s)) else e) d"
    using update_map [OF assms s(1), of "\<lambda>v. JStr (f k s)"] by simp
  also have "\<dots> = map (text_entry f [k]) d"
  proof (rule map_cong [OF refl])
    fix e assume "e \<in> set d"
    then have "fst e = k \<Longrightarrow> snd e = JStr s"
      using s(1) assms by (metis map_of_is_SomeI option.inject prod.collapse)
    then show "(if fst e = k then (k, JStr (f k s)) else e) = text_entry f [k] e"
      using s(2) by (cases e) (auto simp: text_entry_def split: json.splits)
  qed
  finally show ?thesis using s by (simp add: on_field_def)
next
  case False
  have "map (text_entry f [k]) d = d"
  proof (rule map_idI)
    fix e assume "e \<in> set d"
    then have "map_of d (fst e) = Some (snd e)" using assms by simp
    then show "text_entry f [k] e = e"
      using False by (cases e) (auto simp: text_entry_def split: json.splits)
  qed
  with False show ?thesis
    by (auto simp: on_field_def split: json.splits option.splits)
qed

lemma text_entry_Cons:
  "k \<notin> set fs \<Longrightarrow> text_entry f fs (text_entry f [k] e) = text_entry f (k # fs) e"
  by (auto simp: text_entry_def split: json.splits)

lemma on_fields_map:
  "distinct (map fst d) \<Longrightarrow> distinct fs \<Longrightarrow>
   on_fields f fs (JObj d) = JObj (map (text_entry f fs) d)"
  unfolding on_fields_def
proof (induction fs arbitrary: d)
  case Nil
  have "map (text_entry f []) d = d"
    by (rule map_idI) (auto simp: text_entry_def split: json.splits)
  then show ?case by simp
next
  case (Cons k fs)
  have "distinct (map fst (map (text_entry f [k]) d))"
    using Cons.prems(1) by (simp only: keys_text_entry)
  from Cons.IH [OF this] Cons.prems show ?case
    by (auto simp: on_field_map text_entry_Cons)
qed

lemma map_update:
  assumes "\<And>e. fst (h e) = fst e" and "h (k, v) = (k, v)"
  shows "map h (AList.update k v d) = AList.update k v (map h d)"
proof (induction d)
  case (Cons e d)
  then show ?case using assms(1) [of e] assms(2) by (cases e; cases "h e") auto
qed (simp add: assms(2))

lemma map_of_text_entry:
  "map_of (map (text_entry f fs) d) k = map_option (\<lambda>v. snd (text_entry f fs (k, v))) (map_of d k)"
proof (induction d)
  case (Cons e d)
  have "text_entry f fs e = (fst e, snd (text_entry f fs (fst e, snd e)))"
    by (metis fst_text_entry prod.collapse)
  with Cons show ?case by (cases e) auto
qed simp

lemma update_keys: "distinct (map fst d) \<Longrightarrow> distinct (map fst (AList.update k v d))"
  by (rule distinct_update)

lemma update_same: "map_of d k = Some v \<Longrightarrow> AList.update k v d = d"
  by (induction d) auto

definition dict_ok :: "json \<Rightarrow> bool" where
  "dict_ok m \<longleftrightarrow> (case m of JObj d \<Rightarrow> distinct (map fst d) | _ \<Rightarrow> True)"

text \<open>
  Undoing: \<open>g\<close> takes orig what \<open>f\<close> did to the text of every field, and leaves no field empty.
\<close>

definition undone :: "(string \<Rightarrow> string \<Rightarrow> string) \<Rightarrow> (string \<Rightarrow> string \<Rightarrow> string) \<Rightarrow> string list \<Rightarrow> json \<Rightarrow> bool" where
  "undone f g ks m \<longleftrightarrow>
     (\<forall>k \<in> set ks. \<forall>s. jget m k = JStr s \<longrightarrow> s \<noteq> [] \<longrightarrow> f k s \<noteq> [] \<and> g k (f k s) = s)"

lemma entries_undone:
  assumes "distinct (map fst d)" and "undone f g ks (JObj d)"
  shows "map (text_entry g ks) (map (text_entry f ks) d) = d"
  unfolding map_map
proof (rule map_idI)
  fix e assume "e \<in> set d"
  then have "map_of d (fst e) = Some (snd e)" using assms(1) by simp
  then show "(text_entry g ks \<circ> text_entry f ks) e = e"
    using assms(2) by (cases e) (auto simp: text_entry_def undone_def split: json.splits)
qed

lemma fields_distinct: "distinct ENCRYPT_FIELDS" "distinct RAW_FIELDS" "''rawData'' \<notin> set ENCRYPT_FIELDS"
  by (simp_all add: ENCRYPT_FIELDS_def RAW_FIELDS_def)

lemma message_undone:
  assumes "dict_ok m" and "dict_ok (jget m ''rawData'')"
    and "undone f g ENCRYPT_FIELDS m" and "undone f' g' RAW_FIELDS (jget m ''rawData'')"
    and "is_obj m"
  shows "on_raw g' (on_fields g ENCRYPT_FIELDS (on_raw f' (on_fields f ENCRYPT_FIELDS m))) = m"
proof -
  obtain d where m: "m = JObj d" using assms(5) by (cases m) auto
  have d: "distinct (map fst d)" using assms(1) by (simp add: m dict_ok_def)
  let ?f = "text_entry f ENCRYPT_FIELDS" and ?g = "text_entry g ENCRYPT_FIELDS"
  have enc: "on_fields f ENCRYPT_FIELDS (JObj d) = JObj (map ?f d)"
    using on_fields_map [OF d fields_distinct(1)] by (simp add: m)
  have orig: "map ?g (map ?f d) = d" by (rule entries_undone [OF d assms(3) [unfolded m]])
  have keep: "snd (text_entry h ENCRYPT_FIELDS (''rawData'', v)) = v" for h v
    using fields_distinct(3) by (auto simp: text_entry_def split: json.splits)
  have raw: "jget (JObj (map ?f d)) ''rawData'' = jget m ''rawData''"
    by (simp add: m map_of_text_entry keep split: option.splits)
  have dkeys: "distinct (map fst (map ?f d))" using d by (simp only: keys_text_entry)
  show ?thesis
  proof (cases "\<exists>r. jget m ''rawData'' = JObj r")
    case False
    then have "on_raw h m' = m'" if "jget m' ''rawData'' = jget m ''rawData''" for h m'
      using that by (auto simp: on_raw_def split: json.splits)
    then have "on_raw f' (JObj (map ?f d)) = JObj (map ?f d)" "on_raw g' m = m" using raw by auto
    then show ?thesis
      using on_fields_map [OF dkeys fields_distinct(1), of g] orig by (simp add: enc m)
  next
    case True
    then obtain r where r: "jget m ''rawData'' = JObj r" by blast
    let ?r = "map (text_entry f' RAW_FIELDS) r"
    have dr: "distinct (map fst r)" using assms(2) r by (simp add: dict_ok_def)
    have rorig: "map (text_entry g' RAW_FIELDS) ?r = r"
      by (rule entries_undone [OF dr]) (use assms(4) r in simp)
    have at: "map_of d ''rawData'' = Some (JObj r)"
      using r by (auto simp: m split: option.splits)
    have e1: "on_raw f' (JObj (map ?f d)) = JObj (AList.update ''rawData'' (JObj ?r) (map ?f d))"
      using raw r on_fields_map [OF dr fields_distinct(2), of f'] by (simp add: on_raw_def)
    have e2: "on_fields g ENCRYPT_FIELDS (JObj (AList.update ''rawData'' (JObj ?r) (map ?f d))) =
        JObj (AList.update ''rawData'' (JObj ?r) d)"
      using on_fields_map [OF update_keys [OF dkeys] fields_distinct(1), of g]
        map_update [of ?g "''rawData''" "JObj ?r" "map ?f d"] orig
      by (simp add: text_entry_def)
    have "distinct (map fst ?r)" using dr by (simp only: keys_text_entry)
    from on_fields_map [OF this fields_distinct(2), of g'] rorig
    have "on_raw g' (JObj (AList.update ''rawData'' (JObj ?r) d)) =
        JObj (AList.update ''rawData'' (JObj r) (AList.update ''rawData'' (JObj ?r) d))"
      by (simp add: on_raw_def)
    with e1 e2 enc show ?thesis by (simp add: m update_same [OF at])
  qed
qed

section \<open>What the cipher promises\<close>

definition fernet_ok :: "fernet \<Rightarrow> bool" where
  "fernet_ok f \<longleftrightarrow> (\<forall>r s. fernet_decrypt f (fernet_encrypt f r s) = Some s)"

text \<open>No sensitive text begins with the mark of an encrypted one.\<close>

definition unmarked :: "string list \<Rightarrow> json \<Rightarrow> bool" where
  "unmarked ks m \<longleftrightarrow>
     list_all (\<lambda>k. case jget m k of JStr s \<Rightarrow> \<not> starts_with ENC_PREFIX s | _ \<Rightarrow> True) ks"

lemma starts_with_mark [simp]: "starts_with ENC_PREFIX (ENC_PREFIX @ s)"
  by (rule starts_with_append)

lemma value_roundtrip:
  assumes "fernet_ok f" and "\<not> starts_with ENC_PREFIX s"
  shows "decrypt_value (Some f) (encrypt_value (Some f) r s) = s"
  using assms by (auto simp: encrypt_value_def decrypt_value_def fernet_ok_def ENC_PREFIX_def)

lemma encrypted_nonempty: "s \<noteq> [] \<Longrightarrow> encrypt_value fc r s \<noteq> []"
  by (auto simp: encrypt_value_def ENC_PREFIX_def split: option.splits)

lemma fields_undone:
  assumes "fernet_ok f" and "unmarked ks m"
  shows "undone (\<lambda>k. encrypt_value (Some f) (r k)) (\<lambda>k. decrypt_value (Some f)) ks m"
  using assms unfolding undone_def
  by (auto simp: unmarked_def list_all_iff encrypted_nonempty value_roundtrip)

text \<open>
  C23. The consumer reads what the producer sent: decrypting an encrypted message returns it
  unchanged, all its other fields included, when no sensitive text begins with the mark.
\<close>

theorem cipher_roundtrip:
  assumes "pred_option fernet_ok fc"
    and "is_obj m" and "dict_ok m" and "dict_ok (jget m ''rawData'')"
    and "unmarked ENCRYPT_FIELDS m" and "unmarked RAW_FIELDS (jget m ''rawData'')"
  shows "decrypt_message fc (encrypt_message fc rnd m) = m"
proof (cases fc)
  case (Some f)
  with assms show ?thesis
    using message_undone [OF assms(3,4) fields_undone fields_undone assms(2)]
    by (simp add: encrypt_message_def decrypt_message_def)
qed (simp add: encrypt_message_def decrypt_message_def)

text \<open>
  An encrypted message is not encrypted again: the producer may pass a message through the cipher
  twice.
\<close>

lemma value_encrypted_once: "encrypt_value fc r' (encrypt_value fc r s) = encrypt_value fc r s"
  by (auto simp: encrypt_value_def ENC_PREFIX_def split: option.splits)

text \<open>
  A text that begins with the mark is not encrypted: whoever can choose the message of an
  event can have it, and what stands in it, sent in the clear.
\<close>

theorem marked_text_sent_in_clear:
  assumes "dict_ok (JObj d)" and "map_of d ''message'' = Some (JStr (ENC_PREFIX @ s))"
  shows "jget (encrypt_message fc rnd (JObj d)) ''message'' = JStr (ENC_PREFIX @ s)"
proof (cases fc)
  case (Some f)
  let ?e = "\<lambda>k. encrypt_value fc (rnd False k)"
  have d: "distinct (map fst d)" using assms(1) by (simp add: dict_ok_def)
  have m: "jget (on_fields ?e ENCRYPT_FIELDS (JObj d)) ''message'' = JStr (ENC_PREFIX @ s)"
    using assms(2) on_fields_map [OF d fields_distinct(1), of ?e]
    by (simp add: map_of_text_entry) (simp add: text_entry_def encrypt_value_def Some)
  have "jget (on_raw h m') ''message'' = jget m' ''message''" if "is_obj m'" for h m'
    using that by (auto simp: on_raw_def jget_jset split: json.splits)
  with m show ?thesis
    using on_fields_map [OF d fields_distinct(1), of ?e] by (simp add: encrypt_message_def Some)
qed (use assms(2) in \<open>simp add: encrypt_message_def\<close>)

text \<open>Every other sensitive text leaves the producer encrypted.\<close>

lemma unmarked_text_encrypted:
  assumes "dict_ok (JObj d)" and "map_of d k = Some (JStr s)" and "s \<noteq> []" and "k \<in> set ENCRYPT_FIELDS"
    and "\<not> starts_with ENC_PREFIX s"
  shows "jget (encrypt_message (Some f) rnd (JObj d)) k =
    JStr (ENC_PREFIX @ fernet_encrypt f (rnd False k) s)"
proof -
  let ?e = "\<lambda>k. encrypt_value (Some f) (rnd False k)"
  have d: "distinct (map fst d)" using assms(1) by (simp add: dict_ok_def)
  have m: "jget (on_fields ?e ENCRYPT_FIELDS (JObj d)) k = JStr (ENC_PREFIX @ fernet_encrypt f (rnd False k) s)"
    using assms on_fields_map [OF d fields_distinct(1), of ?e]
    by (simp add: map_of_text_entry) (simp add: text_entry_def encrypt_value_def)
  have "k \<noteq> ''rawData''" using assms(4) fields_distinct(3) by blast
  then have "jget (on_raw h m') k = jget m' k" if "is_obj m'" for h m'
    using that by (auto simp: on_raw_def jget_jset split: json.splits)
  with m show ?thesis
    using on_fields_map [OF d fields_distinct(1), of ?e] by (simp add: encrypt_message_def)
qed

section \<open>Concrete messages\<close>

text \<open>A stand-in for the library that reverses the text.\<close>

definition demo_fernet :: fernet where
  "demo_fernet = \<lparr>fernet_encrypt = (\<lambda>r s. rev s), fernet_decrypt = (\<lambda>s. Some (rev s))\<rparr>"

definition demo_message :: json where
  "demo_message = JObj [(''apiKey'', JStr ''k1''), (''srcIp'', JStr ''10.0.0.5''), (''port'', JNum 22),
     (''rawData'', JObj [(''message'', JStr ''login''), (''user'', JStr ''root'')])]"

lemma cipher_roundtrip_witness:
  "decrypt_message (Some demo_fernet) (encrypt_message (Some demo_fernet) (\<lambda>_ _. 0) demo_message)
     = demo_message \<and>
   jget (encrypt_message (Some demo_fernet) (\<lambda>_ _. 0) demo_message) ''apiKey'' = JStr ''ENC:1k''"
proof
  show "decrypt_message (Some demo_fernet) (encrypt_message (Some demo_fernet) (\<lambda>_ _. 0) demo_message)
     = demo_message"
    by (rule cipher_roundtrip)
      (simp_all add: fernet_ok_def demo_fernet_def demo_message_def dict_ok_def unmarked_def
        ENCRYPT_FIELDS_def RAW_FIELDS_def ENC_PREFIX_def)
qed code_simp

lemma marked_text_sent_in_clear_witness:
  "jget (encrypt_message (Some demo_fernet) (\<lambda>_ _. 0)
     (JObj [(''message'', JStr (ENC_PREFIX @ ''password=secret''))])) ''message''
   = JStr (ENC_PREFIX @ ''password=secret'')"
  by (rule marked_text_sent_in_clear) (simp_all add: dict_ok_def)

end
