(* ===== verification/Cases.thy ===== *)
theory Cases
  imports IpAddress
begin

text \<open>
  Cases and work orders (\<open>src/backend/case_manager.py\<close>,
  \<open>src/backend/work_order_service.py\<close>; the tables are in \<open>src/backend/models.py\<close>).  The
  database is a record of three tables, each a list of rows in the order of insertion; a query
  ordered by a descending time takes rows of equal times in the reverse order of insertion, where
  the database leaves it open.  An operation reads the clock once.  What the asset inventory
  recommends and what the response log holds about a case are parameters; the audit trail, the
  published events, the post-mortem draft, the feedback record and the display rows are left out.
\<close>

section \<open>Tables\<close>

record sec_event =
  ev_id :: nat
  ev_src :: string
  ev_dst :: string
  ev_type :: string
  ev_raw_event :: "string option"
  ev_score :: rat
  ev_session :: string
  ev_severity :: string
  ev_status :: string
  ev_case :: "nat option"
  ev_created :: time

record sec_case =
  sc_id :: nat
  sc_number :: string
  sc_title :: string
  sc_status :: string
  sc_priority :: string
  sc_threat_type :: string
  sc_severity :: string
  sc_confidence :: rat
  sc_src_ips :: "string list"
  sc_dst_ips :: "string list"
  sc_event_ids :: "nat list"
  sc_event_count :: nat
  sc_assignee :: string
  sc_deadline :: "time option"
  sc_breached :: bool
  sc_disposition :: string
  sc_disposition_by :: string
  sc_disposition_at :: "time option"
  sc_tags :: "string list"
  sc_session :: string
  sc_created :: time
  sc_updated :: "time option"
  sc_closed :: "time option"

record work_order =
  wo_id :: nat
  wo_number :: string
  wo_case :: "nat option"
  wo_type :: string
  wo_title :: string
  wo_description :: string
  wo_status :: string
  wo_priority :: string
  wo_assignee :: string
  wo_created_by :: string
  wo_approval :: string
  wo_approved_by :: string
  wo_approved_at :: "time option"
  wo_reject_reason :: string
  wo_deadline :: time
  wo_breached :: bool
  wo_created :: time
  wo_updated :: time
  wo_completed :: "time option"

record case_db =
  db_events :: "sec_event list"
  db_cases :: "sec_case list"
  db_orders :: "work_order list"
  db_next_case :: nat
  db_next_order :: nat

text \<open>
  The settings; \<open>recommend\<close> is the asset inventory's answer for a target and a priority (empty
  where it has none or fails), and \<open>fresh_number\<close> the random part of a number.
\<close>

record case_settings =
  auto_order_priorities :: string
  default_assignee :: string
  auto_resolve_idle :: int
  recommend :: "string \<Rightarrow> string \<Rightarrow> string"
  fresh_number :: "nat \<Rightarrow> string"

definition find_event :: "nat \<Rightarrow> case_db \<Rightarrow> sec_event option" where
  "find_event i db = List.find (\<lambda>e. ev_id e = i) (db_events db)"

definition find_case :: "nat \<Rightarrow> case_db \<Rightarrow> sec_case option" where
  "find_case i db = List.find (\<lambda>c. sc_id c = i) (db_cases db)"

definition find_order :: "nat \<Rightarrow> case_db \<Rightarrow> work_order option" where
  "find_order i db = List.find (\<lambda>w. wo_id w = i) (db_orders db)"

definition alter_event :: "nat \<Rightarrow> (sec_event \<Rightarrow> sec_event) \<Rightarrow> case_db \<Rightarrow> case_db" where
  "alter_event i f db = db\<lparr>db_events := List.map (\<lambda>e. if ev_id e = i then f e else e) (db_events db)\<rparr>"

definition alter_case :: "nat \<Rightarrow> (sec_case \<Rightarrow> sec_case) \<Rightarrow> case_db \<Rightarrow> case_db" where
  "alter_case i f db = db\<lparr>db_cases := List.map (\<lambda>c. if sc_id c = i then f c else c) (db_cases db)\<rparr>"

definition alter_order :: "nat \<Rightarrow> (work_order \<Rightarrow> work_order) \<Rightarrow> case_db \<Rightarrow> case_db" where
  "alter_order i f db = db\<lparr>db_orders := List.map (\<lambda>w. if wo_id w = i then f w else w) (db_orders db)\<rparr>"

definition newest_first :: "('a \<Rightarrow> time) \<Rightarrow> 'a list \<Rightarrow> 'a list" where
  "newest_first t xs = rev (sort_key t xs)"

section \<open>Status transitions\<close>

definition VALID_TRANSITIONS :: "(string \<times> string list) list" where
  "VALID_TRANSITIONS =
     [(''open'', [''investigating'', ''closed'', ''false_positive'']),
      (''investigating'', [''pending_approval'', ''responding'', ''resolved'', ''closed'', ''false_positive'']),
      (''pending_approval'', [''responding'', ''investigating'', ''closed'']),
      (''responding'', [''resolved'', ''investigating'', ''closed'', ''pending_approval'']),
      (''resolved'', [''closed'', ''investigating'']),
      (''closed'', []),
      (''false_positive'', [''closed'', ''investigating''])]"

definition allowed_next :: "string \<Rightarrow> string list" where
  "allowed_next s = (case map_of VALID_TRANSITIONS s of Some l \<Rightarrow> l | None \<Rightarrow> [])"

definition SLA_HOURS :: "string \<Rightarrow> rat" where
  "SLA_HOURS p = (if p = ''critical'' then 4 else if p = ''high'' then 8
     else if p = ''medium'' then 24 else if p = ''low'' then 72 else 24)"

definition sla_end :: "time \<Rightarrow> string \<Rightarrow> time" where
  "sla_end now p = now + 3600 * SLA_HOURS p"

definition KILLCHAIN_RANK :: "(string \<times> nat) list" where
  "KILLCHAIN_RANK =
     [(''PORT_SCAN'', 10), (''XSS_ATTACK'', 15), (''BRUTE_FORCE'', 20), (''SSH_BRUTE'', 20),
      (''SQL_INJECTION'', 25), (''LATERAL_MOVE'', 30), (''LATERAL_MOVEMENT'', 30),
      (''PRIVILEGE_ESCALATION'', 35), (''C2_BEACON'', 40), (''MALWARE_DETECT'', 40),
      (''DATA_EXFIL'', 50), (''RANSOMWARE'', 60)]"

definition ACTIVE_CASE_STATUSES :: "string list" where
  "ACTIVE_CASE_STATUSES = [''open'', ''investigating'', ''responding'']"

definition REUSABLE_STATUSES :: "string list" where
  "REUSABLE_STATUSES = [''open'', ''investigating'', ''responding'', ''pending_approval'']"

definition OPEN_ORDER_STATUSES :: "string list" where
  "OPEN_ORDER_STATUSES = [''pending'', ''assigned'', ''in_progress'']"

definition ORDER_STATUSES :: "string list" where
  "ORDER_STATUSES = [''pending'', ''assigned'', ''in_progress'', ''completed'', ''cancelled'']"

text \<open>\<open>CaseManager.update_status\<close>: \<open>Some\<close> the old and the new status, or a refusal.\<close>

definition case_update_status ::
  "time \<Rightarrow> nat \<Rightarrow> string \<Rightarrow> case_db \<Rightarrow> (string \<times> string) option \<times> case_db" where
  "case_update_status now i new db =
     (case find_case i db of
        None \<Rightarrow> (None, db)
      | Some c \<Rightarrow>
          if new \<notin> set (allowed_next (sc_status c)) then (None, db)
          else
            let db' = alter_case i (\<lambda>c. c\<lparr>sc_status := new, sc_updated := Some now,
                  sc_closed := (if new = ''closed'' then Some now else sc_closed c)\<rparr>) db
            in (Some (sc_status c, new),
                if new = ''false_positive''
                then fold (\<lambda>e. alter_event e (\<lambda>r. r\<lparr>ev_status := ''false_positive''\<rparr>)) (sc_event_ids c) db'
                else db'))"

definition case_assign :: "time \<Rightarrow> nat \<Rightarrow> string \<Rightarrow> case_db \<Rightarrow> bool \<times> case_db" where
  "case_assign now i who db =
     (case find_case i db of
        None \<Rightarrow> (False, db)
      | Some c \<Rightarrow> (True, alter_case i (\<lambda>c. c\<lparr>sc_assignee := who, sc_updated := Some now,
            sc_status := (if sc_status c = ''open'' then ''investigating'' else sc_status c)\<rparr>) db))"

definition set_disposition :: "time \<Rightarrow> nat \<Rightarrow> string \<Rightarrow> string \<Rightarrow> case_db \<Rightarrow> bool \<times> case_db" where
  "set_disposition now i disposition who db =
     (case find_case i db of
        None \<Rightarrow> (False, db)
      | Some c \<Rightarrow> (True, alter_case i (\<lambda>c. c\<lparr>sc_disposition := disposition,
            sc_disposition_by := who, sc_disposition_at := Some now, sc_updated := Some now\<rparr>) db))"

section \<open>Work orders\<close>

definition create_order ::
  "case_settings \<Rightarrow> time \<Rightarrow> nat option \<Rightarrow> string \<Rightarrow> string \<Rightarrow> string \<Rightarrow> string \<Rightarrow> string \<Rightarrow> string \<Rightarrow>
   case_db \<Rightarrow> work_order \<times> case_db"
where
  "create_order cfg now cid otype title description priority assignee created_by db =
     (let w = \<lparr>wo_id = db_next_order db, wo_number = fresh_number cfg (db_next_order db),
               wo_case = cid, wo_type = otype, wo_title = title, wo_description = description,
               wo_status = (if assignee \<noteq> [] then ''assigned'' else ''pending''),
               wo_priority = priority, wo_assignee = assignee, wo_created_by = created_by,
               wo_approval = (if otype = ''approval'' then ''pending'' else []),
               wo_approved_by = [], wo_approved_at = None, wo_reject_reason = [],
               wo_deadline = sla_end now priority, wo_breached = False,
               wo_created = now, wo_updated = now, wo_completed = None\<rparr>
      in (w, db\<lparr>db_orders := db_orders db @ [w], db_next_order := db_next_order db + 1\<rparr>))"

text \<open>\<open>_maybe_resolve_case\<close>: a completed disposition order takes its case to \<open>resolved\<close>.\<close>

definition maybe_resolve_case :: "time \<Rightarrow> work_order \<Rightarrow> case_db \<Rightarrow> case_db" where
  "maybe_resolve_case now w db =
     (case wo_case w of
        None \<Rightarrow> db
      | Some cid \<Rightarrow>
          if wo_type w \<noteq> ''disposition'' then db
          else
            let db1 = (case find_case cid db of
                         Some c \<Rightarrow> if sc_status c = ''open''
                           then snd (case_update_status now cid ''investigating'' db) else db
                       | None \<Rightarrow> db)
            in snd (case_update_status now cid ''resolved'' db1))"

definition order_update_status :: "time \<Rightarrow> nat \<Rightarrow> string \<Rightarrow> case_db \<Rightarrow> bool \<times> case_db" where
  "order_update_status now i new db =
     (case find_order i db of
        None \<Rightarrow> (False, db)
      | Some w \<Rightarrow>
          if new \<notin> set ORDER_STATUSES then (False, db)
          else
            let db1 = alter_order i (\<lambda>w. w\<lparr>wo_status := new, wo_updated := now,
                  wo_completed := (if new = ''completed'' then Some now else wo_completed w)\<rparr>) db
            in (True, if new = ''completed'' then maybe_resolve_case now w db1 else db1))"

definition order_assign :: "time \<Rightarrow> nat \<Rightarrow> string \<Rightarrow> case_db \<Rightarrow> bool \<times> case_db" where
  "order_assign now i who db =
     (case find_order i db of
        None \<Rightarrow> (False, db)
      | Some w \<Rightarrow> (True, alter_order i (\<lambda>w. w\<lparr>wo_assignee := who, wo_updated := now,
            wo_status := (if wo_status w = ''pending'' then ''assigned'' else wo_status w)\<rparr>) db))"

text \<open>
  \<open>_execute_approved_actions\<close>: whatever its name says, it sets the status of the case and
  nothing else.
\<close>

definition execute_approved_actions :: "time \<Rightarrow> nat \<Rightarrow> case_db \<Rightarrow> case_db" where
  "execute_approved_actions now cid db =
     (case find_case cid db of
        None \<Rightarrow> db
      | Some c \<Rightarrow> if sc_event_ids c \<noteq> []
          then alter_case cid (\<lambda>c. c\<lparr>sc_status := ''responding'', sc_updated := Some now\<rparr>) db
          else db)"

definition order_approve :: "time \<Rightarrow> nat \<Rightarrow> string \<Rightarrow> case_db \<Rightarrow> bool \<times> case_db" where
  "order_approve now i who db =
     (case find_order i db of
        None \<Rightarrow> (False, db)
      | Some w \<Rightarrow>
          if wo_approval w \<noteq> ''pending'' then (False, db)
          else
            let db1 = alter_order i (\<lambda>w. w\<lparr>wo_approval := ''approved'', wo_approved_by := who,
                  wo_approved_at := Some now, wo_status := ''in_progress'', wo_updated := now\<rparr>) db
            in (True, case wo_case w of Some cid \<Rightarrow> execute_approved_actions now cid db1 | None \<Rightarrow> db1))"

definition order_reject :: "time \<Rightarrow> nat \<Rightarrow> string \<Rightarrow> string \<Rightarrow> case_db \<Rightarrow> bool \<times> case_db" where
  "order_reject now i reason who db =
     (case find_order i db of
        None \<Rightarrow> (False, db)
      | Some w \<Rightarrow>
          if wo_approval w \<noteq> ''pending'' then (False, db)
          else (True, alter_order i (\<lambda>w. w\<lparr>wo_approval := ''rejected'', wo_approved_by := who,
                  wo_reject_reason := reason, wo_status := ''cancelled'', wo_updated := now\<rparr>) db))"

definition sla_overdue :: "time \<Rightarrow> work_order \<Rightarrow> bool" where
  "sla_overdue now w \<longleftrightarrow>
     wo_status w \<in> set OPEN_ORDER_STATUSES \<and> wo_deadline w \<le> now \<and> \<not> wo_breached w"

definition check_sla_breaches :: "time \<Rightarrow> case_db \<Rightarrow> work_order list \<times> case_db" where
  "check_sla_breaches now db =
     (let mark = (\<lambda>w. w\<lparr>wo_breached := True, wo_updated := now\<rparr>)
      in (List.map mark (filter (sla_overdue now) (db_orders db)),
          db\<lparr>db_orders := List.map (\<lambda>w. if sla_overdue now w then mark w else w) (db_orders db)\<rparr>))"

definition list_orders :: "nat option \<Rightarrow> string \<Rightarrow> string \<Rightarrow> nat \<Rightarrow> nat \<Rightarrow> case_db \<Rightarrow> work_order list" where
  "list_orders cid otype status limit offset db =
     take limit (drop offset (newest_first wo_created (filter (\<lambda>w.
       (case cid of Some i \<Rightarrow> wo_case w = Some i | None \<Rightarrow> True) \<and>
       (otype = [] \<or> wo_type w = otype) \<and> (status = [] \<or> wo_status w = status)) (db_orders db))))"

section \<open>Automatic dispatch\<close>

definition auto_priorities :: "case_settings \<Rightarrow> string list" where
  "auto_priorities cfg =
     (let ps = List.map (\<lambda>p. lower (strip p))
            (filter (\<lambda>p. strip p \<noteq> []) (split_on CHR '','' (auto_order_priorities cfg)))
      in if ps = [] then [''high'', ''critical''] else ps)"

definition has_open_disposition :: "nat \<Rightarrow> case_db \<Rightarrow> bool" where
  "has_open_disposition cid db \<longleftrightarrow>
     list_ex (\<lambda>w. wo_case w = Some cid \<and> wo_type w = ''disposition'' \<and>
       wo_status w \<in> set OPEN_ORDER_STATUSES) (db_orders db)"

text \<open>\<open>_advance\<close>: from one status to another, if the case is in the first.\<close>

definition advance :: "time \<Rightarrow> nat \<Rightarrow> string \<Rightarrow> string \<Rightarrow> case_db \<Rightarrow> case_db" where
  "advance now cid a b db =
     (case find_case cid db of
        Some c \<Rightarrow> if sc_status c = a then snd (case_update_status now cid b db) else db
      | None \<Rightarrow> db)"

definition auto_dispatch :: "case_settings \<Rightarrow> time \<Rightarrow> nat \<Rightarrow> case_db \<Rightarrow> bool \<times> case_db" where
  "auto_dispatch cfg now cid db =
     (case find_case cid db of
        None \<Rightarrow> (False, db)
      | Some c \<Rightarrow>
          if lower (sc_priority c) \<notin> set (auto_priorities cfg) then (False, db)
          else if has_open_disposition cid db
          then (True, advance now cid ''investigating'' ''responding''
                  (advance now cid ''open'' ''investigating'' db))
          else
            let db1 = advance now cid ''open'' ''investigating'' db;
                (w, db2) = create_order cfg now (Some cid) ''disposition''
                  (''[auto] '' @ sc_title c) [] (sc_priority c) (strip (default_assignee cfg)) ''system'' db1
            in (True, advance now cid ''investigating'' ''responding'' db2))"

section \<open>From events to cases\<close>

definition or_text :: "string \<Rightarrow> string \<Rightarrow> string" where
  "or_text a b = (if a \<noteq> [] then a else b)"

definition compose_title :: "string \<Rightarrow> string \<Rightarrow> string \<Rightarrow> string" where
  "compose_title severity threat src =
     ''['' @ upper (or_text severity ''medium'') @ ''] '' @ or_text threat ''UNKNOWN'' @
     '' - '' @ or_text src ''unknown''"

definition killchain_rank :: "string \<Rightarrow> nat" where
  "killchain_rank t =
     (case map_of KILLCHAIN_RANK (List.map (\<lambda>c. if c = CHR ''-'' then CHR ''_'' else c) (upper t)) of
        Some n \<Rightarrow> n | None \<Rightarrow> 0)"

definition SEV_ORDER :: "string list" where
  "SEV_ORDER = [''info'', ''low'', ''medium'', ''high'', ''critical'']"

text \<open>\<open>list.index\<close>: \<open>None\<close> is the \<open>ValueError\<close>.\<close>

fun index_of :: "string \<Rightarrow> string list \<Rightarrow> nat option" where
  "index_of x [] = None"
| "index_of x (y # ys) = (if x = y then Some 0 else map_option Suc (index_of x ys))"

definition sev_priority :: "string \<Rightarrow> string \<Rightarrow> string" where
  "sev_priority severity dflt =
     (if severity = ''critical'' then ''critical'' else if severity = ''high'' then ''high'' else dflt)"

definition add_ip :: "string \<Rightarrow> string list \<Rightarrow> string list" where
  "add_ip ip ips = (if ip \<noteq> [] \<and> ip \<notin> set ips then ips @ [ip] else ips)"

text \<open>
  The part of \<open>_add_event_to_case\<close> that raises severity, priority and deadline; with the flag
  \<open>upgraded\<close>.  A severity outside the list raises.
\<close>

definition escalate :: "time \<Rightarrow> sec_event \<Rightarrow> sec_case \<Rightarrow> (bool \<times> sec_case) option" where
  "escalate now e c =
     (case (index_of (or_text (ev_severity e) ''info'') SEV_ORDER,
            index_of (or_text (sc_severity c) ''info'') SEV_ORDER) of
        (Some i, Some j) \<Rightarrow>
          if i > j then
            let prio = sev_priority (ev_severity e) (sc_priority c);
                deadline = sla_end now prio;
                renew = (case sc_deadline c of None \<Rightarrow> True | Some d \<Rightarrow> d > deadline \<or> d < now);
                overdue = (case sc_deadline c of None \<Rightarrow> False | Some d \<Rightarrow> d < now)
            in Some (prio \<noteq> sc_priority c,
                 c\<lparr>sc_severity := ev_severity e, sc_priority := prio,
                   sc_deadline := (if renew then Some deadline else sc_deadline c),
                   sc_breached := (if renew \<and> sc_breached c \<and> overdue then False else sc_breached c)\<rparr>)
          else Some (False, c)
      | _ \<Rightarrow> None)"

definition refresh_narrative :: "sec_event \<Rightarrow> sec_case \<Rightarrow> sec_case" where
  "refresh_narrative e c =
     (let et = strip (ev_type e);
          tags = (if et \<noteq> [] \<and> et \<notin> set (sc_tags c) then sc_tags c @ [et] else sc_tags c);
          ahead = (et \<noteq> [] \<and> killchain_rank et \<ge> killchain_rank (sc_threat_type c));
          threat = (if ahead then et else sc_threat_type c);
          first = (case sc_src_ips c of [] \<Rightarrow> [] | ip # _ \<Rightarrow> ip);
          src = (if ahead then or_text (ev_src e) (or_text first ''unknown'')
                 else or_text first (or_text (ev_src e) ''unknown''))
      in c\<lparr>sc_tags := tags, sc_threat_type := threat,
           sc_session := (if ev_session e \<noteq> [] then ev_session e else sc_session c),
           sc_title := compose_title (sc_severity c) threat src\<rparr>)"

definition absorb :: "sec_event \<Rightarrow> sec_case \<Rightarrow> sec_case" where
  "absorb e c =
     (let ids = (if ev_id e \<in> set (sc_event_ids c) then sc_event_ids c else sc_event_ids c @ [ev_id e])
      in c\<lparr>sc_event_ids := ids,
           sc_event_count := (if ev_id e \<in> set (sc_event_ids c) then sc_event_count c else length ids),
           sc_src_ips := add_ip (ev_src e) (sc_src_ips c),
           sc_dst_ips := add_ip (ev_dst e) (sc_dst_ips c)\<rparr>)"

definition attach_event :: "nat \<Rightarrow> nat \<Rightarrow> case_db \<Rightarrow> case_db" where
  "attach_event eid cid db =
     alter_event eid (\<lambda>e. e\<lparr>ev_case := Some cid, ev_status := ''acknowledged''\<rparr>) db"

text \<open>\<open>_add_event_to_case\<close>; \<open>None\<close> where it raises.\<close>

definition add_event_to_case ::
  "case_settings \<Rightarrow> time \<Rightarrow> sec_case \<Rightarrow> sec_event \<Rightarrow> case_db \<Rightarrow> case_db option" where
  "add_event_to_case cfg now c e db =
     (case escalate now e (absorb e c) of
        None \<Rightarrow> None
      | Some (upgraded, c1) \<Rightarrow>
          let c2 = (refresh_narrative e c1)\<lparr>sc_updated := Some now\<rparr>;
              db1 = attach_event (ev_id e) (sc_id c) (alter_case (sc_id c) (\<lambda>_. c2) db)
          in Some (if upgraded \<or> lower (sc_priority c2) \<in> {''high'', ''critical''}
                   then snd (auto_dispatch cfg now (sc_id c) db1) else db1))"

definition create_case_from_event ::
  "case_settings \<Rightarrow> time \<Rightarrow> sec_event \<Rightarrow> case_db \<Rightarrow> nat \<times> case_db" where
  "create_case_from_event cfg now e db =
     (let severity = or_text (ev_severity e) ''medium'';
          priority0 = sev_priority severity ''medium'';
          priority = or_text (recommend cfg (ev_dst e) priority0) priority0;
          threat = or_text (ev_type e) (case ev_raw_event e of Some t \<Rightarrow> t | None \<Rightarrow> ''UNKNOWN'');
          cid = db_next_case db;
          c = \<lparr>sc_id = cid, sc_number = fresh_number cfg cid,
               sc_title = compose_title severity threat (or_text (ev_src e) ''unknown''),
               sc_status = ''open'', sc_priority = priority, sc_threat_type = threat,
               sc_severity = severity, sc_confidence = ev_score e,
               sc_src_ips = add_ip (ev_src e) [], sc_dst_ips = add_ip (ev_dst e) [],
               sc_event_ids = [ev_id e], sc_event_count = 1, sc_assignee = [],
               sc_deadline = Some (sla_end now priority), sc_breached = False,
               sc_disposition = [], sc_disposition_by = [], sc_disposition_at = None, sc_tags = [],
               sc_session = ev_session e, sc_created = now, sc_updated = Some now, sc_closed = None\<rparr>;
          db1 = attach_event (ev_id e) cid
                  (db\<lparr>db_cases := db_cases db @ [c], db_next_case := cid + 1\<rparr>)
      in (cid, snd (auto_dispatch cfg now cid db1)))"

text \<open>The three searches for an active case.\<close>

definition find_by_session :: "string \<Rightarrow> case_db \<Rightarrow> sec_case option" where
  "find_by_session s db =
     (if s = [] then None
      else
        let rows = take 5 (newest_first ev_created
              (filter (\<lambda>e. ev_session e = s \<and> ev_case e \<noteq> None) (db_events db)))
        in (case List.find (\<lambda>c. sc_status c \<in> set REUSABLE_STATUSES)
               (List.map_filter (\<lambda>e. Option.bind (ev_case e) (\<lambda>i. find_case i db)) rows) of
              Some c \<Rightarrow> Some c | None \<Rightarrow> None))"

definition find_by_ip :: "string \<Rightarrow> time \<Rightarrow> case_db \<Rightarrow> sec_case option" where
  "find_by_ip ip window db =
     List.find (\<lambda>c. ip \<in> set (sc_src_ips c)) (take 10 (newest_first sc_created
       (filter (\<lambda>c. sc_status c \<in> set ACTIVE_CASE_STATUSES \<and> sc_created c \<ge> window) (db_cases db))))"

definition find_by_type_target :: "string \<Rightarrow> string \<Rightarrow> time \<Rightarrow> case_db \<Rightarrow> sec_case option" where
  "find_by_type_target threat dst window db =
     List.find (\<lambda>c. dst \<in> set (sc_dst_ips c)) (take 10 (newest_first sc_created
       (filter (\<lambda>c. sc_status c \<in> {''open'', ''investigating''} \<and> sc_threat_type c = threat \<and>
          sc_created c \<ge> window) (db_cases db))))"

definition AGGREGATION_WINDOW :: time where
  "AGGREGATION_WINDOW = 30 * 60"

definition TYPE_TARGET_WINDOW :: time where
  "TYPE_TARGET_WINDOW = 6 * 3600"

text \<open>\<open>auto_create_case\<close>: the case of an event; \<open>None\<close> outside is an exception.\<close>

definition join_or_create ::
  "case_settings \<Rightarrow> time \<Rightarrow> sec_event \<Rightarrow> sec_case option \<Rightarrow> case_db \<Rightarrow> (nat option \<times> case_db) option" where
  "join_or_create cfg now e found db =
     (case found of
        Some c \<Rightarrow> map_option (Pair (Some (sc_id c))) (add_event_to_case cfg now c e db)
      | None \<Rightarrow> (case create_case_from_event cfg now e db of (cid, db1) \<Rightarrow> Some (Some cid, db1)))"

definition own_case :: "sec_event \<Rightarrow> case_db \<Rightarrow> sec_case option" where
  "own_case e db =
     (case Option.bind (ev_case e) (\<lambda>i. find_case i db) of
        Some c \<Rightarrow> if sc_status c \<in> set REUSABLE_STATUSES then Some c else None
      | None \<Rightarrow> None)"

definition find_case_for :: "time \<Rightarrow> sec_event \<Rightarrow> case_db \<Rightarrow> sec_case option" where
  "find_case_for now e db =
     (case own_case e db of
        Some c \<Rightarrow> Some c
      | None \<Rightarrow>
          if ev_session e \<noteq> [] then find_by_session (ev_session e) db
          else
            (case (if ev_src e \<noteq> [] then find_by_ip (ev_src e) (now - AGGREGATION_WINDOW) db else None) of
               Some c \<Rightarrow> Some c
             | None \<Rightarrow> if ev_type e \<noteq> [] \<and> ev_dst e \<noteq> []
                 then find_by_type_target (ev_type e) (ev_dst e) (now - TYPE_TARGET_WINDOW) db
                 else None))"

definition auto_create_case ::
  "case_settings \<Rightarrow> time \<Rightarrow> nat \<Rightarrow> case_db \<Rightarrow> (nat option \<times> case_db) option" where
  "auto_create_case cfg now eid db =
     (case find_event eid db of
        None \<Rightarrow> Some (None, db)
      | Some e \<Rightarrow>
          if ev_src e = [] \<and> ev_type e = [] then Some (None, db)
          else join_or_create cfg now e (find_case_for now e db) db)"

text \<open>\<open>create_case\<close>: by hand, over existing events.\<close>

definition link_event :: "nat \<Rightarrow> nat \<Rightarrow> case_db \<Rightarrow> case_db" where
  "link_event cid eid db =
     (case find_event eid db of
        None \<Rightarrow> db
      | Some e \<Rightarrow> alter_case cid (\<lambda>c. c\<lparr>sc_src_ips := add_ip (ev_src e) (sc_src_ips c),
                     sc_dst_ips := add_ip (ev_dst e) (sc_dst_ips c)\<rparr>) (attach_event eid cid db))"

definition create_case ::
  "case_settings \<Rightarrow> time \<Rightarrow> string \<Rightarrow> nat list \<Rightarrow> string \<Rightarrow> string \<Rightarrow> string \<Rightarrow> string list \<Rightarrow>
   case_db \<Rightarrow> nat \<times> case_db"
where
  "create_case cfg now title eids priority threat assignee tags db =
     (let cid = db_next_case db;
          c = \<lparr>sc_id = cid, sc_number = fresh_number cfg cid, sc_title = title,
               sc_status = ''open'', sc_priority = priority, sc_threat_type = threat,
               sc_severity = ''medium'', sc_confidence = 0, sc_src_ips = [], sc_dst_ips = [],
               sc_event_ids = eids, sc_event_count = length eids, sc_assignee = assignee,
               sc_deadline = Some (sla_end now priority), sc_breached = False,
               sc_disposition = [], sc_disposition_by = [], sc_disposition_at = None, sc_tags = tags,
               sc_session = [], sc_created = now, sc_updated = Some now, sc_closed = None\<rparr>
      in (cid, fold (link_event cid) eids (db\<lparr>db_cases := db_cases db @ [c], db_next_case := cid + 1\<rparr>)))"

section \<open>Closing idle cases\<close>

text \<open>
  \<open>try_auto_resolve\<close>: \<open>has_resp\<close> and \<open>has_pend\<close> are what the response log says of the case.
  The answer is whether the case counts as resolved.
\<close>

definition open_dispositions :: "nat \<Rightarrow> case_db \<Rightarrow> work_order list" where
  "open_dispositions cid db =
     filter (\<lambda>w. wo_case w = Some cid \<and> wo_type w = ''disposition'' \<and>
       wo_status w \<in> set OPEN_ORDER_STATUSES) (db_orders db)"

definition finish_case :: "time \<Rightarrow> nat \<Rightarrow> case_db \<Rightarrow> bool \<times> case_db" where
  "finish_case now cid db =
     (case find_case cid db of
        None \<Rightarrow> (True, db)
      | Some c \<Rightarrow>
          if sc_status c = ''resolved'' then (True, db)
          else
            let db1 = (if sc_status c = ''open''
                       then snd (case_update_status now cid ''investigating'' db) else db)
            in (case find_case cid db1 of
                  None \<Rightarrow> (True, db1)
                | Some c1 \<Rightarrow>
                    if sc_status c1 \<in> {''investigating'', ''responding''}
                    then (case case_update_status now cid ''resolved'' db1 of
                            (r, db2) \<Rightarrow> (r \<noteq> None, db2))
                    else (True, db1)))"

definition try_auto_resolve ::
  "case_settings \<Rightarrow> time \<Rightarrow> int option \<Rightarrow> bool \<Rightarrow> bool \<Rightarrow> sec_case \<Rightarrow> case_db \<Rightarrow> bool \<times> case_db" where
  "try_auto_resolve cfg now idle has_resp has_pend c db =
     (let minutes = (case idle of Some n \<Rightarrow> n | None \<Rightarrow> auto_resolve_idle cfg);
          stale = (case sc_deadline c of Some d \<Rightarrow> d < now | None \<Rightarrow> False);
          updated = (case sc_updated c of Some u \<Rightarrow> u | None \<Rightarrow> sc_created c)
      in if minutes < 0 then (False, db)
         else if sc_status c \<notin> set ACTIVE_CASE_STATUSES then (False, db)
         else if has_pend \<and> \<not> has_resp \<and> \<not> stale then (False, db)
         else if \<not> has_resp \<and> \<not> stale then (False, db)
         else if has_resp \<and> \<not> stale \<and> minutes > 0 \<and> updated > now - 60 * of_int minutes then (False, db)
         else finish_case now (sc_id c)
           (fold (\<lambda>w db. snd (order_update_status now (wo_id w) ''completed'' db))
              (open_dispositions (sc_id c) db) db))"

text \<open>\<open>auto_resolve_idle_cases\<close>; \<open>resp\<close> and \<open>pend\<close> are the response log by case.\<close>

definition auto_resolve_idle_cases ::
  "case_settings \<Rightarrow> time \<Rightarrow> (nat \<Rightarrow> bool) \<Rightarrow> (nat \<Rightarrow> bool) \<Rightarrow> case_db \<Rightarrow> nat \<times> case_db" where
  "auto_resolve_idle_cases cfg now resp pend db =
     fold (\<lambda>c (n, db). case try_auto_resolve cfg now None (resp (sc_id c)) (pend (sc_id c)) c db of
              (ok, db') \<Rightarrow> (if ok then n + 1 else n, db'))
       (filter (\<lambda>c. sc_status c \<in> set ACTIVE_CASE_STATUSES) (db_cases db)) (0, db)"

end
