(* ===== verification/CaseRuns.thy ===== *)
theory CaseRuns
  imports Cases
begin

text \<open>
  What the case and work order operations keep: every operation but the approval of a work order
  moves a case only along the legal transitions, whatever else runs; and what they achieve:
  events of a session share a case, new cases of high priority are dispatched, an automatically
  resolved case is resolved with all its orders completed.
\<close>

section \<open>Runs of operations\<close>

datatype case_op =
    NewEvent sec_event
  | AutoCreate time nat
  | CreateCase time string "nat list" string string string "string list"
  | CaseStatus time nat string
  | CaseAssign time nat string
  | Disposition time nat string string
  | CreateOrder time "nat option" string string string string string string
  | OrderStatus time nat string
  | OrderAssign time nat string
  | Approve time nat string
  | Reject time nat string string
  | SlaCheck time
  | AutoResolve time "nat \<Rightarrow> bool" "nat \<Rightarrow> bool"

text \<open>An operation that raises leaves the database as it is.\<close>

fun case_step :: "case_settings \<Rightarrow> case_op \<Rightarrow> case_db \<Rightarrow> case_db" where
  "case_step cfg (NewEvent e) db = db\<lparr>db_events := db_events db @ [e]\<rparr>"
| "case_step cfg (AutoCreate now i) db =
     (case auto_create_case cfg now i db of Some (r, db') \<Rightarrow> db' | None \<Rightarrow> db)"
| "case_step cfg (CreateCase now t es p th a tags) db = snd (create_case cfg now t es p th a tags db)"
| "case_step cfg (CaseStatus now i s) db = snd (case_update_status now i s db)"
| "case_step cfg (CaseAssign now i a) db = snd (case_assign now i a db)"
| "case_step cfg (Disposition now i d by) db = snd (set_disposition now i d by db)"
| "case_step cfg (CreateOrder now c ty t d p a by) db = snd (create_order cfg now c ty t d p a by db)"
| "case_step cfg (OrderStatus now i s) db = snd (order_update_status now i s db)"
| "case_step cfg (OrderAssign now i a) db = snd (order_assign now i a db)"
| "case_step cfg (Approve now i by) db = snd (order_approve now i by db)"
| "case_step cfg (Reject now i r by) db = snd (order_reject now i r by db)"
| "case_step cfg (SlaCheck now) db = snd (check_sla_breaches now db)"
| "case_step cfg (AutoResolve now resp pend) db = snd (auto_resolve_idle_cases cfg now resp pend db)"

definition case_run :: "case_settings \<Rightarrow> case_op list \<Rightarrow> case_db \<Rightarrow> case_db" where
  "case_run cfg ops db = fold (case_step cfg) ops db"

fun is_approval :: "case_op \<Rightarrow> bool" where
  "is_approval (Approve now i by) = True"
| "is_approval _ = False"

definition empty_db :: case_db where
  "empty_db = \<lparr>db_events = [], db_cases = [], db_orders = [], db_next_case = 1, db_next_order = 1\<rparr>"

text \<open>One legal transition, and any number of them.\<close>

definition legal :: "string \<Rightarrow> string \<Rightarrow> bool" where
  "legal a b \<longleftrightarrow> b \<in> set (allowed_next a)"

definition case_ids_ok :: "case_db \<Rightarrow> bool" where
  "case_ids_ok db \<longleftrightarrow>
     distinct (map sc_id (db_cases db)) \<and>
     list_all (\<lambda>i. i < db_next_case db) (map sc_id (db_cases db))"

section \<open>Rows and lookups\<close>

lemma find_case_in: "find_case i db = Some c \<Longrightarrow> c \<in> set (db_cases db) \<and> sc_id c = i"
  by (auto simp: find_case_def find_Some_iff)

lemma find_row: "distinct (map g xs) \<Longrightarrow> x \<in> set xs \<Longrightarrow> List.find (\<lambda>y. g y = g x) xs = Some x"
  by (induction xs) (auto simp: image_iff)

lemma in_find_case: "case_ids_ok db \<Longrightarrow> c \<in> set (db_cases db) \<Longrightarrow> find_case (sc_id c) db = Some c"
  unfolding find_case_def case_ids_ok_def by (blast intro: find_row)

lemma find_map_row:
  "(\<And>x. g x = i \<Longrightarrow> g (f x) = i) \<Longrightarrow>
   List.find (\<lambda>y. g y = j) (map (\<lambda>x. if g x = i then f x else x) xs) =
     (if i = j then map_option f (List.find (\<lambda>y. g y = j) xs) else List.find (\<lambda>y. g y = j) xs)"
  by (induction xs) auto

lemma find_alter_case:
  "(\<And>c. sc_id c = i \<Longrightarrow> sc_id (f c) = i) \<Longrightarrow>
   find_case j (alter_case i f db) =
     (if i = j then map_option f (find_case j db) else find_case j db)"
  unfolding find_case_def alter_case_def by (simp add: find_map_row)

lemma find_alter_order:
  "(\<And>w. wo_id w = i \<Longrightarrow> wo_id (f w) = i) \<Longrightarrow>
   find_order j (alter_order i f db) =
     (if i = j then map_option f (find_order j db) else find_order j db)"
  unfolding find_order_def alter_order_def by (simp add: find_map_row)

lemma alter_fields [simp]:
  "db_cases (alter_event i f db) = db_cases db" "db_orders (alter_event i f db) = db_orders db"
  "db_next_case (alter_event i f db) = db_next_case db" "db_next_order (alter_event i f db) = db_next_order db"
  "db_cases (alter_order i g db) = db_cases db" "db_events (alter_order i g db) = db_events db"
  "db_next_case (alter_order i g db) = db_next_case db" "db_next_order (alter_order i g db) = db_next_order db"
  "db_events (alter_case i h db) = db_events db" "db_orders (alter_case i h db) = db_orders db"
  "db_next_case (alter_case i h db) = db_next_case db" "db_next_order (alter_case i h db) = db_next_order db"
  by (simp_all add: alter_event_def alter_order_def alter_case_def)

lemma find_case_cong: "db_cases db' = db_cases db \<Longrightarrow> find_case i db' = find_case i db"
  by (simp add: find_case_def)

lemma ids_alter_case:
  "(\<And>c. sc_id c = i \<Longrightarrow> sc_id (f c) = i) \<Longrightarrow>
   map sc_id (db_cases (alter_case i f db)) = map sc_id (db_cases db)"
  by (simp add: alter_case_def)

section \<open>Moving along the transitions\<close>

text \<open>
  \<open>moves db db'\<close>: from a database with distinct case ids, every case is still there afterwards,
  with a status its old one leads to, and the ids are distinct.
\<close>

definition moves :: "case_db \<Rightarrow> case_db \<Rightarrow> bool" where
  "moves db db' \<longleftrightarrow> (case_ids_ok db \<longrightarrow> case_ids_ok db' \<and>
     (\<forall>i c. find_case i db = Some c \<longrightarrow>
        (\<exists>c'. find_case i db' = Some c' \<and> legal\<^sup>*\<^sup>* (sc_status c) (sc_status c'))))"

named_theorems moving

lemma moves_refl [moving]: "moves db db"
  by (simp add: moves_def)

lemma moves_trans: "moves a b \<Longrightarrow> moves b c \<Longrightarrow> moves a c"
  unfolding moves_def by (meson rtranclp_trans)

lemma moves_same_cases [moving]:
  "db_cases db' = db_cases db \<Longrightarrow> db_next_case db' = db_next_case db \<Longrightarrow> moves db db'"
  by (simp add: moves_def case_ids_ok_def find_case_def)

lemma moves_alter:
  assumes "\<And>c. sc_id c = i \<Longrightarrow> sc_id (f c) = i"
    and "\<And>c. find_case i db = Some c \<Longrightarrow> case_ids_ok db \<Longrightarrow> legal\<^sup>*\<^sup>* (sc_status c) (sc_status (f c))"
  shows "moves db (alter_case i f db)"
  using ids_alter_case [of i f db] assms
  by (auto simp: moves_def case_ids_ok_def find_alter_case simp del: map_map)

lemma find_append:
  "List.find P (xs @ ys) = (case List.find P xs of Some x \<Rightarrow> Some x | None \<Rightarrow> List.find P ys)"
  by (induction xs) auto

lemma moves_add:
  assumes "db_cases db' = db_cases db @ [c]" and "sc_id c = db_next_case db"
    and "db_next_case db' = db_next_case db + 1"
  shows "moves db db'"
  using assms
  by (auto simp: moves_def case_ids_ok_def find_case_def find_append list_all_iff)

lemma moves_fold: "(\<And>x s. moves s (f x s)) \<Longrightarrow> moves s (fold f xs s)"
  by (induction xs arbitrary: s) (auto intro: moves_refl moves_trans)

lemma fold_events_cases:
  "db_cases (fold (\<lambda>e. alter_event e f) es db) = db_cases db"
  "db_next_case (fold (\<lambda>e. alter_event e f) es db) = db_next_case db"
  "db_orders (fold (\<lambda>e. alter_event e f) es db) = db_orders db"
  by (induction es arbitrary: db) simp_all

lemma moves_case_update [moving]: "moves db (snd (case_update_status now i s db))"
proof (cases "find_case i db")
  case (Some c)
  show ?thesis
  proof (cases "s \<in> set (allowed_next (sc_status c))")
    case True
    have "moves db (alter_case i (\<lambda>c. c\<lparr>sc_status := s, sc_updated := Some now,
        sc_closed := (if s = ''closed'' then Some now else sc_closed c)\<rparr>) db)"
      by (rule moves_alter) (use Some True in \<open>auto simp: legal_def\<close>)
    then show ?thesis
      using Some True by (auto simp: case_update_status_def Let_def fold_events_cases
          intro: moves_trans [OF _ moves_same_cases])
  qed (use Some in \<open>simp add: case_update_status_def moves_refl\<close>)
qed (simp add: case_update_status_def moves_refl)

lemma moves_assign [moving]: "moves db (snd (case_assign now i a db))"
proof (cases "find_case i db")
  case (Some c)
  have "legal ''open'' ''investigating''"
    by (simp add: legal_def allowed_next_def VALID_TRANSITIONS_def)
  then have "moves db (alter_case i (\<lambda>c. c\<lparr>sc_assignee := a, sc_updated := Some now,
      sc_status := (if sc_status c = ''open'' then ''investigating'' else sc_status c)\<rparr>) db)"
    by (intro moves_alter) auto
  with Some show ?thesis by (simp add: case_assign_def)
qed (simp add: case_assign_def moves_refl)

lemma moves_disposition [moving]: "moves db (snd (set_disposition now i d by db))"
  by (auto simp: set_disposition_def moves_refl split: option.splits intro!: moves_alter)

lemma moves_create_order [moving]: "moves db (snd (create_order cfg now c ty t d p a by db))"
  by (rule moves_same_cases) (simp_all add: create_order_def Let_def)

lemma moves_maybe_resolve [moving]: "moves db (maybe_resolve_case now w db)"
  unfolding maybe_resolve_case_def Let_def
  by (auto split: option.splits intro: moving moves_trans)

lemma moves_order_update [moving]: "moves db (snd (order_update_status now i s db))"
  unfolding order_update_status_def Let_def
  by (auto split: option.splits intro: moving
      moves_trans [OF moves_same_cases moves_maybe_resolve])

lemma moves_order_assign [moving]: "moves db (snd (order_assign now i a db))"
  unfolding order_assign_def by (auto split: option.splits intro: moving)

lemma moves_reject [moving]: "moves db (snd (order_reject now i r by db))"
  unfolding order_reject_def by (auto split: option.splits intro: moving)

lemma moves_sla [moving]: "moves db (snd (check_sla_breaches now db))"
  by (rule moves_same_cases) (simp_all add: check_sla_breaches_def Let_def)

lemma moves_advance [moving]: "moves db (advance now i a b db)"
  unfolding advance_def by (auto split: option.splits intro: moving)

lemma moves_dispatch [moving]: "moves db (snd (auto_dispatch cfg now i db))"
proof (cases "find_case i db")
  case (Some c)
  let ?db1 = "advance now i ''open'' ''investigating'' db"
  have "moves db (advance now i ''investigating'' ''responding'' ?db1)"
    by (rule moves_trans [OF moves_advance moves_advance])
  moreover have "moves db (advance now i ''investigating'' ''responding''
      (snd (create_order cfg now c' ty t d p a by ?db1)))" for c' ty t d p a "by"
    by (rule moves_trans [OF moves_trans [OF moves_advance moves_create_order] moves_advance])
  ultimately show ?thesis
    using Some by (auto simp: auto_dispatch_def Let_def case_prod_unfold moves_refl)
qed (simp add: auto_dispatch_def moves_refl)

section \<open>Events and cases\<close>

lemma set_newest_first [simp]: "set (newest_first t xs) = set xs"
  by (simp add: newest_first_def)

lemma found_in: "List.find P xs = Some x \<Longrightarrow> x \<in> set xs \<and> P x"
  by (auto simp: find_Some_iff)

lemma found_taken: "List.find P (take n (newest_first t xs)) = Some x \<Longrightarrow> x \<in> set xs \<and> P x"
  by (drule found_in) (auto dest: in_set_takeD)

lemma in_map_filter: "x \<in> set (List.map_filter f xs) \<Longrightarrow> \<exists>y \<in> set xs. f y = Some x"
  by (auto simp: List.map_filter_def)

lemma own_case_in: "own_case e db = Some c \<Longrightarrow>
  c \<in> set (db_cases db) \<and> sc_status c \<in> set REUSABLE_STATUSES"
  by (auto simp: own_case_def Option.bind_eq_Some_conv split: option.splits if_splits dest: find_case_in)

lemma by_session_in: "find_by_session s db = Some c \<Longrightarrow>
  c \<in> set (db_cases db) \<and> sc_status c \<in> set REUSABLE_STATUSES"
  by (auto simp: find_by_session_def Let_def Option.bind_eq_Some_conv split: if_splits option.splits
      dest!: found_in in_map_filter dest: find_case_in)

lemma active_reusable: "s \<in> set ACTIVE_CASE_STATUSES \<Longrightarrow> s \<in> set REUSABLE_STATUSES"
  by (auto simp: ACTIVE_CASE_STATUSES_def REUSABLE_STATUSES_def)

lemma by_ip_in: "find_by_ip ip w db = Some c \<Longrightarrow>
  c \<in> set (db_cases db) \<and> sc_status c \<in> set REUSABLE_STATUSES"
  unfolding find_by_ip_def by (drule found_taken) (auto intro: active_reusable)

lemma by_target_in: "find_by_type_target t d w db = Some c \<Longrightarrow>
  c \<in> set (db_cases db) \<and> sc_status c \<in> set REUSABLE_STATUSES"
  unfolding find_by_type_target_def by (drule found_taken) (auto simp: REUSABLE_STATUSES_def)

lemma case_for_in: "find_case_for now e db = Some c \<Longrightarrow>
  c \<in> set (db_cases db) \<and> sc_status c \<in> set REUSABLE_STATUSES"
  unfolding find_case_for_def
  by (auto split: option.splits if_splits dest: own_case_in by_session_in by_ip_in by_target_in)

lemma absorb_keeps [simp]: "sc_id (absorb e c) = sc_id c" "sc_status (absorb e c) = sc_status c"
  by (simp_all add: absorb_def Let_def)

lemma narrative_keeps [simp]:
  "sc_id (refresh_narrative e c) = sc_id c" "sc_status (refresh_narrative e c) = sc_status c"
  "sc_event_ids (refresh_narrative e c) = sc_event_ids c"
  "sc_priority (refresh_narrative e c) = sc_priority c"
  by (simp_all add: refresh_narrative_def Let_def)

lemma escalate_keeps:
  "escalate now e c = Some (u, c') \<Longrightarrow> sc_id c' = sc_id c \<and> sc_status c' = sc_status c \<and>
     sc_event_ids c' = sc_event_ids c"
  by (auto simp: escalate_def Let_def split: option.splits if_splits)

lemma moves_attach [moving]: "moves db (attach_event e i db)"
  by (rule moves_same_cases) (simp_all add: attach_event_def)

lemma moves_add_event:
  assumes "add_event_to_case cfg now c e db = Some db'" and "c \<in> set (db_cases db)"
  shows "moves db db'"
proof -
  obtain u c1 where esc: "escalate now e (absorb e c) = Some (u, c1)"
    using assms(1) by (auto simp: add_event_to_case_def split: option.splits)
  let ?c2 = "(refresh_narrative e c1)\<lparr>sc_updated := Some now\<rparr>"
  let ?db1 = "attach_event (ev_id e) (sc_id c) (alter_case (sc_id c) (\<lambda>_. ?c2) db)"
  have c2: "sc_id ?c2 = sc_id c" "sc_status ?c2 = sc_status c"
    using escalate_keeps [OF esc] by simp_all
  have "moves db (alter_case (sc_id c) (\<lambda>_. ?c2) db)"
    by (rule moves_alter) (use c2 in_find_case [OF _ assms(2)] in auto)
  then have "moves db ?db1" by (rule moves_trans [OF _ moves_attach])
  then show ?thesis
    using assms(1) esc by (auto simp: add_event_to_case_def Let_def intro: moves_trans [OF _ moves_dispatch])
qed

lemma moves_new_case: "moves db (snd (create_case_from_event cfg now e db))"
proof -
  let ?db0 = "\<lambda>c. db\<lparr>db_cases := db_cases db @ [c], db_next_case := db_next_case db + 1\<rparr>"
  have new: "sc_id c = db_next_case db \<Longrightarrow> moves db (?db0 c)" for c
    by (rule moves_add [where c = c]) simp_all
  have "moves db (snd (auto_dispatch cfg now i (attach_event j i (?db0 c))))"
    if "sc_id c = db_next_case db" for c i j
    by (rule moves_trans [OF moves_trans [OF new
          moves_attach] moves_dispatch]) (rule that)
  then show ?thesis by (simp add: create_case_from_event_def Let_def)
qed

lemma moves_auto_create:
  "auto_create_case cfg now i db = Some (r, db') \<Longrightarrow> moves db db'"
proof -
  assume r: "auto_create_case cfg now i db = Some (r, db')"
  have joined: "moves db db'" if "join_or_create cfg now e (find_case_for now e db) db = Some (r, db')" for e
  proof (cases "find_case_for now e db")
    case None
    with that have "db' = snd (create_case_from_event cfg now e db)"
      by (auto simp: join_or_create_def split: prod.splits)
    then show ?thesis by (simp add: moves_new_case)
  next
    case (Some c)
    with that have "add_event_to_case cfg now c e db = Some db'" by (auto simp: join_or_create_def)
    moreover have "c \<in> set (db_cases db)" using case_for_in [OF Some] by simp
    ultimately show ?thesis by (rule moves_add_event)
  qed
  show ?thesis
    using r joined by (auto simp: auto_create_case_def moves_refl split: option.splits if_splits)
qed

lemma moves_link: "moves db (link_event i e db)"
proof (cases "find_event e db")
  case (Some r)
  let ?f = "\<lambda>c. c\<lparr>sc_src_ips := add_ip (ev_src r) (sc_src_ips c),
      sc_dst_ips := add_ip (ev_dst r) (sc_dst_ips c)\<rparr>"
  have "moves (attach_event e i db) (alter_case i ?f (attach_event e i db))"
    by (rule moves_alter) simp_all
  from moves_trans [OF moves_attach this] show ?thesis by (simp add: link_event_def Some)
qed (simp add: link_event_def moves_refl)

lemma moves_create_case [moving]: "moves db (snd (create_case cfg now t es p th a tags db))"
proof -
  let ?db0 = "\<lambda>c. db\<lparr>db_cases := db_cases db @ [c], db_next_case := db_next_case db + 1\<rparr>"
  have new: "sc_id c = db_next_case db \<Longrightarrow> moves db (?db0 c)" for c
    by (rule moves_add [where c = c]) simp_all
  have "moves db (fold (link_event i) es (?db0 c))" if "sc_id c = db_next_case db" for c i
    by (rule moves_trans [OF new moves_fold [OF moves_link]])
      (rule that)
  then show ?thesis by (simp add: create_case_def Let_def)
qed

lemma moves_finish [moving]: "moves db (snd (finish_case now i db))"
proof (cases "find_case i db")
  case (Some c)
  let ?db1 = "if sc_status c = ''open'' then snd (case_update_status now i ''investigating'' db) else db"
  have "moves db ?db1" by (simp add: moves_refl moves_case_update)
  moreover have "moves db (snd (case_update_status now i ''resolved'' ?db1))"
    by (rule moves_trans [OF \<open>moves db ?db1\<close> moves_case_update])
  ultimately show ?thesis
    using Some by (auto simp: finish_case_def moves_refl Let_def case_prod_unfold split: option.split)
qed (simp add: finish_case_def moves_refl)

lemma moves_complete: "moves db (fold (\<lambda>w db. snd (order_update_status now (wo_id w) s db)) ws db)"
  by (rule moves_fold) (rule moves_order_update)

lemma moves_try_resolve [moving]: "moves db (snd (try_auto_resolve cfg now m r p c db))"
proof -
  have "moves db (snd (finish_case now (sc_id c)
      (fold (\<lambda>w db. snd (order_update_status now (wo_id w) ''completed'' db))
        (open_dispositions (sc_id c) db) db)))"
    by (rule moves_trans [OF moves_complete moves_finish])
  then show ?thesis by (simp add: try_auto_resolve_def Let_def moves_refl)
qed

lemma moves_auto_resolve [moving]: "moves db (snd (auto_resolve_idle_cases cfg now r p db))"
proof -
  let ?f = "\<lambda>c (n, db). case try_auto_resolve cfg now None (r (sc_id c)) (p (sc_id c)) c db of
      (ok, db') \<Rightarrow> (if ok then n + 1 else n, db')"
  have step: "moves (snd s) (snd (?f c s))" for c s
    by (cases s) (simp add: case_prod_unfold moves_try_resolve)
  have "moves (snd s) (snd (fold ?f cs s))" for cs s
  proof (induction cs arbitrary: s)
    case (Cons c cs)
    have "moves (snd (?f c s)) (snd (fold ?f cs (?f c s)))" by (rule Cons)
    from moves_trans [OF step this] show ?case by simp
  qed (simp add: moves_refl)
  from this [of "(0, db)"] show ?thesis by (simp add: auto_resolve_idle_cases_def)
qed

lemma moves_step: "\<not> is_approval op \<Longrightarrow> moves db (case_step cfg op db)"
  by (cases op) (auto split: option.splits intro: moving moves_auto_create)

lemma moves_run: "list_all (\<lambda>op. \<not> is_approval op) ops \<Longrightarrow> moves db (case_run cfg ops db)"
  unfolding case_run_def
  by (induction ops arbitrary: db) (auto intro: moves_refl moves_trans moves_step)

section \<open>Cases move along the transitions\<close>

lemma approve_ids: "case_ids_ok db \<Longrightarrow> case_ids_ok (snd (order_approve now i who db))"
proof -
  have "map sc_id (db_cases (execute_approved_actions now c d)) = map sc_id (db_cases d) \<and>
      db_next_case (execute_approved_actions now c d) = db_next_case d" for c d
    unfolding execute_approved_actions_def
    by (auto simp del: map_map split: option.split intro!: ids_alter_case)
  then show "case_ids_ok db \<Longrightarrow> ?thesis"
    by (auto simp: order_approve_def case_ids_ok_def Let_def simp del: list.pred_map split: option.split)
qed

lemma step_ids: "case_ids_ok db \<Longrightarrow> case_ids_ok (case_step cfg op db)"
proof (cases "is_approval op")
  case True
  then show "case_ids_ok db \<Longrightarrow> ?thesis" by (cases op) (simp_all add: approve_ids)
next
  case False
  from moves_step [OF this, of db cfg] show "case_ids_ok db \<Longrightarrow> ?thesis" by (simp add: moves_def)
qed

lemma run_ids: "case_ids_ok db \<Longrightarrow> case_ids_ok (case_run cfg ops db)"
  unfolding case_run_def by (induction ops arbitrary: db) (simp_all add: step_ids)

lemma empty_ids: "case_ids_ok empty_db"
  by (simp add: case_ids_ok_def empty_db_def)

lemma run_append: "case_run cfg (xs @ ys) db = case_run cfg ys (case_run cfg xs db)"
  by (simp add: case_run_def)

lemma closed_is_final: "legal\<^sup>*\<^sup>* ''closed'' s \<Longrightarrow> s = ''closed''"
  by (induction rule: rtranclp_induct) (auto simp: legal_def allowed_next_def VALID_TRANSITIONS_def)

text \<open>
  C20. From any reachable database, whatever follows except the approval of a work order: every
  case stays, and its status moves only along the legal transitions; a closed case stays closed.
\<close>

theorem cases_move_legally:
  assumes "find_case i (case_run cfg past empty_db) = Some c"
    and "list_all (\<lambda>op. \<not> is_approval op) later"
  shows "\<exists>c'. find_case i (case_run cfg (past @ later) empty_db) = Some c' \<and>
    legal\<^sup>*\<^sup>* (sc_status c) (sc_status c') \<and> (sc_status c = ''closed'' \<longrightarrow> sc_status c' = ''closed'')"
proof -
  have "case_ids_ok (case_run cfg past empty_db)" by (rule run_ids [OF empty_ids])
  with moves_run [OF assms(2), of "case_run cfg past empty_db" cfg] assms(1)
  obtain c' where "find_case i (case_run cfg (past @ later) empty_db) = Some c'"
    and "legal\<^sup>*\<^sup>* (sc_status c) (sc_status c')"
    by (auto simp: moves_def run_append)
  then show ?thesis using closed_is_final by auto
qed

text \<open>The approval of a pending work order of the case.\<close>

fun approves_order_of :: "nat \<Rightarrow> case_db \<Rightarrow> case_op \<Rightarrow> bool" where
  "approves_order_of k db (Approve now i by) =
     (case find_order i db of None \<Rightarrow> False | Some w \<Rightarrow> wo_approval w = ''pending'' \<and> wo_case w = Some k)"
| "approves_order_of k db _ = False"

lemma approves_is_approval: "approves_order_of k db op \<Longrightarrow> is_approval op"
  by (cases op) simp_all

lemma approval_forces:
  assumes "find_case k db = Some c"
  shows "find_case k (snd (order_approve now i who db)) =
    Some (if approves_order_of k db (Approve now i who) \<and> sc_event_ids c \<noteq> []
          then c\<lparr>sc_status := ''responding'', sc_updated := Some now\<rparr> else c)"
proof -
  have "find_case j (alter_order i f db) = find_case j db" for j f
    by (rule find_case_cong) simp
  with assms show ?thesis
    by (auto simp: order_approve_def Let_def execute_approved_actions_def find_alter_case
        split: option.split dest: find_case_in)
qed

text \<open>
  C21. What a step does to the status of a case, in any reachable database. The approval of a pending
  work order does not ask the transitions: if the order's case has an event, it becomes
  \<open>responding\<close>, whatever its status was; a case without events, and every other case, stays as it
  is. Any other step moves the case along the legal transitions. So a closed case, which no transition
  leaves, is reopened by such an approval, and by nothing else.
\<close>

theorem approval_reopens_closed_case:
  assumes "find_case k (case_run cfg past empty_db) = Some c"
  shows "\<exists>c'. find_case k (case_run cfg (past @ [op]) empty_db) = Some c' \<and>
    (if approves_order_of k (case_run cfg past empty_db) op \<and> sc_event_ids c \<noteq> []
     then sc_status c' = ''responding''
     else legal\<^sup>*\<^sup>* (sc_status c) (sc_status c') \<and> (is_approval op \<longrightarrow> c' = c)) \<and>
    (sc_status c = ''closed'' \<longrightarrow>
       (sc_status c' \<noteq> ''closed'') = (approves_order_of k (case_run cfg past empty_db) op \<and> sc_event_ids c \<noteq> []))"
proof (cases "is_approval op")
  case True
  then obtain now i who where "op = Approve now i who" by (cases op) auto
  with approval_forces [OF assms, of now i who] show ?thesis by (auto simp: run_append case_run_def)
next
  case False
  then have no: "\<not> approves_order_of k (case_run cfg past empty_db) op" using approves_is_approval by blast
  have "case_ids_ok (case_run cfg past empty_db)" by (rule run_ids [OF empty_ids])
  with moves_step [OF False, of "case_run cfg past empty_db" cfg] assms obtain c' where
    "find_case k (case_run cfg (past @ [op]) empty_db) = Some c'" "legal\<^sup>*\<^sup>* (sc_status c) (sc_status c')"
    by (auto simp: moves_def run_append case_run_def)
  with no False closed_is_final [of "sc_status c'"] show ?thesis by auto
qed

section \<open>Automatically resolved cases\<close>

lemma update_result:
  assumes "find_case i db = Some c" and "s \<in> set (allowed_next (sc_status c))"
  shows "fst (case_update_status now i s db) \<noteq> None \<and>
    (\<exists>c'. find_case i (snd (case_update_status now i s db)) = Some c' \<and> sc_status c' = s)"
proof -
  have "find_case i (fold (\<lambda>e. alter_event e f) es d) = find_case i d" for f es d
    by (rule find_case_cong) (rule fold_events_cases)
  with assms show ?thesis by (simp add: case_update_status_def Let_def find_alter_case)
qed

lemma update_refused:
  assumes "find_case i db = Some c" and "s \<notin> set (allowed_next (sc_status c))"
  shows "case_update_status now i s db = (None, db)"
  using assms by (simp add: case_update_status_def)

lemma update_orders [simp]: "db_orders (snd (case_update_status now i s db)) = db_orders db"
  by (auto simp: case_update_status_def Let_def fold_events_cases split: option.split)

lemma next_of [simp]:
  "allowed_next ''open'' = [''investigating'', ''closed'', ''false_positive'']"
  "allowed_next ''investigating'' =
     [''pending_approval'', ''responding'', ''resolved'', ''closed'', ''false_positive'']"
  "allowed_next ''responding'' = [''resolved'', ''investigating'', ''closed'', ''pending_approval'']"
  "allowed_next ''resolved'' = [''closed'', ''investigating'']"
  by (simp_all add: allowed_next_def VALID_TRANSITIONS_def)

text \<open>A status from which automatic resolution works, or its result.\<close>

definition resolvable :: "nat \<Rightarrow> case_db \<Rightarrow> bool" where
  "resolvable i db \<longleftrightarrow> (\<exists>c. find_case i db = Some c \<and>
     sc_status c \<in> {''open'', ''investigating'', ''responding'', ''resolved''})"

lemma resolvable_update:
  assumes "resolvable i db" and "s \<in> {''investigating'', ''resolved''}"
  shows "resolvable i (snd (case_update_status now i s db))"
proof -
  obtain c where c: "find_case i db = Some c"
    "sc_status c \<in> {''open'', ''investigating'', ''responding'', ''resolved''}"
    using assms(1) by (auto simp: resolvable_def)
  show ?thesis
  proof (cases "s \<in> set (allowed_next (sc_status c))")
    case True
    with update_result [OF c(1), of s now] assms(2) show ?thesis by (auto simp: resolvable_def)
  next
    case False
    with update_refused [OF c(1), of s now] assms(1) show ?thesis by simp
  qed
qed

lemma resolvable_order: "resolvable i (alter_order j f db) = resolvable i db"
  by (simp add: resolvable_def find_case_def)

lemma other_case_kept:
  "i \<noteq> j \<Longrightarrow> find_case i (snd (case_update_status now j s db)) = find_case i db"
proof -
  have "find_case i (fold (\<lambda>e. alter_event e f) es d) = find_case i d" for f es d
    by (rule find_case_cong) (rule fold_events_cases)
  then show "i \<noteq> j \<Longrightarrow> ?thesis"
    by (auto simp: case_update_status_def Let_def find_alter_case split: option.split)
qed

lemma resolvable_complete:
  assumes "resolvable i db"
  shows "resolvable i (snd (order_update_status now j ''completed'' db))"
proof -
  have keep: "resolvable i (snd (case_update_status now k s d))"
    if "resolvable i d" and "s \<in> {''investigating'', ''resolved''}" for k s d
    using resolvable_update [OF that(1), of s now] that other_case_kept [of i k now s d]
    by (cases "i = k") (auto simp: resolvable_def)
  have "resolvable i (maybe_resolve_case now w d)" if "resolvable i d" for w d
    using that keep by (auto simp: maybe_resolve_case_def Let_def split: option.split)
  with assms show ?thesis
    by (auto simp: order_update_status_def Let_def resolvable_order split: option.split)
qed

lemma resolvable_fold:
  "resolvable i db \<Longrightarrow>
   resolvable i (fold (\<lambda>w db. snd (order_update_status now (wo_id w) ''completed'' db)) ws db)"
  by (induction ws arbitrary: db) (simp_all add: resolvable_complete)

lemma finish_resolves:
  assumes "resolvable i db"
  shows "fst (finish_case now i db) \<and>
    (\<exists>c. find_case i (snd (finish_case now i db)) = Some c \<and> sc_status c = ''resolved'')"
proof -
  obtain c where c: "find_case i db = Some c"
    "sc_status c \<in> {''open'', ''investigating'', ''responding'', ''resolved''}"
    using assms by (auto simp: resolvable_def)
  consider "sc_status c = ''resolved''" | "sc_status c = ''open''"
    | "sc_status c \<in> {''investigating'', ''responding''}" using c(2) by auto
  then show ?thesis
  proof cases
    case 1
    then show ?thesis using c by (simp add: finish_case_def)
  next
    case 2
    let ?db1 = "snd (case_update_status now i ''investigating'' db)"
    obtain c1 where c1: "find_case i ?db1 = Some c1" "sc_status c1 = ''investigating''"
      using update_result [OF c(1), of "''investigating''" now] 2 by auto
    have "fst (case_update_status now i ''resolved'' ?db1) \<noteq> None \<and>
        (\<exists>c. find_case i (snd (case_update_status now i ''resolved'' ?db1)) = Some c \<and>
          sc_status c = ''resolved'')"
      by (rule update_result [OF c1(1)]) (simp add: c1)
    then show ?thesis using c c1 2 by (simp add: finish_case_def Let_def case_prod_unfold)
  next
    case 3
    then have "fst (case_update_status now i ''resolved'' db) \<noteq> None \<and>
        (\<exists>c. find_case i (snd (case_update_status now i ''resolved'' db)) = Some c \<and>
          sc_status c = ''resolved'')"
      by (intro update_result [OF c(1)]) auto
    then show ?thesis using c 3 by (auto simp: finish_case_def Let_def case_prod_unfold)
  qed
qed

text \<open>Completed orders are not open, and nothing else touches the other orders.\<close>

definition ids_open :: "nat \<Rightarrow> case_db \<Rightarrow> nat set" where
  "ids_open i db = wo_id ` set (open_dispositions i db)"

lemma maybe_resolve_orders [simp]: "db_orders (maybe_resolve_case now w db) = db_orders db"
  by (auto simp: maybe_resolve_case_def Let_def split: option.split)

lemma finish_orders [simp]: "db_orders (snd (finish_case now i db)) = db_orders db"
  by (auto simp: finish_case_def Let_def case_prod_unfold split: option.split)

lemma altered_row_dropped:
  "(\<And>w. g w = j \<Longrightarrow> g (f w) = j \<and> \<not> P (f w)) \<Longrightarrow>
   g ` set (filter P (map (\<lambda>w. if g w = j then f w else w) ws)) = g ` set (filter P ws) - {j}"
  by (induction ws) auto

lemma ids_alter_order:
  "(\<And>w. wo_id (f w) = wo_id w) \<Longrightarrow>
   map wo_id (db_orders (alter_order i f db)) = map wo_id (db_orders db)"
  by (simp add: alter_order_def)

lemma complete_order:
  assumes "j \<in> wo_id ` set (db_orders db)"
  shows "ids_open i (snd (order_update_status now j ''completed'' db)) = ids_open i db - {j}"
proof -
  have "find_order j db \<noteq> None"
    using assms by (auto simp: find_order_def find_None_iff)
  then obtain w where w: "find_order j db = Some w" by blast
  have "''completed'' \<in> set ORDER_STATUSES" by (simp add: ORDER_STATUSES_def)
  then have "ids_open i (snd (order_update_status now j ''completed'' db)) =
      ids_open i (alter_order j (\<lambda>w. w\<lparr>wo_status := ''completed'', wo_updated := now,
        wo_completed := Some now\<rparr>) db)"
    by (simp add: order_update_status_def w Let_def ids_open_def open_dispositions_def)
  also have "\<dots> = ids_open i db - {j}"
    using altered_row_dropped [of wo_id j "\<lambda>w. w\<lparr>wo_status := ''completed'', wo_updated := now,
        wo_completed := Some now\<rparr>" "\<lambda>w. wo_case w = Some i \<and> wo_type w = ''disposition'' \<and>
        wo_status w \<in> set OPEN_ORDER_STATUSES" "db_orders db"]
    by (simp add: ids_open_def open_dispositions_def alter_order_def OPEN_ORDER_STATUSES_def)
  finally show ?thesis .
qed

lemma complete_ids: "wo_id ` set (db_orders (snd (order_update_status now j s db))) = wo_id ` set (db_orders db)"
proof -
  have "map wo_id (db_orders (snd (order_update_status now j s db))) = map wo_id (db_orders db)"
    by (auto simp: order_update_status_def Let_def ids_alter_order simp del: map_map split: option.split)
  then show ?thesis by (metis set_map)
qed

lemma ids_open_cong: "db_orders d' = db_orders d \<Longrightarrow> ids_open i d' = ids_open i d"
  by (simp add: ids_open_def open_dispositions_def)

lemma complete_all:
  "wo_id ` set ws \<subseteq> wo_id ` set (db_orders db) \<Longrightarrow>
   ids_open i (fold (\<lambda>w db. snd (order_update_status now (wo_id w) ''completed'' db)) ws db) =
     ids_open i db - wo_id ` set ws"
proof (induction ws arbitrary: db)
  case (Cons w ws)
  then show ?case by (auto simp: complete_ids complete_order)
qed simp

text \<open>
  C23. When the automatic resolution answers that a case is resolved, it is: its status is
  \<open>resolved\<close> and none of its disposition orders is open.
\<close>

theorem auto_resolved_is_resolved:
  assumes "try_auto_resolve cfg now idle resp pend c db = (True, db')"
    and "find_case (sc_id c) db = Some c"
  shows "(\<exists>c'. find_case (sc_id c) db' = Some c' \<and> sc_status c' = ''resolved'') \<and>
    open_dispositions (sc_id c) db' = []"
proof -
  let ?ws = "open_dispositions (sc_id c) db"
  let ?db1 = "fold (\<lambda>w db. snd (order_update_status now (wo_id w) ''completed'' db)) ?ws db"
  have run: "finish_case now (sc_id c) ?db1 = (True, db')" and
    act: "sc_status c \<in> set ACTIVE_CASE_STATUSES"
    using assms(1) by (auto simp: try_auto_resolve_def Let_def split: if_splits)
  have "resolvable (sc_id c) db"
    using assms(2) act by (auto simp: resolvable_def ACTIVE_CASE_STATUSES_def)
  from finish_resolves [OF resolvable_fold [OF this], of now now ?ws] run
  have "\<exists>c'. find_case (sc_id c) db' = Some c' \<and> sc_status c' = ''resolved''" by simp
  moreover have "wo_id ` set ?ws \<subseteq> wo_id ` set (db_orders db)"
    by (rule image_mono) (simp add: open_dispositions_def)
  then have "ids_open (sc_id c) ?db1 = {}"
    using complete_all [of ?ws db "sc_id c" now] by (simp add: ids_open_def)
  moreover have "ids_open (sc_id c) db' = ids_open (sc_id c) ?db1"
    using finish_orders [of now "sc_id c" ?db1] unfolding run by (intro ids_open_cong) simp
  ultimately have "(\<exists>c'. find_case (sc_id c) db' = Some c' \<and> sc_status c' = ''resolved'') \<and>
      ids_open (sc_id c) db' = {}"
    by (simp only:)
  then show ?thesis unfolding ids_open_def image_is_empty set_empty .
qed

text \<open>
  A case past its deadline is resolved although nothing responded to it and an approval is
  pending: the deadline overrides both conditions the documentation names.
\<close>

theorem overdue_case_resolved_unhandled:
  assumes "sc_status c \<in> set ACTIVE_CASE_STATUSES" and "sc_deadline c = Some d" and "d < now"
    and "0 \<le> auto_resolve_idle cfg" and "find_case (sc_id c) db = Some c"
  shows "fst (try_auto_resolve cfg now None False True c db) \<and>
    (\<exists>c'. find_case (sc_id c) (snd (try_auto_resolve cfg now None False True c db)) = Some c' \<and>
      sc_status c' = ''resolved'')"
proof -
  have "resolvable (sc_id c) db"
    using assms(1,5) by (auto simp: resolvable_def ACTIVE_CASE_STATUSES_def)
  note resolves = finish_resolves [OF resolvable_fold [OF this, of now "open_dispositions (sc_id c) db"], of now]
  have "try_auto_resolve cfg now None False True c db = finish_case now (sc_id c)
      (fold (\<lambda>w db. snd (order_update_status now (wo_id w) ''completed'' db))
        (open_dispositions (sc_id c) db) db)"
    using assms(1-4) by (simp add: try_auto_resolve_def Let_def)
  with resolves show ?thesis by simp
qed

section \<open>Dispatch and aggregation\<close>

text \<open>What no status change and no order touches: the ids and the events of the cases.\<close>

definition links :: "case_db \<Rightarrow> (nat \<times> nat list) list" where
  "links db = map (\<lambda>c. (sc_id c, sc_event_ids c)) (db_cases db)"

lemma links_find: "List.find (\<lambda>x. fst x = i) (links db) = map_option (\<lambda>c. (sc_id c, sc_event_ids c)) (find_case i db)"
proof -
  have "List.find (\<lambda>x. fst x = i) (map (\<lambda>c. (sc_id c, sc_event_ids c)) cs) =
      map_option (\<lambda>c. (sc_id c, sc_event_ids c)) (List.find (\<lambda>c. sc_id c = i) cs)" for cs
    by (induction cs) auto
  then show ?thesis by (simp add: links_def find_case_def)
qed

lemma links_kept:
  assumes "links db' = links db" and "find_case i db = Some c"
  shows "\<exists>c'. find_case i db' = Some c' \<and> sc_event_ids c' = sc_event_ids c"
  using links_find [of i db] links_find [of i db'] assms by (cases "find_case i db'") auto

lemma links_length: "links db' = links db \<Longrightarrow> length (db_cases db') = length (db_cases db)"
  unfolding links_def by (rule map_eq_imp_length_eq)

lemma links_same_cases: "db_cases db' = db_cases db \<Longrightarrow> links db' = links db"
  by (simp add: links_def)

lemma links_alter:
  "(\<And>c. sc_id (f c) = sc_id c \<and> sc_event_ids (f c) = sc_event_ids c) \<Longrightarrow>
   links (alter_case i f db) = links db"
  by (simp add: links_def alter_case_def)

lemma links_update [simp]: "links (snd (case_update_status now i s db)) = links db"
proof -
  have "links (fold (\<lambda>e. alter_event e f) es d) = links d" for f es d
    by (rule links_same_cases) (rule fold_events_cases)
  then show ?thesis by (simp add: case_update_status_def Let_def links_alter split: option.split)
qed

lemma links_advance [simp]: "links (advance now i a b db) = links db"
  by (simp add: advance_def split: option.split)

lemma links_create_order [simp]: "links (snd (create_order cfg now c ty t d p a by db)) = links db"
  by (rule links_same_cases) (simp add: create_order_def Let_def)

lemma links_dispatch [simp]: "links (snd (auto_dispatch cfg now i db)) = links db"
  by (simp add: auto_dispatch_def Let_def case_prod_unfold split: option.split)

lemma advance_status:
  assumes "find_case i db = Some c" and "b \<in> set (allowed_next a)"
  shows "\<exists>c'. find_case i (advance now i a b db) = Some c' \<and>
    sc_status c' = (if sc_status c = a then b else sc_status c)"
  using assms update_result [OF assms(1), of b now] by (auto simp: advance_def)

lemma advance_orders [simp]: "db_orders (advance now i a b db) = db_orders db"
  by (simp add: advance_def split: option.split)

lemma advance_priority:
  assumes "find_case i db = Some c"
  shows "\<exists>c'. find_case i (advance now i a b db) = Some c' \<and> sc_priority c' = sc_priority c"
proof -
  have "find_case i (fold (\<lambda>e. alter_event e f) es d) = find_case i d" for f es d
    by (rule find_case_cong) (rule fold_events_cases)
  with assms show ?thesis
    by (simp add: advance_def case_update_status_def Let_def find_alter_case)
qed

lemma new_order_open:
  "has_open_disposition i (snd (create_order cfg now (Some i) ''disposition'' t d p a by db))"
  by (simp add: has_open_disposition_def create_order_def Let_def OPEN_ORDER_STATUSES_def)

lemma find_case_create_order [simp]:
  "find_case i (snd (create_order cfg now c ty t d p a by db)) = find_case i db"
  by (rule find_case_cong) (simp add: create_order_def Let_def)

lemma dispatch_priority:
  assumes "find_case i db = Some c"
  shows "\<exists>c'. find_case i (snd (auto_dispatch cfg now i db)) = Some c' \<and> sc_priority c' = sc_priority c"
proof -
  let ?db1 = "advance now i ''open'' ''investigating'' db"
  obtain c1 where c1: "find_case i ?db1 = Some c1" "sc_priority c1 = sc_priority c"
    using advance_priority [OF assms] by blast
  then have "find_case i (snd (create_order cfg now c' ty t d p a by ?db1)) = Some c1" for c' ty t d p a "by"
    by simp
  from advance_priority [OF this] advance_priority [OF c1(1)] show ?thesis
    using assms c1(2) by (simp add: auto_dispatch_def Let_def case_prod_unfold)
qed

lemma dispatch_again:
  assumes "has_open_disposition i db"
  shows "db_orders (snd (auto_dispatch cfg now i db)) = db_orders db"
  using assms by (simp add: auto_dispatch_def Let_def split: option.split)

text \<open>
  C1. Dispatching a new or investigated case of a listed priority moves it to \<open>responding\<close> and
  leaves it with an open disposition order: a new one exactly when it had none; dispatching it
  again, however often its events arrive, makes no second order.
\<close>

theorem dispatched_once:
  assumes "find_case i db = Some c" and "lower (sc_priority c) \<in> set (auto_priorities cfg)"
    and "sc_status c \<in> {''open'', ''investigating''}"
  shows "let d = snd (auto_dispatch cfg now i db) in
    (\<exists>c'. find_case i d = Some c' \<and> sc_status c' = ''responding'') \<and> has_open_disposition i d \<and>
    length (db_orders d) = length (db_orders db) + (if has_open_disposition i db then 0 else 1) \<and>
    db_orders (snd (auto_dispatch cfg later i d)) = db_orders d"
proof -
  define d where "d = snd (auto_dispatch cfg now i db)"
  let ?db1 = "advance now i ''open'' ''investigating'' db"
  let ?new = "create_order cfg now (Some i) ''disposition'' (''[auto] '' @ sc_title c) []
      (sc_priority c) (strip (default_assignee cfg)) ''system'' ?db1"
  obtain c1 where c1: "find_case i ?db1 = Some c1" "sc_status c1 = ''investigating''"
    using advance_status [OF assms(1), of "''investigating''" "''open''" now] assms(3) by auto
  have "find_case i (snd ?new) = Some c1" using c1 by simp
  from advance_status [OF this, of "''responding''" "''investigating''" now]
    advance_status [OF c1(1), of "''responding''" "''investigating''" now]
  have st: "\<exists>c'. find_case i d = Some c' \<and> sc_status c' = ''responding''"
    using assms(1,2) c1(2) by (simp add: d_def auto_dispatch_def Let_def case_prod_unfold)
  have orders: "db_orders d = (if has_open_disposition i db then db_orders db else db_orders (snd ?new))"
    using assms(1,2) by (simp add: d_def auto_dispatch_def Let_def case_prod_unfold)
  then have open_d: "has_open_disposition i d"
    using new_order_open [of i cfg now] by (auto simp: has_open_disposition_def split: if_splits)
  moreover have "length (db_orders (snd ?new)) = length (db_orders db) + 1"
    by (simp add: create_order_def Let_def)
  ultimately show ?thesis
    unfolding Let_def d_def [symmetric] using st orders dispatch_again [OF open_d] by auto
qed

lemma same_found:
  assumes "\<And>x. x \<in> set xs \<Longrightarrow> f x = Some y" and "xs \<noteq> []" and "P y"
  shows "List.find P (List.map_filter f xs) = Some y"
  using assms by (cases xs) (auto simp: List.map_filter_def)

text \<open>
  An event of a session whose events so far are in one case, still active, joins this case:
  no second case is opened for the session.
\<close>

theorem session_shares_case:
  assumes "find_event i db = Some e" and "ev_session e = s" and "s \<noteq> []" and "ev_case e = None"
    and "ev_src e \<noteq> [] \<or> ev_type e \<noteq> []"
    and "list_all (\<lambda>r. ev_session r \<noteq> s \<or> ev_case r = None \<or> ev_case r = Some k) (db_events db)"
    and "list_ex (\<lambda>r. ev_session r = s \<and> ev_case r = Some k) (db_events db)"
    and "find_case k db = Some c" and "sc_status c \<in> set REUSABLE_STATUSES"
    and "auto_create_case cfg now i db = Some (r, db')"
  shows "r = Some k \<and> length (db_cases db') = length (db_cases db) \<and>
    (\<exists>c'. find_case k db' = Some c' \<and> i \<in> set (sc_event_ids c'))"
proof -
  let ?rows = "filter (\<lambda>e. ev_session e = s \<and> ev_case e \<noteq> None) (db_events db)"
  have "?rows \<noteq> []" using assms(7) by (auto simp: list_ex_iff filter_empty_conv)
  then have ne: "take 5 (newest_first ev_created ?rows) \<noteq> []"
    by (metis set_newest_first set_empty take_eq_Nil zero_neq_numeral)
  have all: "Option.bind (ev_case r) (\<lambda>i. find_case i db) = Some c"
    if "r \<in> set (take 5 (newest_first ev_created ?rows))" for r
  proof -
    have "r \<in> set ?rows" using in_set_takeD [OF that] by simp
    then have "ev_case r = Some k" using assms(6) by (auto simp: list_all_iff)
    then show ?thesis using assms(8) by simp
  qed
  have "find_case_for now e db = Some c"
    using same_found [OF all ne, where P = "\<lambda>c. sc_status c \<in> set REUSABLE_STATUSES"] assms(2-4,9)
    by (simp add: find_case_for_def own_case_def find_by_session_def Let_def)
  with assms(1,5,10) have add: "add_event_to_case cfg now c e db = Some db'" and r: "r = Some (sc_id c)"
    by (auto simp: auto_create_case_def join_or_create_def split: if_splits)
  have k: "sc_id c = k" using find_case_in [OF assms(8)] by simp
  have i: "ev_id e = i" using assms(1) by (auto simp: find_event_def find_Some_iff)
  obtain u c1 where esc: "escalate now e (absorb e c) = Some (u, c1)"
    using add by (auto simp: add_event_to_case_def split: option.splits)
  let ?c2 = "(refresh_narrative e c1)\<lparr>sc_updated := Some now\<rparr>"
  let ?db1 = "attach_event i k (alter_case k (\<lambda>_. ?c2) db)"
  have c2: "sc_id ?c2 = k" "i \<in> set (sc_event_ids ?c2)"
    using escalate_keeps [OF esc] k i by (auto simp: absorb_def Let_def)
  have found: "find_case k ?db1 = Some ?c2"
    using find_alter_case [of k "\<lambda>_. ?c2" k db] c2(1) assms(8)
    by (simp add: attach_event_def find_case_def)
  have same: "links db' = links ?db1"
    using add esc k i by (auto simp: add_event_to_case_def Let_def)
  have "length (db_cases db') = length (db_cases db)"
    using links_length [OF same] by (simp add: attach_event_def alter_case_def)
  with links_kept [OF same found] c2(2) r k show ?thesis by auto
qed

text \<open>
  A severity that rises to \<open>high\<close> sets the priority to \<open>high\<close>, also that of a case the asset
  inventory had made \<open>critical\<close>.
\<close>

lemma upgrade_lowers_priority:
  assumes "sc_severity c = ''medium''" and "sc_priority c = ''critical''" and "ev_severity e = ''high''"
  shows "\<exists>c'. escalate now e c = Some (True, c') \<and> sc_priority c' = ''high''"
  using assms by (simp add: escalate_def or_text_def SEV_ORDER_def sev_priority_def Let_def)

text \<open>A rejected order can be put to work by a plain change of its status.\<close>

lemma rejected_order_proceeds:
  assumes "find_order i db = Some w" and "wo_approval w = ''pending''"
  shows "\<exists>w'. find_order i (snd (order_update_status later i ''in_progress''
      (snd (order_reject now i reason who db)))) = Some w' \<and>
    wo_approval w' = ''rejected'' \<and> wo_status w' = ''in_progress''"
  using assms by (simp add: order_reject_def order_update_status_def find_alter_order ORDER_STATUSES_def Let_def)

section \<open>A concrete office\<close>

definition demo_cases :: case_settings where
  "demo_cases = \<lparr>auto_order_priorities = ''high,critical'', default_assignee = ''admin'',
     auto_resolve_idle = 10, recommend = (\<lambda>_ _. []), fresh_number = (\<lambda>n. ''N'')\<rparr>"

definition demo_event :: "nat \<Rightarrow> string \<Rightarrow> time \<Rightarrow> sec_event" where
  "demo_event i sev t =
     \<lparr>ev_id = i, ev_src = ''10.0.0.9'', ev_dst = ''10.0.0.1'', ev_type = ''SSH_BRUTE'',
      ev_raw_event = None, ev_score = 0, ev_session = ''s1'', ev_severity = sev, ev_status = ''new'',
      ev_case = None, ev_created = t\<rparr>"

definition demo_past :: "case_op list" where
  "demo_past = [NewEvent (demo_event 1 ''high'' 0), AutoCreate 1 1, NewEvent (demo_event 2 ''high'' 2)]"

definition demo_office :: case_db where
  "demo_office = case_run demo_cases demo_past empty_db"

lemma demo_office_facts:
  "map_option sc_status (find_case 1 demo_office) = Some ''responding''"
  "map_option sc_event_ids (find_case 1 demo_office) = Some [1]"
  "map_option sc_deadline (find_case 1 demo_office) = Some (Some 28801)"
  "has_open_disposition 1 demo_office"
  by code_simp+

lemma cases_move_legally_witness:
  "map_option sc_status (find_case 1 (case_run demo_cases
     ((demo_past @ [CaseStatus 3 1 ''closed'']) @ [AutoCreate 4 2, OrderStatus 5 1 ''completed'']) empty_db))
   = Some ''closed''"
proof -
  have "map_option sc_status (find_case 1 (case_run demo_cases (demo_past @ [CaseStatus 3 1 ''closed'']) empty_db))
      = Some ''closed''"
    by code_simp
  then obtain c where c: "find_case 1 (case_run demo_cases (demo_past @ [CaseStatus 3 1 ''closed'']) empty_db) = Some c"
    and "sc_status c = ''closed''" by auto
  with cases_move_legally [OF c, of "[AutoCreate 4 2, OrderStatus 5 1 ''completed'']"]
  show ?thesis by auto
qed

text \<open>The case is closed while an approval order for it is pending; then the order is approved.\<close>

definition demo_closing :: "case_op list" where
  "demo_closing = demo_past @
     [CreateOrder 3 (Some 1) ''approval'' ''isolate'' [] ''high'' [] ''system'', CaseStatus 4 1 ''closed'']"

lemma approval_reopens_closed_case_witness:
  "map_option sc_status (find_case 1 (case_run demo_cases demo_closing empty_db)) = Some ''closed'' \<and>
   map_option sc_status (find_case 1 (case_run demo_cases (demo_closing @ [Approve 5 2 ''admin'']) empty_db)) =
     Some ''responding''"
proof -
  have st: "map_option (\<lambda>c. (sc_event_ids c, sc_status c)) (find_case 1 (case_run demo_cases demo_closing empty_db))
      = Some ([1], ''closed'')"
    and ap: "approves_order_of 1 (case_run demo_cases demo_closing empty_db) (Approve 5 2 ''admin'')"
    by code_simp+
  then obtain c where c: "find_case 1 (case_run demo_cases demo_closing empty_db) = Some c"
    and "sc_event_ids c \<noteq> []" "sc_status c = ''closed''" by auto
  with approval_reopens_closed_case [OF c, of "Approve 5 2 ''admin''"] ap show ?thesis by auto
qed

lemma demo_case:
  obtains c where "find_case 1 demo_office = Some c" "sc_id c = 1"
    "sc_status c = ''responding''" "sc_deadline c = Some 28801"
proof -
  obtain c where c: "find_case 1 demo_office = Some c" using demo_office_facts(1) by auto
  with that demo_office_facts(1,3) find_case_in [OF c] show ?thesis by auto
qed

lemma auto_resolved_is_resolved_witness:
  "\<exists>c db'. find_case 1 demo_office = Some c \<and>
     try_auto_resolve demo_cases 10000 None True False c demo_office = (True, db') \<and>
     map_option sc_status (find_case 1 db') = Some ''resolved'' \<and> open_dispositions 1 db' = []"
proof -
  have "fst (try_auto_resolve demo_cases 10000 None True False (the (find_case 1 demo_office)) demo_office)"
    by code_simp
  moreover obtain c where c: "find_case 1 demo_office = Some c" "sc_id c = 1" by (rule demo_case)
  ultimately obtain db' where run: "try_auto_resolve demo_cases 10000 None True False c demo_office = (True, db')"
    by (metis option.sel prod.collapse)
  have "find_case (sc_id c) demo_office = Some c" using c by simp
  from auto_resolved_is_resolved [OF run this] run c show ?thesis by auto
qed

lemma overdue_case_resolved_unhandled_witness:
  "\<exists>c. find_case 1 demo_office = Some c \<and>
     fst (try_auto_resolve demo_cases 30000 None False True c demo_office)"
proof -
  obtain c where c: "find_case 1 demo_office = Some c" "sc_id c = 1"
    "sc_status c = ''responding''" "sc_deadline c = Some 28801" by (rule demo_case)
  have f: "find_case (sc_id c) demo_office = Some c" using c(1,2) by simp
  have "fst (try_auto_resolve demo_cases 30000 None False True c demo_office) \<and>
    (\<exists>c'. find_case (sc_id c) (snd (try_auto_resolve demo_cases 30000 None False True c demo_office)) = Some c' \<and>
      sc_status c' = ''resolved'')"
    by (rule overdue_case_resolved_unhandled [OF _ c(4) _ _ f])
      (simp_all add: c(3) ACTIVE_CASE_STATUSES_def demo_cases_def)
  with c(1) show ?thesis by blast
qed

lemma dispatched_once_witness:
  "length (db_orders (snd (auto_dispatch demo_cases 1 1
     (case_run demo_cases [CreateCase 0 ''manual'' [] ''high'' [] [] []] empty_db)))) = 1"
proof -
  let ?db = "case_run demo_cases [CreateCase 0 ''manual'' [] ''high'' [] [] []] empty_db"
  have "map_option (\<lambda>c. (sc_priority c, sc_status c)) (find_case 1 ?db) = Some (''high'', ''open'')"
    and o: "\<not> has_open_disposition 1 ?db" "length (db_orders ?db) = 0"
    and p: "lower ''high'' \<in> set (auto_priorities demo_cases)"
    by code_simp+
  then obtain c where c: "find_case 1 ?db = Some c" "sc_priority c = ''high''" "sc_status c = ''open''"
    by auto
  then have "lower (sc_priority c) \<in> set (auto_priorities demo_cases)"
    "sc_status c \<in> {''open'', ''investigating''}" using p by simp_all
  from dispatched_once [OF c(1) this, of 1 1] o show ?thesis by (simp add: Let_def)
qed

lemma session_shares_case_witness:
  "\<exists>db'. auto_create_case demo_cases 3 2 demo_office = Some (Some 1, db') \<and> length (db_cases db') = 1"
proof -
  have "map_option fst (auto_create_case demo_cases 3 2 demo_office) = Some (Some 1)"
    by code_simp
  then obtain db' where run: "auto_create_case demo_cases 3 2 demo_office = Some (Some 1, db')" by auto
  have e: "find_event 2 demo_office = Some (demo_event 2 ''high'' 2)"
    and all: "list_all (\<lambda>r. ev_session r \<noteq> ''s1'' \<or> ev_case r = None \<or> ev_case r = Some 1) (db_events demo_office)"
    and some: "list_ex (\<lambda>r. ev_session r = ''s1'' \<and> ev_case r = Some 1) (db_events demo_office)"
    and len: "length (db_cases demo_office) = 1"
    by code_simp+
  obtain c where c: "find_case 1 demo_office = Some c" "sc_id c = 1" "sc_status c = ''responding''"
    by (rule demo_case)
  have "length (db_cases db') = length (db_cases demo_office)"
    using session_shares_case [OF e _ _ _ _ all some c(1) _ run]
    by (simp add: demo_event_def c REUSABLE_STATUSES_def)
  with run len show ?thesis by simp
qed

end
