(* ===== verification/SlidingWindow.thy ===== *)
theory SlidingWindow
  imports Prelude
begin

text \<open>
  The window of recent messages of a session (\<open>src/backend/sliding_window.py\<close>) over two kinds of
  storage: lists of a Redis server, a parameter with its documented laws, and the program's own
  \<open>DequeBackend\<close>.  The contract both keep is the locale \<open>fifo_store\<close>; reading the first
  element by \<open>lrange(key, 0, 0)\<close> is a law of its own, \<open>ranged_store\<close>, which Redis keeps
  and the deque does not.  A message is stored as the JSON text of a dict of texts and read back
  from it; the model stores the message.  A call reads the clock once.
\<close>

section \<open>Messages and storage\<close>

record message =
  msg_agent :: string
  msg_role :: string
  msg_content :: string
  msg_depth :: nat
  msg_time :: time
  msg_evicted :: "time option"

record 'b list_ops =
  op_rpush :: "string \<Rightarrow> message \<Rightarrow> 'b \<Rightarrow> 'b"
  op_lpop :: "string \<Rightarrow> 'b \<Rightarrow> message option \<times> 'b"
  op_llen :: "string \<Rightarrow> 'b \<Rightarrow> nat"
  op_lrange :: "string \<Rightarrow> int \<Rightarrow> int \<Rightarrow> 'b \<Rightarrow> message list"
  op_delete :: "string \<Rightarrow> 'b \<Rightarrow> 'b"

text \<open>\<open>items b key\<close> is the list stored under a key.\<close>

definition fifo_laws :: "'b list_ops \<Rightarrow> ('b \<Rightarrow> string \<Rightarrow> message list) \<Rightarrow> bool" where
  "fifo_laws L items \<longleftrightarrow>
     (\<forall>k v b. items (op_rpush L k v b) = (items b)(k := items b k @ [v])) \<and>
     (\<forall>k b. fst (op_lpop L k b) = (case items b k of [] \<Rightarrow> None | x # xs \<Rightarrow> Some x)) \<and>
     (\<forall>k b. items (snd (op_lpop L k b)) = (items b)(k := tl (items b k))) \<and>
     (\<forall>k b. op_llen L k b = length (items b k)) \<and>
     (\<forall>k b. op_lrange L k 0 (- 1) b = items b k) \<and>
     (\<forall>k n b. 0 < n \<longrightarrow> op_lrange L k (- int n) (- 1) b = drop (length (items b k) - n) (items b k)) \<and>
     (\<forall>k b. items (op_delete L k b) = (items b)(k := []))"

definition head_law :: "'b list_ops \<Rightarrow> ('b \<Rightarrow> string \<Rightarrow> message list) \<Rightarrow> bool" where
  "head_law L items \<longleftrightarrow> (\<forall>k b. op_lrange L k 0 0 b = take 1 (items b k))"

section \<open>The window\<close>

record window_settings =
  max_size :: int
  window_minutes :: int

definition window_key :: "string \<Rightarrow> string" where
  "window_key s = ''sliding_window:'' @ s"

definition evicted_key :: "string \<Rightarrow> string" where
  "evicted_key s = ''window_evicted:'' @ s"

definition EVICTED_MAX :: nat where
  "EVICTED_MAX = 10000"

text \<open>\<open>lpop\<close> so many times: the messages and the rest.\<close>

fun pop_many :: "'b list_ops \<Rightarrow> nat \<Rightarrow> string \<Rightarrow> 'b \<Rightarrow> message list \<times> 'b" where
  "pop_many L 0 k b = ([], b)"
| "pop_many L (Suc n) k b =
     (case op_lpop L k b of (m, b1) \<Rightarrow>
        (case pop_many L n k b1 of (ms, b2) \<Rightarrow>
           ((case m of Some x \<Rightarrow> x # ms | None \<Rightarrow> ms), b2)))"

definition record_evicted ::
  "'b list_ops \<Rightarrow> time \<Rightarrow> string \<Rightarrow> message list \<Rightarrow> 'b \<Rightarrow> 'b" where
  "record_evicted L now s evicted b =
     (let k = evicted_key s;
          b1 = fold (\<lambda>m. op_rpush L k (m\<lparr>msg_evicted := Some now\<rparr>)) evicted b;
          n = op_llen L k b1
      in if n > EVICTED_MAX then snd (pop_many L (n - EVICTED_MAX) k b1) else b1)"

text \<open>
  The loop of \<open>_evict_by_time\<close>; \<open>None\<close> is not returning.
\<close>

partial_function (option) evict_loop ::
  "'b list_ops \<Rightarrow> time \<Rightarrow> string \<Rightarrow> 'b \<Rightarrow> (message list \<times> 'b) option" where
  "evict_loop L cutoff k b =
     (case op_lrange L k 0 0 b of
        [] \<Rightarrow> Some ([], b)
      | m # ms \<Rightarrow>
          if msg_time m \<ge> cutoff then Some ([], b)
          else
            (case op_lpop L k b of (x, b1) \<Rightarrow>
              Option.bind (evict_loop L cutoff k b1) (\<lambda>(popped, b2).
                Some ((case x of Some y \<Rightarrow> y # popped | None \<Rightarrow> popped), b2))))"

declare evict_loop.simps [code]

definition evict_by_time ::
  "'b list_ops \<Rightarrow> window_settings \<Rightarrow> time \<Rightarrow> string \<Rightarrow> 'b \<Rightarrow> 'b option" where
  "evict_by_time L cfg now s b =
     (let cutoff = now - of_int (window_minutes cfg * 60) in
      map_option (\<lambda>(popped, b1). if popped \<noteq> [] then record_evicted L now s popped b1 else b1)
        (evict_loop L cutoff (window_key s) b))"

definition evict_by_count ::
  "'b list_ops \<Rightarrow> window_settings \<Rightarrow> time \<Rightarrow> string \<Rightarrow> 'b \<Rightarrow> 'b" where
  "evict_by_count L cfg now s b =
     (let n = max 1 (max_size cfg div 4) in
      case pop_many L (nat n) (window_key s) b of (popped, b1) \<Rightarrow>
        if popped \<noteq> [] then record_evicted L now s popped b1 else b1)"

definition get_window :: "'b list_ops \<Rightarrow> string \<Rightarrow> 'b \<Rightarrow> message list" where
  "get_window L s b = op_lrange L (window_key s) 0 (- 1) b"

definition add_message ::
  "'b list_ops \<Rightarrow> window_settings \<Rightarrow> time \<Rightarrow> string \<Rightarrow> string \<Rightarrow> string \<Rightarrow> string \<Rightarrow> 'b \<Rightarrow>
   (message list \<times> 'b) option"
where
  "add_message L cfg now s agent role content b =
     (let m = \<lparr>msg_agent = agent, msg_role = role, msg_content = content, msg_depth = 0,
               msg_time = now, msg_evicted = None\<rparr>;
          b1 = op_rpush L (window_key s) m b
      in map_option (\<lambda>b2.
           let b3 = (if int (op_llen L (window_key s) b2) > max_size cfg
                     then evict_by_count L cfg now s b2 else b2)
           in (get_window L s b3, b3))
         (evict_by_time L cfg now s b1))"

definition get_evicted :: "'b list_ops \<Rightarrow> string \<Rightarrow> int \<Rightarrow> 'b \<Rightarrow> message list" where
  "get_evicted L s limit b = op_lrange L (evicted_key s) (- limit) (- 1) b"

definition clear_window :: "'b list_ops \<Rightarrow> string \<Rightarrow> 'b \<Rightarrow> 'b" where
  "clear_window L s b = op_delete L (window_key s) b"

section \<open>The program's own storage\<close>

record deque_backend =
  dq_lists :: "(string \<times> message list) list"
  dq_kv :: "(string \<times> (string \<times> time)) list"

definition new_deque :: deque_backend where
  "new_deque = \<lparr>dq_lists = [], dq_kv = []\<rparr>"

definition dq_items :: "deque_backend \<Rightarrow> string \<Rightarrow> message list" where
  "dq_items b k = (case map_of (dq_lists b) k of Some xs \<Rightarrow> xs | None \<Rightarrow> [])"

definition dq_rpush :: "string \<Rightarrow> message \<Rightarrow> deque_backend \<Rightarrow> deque_backend" where
  "dq_rpush k v b = b\<lparr>dq_lists := AList.update k (dq_items b k @ [v]) (dq_lists b)\<rparr>"

definition dq_lpush :: "string \<Rightarrow> message \<Rightarrow> deque_backend \<Rightarrow> deque_backend" where
  "dq_lpush k v b = b\<lparr>dq_lists := AList.update k (v # dq_items b k) (dq_lists b)\<rparr>"

definition dq_lpop :: "string \<Rightarrow> deque_backend \<Rightarrow> message option \<times> deque_backend" where
  "dq_lpop k b =
     (case dq_items b k of
        [] \<Rightarrow> (None, b)
      | x # xs \<Rightarrow> (Some x, b\<lparr>dq_lists := AList.update k xs (dq_lists b)\<rparr>))"

definition dq_llen :: "string \<Rightarrow> deque_backend \<Rightarrow> nat" where
  "dq_llen k b = length (dq_items b k)"

text \<open>Python's \<open>xs[start:stop]\<close>.\<close>

definition py_index :: "int \<Rightarrow> nat \<Rightarrow> nat" where
  "py_index i n = (if i < 0 then nat (max 0 (i + int n)) else min (nat i) n)"

definition py_slice :: "int \<Rightarrow> int \<Rightarrow> 'a list \<Rightarrow> 'a list" where
  "py_slice start stop xs =
     (let a = py_index start (length xs); z = py_index stop (length xs) in drop a (take z xs))"

definition dq_lrange :: "string \<Rightarrow> int \<Rightarrow> int \<Rightarrow> deque_backend \<Rightarrow> message list" where
  "dq_lrange k start stop b =
     (let d = dq_items b k; l = int (length d);
          stop' = (if stop = - 1 \<or> stop \<ge> l then l else stop)
      in py_slice start stop' d)"

definition dq_delete :: "string \<Rightarrow> deque_backend \<Rightarrow> deque_backend" where
  "dq_delete k b =
     b\<lparr>dq_lists := AList.delete k (dq_lists b), dq_kv := AList.delete k (dq_kv b)\<rparr>"

definition dq_setex :: "time \<Rightarrow> string \<Rightarrow> time \<Rightarrow> string \<Rightarrow> deque_backend \<Rightarrow> deque_backend" where
  "dq_setex now k ttl v b = b\<lparr>dq_kv := AList.update k (v, now + ttl) (dq_kv b)\<rparr>"

definition dq_get :: "time \<Rightarrow> string \<Rightarrow> deque_backend \<Rightarrow> string option \<times> deque_backend" where
  "dq_get now k b =
     (case map_of (dq_kv b) k of
        None \<Rightarrow> (None, b)
      | Some (v, expiry) \<Rightarrow>
          if now < expiry then (Some v, b) else (None, b\<lparr>dq_kv := AList.delete k (dq_kv b)\<rparr>))"

definition dq_dbsize :: "time \<Rightarrow> deque_backend \<Rightarrow> nat \<times> deque_backend" where
  "dq_dbsize now b =
     (let kv = filter (\<lambda>(k, v, e). \<not> now \<ge> e) (dq_kv b)
      in (length (dq_lists b) + length kv, b\<lparr>dq_kv := kv\<rparr>))"

definition deque_ops :: "deque_backend list_ops" where
  "deque_ops = \<lparr>op_rpush = dq_rpush, op_lpop = dq_lpop, op_llen = dq_llen, op_lrange = dq_lrange,
     op_delete = dq_delete\<rparr>"

text \<open>A list server that keeps the documented laws: a function from keys to lists.\<close>

definition served_lrange :: "string \<Rightarrow> int \<Rightarrow> int \<Rightarrow> (string \<Rightarrow> message list) \<Rightarrow> message list" where
  "served_lrange k start stop b =
     (let n = int (length (b k));
          a = (if start < 0 then max 0 (start + n) else start);
          z = (if stop < 0 then stop + n else stop)
      in drop (nat a) (take (nat (z + 1)) (b k)))"

definition list_server :: "(string \<Rightarrow> message list) list_ops" where
  "list_server =
     \<lparr>op_rpush = (\<lambda>k v b. b(k := b k @ [v])),
      op_lpop = (\<lambda>k b. (case b k of [] \<Rightarrow> None | x # xs \<Rightarrow> Some x, b(k := tl (b k)))),
      op_llen = (\<lambda>k b. length (b k)), op_lrange = served_lrange,
      op_delete = (\<lambda>k b. b(k := []))\<rparr>"

section \<open>The contract and its providers\<close>

locale fifo_store =
  fixes L :: "'b list_ops" and items :: "'b \<Rightarrow> string \<Rightarrow> message list"
  assumes laws: "fifo_laws L items"
begin

lemma rpush: "items (op_rpush L k v b) = (items b)(k := items b k @ [v])"
  using laws by (simp add: fifo_laws_def)

lemma lpop: "fst (op_lpop L k b) = (case items b k of [] \<Rightarrow> None | x # xs \<Rightarrow> Some x)"
  using laws by (simp add: fifo_laws_def)

lemma lpop_rest: "items (snd (op_lpop L k b)) = (items b)(k := tl (items b k))"
  using laws by (simp add: fifo_laws_def)

lemma llen: "op_llen L k b = length (items b k)"
  using laws by (simp add: fifo_laws_def)

lemma all: "op_lrange L k 0 (- 1) b = items b k"
  using laws by (simp add: fifo_laws_def)

lemma pop_many_spec:
  "fst (pop_many L n k b) = take n (items b k) \<and>
   items (snd (pop_many L n k b)) = (items b)(k := drop n (items b k))"
proof (induction n arbitrary: b)
  case (Suc n)
  obtain m b1 where p: "op_lpop L k b = (m, b1)" by (cases "op_lpop L k b")
  then have "items b1 = (items b)(k := tl (items b k))"
    "m = (case items b k of [] \<Rightarrow> None | x # xs \<Rightarrow> Some x)"
    using lpop [of k b] lpop_rest [of k b] by simp_all
  then show ?case
    using Suc [of b1] p by (cases "items b k") (auto simp: case_prod_unfold drop_Suc fun_eq_iff)
qed simp

lemma rpush_many:
  "items (fold (\<lambda>m. op_rpush L k (f m)) ms b) = (items b)(k := items b k @ map f ms)"
  by (induction ms arbitrary: b) (auto simp: rpush)

lemma keys_differ: "window_key s \<noteq> evicted_key s'"
  by (simp add: window_key_def evicted_key_def)

lemma record_spec:
  "items (record_evicted L now s ms b) = (items b)(evicted_key s :=
     (let all = items b (evicted_key s) @ map (\<lambda>m. m\<lparr>msg_evicted := Some now\<rparr>) ms
      in drop (length all - EVICTED_MAX) all))"
  by (auto simp: record_evicted_def Let_def rpush_many llen pop_many_spec)

lemma count_spec:
  assumes "popped = take (nat (max 1 (max_size cfg div 4))) (items b (window_key s))"
    and "rest = drop (nat (max 1 (max_size cfg div 4))) (items b (window_key s))"
  shows "items (evict_by_count L cfg now s b) (window_key s) = rest \<and>
    items (evict_by_count L cfg now s b) (evicted_key s) =
      (if popped = [] then items b (evicted_key s)
       else let all = items b (evicted_key s) @ map (\<lambda>m. m\<lparr>msg_evicted := Some now\<rparr>) popped
            in drop (length all - EVICTED_MAX) all)"
  using pop_many_spec [of "nat (max 1 (max_size cfg div 4))" "window_key s" b] assms keys_differ [of s s]
  by (auto simp: evict_by_count_def Let_def case_prod_unfold record_spec fun_upd_def)

text \<open>Whatever the loop reads, it only moves messages from the front of the window.\<close>

lemma evict_loop_front:
  "evict_loop L' cutoff k b = Some r \<Longrightarrow> L' = L \<Longrightarrow>
   items b k = fst r @ items (snd r) k \<and> (\<forall>k'. k' \<noteq> k \<longrightarrow> items (snd r) k' = items b k')"
proof (induction L' cutoff k b r rule: evict_loop.raw_induct [rotated, consumes 1])
  case (1 f L' cutoff k b r)
  obtain x b1 where p: "op_lpop L k b = (x, b1)" by (cases "op_lpop L k b")
  then have x: "x = (case items b k of [] \<Rightarrow> None | y # ys \<Rightarrow> Some y)"
    and b1: "items b1 = (items b)(k := tl (items b k))"
    using lpop [of k b] lpop_rest [of k b] by simp_all
  consider "r = ([], b)" | popped b2 where "f L cutoff k b1 = Some (popped, b2)"
      "r = ((case x of Some y \<Rightarrow> y # popped | None \<Rightarrow> popped), b2)"
    using 1(2,3) p by (auto simp: Option.bind_eq_Some_conv split: list.splits if_splits)
  then show ?case
  proof cases
    case 2
    from 1(1) [OF 2(1) refl] x b1 2(2) show ?thesis by (cases "items b k") auto
  qed simp
qed

end

locale ranged_store = fifo_store L items for L :: "'b list_ops" and items +
  assumes head: "head_law L items"
begin

text \<open>The loop ends and takes exactly the leading messages that are too old.\<close>

lemma evict_loop_spec:
  "\<exists>b'. evict_loop L cutoff k b =
      Some (takeWhile (\<lambda>m. msg_time m < cutoff) (items b k), b') \<and>
    items b' = (items b)(k := dropWhile (\<lambda>m. msg_time m < cutoff) (items b k))"
proof (induction "items b k" arbitrary: b)
  case Nil
  then have "op_lrange L k 0 0 b = []" using head by (simp add: head_law_def)
  with Nil [symmetric] show ?case by (subst evict_loop.simps) auto
next
  case (Cons m ms)
  have first: "op_lrange L k 0 0 b = [m]" using head Cons(2) [symmetric] by (simp add: head_law_def)
  obtain x b1 where p: "op_lpop L k b = (x, b1)" by (cases "op_lpop L k b")
  then have x: "x = Some m" and b1: "items b1 = (items b)(k := ms)"
    using lpop [of k b] lpop_rest [of k b] Cons(2) [symmetric] by simp_all
  show ?case
  proof (cases "msg_time m < cutoff")
    case True
    have "ms = items b1 k" using b1 by simp
    from Cons(1) [OF this] obtain b' where
      "evict_loop L cutoff k b1 = Some (takeWhile (\<lambda>m. msg_time m < cutoff) ms, b')"
      "items b' = (items b1)(k := dropWhile (\<lambda>m. msg_time m < cutoff) ms)"
      using b1 by auto
    then show ?thesis
      using True p x b1 first Cons(2) [symmetric] by (subst evict_loop.simps) auto
  next
    case False
    then show ?thesis
      using first Cons(2) [symmetric] by (subst evict_loop.simps) auto
  qed
qed

end

lemma nat_max_diff: "nat (max 0 (int a - int b)) = a - b"
  by auto

lemma deque_laws: "fifo_laws deque_ops dq_items"
  unfolding fifo_laws_def deque_ops_def
  by (auto simp: dq_items_def dq_rpush_def dq_lpop_def dq_llen_def dq_lrange_def dq_delete_def
      py_slice_def py_index_def Let_def fun_eq_iff nat_max_diff map_of_filter delete_conv'
      split: option.splits list.splits)

interpretation dq: fifo_store deque_ops dq_items
  by unfold_locales (rule deque_laws)

lemma server_laws: "fifo_laws list_server (\<lambda>b. b)" "head_law list_server (\<lambda>b. b)"
  unfolding fifo_laws_def head_law_def list_server_def
  by (auto simp: served_lrange_def Let_def nat_diff_distrib' max_def split: list.splits)

interpretation server: ranged_store list_server "\<lambda>b. b"
  by unfold_locales (rule server_laws)+

section \<open>What the window promises\<close>

text \<open>The messages moved out of the window, as they are kept.\<close>

definition marked :: "time \<Rightarrow> message list \<Rightarrow> message list" where
  "marked now ms = map (\<lambda>m. m\<lparr>msg_evicted := Some now\<rparr>) ms"

definition new_message :: "time \<Rightarrow> string \<Rightarrow> string \<Rightarrow> string \<Rightarrow> message" where
  "new_message now agent role content =
     \<lparr>msg_agent = agent, msg_role = role, msg_content = content, msg_depth = 0,
      msg_time = now, msg_evicted = None\<rparr>"

context fifo_store
begin

lemma record_items:
  "items (record_evicted L now s ms b) =
    (items b)(evicted_key s := keep_last EVICTED_MAX (items b (evicted_key s) @ marked now ms))"
  by (simp add: record_spec keep_last_def marked_def Let_def)

lemma evicted_items:
  assumes "length (items b (evicted_key s)) \<le> EVICTED_MAX"
  shows "items (if ms \<noteq> [] then record_evicted L now s ms b else b) =
    (items b)(evicted_key s := keep_last EVICTED_MAX (items b (evicted_key s) @ marked now ms))"
  using assms by (auto simp: record_items keep_last_short marked_def)

lemma time_items:
  assumes "evict_by_time L cfg now s b = Some b'" and "length (items b (evicted_key s)) \<le> EVICTED_MAX"
  shows "\<exists>out. items b (window_key s) = out @ items b' (window_key s) \<and>
    items b' (evicted_key s) = keep_last EVICTED_MAX (items b (evicted_key s) @ marked now out)"
proof -
  obtain out b1 where loop: "evict_loop L (now - of_int (window_minutes cfg * 60)) (window_key s) b = Some (out, b1)"
    and b': "b' = (if out \<noteq> [] then record_evicted L now s out b1 else b1)"
    using assms(1) by (auto simp: evict_by_time_def Let_def)
  from evict_loop_front [OF loop refl]
  have front: "items b (window_key s) = out @ items b1 (window_key s)"
    and same: "items b1 (evicted_key s) = items b (evicted_key s)"
    using keys_differ [of s s] by auto
  have "items b' = (items b1)(evicted_key s := keep_last EVICTED_MAX (items b (evicted_key s) @ marked now out))"
    using evicted_items [of b1 s out now] assms(2) by (simp add: b' same)
  with front keys_differ [of s s] show ?thesis by auto
qed

lemma count_items:
  assumes "length (items b (evicted_key s)) \<le> EVICTED_MAX"
  shows "items (evict_by_count L cfg now s b) (window_key s) =
      drop (nat (max 1 (max_size cfg div 4))) (items b (window_key s)) \<and>
    items (evict_by_count L cfg now s b) (evicted_key s) =
      keep_last EVICTED_MAX (items b (evicted_key s) @
        marked now (take (nat (max 1 (max_size cfg div 4))) (items b (window_key s))))"
proof -
  let ?p = "pop_many L (nat (max 1 (max_size cfg div 4))) (window_key s) b"
  have p: "fst ?p = take (nat (max 1 (max_size cfg div 4))) (items b (window_key s))"
    "items (snd ?p) = (items b)(window_key s := drop (nat (max 1 (max_size cfg div 4))) (items b (window_key s)))"
    using pop_many_spec by simp_all
  have "items (snd ?p) (evicted_key s) = items b (evicted_key s)"
    using p(2) keys_differ [of s s] by simp
  with evicted_items [of "snd ?p" s "fst ?p" now] assms p keys_differ [of s s] show ?thesis
    by (simp add: evict_by_count_def Let_def case_prod_unfold)
qed

lemma add_items:
  assumes "add_message L cfg now s agent role content b = Some (w, b')"
    and "length (items b (evicted_key s)) \<le> EVICTED_MAX"
  shows "w = items b' (window_key s) \<and>
    (\<exists>out. items b (window_key s) @ [new_message now agent role content] = out @ w \<and>
      items b' (evicted_key s) = keep_last EVICTED_MAX (items b (evicted_key s) @ marked now out))"
proof -
  let ?b1 = "op_rpush L (window_key s) (new_message now agent role content) b"
  obtain b2 where t: "evict_by_time L cfg now s ?b1 = Some b2"
    and b': "b' = (if int (op_llen L (window_key s) b2) > max_size cfg
      then evict_by_count L cfg now s b2 else b2)" and w: "w = items b' (window_key s)"
    using assms(1) by (auto simp: add_message_def Let_def new_message_def get_window_def all)
  have e1: "items ?b1 (evicted_key s) = items b (evicted_key s)"
    "items ?b1 (window_key s) = items b (window_key s) @ [new_message now agent role content]"
    using keys_differ [of s s] by (auto simp: rpush)
  obtain out where out: "items ?b1 (window_key s) = out @ items b2 (window_key s)"
    "items b2 (evicted_key s) = keep_last EVICTED_MAX (items b (evicted_key s) @ marked now out)"
    using time_items [OF t] assms(2) e1 by auto
  have "length (items b2 (evicted_key s)) \<le> EVICTED_MAX" using out(2) length_keep_last by simp
  note cnt = count_items [OF this, of cfg now]
  show ?thesis
  proof (cases "int (op_llen L (window_key s) b2) > max_size cfg")
    case True
    let ?n = "nat (max 1 (max_size cfg div 4))"
    have "items b (window_key s) @ [new_message now agent role content] =
        (out @ take ?n (items b2 (window_key s))) @ w"
      using out(1) e1 cnt w b' True by simp
    moreover have "items b' (evicted_key s) = keep_last EVICTED_MAX (items b (evicted_key s) @
        marked now (out @ take ?n (items b2 (window_key s))))"
      using cnt b' True out(2) by (simp add: keep_last_append marked_def)
    ultimately show ?thesis using w by blast
  next
    case False
    with out e1 w b' show ?thesis by auto
  qed
qed

end

context ranged_store
begin

lemma add_returns:
  "\<exists>w b'. add_message L cfg now s agent role content b = Some (w, b') \<and>
    (let fresh = dropWhile (\<lambda>m. msg_time m < now - of_int (window_minutes cfg * 60))
           (items b (window_key s) @ [new_message now agent role content])
     in w = (if int (length fresh) > max_size cfg
             then drop (nat (max 1 (max_size cfg div 4))) fresh else fresh))"
proof -
  let ?old = "\<lambda>m. msg_time m < now - of_int (window_minutes cfg * 60)"
  let ?b1 = "op_rpush L (window_key s) (new_message now agent role content) b"
  let ?fresh = "dropWhile ?old (items b (window_key s) @ [new_message now agent role content])"
  obtain b2 where loop: "evict_loop L (now - of_int (window_minutes cfg * 60)) (window_key s) ?b1 =
      Some (takeWhile ?old (items ?b1 (window_key s)), b2)"
    and b2: "items b2 = (items ?b1)(window_key s := dropWhile ?old (items ?b1 (window_key s)))"
    using evict_loop_spec by blast
  then obtain b3 where t: "evict_by_time L cfg now s ?b1 = Some b3"
    and b3: "items b3 (window_key s) = ?fresh"
    using keys_differ [of s s]
    by (simp add: evict_by_time_def Let_def record_items rpush)
  have "items (evict_by_count L cfg now s b3) (window_key s) =
      drop (nat (max 1 (max_size cfg div 4))) (items b3 (window_key s))"
    using count_spec [OF refl refl] by simp
  with t b3 show ?thesis
    by (simp add: add_message_def Let_def new_message_def get_window_def all llen)
qed

end

text \<open>
  C24. Over either storage no message is lost: what leaves the window is kept, marked, after what
  left it before, up to the newest 10000; what remains is the window, and the two parts are the
  messages so far in their order.
\<close>

theorem window_loses_nothing:
  assumes "fifo_laws L items"
    and "add_message L cfg now s agent role content b = Some (w, b')"
    and "length (items b (evicted_key s)) \<le> EVICTED_MAX"
  shows "w = items b' (window_key s) \<and>
    (\<exists>out. items b (window_key s) @ [new_message now agent role content] = out @ w \<and>
      items b' (evicted_key s) = keep_last EVICTED_MAX (items b (evicted_key s) @ marked now out))"
  by (rule fifo_store.add_items [OF fifo_store.intro [OF assms(1)] assms(2,3)])

lemma sorted_dropWhile:
  assumes "sorted (map t xs)"
  shows "list_all (\<lambda>x. c \<le> t x) (dropWhile (\<lambda>x. t x < c) xs)"
  using assms by (induction xs) (auto simp: list_all_iff)

lemma list_all_drop: "list_all P xs \<Longrightarrow> list_all P (drop n xs)"
  by (auto simp: list_all_iff dest: in_set_dropD)

text \<open>
  C25. Over Redis every call returns, and the window then holds only messages of the last minutes,
  at most as many as configured, when it did before and time does not run backwards.
\<close>

theorem redis_window_current:
  assumes "fifo_laws L items" and "head_law L items"
    and "sorted (map msg_time (items b (window_key s)))"
    and "list_all (\<lambda>m. msg_time m \<le> now) (items b (window_key s))"
    and "int (length (items b (window_key s))) \<le> max_size cfg" and "1 \<le> max_size cfg"
  shows "\<exists>w b'. add_message L cfg now s agent role content b = Some (w, b') \<and>
    list_all (\<lambda>m. now - of_int (window_minutes cfg * 60) \<le> msg_time m) w \<and> int (length w) \<le> max_size cfg"
proof -
  let ?all = "items b (window_key s) @ [new_message now agent role content]"
  let ?fresh = "dropWhile (\<lambda>m. msg_time m < now - of_int (window_minutes cfg * 60)) ?all"
  let ?w = "if int (length ?fresh) > max_size cfg
    then drop (nat (max 1 (max_size cfg div 4))) ?fresh else ?fresh"
  have "ranged_store L items"
    using assms(1,2) by (simp add: ranged_store_def ranged_store_axioms_def fifo_store_def)
  from ranged_store.add_returns [OF this, of cfg now s agent role content b]
  obtain b' where run: "add_message L cfg now s agent role content b = Some (?w, b')"
    by (auto simp: Let_def)
  have "sorted (map msg_time ?all)"
    using assms(3,4) by (auto simp: sorted_append list_all_iff new_message_def)
  from sorted_dropWhile [OF this, of "now - of_int (window_minutes cfg * 60)"]
  have "list_all (\<lambda>m. now - of_int (window_minutes cfg * 60) \<le> msg_time m) ?w"
    by (simp add: list_all_drop)
  moreover have "length ?fresh \<le> length ?all" by (rule length_dropWhile_le)
  then have "int (length ?w) \<le> max_size cfg"
    using assms(5,6) by (auto simp: of_nat_diff)
  ultimately show ?thesis using run by blast
qed

lemma deque_head_empty: "dq_lrange k 0 0 b = []"
  by (auto simp: dq_lrange_def py_slice_def py_index_def Let_def)

lemma deque_loop: "evict_loop deque_ops c k b = Some ([], b)"
  by (subst evict_loop.simps) (simp add: deque_ops_def deque_head_empty)

text \<open>
  Over the program's own storage no message ever leaves the window by its age: the slice that
  should hold the first message is empty, so that the window keeps messages however old they are,
  until their number is too large.
\<close>

theorem deque_window_never_expires:
  assumes "list_all (\<lambda>m. msg_time m < now - of_int (window_minutes cfg * 60)) (dq_items b (window_key s))"
    and "int (length (dq_items b (window_key s))) < max_size cfg"
  shows "\<exists>b'. add_message deque_ops cfg now s agent role content b =
    Some (dq_items b (window_key s) @ [new_message now agent role content], b')"
proof -
  have stop: "evict_by_time deque_ops cfg now s b' = Some b'" for b'
    by (simp add: evict_by_time_def Let_def deque_loop)
  have "dq_items (op_rpush deque_ops (window_key s) m b) (window_key s) = dq_items b (window_key s) @ [m]" for m
    by (simp add: dq.rpush)
  then show ?thesis
    using assms(2) by (simp add: add_message_def stop Let_def dq.llen get_window_def dq.all new_message_def)
qed

section \<open>Concrete windows\<close>

definition demo_window :: window_settings where
  "demo_window = \<lparr>max_size = 4, window_minutes = 10\<rparr>"

definition old_message :: message where
  "old_message = new_message 0 ''a'' ''user'' ''hello''"

definition demo_deque :: deque_backend where
  "demo_deque = new_deque\<lparr>dq_lists := [(window_key ''s'', [old_message])]\<rparr>"

text \<open>A message of the first minute is still there after a hundred days.\<close>

lemma deque_window_never_expires_witness:
  "\<exists>b'. add_message deque_ops demo_window 8640000 ''s'' ''a'' ''user'' ''again'' demo_deque =
     Some ([old_message, new_message 8640000 ''a'' ''user'' ''again''], b')"
proof -
  have "dq_items demo_deque (window_key ''s'') = [old_message]"
    by (simp add: demo_deque_def dq_items_def)
  with deque_window_never_expires [of 8640000 demo_window demo_deque "''s''" "''a''" "''user''" "''again''"]
  show ?thesis by (simp add: demo_window_def old_message_def new_message_def)
qed

definition demo_server :: "string \<Rightarrow> message list" where
  "demo_server = (\<lambda>k. if k = window_key ''s'' then [old_message] else [])"

lemma redis_window_current_witness:
  "\<exists>w b'. add_message list_server demo_window 8640000 ''s'' ''a'' ''user'' ''again'' demo_server = Some (w, b') \<and>
     list_all (\<lambda>m. 8639400 \<le> msg_time m) w"
proof -
  have "sorted (map msg_time (demo_server (window_key ''s'')))"
    "list_all (\<lambda>m. msg_time m \<le> 8640000) (demo_server (window_key ''s''))"
    "int (length (demo_server (window_key ''s''))) \<le> max_size demo_window" "1 \<le> max_size demo_window"
    by (simp_all add: demo_server_def demo_window_def old_message_def new_message_def)
  from redis_window_current [where items = "\<lambda>b. b" and b = demo_server, OF server_laws this, of "''a''" "''user''" "''again''"]
  show ?thesis by (auto simp: demo_window_def)
qed

lemma window_loses_nothing_witness:
  "\<exists>w b' out. add_message list_server demo_window 8640000 ''s'' ''a'' ''user'' ''again'' demo_server = Some (w, b') \<and>
     [old_message, new_message 8640000 ''a'' ''user'' ''again''] = out @ w"
proof -
  obtain w b' where run: "add_message list_server demo_window 8640000 ''s'' ''a'' ''user'' ''again'' demo_server = Some (w, b')"
    using server.add_returns by blast
  have "length (demo_server (evicted_key ''s'')) \<le> EVICTED_MAX"
    and "demo_server (window_key ''s'') = [old_message]"
    by (simp_all add: demo_server_def evicted_key_def window_key_def)
  with window_loses_nothing [OF server_laws(1) run] run show ?thesis by auto
qed

end
