(* ===== verification/CadSupervisor.thy ===== *)
theory CadSupervisor
  imports Prelude
begin

text \<open>
  The independent supervisor of the audits (\<open>src/backend/cad.py\<close> and
  \<open>src/backend/agents/agent_cad.py\<close>): the check of the evidence an audit cites against the
  event store, the numbers computed from it, and the circuit breaker they feed.  The event store is
  a parameter (the id of the event it returns for an id), as is \<open>round(x, 4)\<close>.  Texts of
  discrepancies and reasons are constructors with the values they render; the scan of prompts and
  configuration for risky words is not modelled.
\<close>

section \<open>Checking cited evidence\<close>

record evidence_item =
  ei_claim :: string
  ei_source :: string
  ei_ids :: "int list"

datatype discrepancy = NoDiscrepancy | NoEvidence | Differs "int list" "int list"

record verification_report =
  vr_claim :: string
  vr_source :: string
  vr_claimed :: "int list"
  vr_actual :: "int list"
  vr_verified :: bool
  vr_discrepancy :: discrepancy
  vr_severity :: string
  vr_unverifiable :: bool

definition verify_claim :: "(int \<Rightarrow> int option) \<Rightarrow> evidence_item \<Rightarrow> verification_report" where
  "verify_claim store item =
     (if ei_ids item = [] then
        \<lparr>vr_claim = ei_claim item, vr_source = ei_source item, vr_claimed = [], vr_actual = [],
         vr_verified = False, vr_discrepancy = NoEvidence, vr_severity = ''low'', vr_unverifiable = True\<rparr>
      else
        let actual = List.map_filter store (ei_ids item);
            missing = sorted_list_of_set (set (ei_ids item) - set actual);
            extra = sorted_list_of_set (set actual - set (ei_ids item))
        in if missing = [] \<and> extra = [] then
             \<lparr>vr_claim = ei_claim item, vr_source = ei_source item, vr_claimed = ei_ids item,
              vr_actual = actual, vr_verified = True, vr_discrepancy = NoDiscrepancy,
              vr_severity = ''info'', vr_unverifiable = False\<rparr>
           else
             \<lparr>vr_claim = take 100 (ei_claim item), vr_source = ei_source item, vr_claimed = ei_ids item,
              vr_actual = actual, vr_verified = False, vr_discrepancy = Differs missing extra,
              vr_severity = (if missing \<noteq> [] then ''high'' else ''medium''), vr_unverifiable = False\<rparr>)"

definition verify_claims :: "(int \<Rightarrow> int option) \<Rightarrow> evidence_item list \<Rightarrow> verification_report list" where
  "verify_claims store trail = List.map (verify_claim store) trail"

section \<open>The circuit breaker\<close>

datatype trip_reason = NoReason | RiskTooHigh rat rat | CompletenessTooLow rat rat | BadAudits nat

record cad_decision =
  cd_event :: int
  cd_tripped :: bool
  cd_overridden :: bool
  cd_time :: time

record breaker =
  tripped :: bool
  tripped_at :: time
  reason :: trip_reason
  risk_trend :: "rat list"
  completeness_trend :: "rat list"
  audit_count :: nat
  anomaly_rate :: rat
  na_note :: string
  max_risk :: rat
  min_completeness :: rat
  consecutive_bad :: int
  warmup_audits :: int
  cooldown_seconds :: rat
  bad_count :: nat
  na_count :: nat
  decisions :: "cad_decision list"
  override_count :: nat
  false_trip_count :: nat

text \<open>The constructor, with the thresholds the environment gives (by default 0.5, 0.3, 5, 10, 300).\<close>

definition new_breaker :: "rat \<Rightarrow> rat \<Rightarrow> int \<Rightarrow> int \<Rightarrow> rat \<Rightarrow> breaker" where
  "new_breaker mr mc cb wu cs =
     \<lparr>tripped = False, tripped_at = 0, reason = NoReason, risk_trend = [], completeness_trend = [],
      audit_count = 0, anomaly_rate = 0, na_note = [], max_risk = mr, min_completeness = mc,
      consecutive_bad = cb, warmup_audits = wu, cooldown_seconds = cs, bad_count = 0, na_count = 0,
      decisions = [], override_count = 0, false_trip_count = 0\<rparr>"

definition trip :: "time \<Rightarrow> trip_reason \<Rightarrow> breaker \<Rightarrow> breaker" where
  "trip now why b = b\<lparr>tripped := True, tripped_at := now, reason := why\<rparr>"

definition close_breaker :: "breaker \<Rightarrow> breaker" where
  "close_breaker b = b\<lparr>tripped := False, tripped_at := 0, reason := NoReason, bad_count := 0\<rparr>"

definition mean :: "rat list \<Rightarrow> rat" where
  "mean xs = sum_list xs / of_nat (length xs)"

definition bad_audits :: "rat list \<Rightarrow> rat list \<Rightarrow> nat" where
  "bad_audits hs es = length (filter (\<lambda>(h, e). h > 4/10 \<or> e < 5/10) (zip hs es))"

text \<open>\<open>_check_trip\<close> on a breaker that is closed: the reason to trip, if there is one.\<close>

definition trip_cause :: "breaker \<Rightarrow> trip_reason option" where
  "trip_cause b =
     (let recent_h = keep_last 10 (risk_trend b); recent_e = keep_last 10 (completeness_trend b);
          avg_risk = mean recent_h;
          avg_completeness = (if recent_e = [] then 1 else mean recent_e);
          bad = bad_audits recent_h recent_e
      in if int (audit_count b) < warmup_audits b then None
         else if recent_h = [] then None
         else if avg_risk > max_risk b then Some (RiskTooHigh avg_risk (max_risk b))
         else if avg_completeness < min_completeness b
         then Some (CompletenessTooLow avg_completeness (min_completeness b))
         else if int bad \<ge> consecutive_bad b then Some (BadAudits bad)
         else None)"

definition check_trip :: "time \<Rightarrow> breaker \<Rightarrow> breaker" where
  "check_trip now b =
     (if tripped b then
        (if now - tripped_at b > cooldown_seconds b then close_breaker b else b)
      else (case trip_cause b of Some why \<Rightarrow> trip now why b | None \<Rightarrow> b))"

definition record_audit_result :: "time \<Rightarrow> rat \<Rightarrow> rat \<Rightarrow> breaker \<Rightarrow> breaker" where
  "record_audit_result now risk completeness b =
     (let hs = keep_last 100 (risk_trend b @ [risk]);
          es = keep_last 100 (completeness_trend b @ [completeness]);
          recent = keep_last 20 hs
      in check_trip now (b\<lparr>audit_count := audit_count b + 1, risk_trend := hs, completeness_trend := es,
           anomaly_rate := of_nat (length (filter (\<lambda>r. r > 3/10) recent)) / of_nat (max (length recent) 1)\<rparr>))"

definition record_na :: "string \<Rightarrow> breaker \<Rightarrow> breaker" where
  "record_na note b = b\<lparr>audit_count := audit_count b + 1, na_count := na_count b + 1, na_note := note\<rparr>"

definition reset_breaker :: "breaker \<Rightarrow> breaker" where
  "reset_breaker b = (if tripped b then close_breaker b else b)"

text \<open>
  \<open>update_thresholds\<close>: each threshold that is given; a count is cut to an integer.
\<close>

definition to_int :: "rat \<Rightarrow> int" where
  "to_int x = (if x < 0 then - floor (- x) else floor x)"

definition update_thresholds ::
  "rat option \<Rightarrow> rat option \<Rightarrow> rat option \<Rightarrow> rat option \<Rightarrow> rat option \<Rightarrow> breaker \<Rightarrow> breaker" where
  "update_thresholds mr mc cb wu cs b =
     b\<lparr>max_risk := (case mr of Some x \<Rightarrow> x | None \<Rightarrow> max_risk b),
       min_completeness := (case mc of Some x \<Rightarrow> x | None \<Rightarrow> min_completeness b),
       consecutive_bad := (case cb of Some x \<Rightarrow> to_int x | None \<Rightarrow> consecutive_bad b),
       warmup_audits := (case wu of Some x \<Rightarrow> to_int x | None \<Rightarrow> warmup_audits b),
       cooldown_seconds := (case cs of Some x \<Rightarrow> x | None \<Rightarrow> cooldown_seconds b)\<rparr>"

definition record_decision :: "time \<Rightarrow> int \<Rightarrow> bool \<Rightarrow> breaker \<Rightarrow> breaker" where
  "record_decision now event was_tripped b =
     b\<lparr>decisions := keep_last 500 (decisions b @
         [\<lparr>cd_event = event, cd_tripped = was_tripped, cd_overridden = False, cd_time = now\<rparr>])\<rparr>"

text \<open>The first decision of the event that tripped is marked; the flag says that there is one.\<close>

fun mark_override :: "int \<Rightarrow> cad_decision list \<Rightarrow> bool \<times> cad_decision list" where
  "mark_override event [] = (False, [])"
| "mark_override event (d # ds) =
     (if cd_event d = event \<and> cd_tripped d then (True, d\<lparr>cd_overridden := True\<rparr> # ds)
      else (case mark_override event ds of (f, ds') \<Rightarrow> (f, d # ds')))"

definition record_override :: "int \<Rightarrow> breaker \<Rightarrow> breaker" where
  "record_override event b =
     (case mark_override event (decisions b) of
        (found, ds) \<Rightarrow> b\<lparr>override_count := override_count b + 1, decisions := ds,
            false_trip_count := false_trip_count b + (if found then 1 else 0)\<rparr>)"

record accuracy_stats =
  st_decisions :: nat
  st_trips :: nat
  st_overridden :: nat
  st_false_rate :: rat
  st_accuracy :: rat

definition breaker_accuracy :: "(rat \<Rightarrow> rat) \<Rightarrow> breaker \<Rightarrow> accuracy_stats" where
  "breaker_accuracy round4 b =
     (let trips = length (filter cd_tripped (decisions b));
          over = length (filter cd_overridden (decisions b));
          rate = of_nat over / of_nat (max trips 1)
      in \<lparr>st_decisions = length (decisions b), st_trips = trips, st_overridden = over,
          st_false_rate = round4 rate, st_accuracy = round4 (1 - rate)\<rparr>)"

record breaker_status =
  bs_tripped :: bool
  bs_tripped_at :: time
  bs_reason :: trip_reason
  bs_audits :: nat
  bs_risk :: rat
  bs_completeness :: rat
  bs_anomaly_rate :: rat
  bs_unverifiable :: nat
  bs_note :: string
  bs_thresholds :: "rat \<times> rat \<times> int \<times> int \<times> rat"
  bs_accuracy :: accuracy_stats

definition breaker_status :: "(rat \<Rightarrow> rat) \<Rightarrow> breaker \<Rightarrow> breaker_status" where
  "breaker_status round4 b =
     \<lparr>bs_tripped = tripped b, bs_tripped_at = tripped_at b, bs_reason = reason b,
      bs_audits = audit_count b,
      bs_risk = (if length (risk_trend b) \<ge> 10 then sum_list (keep_last 10 (risk_trend b)) / 10 else 0),
      bs_completeness = (if length (completeness_trend b) \<ge> 10
        then sum_list (keep_last 10 (completeness_trend b)) / 10 else 1),
      bs_anomaly_rate = anomaly_rate b, bs_unverifiable = na_count b, bs_note = na_note b,
      bs_thresholds = (max_risk b, min_completeness b, consecutive_bad b, warmup_audits b, cooldown_seconds b),
      bs_accuracy = breaker_accuracy round4 b\<rparr>"

section \<open>The audit of a finished pipeline\<close>

text \<open>
  What the supervisor reads of an audit: its evidence trail, whether it reports a threat or had
  rounds, and the text it would use for a claim of its own.
\<close>

record audit_data =
  ad_trail :: "evidence_item list"
  ad_threat :: bool
  ad_rounds :: bool
  ad_summary :: string

definition supervised_trail :: "audit_data \<Rightarrow> evidence_item list" where
  "supervised_trail a =
     (if ad_trail a \<noteq> [] then ad_trail a
      else if ad_threat a \<or> ad_rounds a
      then [\<lparr>ei_claim = take 100 (ad_summary a), ei_source = ''executor'', ei_ids = []\<rparr>] else [])"

record cad_report =
  cr_event :: int
  cr_total :: nat
  cr_verified :: nat
  cr_unverifiable :: nat
  cr_hallucinated :: nat
  cr_risk :: rat
  cr_completeness :: rat
  cr_high :: "verification_report list"
  cr_status :: breaker_status

definition count_verified :: "verification_report list \<Rightarrow> nat" where
  "count_verified rs = length (filter vr_verified rs)"

definition count_hallucinated :: "verification_report list \<Rightarrow> nat" where
  "count_hallucinated rs = length (filter (\<lambda>r. \<not> vr_verified r \<and> \<not> vr_unverifiable r) rs)"

definition audit_pipeline ::
  "(int \<Rightarrow> int option) \<Rightarrow> (rat \<Rightarrow> rat) \<Rightarrow> time \<Rightarrow> int \<Rightarrow> audit_data \<Rightarrow> breaker \<Rightarrow> cad_report \<times> breaker" where
  "audit_pipeline store round4 now event a b =
     (let trail = supervised_trail a;
          rs = verify_claims store trail;
          verified = count_verified rs;
          hallucinated = count_hallucinated rs;
          base = verified + hallucinated;
          risk = (if base \<noteq> 0 then of_nat hallucinated / of_nat base else 0);
          completeness = (if base \<noteq> 0 then of_nat verified / of_nat base else 0);
          b1 = (if base = 0 then record_na (if trail \<noteq> [] then ''single-source'' else ''empty audit'') b
                else record_audit_result now risk completeness b);
          report = \<lparr>cr_event = event, cr_total = base, cr_verified = verified,
            cr_unverifiable = length (filter vr_unverifiable rs), cr_hallucinated = hallucinated,
            cr_risk = round4 risk, cr_completeness = round4 completeness,
            cr_high = filter (\<lambda>r. \<not> vr_verified r \<and> vr_severity r \<in> {''high'', ''critical''}) rs,
            cr_status = breaker_status round4 b1\<rparr>
      in (report, record_decision now event (tripped b1) b1))"

section \<open>Evidence\<close>

text \<open>The event store answers an id with the event of this id or with nothing.\<close>

definition store_ok :: "(int \<Rightarrow> int option) \<Rightarrow> bool" where
  "store_ok store \<longleftrightarrow> (\<forall>i j. store i = Some j \<longrightarrow> j = i)"

lemma actual_ids: "set (List.map_filter store xs) = {j. \<exists>i \<in> set xs. store i = Some j}"
  by (force simp: List.map_filter_def)

lemma compared_ids:
  assumes "store_ok store"
  shows "set (List.map_filter store xs) - set xs = {}"
    and "set xs - set (List.map_filter store xs) = {i \<in> set xs. store i = None}"
proof -
  have "i \<in> set (List.map_filter store xs) \<longleftrightarrow> i \<in> set xs \<and> store i \<noteq> None" for i
    using assms by (auto simp: actual_ids store_ok_def)
  then show "set (List.map_filter store xs) - set xs = {}"
    "set xs - set (List.map_filter store xs) = {i \<in> set xs. store i = None}" by auto
qed

lemma found_verified:
  assumes "store_ok store" and "list_all (\<lambda>i. store i \<noteq> None) (ei_ids item)" and "ei_ids item \<noteq> []"
  shows "vr_verified (verify_claim store item)"
proof -
  have "{i \<in> set (ei_ids item). store i = None} = {}"
    using assms(2) by (auto simp: list_all_iff)
  then show ?thesis
    using assms(3) unfolding verify_claim_def Let_def compared_ids [OF assms(1)] by simp
qed

text \<open>
  A claim passes exactly when it cites evidence and every cited event exists; then nothing is
  left open, and a claim that cites a missing event is of high severity and names the missing ids.
  What the events say is not compared.
\<close>

theorem claim_verified_iff:
  assumes "store_ok store"
  shows "(vr_verified (verify_claim store item) \<longleftrightarrow>
      ei_ids item \<noteq> [] \<and> list_all (\<lambda>i. store i \<noteq> None) (ei_ids item)) \<and>
    (ei_ids item = [] \<or> vr_verified (verify_claim store item) \<or>
      vr_severity (verify_claim store item) = ''high'' \<and>
      vr_discrepancy (verify_claim store item) =
        Differs (sorted_list_of_set {i \<in> set (ei_ids item). store i = None}) [])"
proof (cases "ei_ids item = []")
  case False
  have "sorted_list_of_set {i \<in> set (ei_ids item). store i = None} = [] \<longleftrightarrow>
      list_all (\<lambda>i. store i \<noteq> None) (ei_ids item)"
    by (subst sorted_list_of_set_eq_Nil_iff) (auto simp: list_all_iff)
  with False show ?thesis
    unfolding verify_claim_def Let_def compared_ids [OF assms]
    by (simp del: sorted_list_of_set_eq_Nil_iff)
qed (simp add: verify_claim_def)

section \<open>The breaker\<close>

definition cad_bounds :: "breaker \<Rightarrow> bool" where
  "cad_bounds b \<longleftrightarrow>
     length (risk_trend b) = length (completeness_trend b) \<and> length (risk_trend b) \<le> 100 \<and>
     length (risk_trend b) \<le> audit_count b \<and>
     0 \<le> anomaly_rate b \<and> anomaly_rate b \<le> 1 \<and> length (decisions b) \<le> 500 \<and>
     list_all (\<lambda>d. cd_overridden d \<longrightarrow> cd_tripped d) (decisions b)"

datatype cad_op = Audit time int audit_data | ResetBreaker | Override int
  | Thresholds "rat option" "rat option" "rat option" "rat option" "rat option"

fun cad_step :: "(int \<Rightarrow> int option) \<Rightarrow> cad_op \<Rightarrow> breaker \<Rightarrow> breaker" where
  "cad_step store (Audit now event a) b = snd (audit_pipeline store (\<lambda>x. x) now event a b)"
| "cad_step store ResetBreaker b = reset_breaker b"
| "cad_step store (Override event) b = record_override event b"
| "cad_step store (Thresholds mr mc cb wu cs) b = update_thresholds mr mc cb wu cs b"

definition cad_run :: "(int \<Rightarrow> int option) \<Rightarrow> cad_op list \<Rightarrow> breaker \<Rightarrow> breaker" where
  "cad_run store ops b = fold (cad_step store) ops b"

lemma bounds_close: "cad_bounds b \<Longrightarrow> cad_bounds (close_breaker b)"
  by (simp add: cad_bounds_def close_breaker_def)

lemma bounds_check: "cad_bounds b \<Longrightarrow> cad_bounds (check_trip now b)"
  unfolding check_trip_def
  by (auto simp: bounds_close split: option.split) (simp add: trip_def cad_bounds_def)

lemma rate_unit: "0 \<le> (of_nat (length (filter P xs)) / of_nat (max (length xs) 1) :: rat) \<and>
  (of_nat (length (filter P xs)) / of_nat (max (length xs) 1) :: rat) \<le> 1"
proof -
  have "length (filter P xs) \<le> max (length xs) 1"
    using length_filter_le [of P xs] by linarith
  then show ?thesis by (simp add: divide_le_eq_1)
qed

lemma bounds_trend:
  "cad_bounds b \<Longrightarrow> 0 \<le> q \<Longrightarrow> q \<le> 1 \<Longrightarrow>
   cad_bounds (b\<lparr>audit_count := audit_count b + 1, risk_trend := keep_last 100 (risk_trend b @ [r]),
     completeness_trend := keep_last 100 (completeness_trend b @ [c]), anomaly_rate := q\<rparr>)"
  by (auto simp: cad_bounds_def)

lemma bounds_record: "cad_bounds b \<Longrightarrow> cad_bounds (record_audit_result now r c b)"
  unfolding record_audit_result_def Let_def
  by (intro bounds_check bounds_trend rate_unit [THEN conjunct1] rate_unit [THEN conjunct2])

lemma bounds_decision: "cad_bounds b \<Longrightarrow> cad_bounds (record_decision now e t b)"
  by (auto simp: cad_bounds_def record_decision_def list_all_iff keep_last_def dest: in_set_dropD)

lemma bounds_na: "cad_bounds b \<Longrightarrow> cad_bounds (record_na note b)"
  by (simp add: cad_bounds_def record_na_def)

lemma mark_override_ok:
  "length (snd (mark_override e ds)) = length ds \<and>
   (list_all (\<lambda>d. cd_overridden d \<longrightarrow> cd_tripped d) ds \<longrightarrow>
     list_all (\<lambda>d. cd_overridden d \<longrightarrow> cd_tripped d) (snd (mark_override e ds)))"
  by (induction ds) (auto simp: case_prod_unfold)

lemma bounds_override: "cad_bounds b \<Longrightarrow> cad_bounds (record_override e b)"
  using mark_override_ok [of e "decisions b"]
  by (simp add: cad_bounds_def record_override_def case_prod_unfold)

lemma bounds_step: "cad_bounds b \<Longrightarrow> cad_bounds (cad_step store op b)"
proof (cases op)
  case (Audit now e a)
  then show "cad_bounds b \<Longrightarrow> ?thesis"
    by (simp add: audit_pipeline_def Let_def bounds_decision bounds_na bounds_record)
next
  case (Thresholds mr mc cb wu cs)
  then show "cad_bounds b \<Longrightarrow> ?thesis" by (simp add: update_thresholds_def cad_bounds_def)
qed (simp_all add: reset_breaker_def bounds_close bounds_override)

lemma bounds_run: "cad_bounds b \<Longrightarrow> cad_bounds (cad_run store ops b)"
  unfolding cad_run_def by (induction ops arbitrary: b) (simp_all add: bounds_step)

lemma bounds_new: "cad_bounds (new_breaker mr mc cb wu cs)"
  by (simp add: cad_bounds_def new_breaker_def)

lemma overridden_le_trips:
  "list_all (\<lambda>d. cd_overridden d \<longrightarrow> cd_tripped d) ds \<Longrightarrow>
   length (filter cd_overridden ds) \<le> length (filter cd_tripped ds)"
  by (rule filter_length_mono) (simp add: list_all_iff)

text \<open>
  Over any run of audits, resets, overrides and new thresholds the trends hold at most 100
  audits, the anomaly rate and the accuracy the supervisor reports of itself lie between 0 and 1,
  and no more decisions are overridden than tripped.
\<close>

theorem breaker_bounds:
  fixes ops :: "cad_op list"
  shows "let b = cad_run store ops (new_breaker mr mc cb wu cs); s = breaker_accuracy (\<lambda>x. x) b in
    length (risk_trend b) \<le> 100 \<and> length (completeness_trend b) = length (risk_trend b) \<and>
    0 \<le> anomaly_rate b \<and> anomaly_rate b \<le> 1 \<and> st_overridden s \<le> st_trips s \<and>
    0 \<le> st_accuracy s \<and> st_accuracy s \<le> 1"
proof -
  let ?b = "cad_run store ops (new_breaker mr mc cb wu cs)"
  have ok: "cad_bounds ?b" by (rule bounds_run [OF bounds_new])
  then have le: "length (filter cd_overridden (decisions ?b)) \<le> length (filter cd_tripped (decisions ?b))"
    by (intro overridden_le_trips) (simp add: cad_bounds_def)
  then have "(of_nat (length (filter cd_overridden (decisions ?b))) :: rat) \<le>
      of_nat (max (length (filter cd_tripped (decisions ?b))) 1)"
    by (simp only: of_nat_le_iff max.coboundedI1)
  then have "of_nat (length (filter cd_overridden (decisions ?b))) /
      of_nat (max (length (filter cd_tripped (decisions ?b))) 1) \<le> (1 :: rat)"
    by (simp add: divide_le_eq_1)
  with ok le show ?thesis
    by (simp add: Let_def cad_bounds_def breaker_accuracy_def del: of_nat_max)
qed

section \<open>When the breaker trips\<close>

lemma sum_list_zero: "list_all (\<lambda>x. x = (0 :: rat)) xs \<Longrightarrow> sum_list xs = 0"
  by (induction xs) auto

lemma mean_const: "xs \<noteq> [] \<Longrightarrow> list_all (\<lambda>x. x = c) xs \<Longrightarrow> mean xs = c"
proof -
  have "list_all (\<lambda>x. x = c) xs \<Longrightarrow> sum_list xs = of_nat (length xs) * c" for xs :: "rat list"
    by (induction xs) (auto simp: algebra_simps)
  then show "xs \<noteq> [] \<Longrightarrow> list_all (\<lambda>x. x = c) xs \<Longrightarrow> ?thesis"
    by (simp add: mean_def)
qed

lemma list_all_keep_last: "list_all P xs \<Longrightarrow> list_all P (keep_last n xs)"
  by (auto simp: keep_last_def list_all_iff dest: in_set_dropD)

text \<open>A breaker all of whose audits found every citation real, with thresholds that make sense.\<close>

definition spotless :: "breaker \<Rightarrow> bool" where
  "spotless b \<longleftrightarrow> \<not> tripped b \<and> list_all (\<lambda>x. x = 0) (risk_trend b) \<and>
     list_all (\<lambda>x. x = 1) (completeness_trend b) \<and>
     0 \<le> max_risk b \<and> min_completeness b \<le> 1 \<and> 1 \<le> consecutive_bad b"

lemma spotless_no_cause:
  assumes "spotless b"
  shows "trip_cause b = None"
proof -
  let ?h = "keep_last 10 (risk_trend b)" and ?e = "keep_last 10 (completeness_trend b)"
  have h: "list_all (\<lambda>x. x = 0) ?h" and e: "list_all (\<lambda>x. x = 1) ?e"
    using assms by (simp_all add: spotless_def list_all_keep_last)
  have "\<And>p. p \<in> set (zip ?h ?e) \<Longrightarrow> fst p = 0 \<and> snd p = 1"
    using h e by (auto simp: list_all_iff dest: set_zip_leftD set_zip_rightD)
  then have "bad_audits ?h ?e = 0"
    by (auto simp: bad_audits_def filter_empty_conv case_prod_unfold)
  moreover have "?h \<noteq> [] \<Longrightarrow> mean ?h = 0" "?e \<noteq> [] \<Longrightarrow> mean ?e = 1"
    using mean_const h e by blast+
  ultimately show ?thesis
    using assms by (auto simp: trip_cause_def Let_def spotless_def)
qed

lemma spotless_record:
  assumes "spotless b"
  shows "spotless (record_audit_result now 0 1 b)"
proof -
  let ?b = "\<lambda>r. b\<lparr>audit_count := audit_count b + 1, risk_trend := keep_last 100 (risk_trend b @ [0]),
      completeness_trend := keep_last 100 (completeness_trend b @ [1]), anomaly_rate := r\<rparr>"
  have s: "spotless (?b r)" for r
    using assms by (auto simp: spotless_def intro!: list_all_keep_last)
  have "check_trip now (?b r) = ?b r" for r
    using spotless_no_cause [OF s] s [of r] by (simp add: check_trip_def spotless_def)
  then show ?thesis using s by (simp add: record_audit_result_def Let_def)
qed

text \<open>Every event an audit cites exists.\<close>

definition cites_real :: "(int \<Rightarrow> int option) \<Rightarrow> cad_op \<Rightarrow> bool" where
  "cites_real store op \<longleftrightarrow>
     (case op of Audit now e a \<Rightarrow> list_all (\<lambda>item. list_all (\<lambda>i. store i \<noteq> None) (ei_ids item)) (ad_trail a)
      | ResetBreaker \<Rightarrow> True | Override e \<Rightarrow> True | Thresholds mr mc cb wu cs \<Rightarrow> False)"

lemma uncited_unverifiable: "ei_ids item = [] \<Longrightarrow> vr_unverifiable (verify_claim store item)"
  by (simp add: verify_claim_def)

lemma no_hallucination:
  assumes "store_ok store"
    and "list_all (\<lambda>item. list_all (\<lambda>i. store i \<noteq> None) (ei_ids item)) (ad_trail a)"
  shows "count_hallucinated (verify_claims store (supervised_trail a)) = 0"
proof -
  have "vr_verified (verify_claim store item) \<or> vr_unverifiable (verify_claim store item)"
    if "list_all (\<lambda>i. store i \<noteq> None) (ei_ids item)" for item
    using found_verified [OF assms(1) that] uncited_unverifiable [of item store] by blast
  then show ?thesis
    using assms(2)
    by (auto simp: count_hallucinated_def verify_claims_def supervised_trail_def filter_empty_conv list_all_iff)
qed

lemma spotless_audit:
  assumes "store_ok store" and "cites_real store (Audit now e a)" and "spotless b"
  shows "spotless (snd (audit_pipeline store r4 now e a b))"
proof -
  have none: "count_hallucinated (verify_claims store (supervised_trail a)) = 0"
    using no_hallucination [OF assms(1)] assms(2) by (simp add: cites_real_def)
  have "spotless (record_na n b)" for n
    using assms(3) by (simp add: spotless_def record_na_def)
  moreover have "spotless (record_decision t i w c) = spotless c" for t i w c
    by (simp add: spotless_def record_decision_def)
  ultimately show ?thesis
    using spotless_record [OF assms(3)] by (simp add: audit_pipeline_def Let_def none)
qed

text \<open>
  C26. Audits that cite only existing events, or none at all, never trip the breaker, however many
  there are and however they are mixed with resets and overrides.
\<close>

theorem honest_audits_never_trip:
  assumes "store_ok store" and "list_all (cites_real store) ops"
    and "0 \<le> mr" and "mc \<le> 1" and "1 \<le> cb"
  shows "\<not> tripped (cad_run store ops (new_breaker mr mc cb wu cs))"
proof -
  have "spotless (cad_run store ops b)" if "spotless b" for b
    using assms(2) that
  proof (induction ops arbitrary: b)
    case (Cons op ops)
    have "spotless (cad_step store op b)"
      using Cons.prems spotless_audit [OF assms(1)]
      by (cases op) (auto simp: cites_real_def reset_breaker_def spotless_def record_override_def
          case_prod_unfold)
    with Cons show ?case by (simp add: cad_run_def)
  qed (simp add: cad_run_def)
  moreover have "spotless (new_breaker mr mc cb wu cs)"
    using assms(3-5) by (simp add: spotless_def new_breaker_def)
  ultimately show ?thesis by (auto simp: spotless_def)
qed

text \<open>
  After the warm-up a breaker that is closed opens at an audit exactly when the average risk of
  the last ten audits is above its maximum, their average completeness is below its minimum, or
  enough of them were bad; the audit counted last is the present one.
\<close>

theorem breaker_trips_iff:
  assumes "\<not> tripped b" and "warmup_audits b \<le> int (audit_count b) + 1"
  shows "tripped (record_audit_result now risk completeness b) \<longleftrightarrow>
    (let hs = keep_last 10 (risk_trend b @ [risk]); es = keep_last 10 (completeness_trend b @ [completeness])
     in mean hs > max_risk b \<or> mean es < min_completeness b \<or>
        int (length (filter (\<lambda>(h, e). h > 4/10 \<or> e < 5/10) (zip hs es))) \<ge> consecutive_bad b)"
proof -
  have twice: "keep_last 10 (keep_last 100 xs) = keep_last 10 xs" for xs :: "rat list"
    by (cases "100 \<le> length xs") (simp_all add: keep_last_def)
  have ne: "keep_last 10 (xs @ [x]) \<noteq> []" for xs :: "rat list" and x
    by (simp add: keep_last_def)
  show ?thesis
    using assms
    by (auto simp: record_audit_result_def Let_def check_trip_def trip_cause_def trip_def twice ne
        bad_audits_def split: option.split)
qed

text \<open>
  The check after the cooldown closes the breaker and looks no further; the trends stay.  So the
  first audit after the cooldown never keeps it open, and the next one opens it again when the
  audits before the pause still weigh enough: there is no half-open state.
\<close>

lemma cooldown_closes:
  assumes "tripped b" and "now - tripped_at b > cooldown_seconds b"
  shows "\<not> tripped (record_audit_result now risk completeness b) \<and>
    risk_trend (record_audit_result now risk completeness b) = keep_last 100 (risk_trend b @ [risk])"
  using assms by (simp add: record_audit_result_def check_trip_def close_breaker_def Let_def)

text \<open>Before its time has come an open breaker stays open, whatever the audits find.\<close>

lemma open_until_cooldown:
  assumes "tripped b" and "now - tripped_at b \<le> cooldown_seconds b"
  shows "tripped (record_audit_result now risk completeness b)"
  using assms by (simp add: record_audit_result_def check_trip_def Let_def)

section \<open>Concrete audits\<close>

definition demo_breaker :: breaker where
  "demo_breaker = new_breaker (5/10) (3/10) 5 10 300"

definition demo_lookup :: "int \<Rightarrow> int option" where
  "demo_lookup i = (if i \<in> {1, 2, 3} then Some i else None)"

definition citing :: "int list \<Rightarrow> audit_data" where
  "citing ids = \<lparr>ad_trail = [\<lparr>ei_claim = ''scan'', ei_source = ''executor'', ei_ids = ids\<rparr>],
     ad_threat = True, ad_rounds = True, ad_summary = ''scan''\<rparr>"

lemma demo_lookup_ok: "store_ok demo_lookup"
  by (auto simp: store_ok_def demo_lookup_def split: if_splits)

lemma claim_verified_iff_witness:
  "vr_verified (verify_claim demo_lookup \<lparr>ei_claim = ''a'', ei_source = ''e'', ei_ids = [1, 3]\<rparr>) \<and>
   \<not> vr_verified (verify_claim demo_lookup \<lparr>ei_claim = ''a'', ei_source = ''e'', ei_ids = [1, 9]\<rparr>)"
  by (simp add: claim_verified_iff [OF demo_lookup_ok] demo_lookup_def)

lemma honest_audits_never_trip_witness:
  "\<not> tripped (cad_run demo_lookup [Audit 1 1 (citing [1, 2]), Audit 2 2 (citing []), Override 2] demo_breaker)"
  unfolding demo_breaker_def
  by (rule honest_audits_never_trip [OF demo_lookup_ok])
    (simp_all add: cites_real_def citing_def demo_lookup_def)

text \<open>
  Ten audits of which every second one was bad: five bad ones, none after another, are the five
  \<open>consecutive\<close> ones, and the breaker trips although the average risk is at its maximum and the
  completeness above its minimum.
\<close>

definition demo_scattered :: breaker where
  "demo_scattered = demo_breaker\<lparr>audit_count := 9, risk_trend := [1, 0, 1, 0, 1, 0, 1, 0, 1],
     completeness_trend := [0, 1, 0, 1, 0, 1, 0, 1, 0]\<rparr>"

lemma breaker_trips_iff_witness:
  "tripped (record_audit_result 1 0 1 demo_scattered) \<and>
   reason (record_audit_result 1 0 1 demo_scattered) = BadAudits 5"
proof
  have "warmup_audits demo_scattered \<le> int (audit_count demo_scattered) + 1" "\<not> tripped demo_scattered"
    by (simp_all add: demo_scattered_def demo_breaker_def new_breaker_def)
  then show "tripped (record_audit_result 1 0 1 demo_scattered)"
    by (simp add: breaker_trips_iff)
      (simp add: demo_scattered_def demo_breaker_def new_breaker_def keep_last_def mean_def)
qed code_simp

end
