(* ===== verification/HttpGuards.thy ===== *)
theory HttpGuards
  imports IpAddress Admission
begin

text \<open>
  What a request to the web API meets before its route: the limiter of requests
  (\<open>rate_limit_middleware\<close> of \<open>src/backend/app.py\<close>, outermost) and the lists of sources
  (\<open>src/backend/http_guards.py\<close>).  A header is looked up under its lower-case name and is
  empty where the request has none.  The store of the limiter, a \<open>defaultdict(list)\<close>, is a total
  function: a key that is not there has the empty list.
\<close>

section \<open>Requests and settings\<close>

record request =
  rq_path :: string
  rq_method :: string
  rq_header :: "string \<Rightarrow> string"
  rq_client :: "string option"
  rq_query_token :: "string option"

record http_settings =
  extra_whitelist :: string
  per_minute :: int
  trust_proxy :: bool
  api_allowlist :: string
  allow_loopback :: bool
  service_token :: string
  mtls_enforce :: bool

section \<open>Which requests count\<close>

definition CRITICAL_PREFIXES :: "string list" where
  "CRITICAL_PREFIXES =
     [''/api/response/execute'', ''/api/response/rollback'', ''/api/response/simulate'',
      ''/api/response/approvals'', ''/api/firewall'']"

definition RATE_LIMIT_WHITELIST :: "string list" where
  "RATE_LIMIT_WHITELIST =
     [''/api/health'', ''/docs'', ''/redoc'', ''/openapi.json'', ''/metrics'', ''/api/auth'',
      ''/api/llm'', ''/api/feedback'', ''/api/rag'', ''/api/eval'', ''/api/firewall'',
      ''/api/response'', ''/api/logs'', ''/api/memories'', ''/api/stats'', ''/api/tree'',
      ''/api/window'', ''/api/summary'', ''/api/context'', ''/api/events'', ''/api/chat'',
      ''/api/audit-llm'', ''/api/audit-trail'', ''/api/cad'', ''/api/sigma'', ''/api/causal'',
      ''/api/guard'', ''/api/agent-traces'', ''/api/observability'', ''/api/security'',
      ''/api/security-guard'', ''/api/cases'', ''/api/work-orders'', ''/api/post-mortems'',
      ''/api/ops'', ''/api/rules'', ''/api/learn-loop'', ''/api/sources'', ''/api/kafka'',
      ''/api/cep'', ''/api/pipeline'', ''/api/assets'', ''/api/ndr'', ''/api/edr'',
      ''/api/intel'', ''/api/sandbox'', ''/api/phishing'', ''/api/llm-enhancer'',
      ''/api/data-security'', ''/api/self-play'', ''/api/capabilities'']"

text \<open>The prefixes that always count, with the methods that do (\<open>None\<close> is every method).\<close>

definition RATE_LIMIT_FORCED :: "(string \<times> string list option) list" where
  "RATE_LIMIT_FORCED =
     [(''/api/response/execute'', None), (''/api/response/rollback'', None),
      (''/api/response/clear-cooldowns'', Some [''POST'']),
      (''/api/response/approvals'', Some [''POST'']),
      (''/api/response/policies'', Some [''POST'', ''PUT'', ''DELETE'', ''PATCH'']),
      (''/api/firewall/connect'', None), (''/api/firewall/rollback-all'', None),
      (''/api/guard/call'', None), (''/api/guard/calls/flush'', Some [''POST'']),
      (''/api/logs/ingest'', None), (''/api/logs/analyze'', None),
      (''/api/logs/reset-stuck'', Some [''POST'']),
      (''/api/rules'', Some [''POST'', ''PUT'', ''DELETE'', ''PATCH'']),
      (''/api/learn-loop/run'', None), (''/api/learn-loop/actions'', Some [''POST'']),
      (''/api/cad/audit-context'', Some [''POST'']),
      (''/api/cad/circuit-breaker/reset'', Some [''POST'']),
      (''/api/cad/thresholds'', Some [''PUT'']), (''/api/cad/override'', Some [''POST'']),
      (''/api/security/review'', Some [''POST'']), (''/api/causal/query'', Some [''POST'']),
      (''/api/causal/learn'', Some [''POST'']), (''/api/cep/replay'', Some [''POST'']),
      (''/api/intel/match'', Some [''POST'']), (''/api/sandbox/submit'', Some [''POST'']),
      (''/api/assets/discovery'', Some [''POST'']),
      (''/api/self-play/matches'', Some [''POST'']),
      (''/api/self-play/review/run'', Some [''POST'']),
      (''/api/phishing/detect'', Some [''POST'']), (''/api/sources/register'', Some [''POST'']),
      (''/api/sources/revoke'', Some [''POST''])]"

definition under :: "string \<Rightarrow> string \<Rightarrow> bool" where
  "under path p \<longleftrightarrow> path = p \<or> starts_with (p @ ''/'') path"

definition match_any :: "string \<Rightarrow> string list \<Rightarrow> bool" where
  "match_any path prefixes \<longleftrightarrow> list_ex (under path) prefixes"

definition extra_prefixes :: "string \<Rightarrow> string list" where
  "extra_prefixes raw =
     List.map strip (filter (\<lambda>item. strip item \<noteq> []) (split_on CHR '','' raw))"

definition is_rate_limit_whitelisted :: "http_settings \<Rightarrow> string \<Rightarrow> bool" where
  "is_rate_limit_whitelisted cfg path \<longleftrightarrow>
     match_any path RATE_LIMIT_WHITELIST \<or> match_any path (extra_prefixes (extra_whitelist cfg))"

text \<open>The loop of \<open>is_rate_limit_forced\<close>: the longest match so far and whether there is one.\<close>

definition forced_turn ::
  "string \<Rightarrow> string \<Rightarrow> string \<times> string list option \<Rightarrow> int \<times> bool \<Rightarrow> int \<times> bool"
where
  "forced_turn path m entry best =
     (case entry of (prefix, methods) \<Rightarrow>
        if under path prefix then
          (if methods \<noteq> None \<and> m \<notin> set (the methods) then best
           else if int (length prefix) > fst best then (int (length prefix), True) else best)
        else best)"

definition is_rate_limit_forced :: "string \<Rightarrow> string \<Rightarrow> bool" where
  "is_rate_limit_forced path rmethod =
     snd (fold (forced_turn path (upper rmethod)) RATE_LIMIT_FORCED (- 1, False))"

definition rate_limit_decision :: "http_settings \<Rightarrow> string \<Rightarrow> string \<Rightarrow> bool \<times> string option" where
  "rate_limit_decision cfg path rmethod =
     (if is_rate_limit_forced path rmethod then (True, Some ''crit'')
      else if is_rate_limit_whitelisted cfg path then (False, None)
      else (True, Some ''std''))"

section \<open>The limiter\<close>

definition rate_limit_key :: "request \<Rightarrow> string" where
  "rate_limit_key rq =
     (let api_key = strip (rq_header rq ''x-api-key'');
          authz = strip (rq_header rq ''authorization'');
          token = strip (drop 7 authz);
          xff = strip (rq_header rq ''x-forwarded-for'');
          first_ip = strip (hd (split_on CHR '','' xff));
          host = ''ip:'' @ (case rq_client rq of Some h \<Rightarrow> h | None \<Rightarrow> ''unknown'')
      in if api_key \<noteq> [] then ''key:'' @ take 32 api_key
         else if starts_with ''bearer '' (lower authz) \<and> token \<noteq> [] then ''key:'' @ take 32 token
         else if xff \<noteq> [] \<and> first_ip \<noteq> [] then ''ip:'' @ take 64 first_ip
         else host)"

definition rate_limit_bucket :: "http_settings \<Rightarrow> request \<Rightarrow> (string \<times> string) option" where
  "rate_limit_bucket cfg rq =
     (case rate_limit_decision cfg (rq_path rq) (rq_method rq) of
        (counted, namespace) \<Rightarrow>
          if \<not> counted then None
          else (case namespace of
                  Some ns \<Rightarrow> Some (ns @ '':'' @ rate_limit_key rq, ns)
                | None \<Rightarrow> None))"

record http_limiter =
  rl_store :: "string \<Rightarrow> time list"
  rl_cleanup :: time

definition new_http_limiter :: http_limiter where
  "new_http_limiter = \<lparr>rl_store = (\<lambda>_. []), rl_cleanup = 0\<rparr>"

definition HTTP_WINDOW :: time where
  "HTTP_WINDOW = 60"

definition CLEANUP_INTERVAL :: time where
  "CLEANUP_INTERVAL = 300"

definition drop_stale :: "time \<Rightarrow> (string \<Rightarrow> time list) \<Rightarrow> string \<Rightarrow> time list" where
  "drop_stale now f k = (if f k = [] \<or> last (f k) < now - HTTP_WINDOW then [] else f k)"

text \<open>
  The middleware: whether the request goes on, and the namespace of a refusal (status 429).
\<close>

datatype admission_answer = GoesOn | TooMany string

definition count_request :: "int \<Rightarrow> time \<Rightarrow> string \<times> string \<Rightarrow> http_limiter \<Rightarrow> admission_answer \<times> http_limiter" where
  "count_request limit now bucket l =
     (let l1 = (if now - rl_cleanup l > CLEANUP_INTERVAL
                then \<lparr>rl_store = drop_stale now (rl_store l), rl_cleanup = now\<rparr> else l);
          recent = filter (\<lambda>t. t > now - HTTP_WINDOW) (rl_store l1 (fst bucket));
          l2 = l1\<lparr>rl_store := (rl_store l1)(fst bucket := recent)\<rparr>
      in if int (length recent) \<ge> limit then (TooMany (snd bucket), l2)
         else (GoesOn, l2\<lparr>rl_store := (rl_store l2)(fst bucket := recent @ [now])\<rparr>))"

definition rate_limit_middleware ::
  "http_settings \<Rightarrow> time \<Rightarrow> request \<Rightarrow> http_limiter \<Rightarrow> admission_answer \<times> http_limiter"
where
  "rate_limit_middleware cfg now rq l =
     (case rate_limit_bucket cfg rq of
        None \<Rightarrow> (GoesOn, l)
      | Some bucket \<Rightarrow>
          if per_minute cfg \<le> 0 then (GoesOn, l) else count_request (per_minute cfg) now bucket l)"

section \<open>Sources\<close>

text \<open>An entry that is no address or network is passed over.\<close>

definition parse_allowlist :: "string \<Rightarrow> ip_network list" where
  "parse_allowlist raw =
     List.map_filter (\<lambda>part.
       let item = strip part in
       if item = [] then None
       else if CHR ''/'' \<in> set item then ip_network_of item
       else ip_network_of (item @ (if CHR '':'' \<in> set item then ''/128'' else ''/32'')))
     (split_on CHR '','' raw)"

definition client_ip :: "http_settings \<Rightarrow> request \<Rightarrow> string" where
  "client_ip cfg rq =
     (let xff = strip (hd (split_on CHR '','' (rq_header rq ''x-forwarded-for'')))
      in if trust_proxy cfg \<and> xff \<noteq> [] then xff
         else (case rq_client rq of Some h \<Rightarrow> h | None \<Rightarrow> []))"

fun is_loopback :: "ip_addr \<Rightarrow> bool" where
  "is_loopback (IPv4 a) = in_network (IPv4 a) (network4 (127 * 2 ^ 24) 8)"
| "is_loopback (IPv6 a scope) = (a = 1)"

definition ip_allowed :: "string \<Rightarrow> ip_network list \<Rightarrow> bool \<Rightarrow> bool" where
  "ip_allowed ip nets loop_ok =
     (if nets = [] then True
      else if ip = [] then False
      else case ip_address ip of
             None \<Rightarrow> False
           | Some addr \<Rightarrow> (loop_ok \<and> is_loopback addr) \<or> list_ex (in_network addr) nets)"

text \<open>The address a refusal names, or nothing.\<close>

definition allowlist_blocks :: "http_settings \<Rightarrow> request \<Rightarrow> string option" where
  "allowlist_blocks cfg rq =
     (if \<not> match_any (rq_path rq) CRITICAL_PREFIXES then None
      else let nets = parse_allowlist (api_allowlist cfg); ip = client_ip cfg rq in
        if nets = [] then None
        else if ip_allowed ip nets (allow_loopback cfg) then None
        else Some (if ip = [] then ''unknown'' else ip))"

definition service_token_ok :: "http_settings \<Rightarrow> request \<Rightarrow> bool" where
  "service_token_ok cfg rq \<longleftrightarrow>
     (let got = rq_header rq ''x-soc-service-token'' in
      service_token cfg \<noteq> [] \<and> length got = length (service_token cfg) \<and> got = service_token cfg)"

definition mtls_blocks :: "http_settings \<Rightarrow> request \<Rightarrow> bool" where
  "mtls_blocks cfg rq \<longleftrightarrow>
     mtls_enforce cfg \<and> upper (strip (rq_header rq ''x-ssl-client-verify'')) \<noteq> ''SUCCESS''"

section \<open>Which requests count, proved\<close>

definition forces :: "string \<Rightarrow> string \<Rightarrow> string \<times> string list option \<Rightarrow> bool" where
  "forces path m entry \<longleftrightarrow>
     under path (fst entry) \<and> (case snd entry of None \<Rightarrow> True | Some ms \<Rightarrow> m \<in> set ms)"

lemma forced_turn_cases:
  "forced_turn path m e best =
     (if forces path m e \<and> int (length (fst e)) > fst best then (int (length (fst e)), True) else best)"
  by (auto simp: forced_turn_def forces_def case_prod_unfold split: option.splits)

lemma forced_fold:
  "snd best \<or> fst best < 0 \<Longrightarrow>
   snd (fold (forced_turn path m) es best) \<longleftrightarrow> snd best \<or> list_ex (forces path m) es"
proof (induction es arbitrary: best)
  case (Cons e es)
  have "snd (forced_turn path m e best) \<or> fst (forced_turn path m e best) < 0"
    using Cons.prems by (auto simp: forced_turn_cases)
  moreover have "snd (forced_turn path m e best) \<longleftrightarrow> snd best \<or> forces path m e"
    using Cons.prems by (auto simp: forced_turn_cases)
  ultimately show ?case using Cons.IH by simp
qed simp

text \<open>
  The longest match decides nothing: a request is forced exactly when some entry matches its path
  and its method, whatever a longer entry says.
\<close>

lemma forced_iff:
  "is_rate_limit_forced path rmethod \<longleftrightarrow> list_ex (forces path (upper rmethod)) RATE_LIMIT_FORCED"
  by (simp add: is_rate_limit_forced_def forced_fold)

lemma login_not_counted:
  "rate_limit_decision cfg ''/api/auth/login'' rmethod = (False, None)"
  "rate_limit_decision cfg ''/api/auth/register'' rmethod = (False, None)"
  by (simp_all add: rate_limit_decision_def forced_iff RATE_LIMIT_FORCED_def forces_def under_def
      is_rate_limit_whitelisted_def match_any_def RATE_LIMIT_WHITELIST_def)

section \<open>The limiter without its clean-up\<close>

definition bucket_step ::
  "http_settings \<Rightarrow> time \<Rightarrow> request \<Rightarrow> (string \<Rightarrow> time list) \<Rightarrow> bool \<times> (string \<Rightarrow> time list)"
where
  "bucket_step cfg now rq f =
     (case rate_limit_bucket cfg rq of
        None \<Rightarrow> (True, f)
      | Some (k, ns) \<Rightarrow>
          let recent = in_window HTTP_WINDOW now (f k) in
          if int (length recent) \<ge> per_minute cfg then (False, f(k := recent))
          else (True, f(k := recent @ [now])))"

definition in_bucket :: "http_settings \<Rightarrow> string \<Rightarrow> request \<Rightarrow> bool" where
  "in_bucket cfg k rq \<longleftrightarrow> map_option fst (rate_limit_bucket cfg rq) = Some k"

lemma bucket_admission:
  "admission (\<lambda>f. f k) HTTP_WINDOW (nat (per_minute cfg)) (bucket_step cfg) (in_bucket cfg k)"
  by unfold_locales
    (auto simp: HTTP_WINDOW_def bucket_step_def in_bucket_def Let_def count_window_def window_simps
      split: option.splits prod.splits if_splits)

lemma recent_in_window: "filter (\<lambda>t. t > now - HTTP_WINDOW) ts = in_window HTTP_WINDOW now ts"
  unfolding in_window_def by (rule filter_cong) auto

text \<open>The store and the one that is never cleaned show the same windows from now on.\<close>

definition same_windows :: "time \<Rightarrow> http_limiter \<Rightarrow> (string \<Rightarrow> time list) \<Rightarrow> bool" where
  "same_windows cur l f \<longleftrightarrow>
     (\<forall>k. sorted (rl_store l k) \<and> (\<forall>t \<in> set (rl_store l k). t \<le> cur) \<and>
        (\<forall>now \<ge> cur. in_window HTTP_WINDOW now (rl_store l k) = in_window HTTP_WINDOW now (f k)))"

lemma sorted_last: "sorted ts \<Longrightarrow> t \<in> set ts \<Longrightarrow> t \<le> last (ts :: time list)"
  by (induction ts) auto

lemma stale_window:
  assumes "sorted ts" and "last ts < now - HTTP_WINDOW" and "now \<le> later"
  shows "in_window HTTP_WINDOW later ts = []"
  using sorted_last [OF assms(1)] assms(2,3) by (fastforce simp: in_window_def filter_empty_conv)

lemma same_later: "same_windows cur l f \<Longrightarrow> cur \<le> now \<Longrightarrow> same_windows now l f"
  unfolding same_windows_def by fastforce

lemma drop_stale_same:
  assumes "same_windows now l f"
  shows "same_windows now (l\<lparr>rl_store := drop_stale now (rl_store l), rl_cleanup := c\<rparr>) f"
proof -
  have "in_window HTTP_WINDOW later (drop_stale now (rl_store l) k) =
      in_window HTTP_WINDOW later (rl_store l k)" if "now \<le> later" for later k
    using assms stale_window [OF _ _ that, of "rl_store l k"]
    by (auto simp: drop_stale_def same_windows_def)
  then show ?thesis
    using assms by (auto simp: same_windows_def drop_stale_def)
qed

lemma sorted_in_window: "sorted ts \<Longrightarrow> sorted (in_window W now ts)"
  unfolding in_window_def by (rule sorted_filter [where f = "\<lambda>x. x", simplified])

lemma same_windows_put:
  assumes "same_windows now l f"
  shows "same_windows now (l\<lparr>rl_store := (rl_store l)(k := in_window HTTP_WINDOW now (rl_store l k))\<rparr>)
      (f(k := in_window HTTP_WINDOW now (f k)))"
    and "same_windows now (l\<lparr>rl_store := (rl_store l)(k := in_window HTTP_WINDOW now (rl_store l k) @ [now])\<rparr>)
      (f(k := in_window HTTP_WINDOW now (f k) @ [now]))"
proof -
  let ?w = "in_window HTTP_WINDOW now (rl_store l k)"
  have w: "?w = in_window HTTP_WINDOW now (f k)" and le: "\<forall>t \<in> set ?w. t \<le> now"
    using assms set_in_window [of HTTP_WINDOW now "rl_store l k"] by (auto simp: same_windows_def)
  have srt: "sorted ?w"
    using assms by (intro sorted_in_window) (simp add: same_windows_def)
  show "same_windows now (l\<lparr>rl_store := (rl_store l)(k := ?w)\<rparr>) (f(k := in_window HTTP_WINDOW now (f k)))"
    and "same_windows now (l\<lparr>rl_store := (rl_store l)(k := ?w @ [now])\<rparr>)
      (f(k := in_window HTTP_WINDOW now (f k) @ [now]))"
    using assms srt le unfolding w [symmetric]
    by (auto simp: same_windows_def sorted_append)
qed

lemma count_same:
  assumes "same_windows cur l f" and "cur \<le> now" and "rate_limit_bucket cfg rq = Some b"
    and "0 < per_minute cfg"
  shows "fst (count_request (per_minute cfg) now b l) = GoesOn \<longleftrightarrow> fst (bucket_step cfg now rq f)"
    and "same_windows now (snd (count_request (per_minute cfg) now b l)) (snd (bucket_step cfg now rq f))"
proof -
  obtain k ns where b: "b = (k, ns)" by (cases b)
  let ?l1 = "if now - rl_cleanup l > CLEANUP_INTERVAL
    then l\<lparr>rl_store := drop_stale now (rl_store l), rl_cleanup := now\<rparr> else l"
  have same: "same_windows now ?l1 f"
    using same_later [OF assms(1,2)] drop_stale_same by auto
  then have eq: "in_window HTTP_WINDOW now (rl_store ?l1 k) = in_window HTTP_WINDOW now (f k)"
    by (simp add: same_windows_def)
  have rec: "\<lparr>rl_store = drop_stale now (rl_store l), rl_cleanup = now\<rparr> =
      l\<lparr>rl_store := drop_stale now (rl_store l), rl_cleanup := now\<rparr>" by simp
  show "fst (count_request (per_minute cfg) now b l) = GoesOn \<longleftrightarrow> fst (bucket_step cfg now rq f)"
    and "same_windows now (snd (count_request (per_minute cfg) now b l)) (snd (bucket_step cfg now rq f))"
    using same_windows_put [OF same, of k] assms(3) eq
    unfolding count_request_def Let_def rec recent_in_window bucket_step_def
    by (simp_all add: b)
qed

text \<open>The times at which a run of requests lets one of a kind through.\<close>

definition http_step ::
  "http_settings \<Rightarrow> time \<Rightarrow> request \<Rightarrow> http_limiter \<Rightarrow> bool \<times> http_limiter"
where
  "http_step cfg now rq l =
     (case rate_limit_middleware cfg now rq l of (answer, l') \<Rightarrow> (answer = GoesOn, l'))"

lemma http_step_same:
  assumes "same_windows cur l f" and "cur \<le> now" and "0 < per_minute cfg"
  shows "fst (http_step cfg now rq l) = fst (bucket_step cfg now rq f)"
    and "same_windows now (snd (http_step cfg now rq l)) (snd (bucket_step cfg now rq f))"
  using count_same [OF assms(1,2) _ assms(3), of rq] same_later [OF assms(1,2)] assms(3)
  by (auto simp: http_step_def rate_limit_middleware_def bucket_step_def case_prod_unfold
      split: option.split)

lemma http_run_same:
  assumes "same_windows cur l f" and "0 < per_minute cfg" and "sorted (cur # List.map fst rs)"
  shows "admitted_times (http_step cfg) rel rs l = admitted_times (bucket_step cfg) rel rs f"
  using assms(1,3)
proof (induction rs arbitrary: cur l f)
  case (Cons r rs)
  obtain now rq where r: "r = (now, rq)" by (cases r)
  have "cur \<le> now" and "sorted (now # List.map fst rs)" using Cons.prems(2) by (auto simp: r)
  with Cons.IH http_step_same [OF Cons.prems(1) _ assms(2), of now rq] show ?case
    by (simp add: r case_prod_unfold)
qed simp

text \<open>
  C33. No window of sixty seconds lets more requests of one bucket through than the limit, over any
  run of requests of any callers, wherever the clean-up of the store falls.
\<close>

theorem http_rate_bounded:
  assumes "0 < per_minute cfg" and "sorted (0 # List.map fst rs)"
  shows "length (filter (\<lambda>x. t - 60 < x \<and> x \<le> t)
      (admitted_times (http_step cfg)
        (\<lambda>rq. map_option fst (rate_limit_bucket cfg rq) = Some k) rs new_http_limiter))
    \<le> nat (per_minute cfg)"
proof -
  have rel: "(\<lambda>rq. map_option fst (rate_limit_bucket cfg rq) = Some k) = in_bucket cfg k"
    by (simp add: in_bucket_def fun_eq_iff)
  have "same_windows 0 new_http_limiter (\<lambda>_. [])"
    by (simp add: same_windows_def new_http_limiter_def)
  from http_run_same [OF this assms]
  have "admitted_times (http_step cfg) (in_bucket cfg k) rs new_http_limiter =
      admitted_times (bucket_step cfg) (in_bucket cfg k) rs (\<lambda>_. [])" .
  moreover have "sorted (List.map fst rs)" using assms(2) by simp
  ultimately show ?thesis
    using admission.span_bound [OF bucket_admission, where s = "\<lambda>_. []" and k1 = k and cfg1 = cfg
        and rs = rs and t = t]
    unfolding rel by (simp add: span_def HTTP_WINDOW_def)
qed

section \<open>Who chooses the bucket and the address\<close>

text \<open>
  The key of a request is looked at before anything checks it: callers that send another key with
  each request are in another bucket each time, and none of their requests is refused.
\<close>

lemma fresh_bucket:
  assumes "rate_limit_bucket cfg rq = Some (k, ns)" and "rl_store l k = []" and "0 < per_minute cfg"
  shows "fst (http_step cfg now rq l) \<and>
    (\<forall>k'. k' \<noteq> k \<longrightarrow> rl_store l k' = [] \<longrightarrow> rl_store (snd (http_step cfg now rq l)) k' = [])"
  using assms
  by (auto simp: http_step_def rate_limit_middleware_def count_request_def Let_def drop_stale_def)

text \<open>The requests of a run that are refused.\<close>

fun http_refused :: "http_settings \<Rightarrow> (time \<times> request) list \<Rightarrow> http_limiter \<Rightarrow> request list" where
  "http_refused cfg [] l = []"
| "http_refused cfg ((now, rq) # rs) l =
     (case http_step cfg now rq l of (ok, l') \<Rightarrow>
        (if ok then http_refused cfg rs l' else rq # http_refused cfg rs l'))"

text \<open>
  The key of a request is looked at before anything checks it: when every request carries
  another key, none is refused, however many come in a minute, those to the critical routes too.
\<close>

theorem new_keys_never_refused:
  assumes "0 < per_minute cfg"
    and "distinct (List.map (\<lambda>r. map_option fst (rate_limit_bucket cfg (snd r))) rs)"
    and "None \<notin> set (List.map (\<lambda>r. rate_limit_bucket cfg (snd r)) rs)"
  shows "http_refused cfg rs new_http_limiter = []"
proof -
  have "http_refused cfg rs l = []"
    if "distinct (List.map (\<lambda>r. map_option fst (rate_limit_bucket cfg (snd r))) rs)"
      and "None \<notin> set (List.map (\<lambda>r. rate_limit_bucket cfg (snd r)) rs)"
      and "\<And>r k ns. r \<in> set rs \<Longrightarrow> rate_limit_bucket cfg (snd r) = Some (k, ns) \<Longrightarrow> rl_store l k = []"
    for l
    using that
  proof (induction rs arbitrary: l)
    case (Cons r rs)
    obtain now rq where r: "r = (now, rq)" by (cases r)
    obtain k ns where b: "rate_limit_bucket cfg rq = Some (k, ns)"
      using Cons.prems(2) r by (cases "rate_limit_bucket cfg rq") auto
    have empty: "rl_store l k = []" using Cons.prems(3) [of r k ns] r b by simp
    note fresh = fresh_bucket [OF b empty assms(1), of now]
    have "rl_store (snd (http_step cfg now rq l)) k' = []"
      if "r' \<in> set rs" "rate_limit_bucket cfg (snd r') = Some (k', ns')" for r' k' ns'
    proof -
      have "k' \<noteq> k" using Cons.prems(1) r b that by force
      with fresh Cons.prems(3) [of r' k' ns'] that show ?thesis by simp
    qed
    with Cons.IH Cons.prems(1,2) fresh show ?case
      by (simp add: r case_prod_unfold)
  qed simp
  from this [OF assms(2,3)] show ?thesis by (simp add: new_http_limiter_def)
qed

text \<open>
  With a list of sources in force, a critical route is reached only from a listed network, or
  from the machine itself where that is allowed; an address that does not parse is refused.
\<close>

theorem critical_source_listed:
  assumes "match_any (rq_path rq) CRITICAL_PREFIXES" and "parse_allowlist (api_allowlist cfg) \<noteq> []"
    and "allowlist_blocks cfg rq = None"
  shows "\<exists>addr. ip_address (client_ip cfg rq) = Some addr \<and>
    (allow_loopback cfg \<and> is_loopback addr \<or>
     list_ex (in_network addr) (parse_allowlist (api_allowlist cfg)))"
  using assms by (auto simp: allowlist_blocks_def ip_allowed_def Let_def split: if_splits option.splits)

text \<open>
  Behind a proxy the address is the first entry of a header the client sends: it names the
  loopback, and every critical route is open.
\<close>

lemma forwarded_loopback_passes:
  assumes "trust_proxy cfg" and "allow_loopback cfg"
    and "rq_header rq ''x-forwarded-for'' = ''127.0.0.1, 203.0.113.9''"
  shows "allowlist_blocks cfg rq = None"
proof -
  have "client_ip cfg rq = ''127.0.0.1''"
    using assms(1,3) by (simp add: client_ip_def) code_simp
  moreover have "ip_address ''127.0.0.1'' = Some (IPv4 2130706433)" "is_loopback (IPv4 2130706433)"
    by code_simp+
  ultimately show ?thesis
    using assms(2) by (auto simp: allowlist_blocks_def Let_def ip_allowed_def)
qed

text \<open>A list none of whose entries parses is no list: nothing is refused.\<close>

lemma malformed_allowlist_admits_all:
  "allowlist_blocks (cfg\<lparr>api_allowlist := ''10.0.0.0/33, 10.0.0''\<rparr>) rq = None"
proof -
  have "parse_allowlist ''10.0.0.0/33, 10.0.0'' = []" by code_simp
  then show ?thesis by (simp add: allowlist_blocks_def)
qed

section \<open>Concrete requests\<close>

definition demo_http :: http_settings where
  "demo_http = \<lparr>extra_whitelist = [], per_minute = 2, trust_proxy = False,
     api_allowlist = ''10.0.0.0/8'', allow_loopback = True, service_token = [], mtls_enforce = False\<rparr>"

definition execute_request :: "string \<Rightarrow> request" where
  "execute_request key = \<lparr>rq_path = ''/api/response/execute'', rq_method = ''post'',
     rq_header = (\<lambda>h. if h = ''x-api-key'' then key else []), rq_client = Some ''10.1.2.3'',
     rq_query_token = None\<rparr>"

lemma execute_bucket:
  "strip key = key \<Longrightarrow> key \<noteq> [] \<Longrightarrow>
   rate_limit_bucket cfg (execute_request key) = Some (''crit:key:'' @ take 32 key, ''crit'')"
  by (simp add: rate_limit_bucket_def rate_limit_decision_def forced_iff RATE_LIMIT_FORCED_def
      forces_def under_def execute_request_def rate_limit_key_def)

lemma demo_keys: "strip ''k1'' = ''k1''" "strip ''k2'' = ''k2''" "strip ''k3'' = ''k3''"
  by code_simp+

lemma http_rate_bounded_witness:
  "length (filter (\<lambda>x. (60 :: rat) - 60 < x \<and> x \<le> 60)
     (admitted_times (http_step demo_http)
       (\<lambda>rq. map_option fst (rate_limit_bucket demo_http rq) = Some ''crit:key:k1'')
       [(1, execute_request ''k1''), (2, execute_request ''k1''), (3, execute_request ''k1'')]
       new_http_limiter)) \<le> 2"
proof -
  have "0 < per_minute demo_http" "nat (per_minute demo_http) = 2" by (simp_all add: demo_http_def)
  with http_rate_bounded [of demo_http "[(1, execute_request ''k1''), (2, execute_request ''k1''),
      (3, execute_request ''k1'')]" 60 "''crit:key:k1''"]
  show ?thesis by simp
qed

lemma new_keys_never_refused_witness:
  "http_refused demo_http [(1, execute_request ''k1''), (1, execute_request ''k2''),
     (1, execute_request ''k3'')] new_http_limiter = []"
  by (rule new_keys_never_refused)
    (simp_all add: execute_bucket demo_keys, simp add: demo_http_def)

lemma critical_source_listed_witness:
  "\<exists>addr. ip_address ''10.1.2.3'' = Some addr \<and>
     list_ex (in_network addr) (parse_allowlist ''10.0.0.0/8'')"
proof -
  have "match_any (rq_path (execute_request ''k1'')) CRITICAL_PREFIXES"
    and "parse_allowlist (api_allowlist demo_http) \<noteq> []"
    and "allowlist_blocks demo_http (execute_request ''k1'') = None"
    and c: "client_ip demo_http (execute_request ''k1'') = ''10.1.2.3''"
    by code_simp+
  from critical_source_listed [OF this(1-3)] obtain addr
    where a: "ip_address ''10.1.2.3'' = Some addr"
      and or: "is_loopback addr \<or> list_ex (in_network addr) (parse_allowlist (api_allowlist demo_http))"
    unfolding c by blast
  have "ip_address ''10.1.2.3'' = Some (IPv4 167838211)" "\<not> is_loopback (IPv4 167838211)"
    by code_simp+
  with a or show ?thesis by (auto simp: demo_http_def)
qed

end
