(* ===== verification/AuthTokens.thy ===== *)
theory AuthTokens
  imports HttpGuards
begin

text \<open>
  Signing in and the tokens (\<open>src/backend/auth.py\<close>, \<open>src/backend/routers/auth.py\<close>,
  \<open>src/backend/user_store.py\<close>) and the middleware that asks for one
  (\<open>auth_middleware\<close> of \<open>src/backend/app.py\<close>).  Encoding and decoding of a token, password
  hashes and random ids are parameters.  A call reads the clock once.  The store of the window that
  these files look for Redis in has no attribute of the name they use
  (\<open>sliding_window.py\<close> keeps it in \<open>backend\<close>), so what they would keep in Redis is never kept;
  \<open>window_redis\<close> says so, and the counter of failed attempts is written out over what would be
  there.
\<close>

section \<open>Tokens\<close>

record claims =
  cl_sub :: string
  cl_role :: string
  cl_exp :: time
  cl_jti :: string

datatype jwt_answer = JwtOk claims | JwtExpired | JwtInvalid

record jwt =
  jwt_encode :: "claims \<Rightarrow> string"
  jwt_decode :: "time \<Rightarrow> string \<Rightarrow> jwt_answer"

text \<open>A token, whose expiry is a whole second, is read as it was made until its time has come.\<close>

definition jwt_laws :: "jwt \<Rightarrow> bool" where
  "jwt_laws J \<longleftrightarrow>
     (\<forall>t c e. cl_exp c = of_int e \<longrightarrow>
        jwt_decode J t (jwt_encode J c) = (if t < cl_exp c then JwtOk c else JwtExpired))"

definition ACCESS_TOKEN_EXPIRE :: time where
  "ACCESS_TOKEN_EXPIRE = 120 * 60"

text \<open>\<open>_blocked_jti\<close> and \<open>_user_jtis\<close>.\<close>

record token_state =
  blocked :: "string \<rightharpoonup> time"
  user_jtis :: "string \<Rightarrow> string list"

definition no_tokens :: token_state where
  "no_tokens = \<lparr>blocked = Map.empty, user_jtis = (\<lambda>_. [])\<rparr>"

definition remember_jti :: "string \<Rightarrow> string \<Rightarrow> token_state \<Rightarrow> token_state" where
  "remember_jti username jti st =
     (if jti = [] then st
      else st\<lparr>user_jtis := (user_jtis st)(username := List.insert jti (user_jtis st username))\<rparr>)"

definition is_jti_blocked :: "time \<Rightarrow> string \<Rightarrow> token_state \<Rightarrow> bool \<times> token_state" where
  "is_jti_blocked now jti st =
     (if jti = [] then (False, st)
      else case blocked st jti of
             None \<Rightarrow> (False, st)
           | Some e \<Rightarrow> if e > now then (True, st)
               else (False, st\<lparr>blocked := (blocked st)(jti := None)\<rparr>))"

definition revoke_jti :: "time \<Rightarrow> string \<Rightarrow> time \<Rightarrow> token_state \<Rightarrow> token_state" where
  "revoke_jti now jti ttl st =
     (if jti = [] then st
      else st\<lparr>blocked := (blocked st)(jti \<mapsto> now + (if ttl > 0 then ttl else ACCESS_TOKEN_EXPIRE))\<rparr>)"

definition revoke_username :: "time \<Rightarrow> string \<Rightarrow> token_state \<Rightarrow> nat \<times> token_state" where
  "revoke_username now username st =
     (length (user_jtis st username),
      fold (\<lambda>jti. revoke_jti now jti 0) (user_jtis st username) st)"

text \<open>The time of expiry is encoded in whole seconds; \<open>jti\<close> is the random id.\<close>

definition create_access_token ::
  "jwt \<Rightarrow> time \<Rightarrow> string \<Rightarrow> string \<Rightarrow> string \<Rightarrow> token_state \<Rightarrow> string \<times> token_state"
where
  "create_access_token J now jti username role st =
     (jwt_encode J \<lparr>cl_sub = username, cl_role = role,
        cl_exp = of_int (floor (now + ACCESS_TOKEN_EXPIRE)), cl_jti = jti\<rparr>,
      remember_jti username jti st)"

datatype auth_error = Misconfigured | MissingToken | TokenExpired | InvalidToken | TokenRevoked
  | SourceNotAllowed string | CertificateRequired | WrongRole

definition decode_access_token ::
  "jwt \<Rightarrow> string \<Rightarrow> time \<Rightarrow> string \<Rightarrow> token_state \<Rightarrow> (auth_error + claims) \<times> token_state"
where
  "decode_access_token J secret now token st =
     (if secret = [] then (Inl Misconfigured, st)
      else if token = [] then (Inl MissingToken, st)
      else case jwt_decode J now token of
             JwtExpired \<Rightarrow> (Inl TokenExpired, st)
           | JwtInvalid \<Rightarrow> (Inl InvalidToken, st)
           | JwtOk c \<Rightarrow>
               (case is_jti_blocked now (cl_jti c) st of
                  (True, st1) \<Rightarrow> (Inl TokenRevoked, st1)
                | (False, st1) \<Rightarrow> (Inr c, st1)))"

definition require_role :: "string list \<Rightarrow> claims \<Rightarrow> auth_error + claims" where
  "require_role roles user =
     (if cl_role user = ''admin'' then Inr user
      else if cl_role user \<notin> set roles then Inl WrongRole else Inr user)"

section \<open>The middleware\<close>

definition PUBLIC_PATHS :: "string list" where
  "PUBLIC_PATHS =
     [''/api/auth/login'', ''/api/auth/register'', ''/api/health'', ''/docs'', ''/redoc'',
      ''/openapi.json'', ''/metrics'']"

definition request_token :: "request \<Rightarrow> string" where
  "request_token rq =
     (let h = rq_header rq ''authorization'' in
      if starts_with ''Bearer '' h then drop 7 h
      else (case rq_query_token rq of Some t \<Rightarrow> t | None \<Rightarrow> []))"

text \<open>The claims a request goes on with, if it needs any.\<close>

definition auth_middleware ::
  "http_settings \<Rightarrow> jwt \<Rightarrow> string \<Rightarrow> time \<Rightarrow> request \<Rightarrow> token_state \<Rightarrow>
   (auth_error + claims option) \<times> token_state"
where
  "auth_middleware cfg J secret now rq st =
     (case allowlist_blocks cfg rq of
        Some ip \<Rightarrow> (Inl (SourceNotAllowed ip), st)
      | None \<Rightarrow>
          if mtls_blocks cfg rq then (Inl CertificateRequired, st)
          else if starts_with ''/api/'' (rq_path rq) \<and> rq_path rq \<notin> set PUBLIC_PATHS then
            (if request_token rq = [] then (Inl MissingToken, st)
             else case decode_access_token J secret now (request_token rq) st of
                    (Inl e, st1) \<Rightarrow> (Inl e, st1)
                  | (Inr c, st1) \<Rightarrow> (Inr (Some c), st1))
          else (Inr None, st))"

section \<open>Users\<close>

record app_user =
  au_name :: string
  au_hash :: string
  au_role :: string
  au_active :: bool

record auth_settings =
  jwt_secret :: string
  admin_user :: string
  admin_password :: string

record passwords =
  pw_hash :: "string \<Rightarrow> string"
  pw_verify :: "string \<Rightarrow> string \<Rightarrow> bool"

definition username_char :: "char \<Rightarrow> bool" where
  "username_char c \<longleftrightarrow>
     (let n = (of_char c :: nat) in
      48 \<le> n \<and> n \<le> 57 \<or> 65 \<le> n \<and> n \<le> 90 \<or> 97 \<le> n \<and> n \<le> 122 \<or> n = 95)"

definition valid_username :: "string \<Rightarrow> bool" where
  "valid_username u \<longleftrightarrow>
     (let s = strip u in s \<noteq> [] \<and> list_all username_char s \<and> 3 \<le> length s \<and> length s \<le> 32)"

definition valid_password :: "string \<Rightarrow> bool" where
  "valid_password p \<longleftrightarrow> p \<noteq> [] \<and> 8 \<le> length p"

definition get_by_username :: "string \<Rightarrow> app_user list \<Rightarrow> app_user option" where
  "get_by_username u users = find (\<lambda>r. au_name r = strip u) users"

definition or_role :: "string \<Rightarrow> string" where
  "or_role r = (if r \<noteq> [] then r else ''viewer'')"

definition create_user :: "passwords \<Rightarrow> string \<Rightarrow> string \<Rightarrow> string \<Rightarrow> app_user list \<Rightarrow> app_user list" where
  "create_user P u p role users =
     users @ [\<lparr>au_name = strip u, au_hash = pw_hash P p, au_role = or_role role, au_active = True\<rparr>]"

section \<open>Signing in\<close>

definition LOGIN_FAIL_LIMIT :: nat where
  "LOGIN_FAIL_LIMIT = 5"

definition LOGIN_LOCKOUT :: time where
  "LOGIN_LOCKOUT = 900"

text \<open>
  Counters with an expiry, as Redis keeps them: \<open>INCR\<close>, with \<open>EXPIRE\<close> at the first count, and
  \<open>DEL\<close>.
\<close>

type_synonym counters = "string \<rightharpoonup> nat \<times> time"

definition incr_expire :: "time \<Rightarrow> string \<Rightarrow> time \<Rightarrow> counters \<Rightarrow> nat \<times> counters" where
  "incr_expire now key ttl cs =
     (case cs key of
        Some (n, e) \<Rightarrow> if now < e then (n + 1, cs(key \<mapsto> (n + 1, e))) else (1, cs(key \<mapsto> (1, now + ttl)))
      | None \<Rightarrow> (1, cs(key \<mapsto> (1, now + ttl))))"

text \<open>What \<open>sliding_window._redis\<close> is: the read raises, and both callers go on without it.\<close>

definition window_redis :: "counters option" where
  "window_redis = None"

definition fail_key :: "string option \<Rightarrow> string \<Rightarrow> string" where
  "fail_key client username =
     ''login:fail:'' @ (case client of Some h \<Rightarrow> h | None \<Rightarrow> ''unknown'') @ '':'' @ username"

text \<open>Whether the attempt is refused (status 429).\<close>

definition check_bruteforce ::
  "time \<Rightarrow> string option \<Rightarrow> string \<Rightarrow> counters option \<Rightarrow> bool \<times> counters option"
where
  "check_bruteforce now client username redis =
     (case redis of
        None \<Rightarrow> (False, None)
      | Some cs \<Rightarrow>
          (case incr_expire now (fail_key client username) LOGIN_LOCKOUT cs of
             (n, cs1) \<Rightarrow> (n > LOGIN_FAIL_LIMIT, Some cs1)))"

definition clear_bruteforce :: "string option \<Rightarrow> string \<Rightarrow> counters option \<Rightarrow> counters option" where
  "clear_bruteforce client username redis =
     map_option (\<lambda>cs. cs(fail_key client username := None)) redis"

record auth_world =
  aw_users :: "app_user list"
  aw_tokens :: token_state
  aw_counters :: "counters option"

datatype login_answer = SignedIn string string | NoAdminPassword | TooManyAttempts | WrongLogin

definition login ::
  "auth_settings \<Rightarrow> passwords \<Rightarrow> jwt \<Rightarrow> time \<Rightarrow> string \<Rightarrow> string option \<Rightarrow> string \<Rightarrow> string \<Rightarrow>
   auth_world \<Rightarrow> login_answer \<times> auth_world"
where
  "login cfg P J now jti client username password w =
     (if admin_password cfg = [] then (NoAdminPassword, w)
      else case check_bruteforce now client username (aw_counters w) of
        (True, cs) \<Rightarrow> (TooManyAttempts, w\<lparr>aw_counters := cs\<rparr>)
      | (False, cs) \<Rightarrow>
          if username = admin_user cfg \<and> password = admin_password cfg then
            (case create_access_token J now jti username ''admin'' (aw_tokens w) of
               (tok, ts) \<Rightarrow> (SignedIn tok ''admin'',
                 w\<lparr>aw_counters := clear_bruteforce client username cs, aw_tokens := ts\<rparr>))
          else (case get_by_username username (aw_users w) of
             Some u \<Rightarrow>
               if au_active u \<and> pw_verify P password (au_hash u) then
                 (case create_access_token J now jti (au_name u) (or_role (au_role u)) (aw_tokens w) of
                    (tok, ts) \<Rightarrow> (SignedIn tok (or_role (au_role u)),
                      w\<lparr>aw_counters := clear_bruteforce client username cs, aw_tokens := ts\<rparr>))
               else (WrongLogin, w\<lparr>aw_counters := cs\<rparr>)
           | None \<Rightarrow> (WrongLogin, w\<lparr>aw_counters := cs\<rparr>)))"

datatype register_answer = Registered string string | BadUsername | BadPassword | NameReserved
  | TooManyRegistrations | NameTaken

definition register_user ::
  "auth_settings \<Rightarrow> passwords \<Rightarrow> jwt \<Rightarrow> time \<Rightarrow> string \<Rightarrow> string option \<Rightarrow> string \<Rightarrow> string \<Rightarrow>
   auth_world \<Rightarrow> register_answer \<times> auth_world"
where
  "register_user cfg P J now jti client username password w =
     (if \<not> valid_username username then (BadUsername, w)
      else if \<not> valid_password password then (BadPassword, w)
      else if lower (strip username) = lower (if admin_user cfg \<noteq> [] then admin_user cfg else ''admin'')
      then (NameReserved, w)
      else
        let counted = (case aw_counters w of
              None \<Rightarrow> (False, None)
            | Some cs \<Rightarrow>
                (case incr_expire now (''register:rate:'' @ (case client of Some h \<Rightarrow> h | None \<Rightarrow> ''unknown''))
                    3600 cs of (n, cs1) \<Rightarrow> (n > 20, Some cs1)));
            w1 = w\<lparr>aw_counters := snd counted\<rparr>
        in if fst counted then (TooManyRegistrations, w1)
           else if get_by_username (strip username) (aw_users w) \<noteq> None then (NameTaken, w1)
           else (case create_access_token J now jti (strip username) ''viewer'' (aw_tokens w) of
                   (tok, ts) \<Rightarrow> (Registered tok ''viewer'',
                     w1\<lparr>aw_users := create_user P (strip username) password ''viewer'' (aw_users w),
                        aw_tokens := ts\<rparr>)))"

definition logout :: "time \<Rightarrow> claims \<Rightarrow> token_state \<Rightarrow> token_state" where
  "logout now user st = revoke_jti now (cl_jti user) ACCESS_TOKEN_EXPIRE st"

datatype revoke_answer = RevokedId | RevokedUser nat | RevokeNothing

definition revoke_tokens :: "time \<Rightarrow> string \<Rightarrow> string \<Rightarrow> token_state \<Rightarrow> revoke_answer \<times> token_state" where
  "revoke_tokens now jti username st =
     (if jti \<noteq> [] then (RevokedId, revoke_jti now jti ACCESS_TOKEN_EXPIRE st)
      else if username \<noteq> [] then
        (case revoke_username now username st of (n, st1) \<Rightarrow> (RevokedUser n, st1))
      else (RevokeNothing, st))"

section \<open>Runs\<close>

datatype auth_op =
    LoginOp string "string option" string string
  | RegisterOp string "string option" string string
  | LogoutOp claims
  | RevokeOp string string
  | RequestOp request

record auth_setup =
  as_auth :: auth_settings
  as_http :: http_settings
  as_passwords :: passwords
  as_jwt :: jwt

fun auth_step :: "auth_setup \<Rightarrow> time \<Rightarrow> auth_op \<Rightarrow> auth_world \<Rightarrow> auth_world" where
  "auth_step s now (LoginOp jti cl u p) w =
     snd (login (as_auth s) (as_passwords s) (as_jwt s) now jti cl u p w)"
| "auth_step s now (RegisterOp jti cl u p) w =
     snd (register_user (as_auth s) (as_passwords s) (as_jwt s) now jti cl u p w)"
| "auth_step s now (LogoutOp c) w = w\<lparr>aw_tokens := logout now c (aw_tokens w)\<rparr>"
| "auth_step s now (RevokeOp j u) w = w\<lparr>aw_tokens := snd (revoke_tokens now j u (aw_tokens w))\<rparr>"
| "auth_step s now (RequestOp rq) w =
     w\<lparr>aw_tokens := snd (auth_middleware (as_http s) (as_jwt s) (jwt_secret (as_auth s)) now rq (aw_tokens w))\<rparr>"

definition auth_run :: "auth_setup \<Rightarrow> (time \<times> auth_op) list \<Rightarrow> auth_world \<Rightarrow> auth_world" where
  "auth_run s ops w = fold (\<lambda>(now, op). auth_step s now op) ops w"

section \<open>Revocation\<close>

text \<open>A token with this id and expiry is refused at any time from \<open>t\<close> on.\<close>

definition shut_out :: "claims \<Rightarrow> time \<Rightarrow> token_state \<Rightarrow> bool" where
  "shut_out c t st \<longleftrightarrow>
     cl_exp c \<le> t \<or> (\<exists>e. blocked st (cl_jti c) = Some e \<and> cl_exp c \<le> e)"

definition keeps_out :: "claims \<Rightarrow> time \<Rightarrow> (token_state \<Rightarrow> token_state) \<Rightarrow> bool" where
  "keeps_out c now f \<longleftrightarrow> (\<forall>t st. shut_out c t st \<longrightarrow> t \<le> now \<longrightarrow> shut_out c now (f st))"

named_theorems kept_out

lemma shut_out_later: "shut_out c t st \<Longrightarrow> t \<le> now \<Longrightarrow> shut_out c now st"
  by (auto simp: shut_out_def)

lemma keeps_id [kept_out]: "keeps_out c now (\<lambda>st. st)"
  by (auto simp: keeps_out_def shut_out_later)

lemma keeps_remember [kept_out]: "keeps_out c now (remember_jti u j)"
  by (auto simp: keeps_out_def remember_jti_def shut_out_def)

lemma keeps_create [kept_out]: "keeps_out c now (\<lambda>st. snd (create_access_token J t j u r st))"
  using keeps_remember [of c now u j] by (simp add: create_access_token_def)

lemma keeps_blocked [kept_out]: "keeps_out c now (\<lambda>st. snd (is_jti_blocked now j st))"
  by (auto simp: keeps_out_def is_jti_blocked_def shut_out_def split: option.split)

lemma keeps_revoke:
  assumes "cl_exp c \<le> now + ACCESS_TOKEN_EXPIRE" and "ttl \<in> {0, ACCESS_TOKEN_EXPIRE}"
  shows "keeps_out c now (revoke_jti now j ttl)"
  using assms by (auto simp: keeps_out_def revoke_jti_def shut_out_def ACCESS_TOKEN_EXPIRE_def)

lemma keeps_revoke_all:
  assumes "cl_exp c \<le> now + ACCESS_TOKEN_EXPIRE"
  shows "keeps_out c now (\<lambda>st. fold (\<lambda>j. revoke_jti now j 0) js st)"
proof -
  have "shut_out c now st \<Longrightarrow> shut_out c now (fold (\<lambda>j. revoke_jti now j 0) js st)" for st
    using keeps_revoke [OF assms, of 0]
    by (induction js arbitrary: st) (auto simp: keeps_out_def)
  then show ?thesis by (auto simp: keeps_out_def dest: shut_out_later)
qed

lemma keeps_decode [kept_out]: "keeps_out c now (\<lambda>st. snd (decode_access_token J k now tok st))"
  using keeps_blocked [of c now] keeps_id [of c now]
  by (auto simp: keeps_out_def decode_access_token_def split: jwt_answer.split prod.split bool.split)
    (metis snd_conv)+

lemma keeps_request [kept_out]: "keeps_out c now (\<lambda>st. snd (auth_middleware h J k now rq st))"
  using keeps_decode [of c now J k "request_token rq"] keeps_id [of c now]
  by (auto simp: keeps_out_def auth_middleware_def split: option.split prod.split sum.split)
    (metis snd_conv)+

lemma login_tokens:
  "aw_tokens (snd (login cfg P J now j cl u p w)) = aw_tokens w \<or>
   (\<exists>name r. aw_tokens (snd (login cfg P J now j cl u p w)) =
      snd (create_access_token J now j name r (aw_tokens w)))"
  by (auto simp: login_def case_prod_unfold split: option.split bool.split)

lemma keeps_step:
  assumes "cl_exp c \<le> now + ACCESS_TOKEN_EXPIRE" and "shut_out c t (aw_tokens w)" and "t \<le> now"
  shows "shut_out c now (aw_tokens (auth_step s now op w))"
proof -
  note out = shut_out_later [OF assms(2,3)]
  have use: "keeps_out c now f \<Longrightarrow> shut_out c now (f (aw_tokens w))" for f
    using assms(2,3) by (auto simp: keeps_out_def)
  show ?thesis
  proof (cases op)
    case (LoginOp j cl u p)
    with login_tokens [of "as_auth s" "as_passwords s" "as_jwt s" now j cl u p w] show ?thesis
      using use [OF keeps_create] out by (auto simp del: split_paired_All)
  next
    case (RegisterOp j cl u p)
    then show ?thesis
      using use [OF keeps_create, of "as_jwt s" now j "strip u" "''viewer''"] out
      by (auto simp: register_user_def Let_def case_prod_unfold)
  next
    case (LogoutOp d)
    then show ?thesis using use [OF keeps_revoke [OF assms(1)]] by (simp add: logout_def)
  next
    case (RevokeOp j u)
    then show ?thesis
      using use [OF keeps_revoke [OF assms(1)]] use [OF keeps_revoke_all [OF assms(1)]] out
      by (auto simp: revoke_tokens_def revoke_username_def)
  next
    case (RequestOp rq)
    then show ?thesis using use [OF keeps_request] by simp
  qed
qed

lemma keeps_run:
  assumes "cl_exp c \<le> t + ACCESS_TOKEN_EXPIRE" and "shut_out c t (aw_tokens w)"
    and "sorted (t # List.map fst ops)" and "last (t # List.map fst ops) \<le> now"
  shows "shut_out c now (aw_tokens (auth_run s ops w))"
  using assms
proof (induction ops arbitrary: t w)
  case Nil
  then show ?case by (auto simp: auth_run_def dest: shut_out_later)
next
  case (Cons x ops)
  obtain t' op where x: "x = (t', op)" by (cases x)
  have "t \<le> t'" and le: "cl_exp c \<le> t' + ACCESS_TOKEN_EXPIRE"
    using Cons.prems(1,3) by (auto simp: x)
  from keeps_step [OF le Cons.prems(2) this(1)]
  have "shut_out c t' (aw_tokens (auth_step s t' op w))" .
  with Cons.IH [OF le] Cons.prems(3,4) show ?case
    by (simp add: auth_run_def x split: if_splits)
qed

lemma shut_out_refused:
  assumes "jwt_laws J" and "shut_out c now st" and "cl_jti c \<noteq> []" and "cl_exp c = of_int e"
  shows "\<exists>e. fst (decode_access_token J k now (jwt_encode J c) st) = Inl e"
  using assms
  by (auto simp: jwt_laws_def decode_access_token_def shut_out_def is_jti_blocked_def
      split: option.split)

text \<open>
  C27. A token that was revoked is never accepted again, whatever happens after the revocation:
  the revocation lasts as long as any token made before it.
\<close>

theorem revoked_token_refused:
  assumes "jwt_laws (as_jwt s)" and "jti \<noteq> []" and "made \<le> t"
    and "sorted (t # List.map fst ops)" and "last (t # List.map fst ops) \<le> now"
    and "tok = fst (create_access_token (as_jwt s) made jti user role st)"
  shows "\<exists>e. fst (decode_access_token (as_jwt s) k now tok (aw_tokens (auth_run s ops
      (w\<lparr>aw_tokens := revoke_jti t jti ACCESS_TOKEN_EXPIRE (aw_tokens w)\<rparr>)))) = Inl e"
proof -
  let ?c = "\<lparr>cl_sub = user, cl_role = role, cl_exp = of_int (floor (made + ACCESS_TOKEN_EXPIRE)), cl_jti = jti\<rparr>"
  let ?w = "w\<lparr>aw_tokens := revoke_jti t jti ACCESS_TOKEN_EXPIRE (aw_tokens w)\<rparr>"
  have "(of_int (floor (made + ACCESS_TOKEN_EXPIRE)) :: rat) \<le> made + ACCESS_TOKEN_EXPIRE"
    by (rule of_int_floor_le)
  with assms(3) have exp: "cl_exp ?c \<le> t + ACCESS_TOKEN_EXPIRE" by (simp only: claims.simps)
  then have "shut_out ?c t (aw_tokens ?w)"
    using assms(2) by (simp add: shut_out_def revoke_jti_def ACCESS_TOKEN_EXPIRE_def)
  from keeps_run [OF exp this assms(4,5)]
  have "shut_out ?c now (aw_tokens (auth_run s ops ?w))" .
  from shut_out_refused [OF assms(1) this] assms(2) show ?thesis
    by (simp add: assms(6) create_access_token_def)
qed

text \<open>
  The revocations are in the memory of one process: after a restart, or in another process, the
  token is accepted again until it expires.
\<close>

lemma restart_forgets_revocation:
  assumes "jwt_laws J" and "k \<noteq> []" and "jwt_encode J c \<noteq> []" and "now < cl_exp c"
    and "cl_exp c = of_int e"
  shows "fst (decode_access_token J k now (jwt_encode J c) no_tokens) = Inr c"
  using assms by (simp add: jwt_laws_def decode_access_token_def is_jti_blocked_def no_tokens_def)

section \<open>What a request needs\<close>

text \<open>
  C1. A request below \<open>/api/\<close> that is not one of the public ones goes on only with a token that
  reads as the claims it goes on with and whose id is not revoked at that time.
\<close>

theorem api_needs_live_token:
  assumes "fst (auth_middleware h J k now rq st) = Inr answer"
    and "starts_with ''/api/'' (rq_path rq)" and "rq_path rq \<notin> set PUBLIC_PATHS"
  shows "\<exists>c. answer = Some c \<and> jwt_decode J now (request_token rq) = JwtOk c \<and> k \<noteq> [] \<and>
    (cl_jti c = [] \<or> (\<forall>e. blocked st (cl_jti c) = Some e \<longrightarrow> e \<le> now)) \<and>
    allowlist_blocks h rq = None"
  using assms
  by (auto simp: auth_middleware_def decode_access_token_def is_jti_blocked_def not_less
      split: option.splits prod.splits sum.splits jwt_answer.splits if_splits bool.splits)

section \<open>Who becomes an administrator\<close>

definition registered_ok :: "auth_settings \<Rightarrow> app_user list \<Rightarrow> bool" where
  "registered_ok cfg users \<longleftrightarrow>
     list_all (\<lambda>u. au_role u = ''viewer'' \<and>
       lower (au_name u) \<noteq> lower (if admin_user cfg \<noteq> [] then admin_user cfg else ''admin'')) users"

lemma login_users [simp]: "aw_users (snd (login cfg P J now j cl u p w)) = aw_users w"
  by (auto simp: login_def case_prod_unfold split: option.split bool.split)

lemma registered_step:
  assumes "registered_ok (as_auth s) (aw_users w)"
  shows "registered_ok (as_auth s) (aw_users (auth_step s now op w))"
proof (cases op)
  case (RegisterOp j cl u p)
  with assms show ?thesis
    by (auto simp: register_user_def Let_def case_prod_unfold registered_ok_def create_user_def
        or_role_def)
qed (use assms in simp_all)

lemma registered_run:
  "registered_ok (as_auth s) (aw_users w) \<Longrightarrow> registered_ok (as_auth s) (aw_users (auth_run s ops w))"
  by (induction ops arbitrary: w) (auto simp: auth_run_def registered_step)

lemma found_user: "get_by_username u users = Some x \<Longrightarrow> x \<in> set users \<and> au_name x = strip u"
  by (auto simp: get_by_username_def find_Some_iff)

text \<open>
  C31. Whoever registers and signs in, in any order: only the administrator's own name and password
  are answered with the role of an administrator.
\<close>

theorem only_admin_becomes_admin:
  assumes "fst (login (as_auth s) (as_passwords s) (as_jwt s) now jti client u p
      (auth_run s ops \<lparr>aw_users = [], aw_tokens = no_tokens, aw_counters = cs\<rparr>)) = SignedIn tok role"
    and "role \<noteq> ''viewer''"
  shows "u = admin_user (as_auth s) \<and> p = admin_password (as_auth s) \<and> p \<noteq> [] \<and> role = ''admin''"
proof -
  let ?w = "auth_run s ops \<lparr>aw_users = [], aw_tokens = no_tokens, aw_counters = cs\<rparr>"
  have "registered_ok (as_auth s) (aw_users ?w)"
    by (rule registered_run) (simp add: registered_ok_def)
  then have "or_role (au_role x) = ''viewer''" if "get_by_username u (aw_users ?w) = Some x" for x
    using found_user [OF that] by (auto simp: registered_ok_def list_all_iff or_role_def)
  with assms show ?thesis
    by (auto simp: login_def case_prod_unfold split: option.splits bool.splits if_splits)
qed

section \<open>Failed attempts\<close>

lemma counters_stay_away:
  "aw_counters w = None \<Longrightarrow> aw_counters (auth_step s now op w) = None"
proof (cases op)
  case (LoginOp j cl u p)
  then show "aw_counters w = None \<Longrightarrow> ?thesis"
    by (auto simp: login_def check_bruteforce_def clear_bruteforce_def case_prod_unfold
        split: option.split)
next
  case (RegisterOp j cl u p)
  then show "aw_counters w = None \<Longrightarrow> ?thesis"
    by (auto simp: register_user_def Let_def case_prod_unfold)
qed simp_all

lemma counters_stay_away_run:
  "aw_counters w = None \<Longrightarrow> aw_counters (auth_run s ops w) = None"
  by (induction ops arbitrary: w) (auto simp: auth_run_def counters_stay_away)

text \<open>
  C32. No number of failed attempts ever locks a sign-in: the counter is looked for under a name the
  window does not have, and the limiter of requests leaves the route out because it is said to
  count itself.
\<close>

theorem login_never_locked:
  assumes "aw_counters w = window_redis"
  shows "fst (login (as_auth s) (as_passwords s) (as_jwt s) now jti client u p (auth_run s ops w))
      \<noteq> TooManyAttempts \<and>
    rate_limit_bucket (as_http s) (rq\<lparr>rq_path := ''/api/auth/login''\<rparr>) = None"
proof -
  have "aw_counters (auth_run s ops w) = None"
    using assms by (intro counters_stay_away_run) (simp add: window_redis_def)
  then show ?thesis
    by (auto simp: login_def check_bruteforce_def case_prod_unfold rate_limit_bucket_def
        login_not_counted split: option.split)
qed

text \<open>With counters in place the sixth attempt within the quarter of an hour would be refused.\<close>

lemma counters_would_lock:
  assumes "aw_counters w = Some cs" and "cs (fail_key client u) = Some (n, e)"
    and "now < e" and "LOGIN_FAIL_LIMIT \<le> n" and "admin_password cfg \<noteq> []"
  shows "fst (login cfg P J now jti client u p w) = TooManyAttempts"
  using assms by (simp add: login_def check_bruteforce_def incr_expire_def)

section \<open>Tokens that satisfy the laws\<close>

definition put_field :: "string \<Rightarrow> string" where
  "put_field s = concat (List.map (\<lambda>c. [CHR ''x'', c]) s) @ ''.''"

fun get_field :: "string \<Rightarrow> string \<times> string" where
  "get_field (m # c # s) =
     (if m = CHR ''x'' then (case get_field s of (f, r) \<Rightarrow> (c # f, r)) else ([], c # s))"
| "get_field (m # []) = ([], [])"
| "get_field [] = ([], [])"

definition put_claims :: "claims \<Rightarrow> string" where
  "put_claims c =
     ''jwt'' @ put_field (cl_sub c) @ put_field (cl_role c) @ put_field (cl_jti c) @
     (if cl_exp c < 0 then ''-'' else ''+'') @ replicate (nat \<bar>floor (cl_exp c)\<bar>) CHR ''1''"

definition get_claims :: "string \<Rightarrow> claims" where
  "get_claims s =
     (case get_field (drop 3 s) of (sub, s1) \<Rightarrow>
      case get_field s1 of (role, s2) \<Rightarrow>
      case get_field s2 of (jti, s3) \<Rightarrow>
        \<lparr>cl_sub = sub, cl_role = role,
          cl_exp = (if starts_with ''-'' s3 then - of_nat (length (tl s3)) else of_nat (length (tl s3))),
          cl_jti = jti\<rparr>)"

definition demo_jwt :: jwt where
  "demo_jwt =
     \<lparr>jwt_encode = put_claims,
      jwt_decode = (\<lambda>t s.
        if \<not> starts_with ''jwt'' s then JwtInvalid
        else if t < cl_exp (get_claims s) then JwtOk (get_claims s) else JwtExpired)\<rparr>"

lemma get_put_field: "r \<noteq> [] \<Longrightarrow> get_field (put_field s @ r) = (s, r)"
  by (induction s; cases r) (auto simp: put_field_def)

lemma get_put_claims:
  assumes "cl_exp c = of_int e"
  shows "get_claims (put_claims c) = c"
  using assms
  by (cases c) (auto simp: get_claims_def put_claims_def get_put_field)

lemma demo_jwt_laws: "jwt_laws demo_jwt"
proof -
  have "starts_with ''jwt'' (put_claims c)" for c by (simp add: put_claims_def)
  then show ?thesis by (simp add: jwt_laws_def demo_jwt_def get_put_claims)
qed

section \<open>A concrete office\<close>

definition demo_setup :: auth_setup where
  "demo_setup = \<lparr>as_auth = \<lparr>jwt_secret = ''s'', admin_user = ''admin'', admin_password = ''pw''\<rparr>,
     as_http = demo_http, as_passwords = \<lparr>pw_hash = rev, pw_verify = (\<lambda>p h. rev p = h)\<rparr>,
     as_jwt = demo_jwt\<rparr>"

definition new_auth_world :: auth_world where
  "new_auth_world = \<lparr>aw_users = [], aw_tokens = no_tokens, aw_counters = window_redis\<rparr>"

text \<open>Signed in at 1, signed out at 5, another sign-in at 6: the token is refused at 7.\<close>

lemma revoked_token_refused_witness:
  "\<exists>e. fst (decode_access_token demo_jwt ''s'' 7
      (fst (create_access_token demo_jwt 1 ''j1'' ''admin'' ''admin'' no_tokens))
      (aw_tokens (auth_run demo_setup [(6, LoginOp ''j2'' None ''admin'' ''pw'')]
        (new_auth_world\<lparr>aw_tokens := revoke_jti 5 ''j1'' ACCESS_TOKEN_EXPIRE
          (aw_tokens new_auth_world)\<rparr>)))) = Inl e"
proof -
  have j: "as_jwt demo_setup = demo_jwt" by (simp add: demo_setup_def)
  show ?thesis
    using revoked_token_refused [of demo_setup "''j1''" 1 5 "[(6, LoginOp ''j2'' None ''admin'' ''pw'')]" 7
        _ "''admin''" "''admin''" no_tokens "''s''" new_auth_world] demo_jwt_laws
    by (simp add: j)
qed

definition demo_api_request :: request where
  "demo_api_request = \<lparr>rq_path = ''/api/cases'', rq_method = ''GET'',
     rq_header = (\<lambda>h. if h = ''authorization'' then ''Bearer '' @ put_claims
       \<lparr>cl_sub = ''ann'', cl_role = ''viewer'', cl_exp = 9, cl_jti = ''j1''\<rparr> else []),
     rq_client = None, rq_query_token = None\<rparr>"

lemma api_needs_live_token_witness:
  "\<exists>c. fst (auth_middleware demo_http demo_jwt ''s'' 5 demo_api_request no_tokens) = Inr (Some c) \<and>
     jwt_decode demo_jwt 5 (request_token demo_api_request) = JwtOk c"
proof -
  have "fst (auth_middleware demo_http demo_jwt ''s'' 5 demo_api_request no_tokens) =
      Inr (Some \<lparr>cl_sub = ''ann'', cl_role = ''viewer'', cl_exp = 9, cl_jti = ''j1''\<rparr>)"
    and "starts_with ''/api/'' (rq_path demo_api_request)"
    and "rq_path demo_api_request \<notin> set PUBLIC_PATHS"
    by code_simp+
  from api_needs_live_token [OF this] this(1) show ?thesis by auto
qed

text \<open>A registered user signs in as a viewer, the administrator as one.\<close>

lemma only_admin_becomes_admin_witness:
  "\<exists>tok. fst (login (as_auth demo_setup) (as_passwords demo_setup) (as_jwt demo_setup) 3 ''j2'' None
      ''admin'' ''pw'' (auth_run demo_setup [(1, RegisterOp ''j1'' None ''Root'' ''password'')] new_auth_world))
      = SignedIn tok ''admin'' \<and> ''pw'' = admin_password (as_auth demo_setup)"
proof -
  let ?w = "auth_run demo_setup [(1, RegisterOp ''j1'' None ''Root'' ''password'')] new_auth_world"
  obtain tok where "fst (login (as_auth demo_setup) (as_passwords demo_setup) (as_jwt demo_setup) 3 ''j2'' None
      ''admin'' ''pw'' ?w) = SignedIn tok ''admin''"
  proof -
    have "aw_counters ?w = None"
      by (rule counters_stay_away_run) (simp add: new_auth_world_def window_redis_def)
    with that show thesis
      by (simp add: login_def check_bruteforce_def demo_setup_def case_prod_unfold)
  qed
  moreover from only_admin_becomes_admin [OF this [unfolded new_auth_world_def]]
  have "''pw'' = admin_password (as_auth demo_setup)" by simp
  ultimately show ?thesis by blast
qed

lemma login_never_locked_witness:
  "fst (login (as_auth demo_setup) (as_passwords demo_setup) (as_jwt demo_setup) 9 ''j'' None ''admin'' ''no''
     (auth_run demo_setup (List.map (\<lambda>i. (of_nat i, LoginOp ''j'' None ''admin'' ''no'')) [1..<9]) new_auth_world))
   = WrongLogin"
proof -
  let ?a = "fst (login (as_auth demo_setup) (as_passwords demo_setup) (as_jwt demo_setup) 9 ''j'' None ''admin'' ''no''
     (auth_run demo_setup (List.map (\<lambda>i. (of_nat i, LoginOp ''j'' None ''admin'' ''no'')) [1..<9]) new_auth_world))"
  have "?a \<noteq> TooManyAttempts"
    using login_never_locked [of new_auth_world demo_setup] by (simp add: new_auth_world_def)
  moreover have "?a = TooManyAttempts \<or> ?a = WrongLogin"
    by code_simp
  ultimately show ?thesis by blast
qed

end
