(* ===== verification/AuditQueue.thy ===== *)
theory AuditQueue
  imports AuditTriage "HOL-Library.Char_ord" "HOL-Library.List_Lexorder" "HOL-Library.Product_Lexorder"
begin

text \<open>
  The queue of audits that wait for a slot (\<open>src/backend/audit_pq.py\<close>): a sorted set of event ids
  with a payload under a key of its own, both with an expiry, on a Redis server.  The server is a
  parameter; what the queue relies on of it is the locale \<open>queue_server\<close>, which a store at the
  end satisfies.  A payload is stored as JSON text and read back; the model stores the record.  A
  call reads the clock once.  Metrics are left out.
\<close>

section \<open>The server\<close>

record ('v, 'r) queue_server =
  q_get :: "time \<Rightarrow> string \<Rightarrow> 'r \<Rightarrow> 'v option"
  q_set :: "time \<Rightarrow> string \<Rightarrow> 'v \<Rightarrow> time \<Rightarrow> 'r \<Rightarrow> 'r"
  q_delete :: "string \<Rightarrow> 'r \<Rightarrow> 'r"
  q_zadd :: "time \<Rightarrow> string \<Rightarrow> int \<Rightarrow> 'r \<Rightarrow> 'r"
  q_zrem :: "time \<Rightarrow> string \<Rightarrow> 'r \<Rightarrow> 'r"
  q_expire :: "time \<Rightarrow> time \<Rightarrow> 'r \<Rightarrow> 'r"
  q_zrange :: "time \<Rightarrow> 'r \<Rightarrow> (string \<times> int) list"

text \<open>
  A value is readable for its time and no longer.  \<open>members\<close> are the elements of the set in the
  order of their scores and, with equal scores, of their names; \<open>deadline\<close> is the expiry of the
  set, which only \<open>EXPIRE\<close> sets, and after which the set is empty.
\<close>

definition place :: "string \<times> int \<Rightarrow> (string \<times> int) list \<Rightarrow> (string \<times> int) list" where
  "place e es = insort_key (\<lambda>x. (snd x, fst x)) e (filter (\<lambda>x. fst x \<noteq> fst e) es)"

definition alive :: "time \<Rightarrow> time option \<Rightarrow> bool" where
  "alive t d \<longleftrightarrow> (case d of None \<Rightarrow> True | Some e \<Rightarrow> t < e)"

definition queue_laws ::
  "('v, 'r) queue_server \<Rightarrow> ('r \<Rightarrow> (string \<times> int) list) \<Rightarrow> ('r \<Rightarrow> time option) \<Rightarrow> bool"
where
  "queue_laws S members deadline \<longleftrightarrow>
     (\<forall>t t' k k' v d s. q_get S t' k' (q_set S t k v d s) =
        (if k = k' then (if t \<le> t' \<and> t' < t + d then Some v else None) else q_get S t' k' s)) \<and>
     (\<forall>t k k' s. q_get S t k' (q_delete S k s) = (if k = k' then None else q_get S t k' s)) \<and>
     (\<forall>t t' k m x s. q_get S t' k (q_zadd S t m x s) = q_get S t' k s) \<and>
     (\<forall>t t' k m s. q_get S t' k (q_zrem S t m s) = q_get S t' k s) \<and>
     (\<forall>t t' k d s. q_get S t' k (q_expire S t d s) = q_get S t' k s) \<and>
     (\<forall>t s. q_zrange S t s = (if alive t (deadline s) then members s else [])) \<and>
     (\<forall>t k v d s. members (q_set S t k v d s) = members s \<and> deadline (q_set S t k v d s) = deadline s) \<and>
     (\<forall>k s. members (q_delete S k s) = members s \<and> deadline (q_delete S k s) = deadline s) \<and>
     (\<forall>t m x s. members (q_zadd S t m x s) = place (m, x) (q_zrange S t s) \<and>
        deadline (q_zadd S t m x s) = (if q_zrange S t s = [] then None else deadline s)) \<and>
     (\<forall>t m s. members (q_zrem S t m s) = filter (\<lambda>e. fst e \<noteq> m) (q_zrange S t s) \<and>
        deadline (q_zrem S t m s) = deadline s) \<and>
     (\<forall>t d s. members (q_expire S t d s) = q_zrange S t s \<and>
        deadline (q_expire S t d s) = (if q_zrange S t s = [] then None else Some (t + d)))"

section \<open>Jobs\<close>

record audit_job =
  aj_event :: int
  aj_session :: string
  aj_log :: json
  aj_score :: rat
  aj_reasons :: "string list"
  aj_rounds :: int
  aj_priority :: int
  aj_tier :: string
  aj_enqueued_ms :: int
  aj_retry :: int

definition PAYLOAD_PREFIX :: string where
  "PAYLOAD_PREFIX = ''soc:audit:pq:payload:''"

definition payload_key :: "string \<Rightarrow> string" where
  "payload_key member = PAYLOAD_PREFIX @ member"

definition clamp_priority :: "int \<Rightarrow> int" where
  "clamp_priority p = max 0 (min 100 p)"

definition pq_score :: "int \<Rightarrow> int \<Rightarrow> int" where
  "pq_score p ms = - clamp_priority p * 1000000000000 - ms"

text \<open>
  \<open>int(log_data.get("_pq_retry") or 0)\<close>; \<open>jt_int\<close> is \<open>int\<close> of a text, and \<open>None\<close> raises.
\<close>

definition retry_count :: "(string \<Rightarrow> int option) \<Rightarrow> json \<Rightarrow> int option" where
  "retry_count jt_int ld =
     (let v = jget ld ''_pq_retry'' in
      if \<not> jtruthy v then Some 0
      else case v of JNum x \<Rightarrow> Some (if x < 0 then - floor (- x) else floor x)
        | JBool b \<Rightarrow> Some 1 | JStr s \<Rightarrow> jt_int s | _ \<Rightarrow> None)"

record enqueue_args =
  ea_event :: int
  ea_session :: string
  ea_log :: json
  ea_score :: rat
  ea_reasons :: "string list"
  ea_rounds :: int
  ea_priority :: int
  ea_tier :: string
  ea_ttl :: int

definition job_of :: "time \<Rightarrow> int \<Rightarrow> enqueue_args \<Rightarrow> audit_job" where
  "job_of now retry a =
     \<lparr>aj_event = ea_event a, aj_session = ea_session a, aj_log = ea_log a, aj_score = ea_score a,
      aj_reasons = take 20 (ea_reasons a),
      aj_rounds = (if ea_rounds a = 0 then 3 else ea_rounds a), aj_priority = ea_priority a,
      aj_tier = ea_tier a, aj_enqueued_ms = floor (now * 1000), aj_retry = retry\<rparr>"

section \<open>Operations\<close>

text \<open>The queue is the server it was given, or none.\<close>

definition enqueue ::
  "(audit_job, 'r) queue_server \<Rightarrow> (string \<Rightarrow> int option) \<Rightarrow> time \<Rightarrow> enqueue_args \<Rightarrow> 'r option \<Rightarrow>
   bool \<times> 'r option"
where
  "enqueue S jt_int now a q =
     (case q of
        None \<Rightarrow> (False, None)
      | Some s \<Rightarrow>
          (case retry_count jt_int (ea_log a) of
             None \<Rightarrow> (False, Some s)
           | Some retry \<Rightarrow>
               let member = dec_int (ea_event a); job = job_of now retry a;
                   s1 = q_set S now (payload_key member) job (of_int (max 60 (ea_ttl a))) s;
                   s2 = q_zadd S now member (pq_score (aj_priority job) (aj_enqueued_ms job)) s1;
                   s3 = q_expire S now (of_int (max 60 (ea_ttl a * 2))) s2
               in (True, Some s3)))"

text \<open>\<open>ZPOPMIN\<close> is the first member, removed.\<close>

definition pop_highest ::
  "(audit_job, 'r) queue_server \<Rightarrow> time \<Rightarrow> 'r option \<Rightarrow> audit_job option \<times> 'r option"
where
  "pop_highest S now q =
     (case q of
        None \<Rightarrow> (None, None)
      | Some s \<Rightarrow>
          (case q_zrange S now s of
             [] \<Rightarrow> (None, Some s)
           | (m, x) # rest \<Rightarrow>
               let s1 = q_zrem S now m s
               in (q_get S now (payload_key m) s1, Some (q_delete S (payload_key m) s1))))"

definition depth :: "(audit_job, 'r) queue_server \<Rightarrow> time \<Rightarrow> 'r option \<Rightarrow> nat" where
  "depth S now q = (case q of None \<Rightarrow> 0 | Some s \<Rightarrow> length (q_zrange S now s))"

definition peek_highest :: "(audit_job, 'r) queue_server \<Rightarrow> time \<Rightarrow> 'r option \<Rightarrow> audit_job option" where
  "peek_highest S now q =
     (case q of
        None \<Rightarrow> None
      | Some s \<Rightarrow> (case q_zrange S now s of
            [] \<Rightarrow> None | (m, x) # rest \<Rightarrow> q_get S now (payload_key m) s))"

text \<open>
  The scan of \<open>pop_matching\<close>: members without a payload and jobs that do not match are passed
  over; a member another process took in between is, too.
\<close>

fun scan_members ::
  "(audit_job, 'r) queue_server \<Rightarrow> time \<Rightarrow> (audit_job \<Rightarrow> bool) \<Rightarrow> string list \<Rightarrow> 'r \<Rightarrow>
   audit_job option \<times> 'r"
where
  "scan_members S now fits [] s = (None, s)"
| "scan_members S now fits (m # ms) s =
     (case q_get S now (payload_key m) s of
        None \<Rightarrow> scan_members S now fits ms s
      | Some job \<Rightarrow>
          if \<not> fits job then scan_members S now fits ms s
          else if m \<notin> set (List.map fst (q_zrange S now s)) then scan_members S now fits ms s
          else (Some job, q_delete S (payload_key m) (q_zrem S now m s)))"

definition pop_matching ::
  "(audit_job, 'r) queue_server \<Rightarrow> time \<Rightarrow> (audit_job \<Rightarrow> bool) \<Rightarrow> int \<Rightarrow> 'r option \<Rightarrow>
   audit_job option \<times> 'r option"
where
  "pop_matching S now fits window q =
     (case q of
        None \<Rightarrow> (None, None)
      | Some s \<Rightarrow>
          (case scan_members S now fits
                 (List.map fst (take (Suc (nat (max 0 (window - 1)))) (q_zrange S now s))) s of
             (job, s') \<Rightarrow> (job, Some s')))"

text \<open>Whether a job is one for the agents' workflow, by the triage of its event.\<close>

definition payload_is_temporal_agent ::
  "json_text \<Rightarrow> (string \<Rightarrow> string) \<Rightarrow> bool \<Rightarrow> audit_job \<Rightarrow> bool"
where
  "payload_is_temporal_agent jt infer skip_vol job =
     uses_temporal (tg_lane (score_event jt infer skip_vol (aj_log job) (aj_score job) False []))"

definition pop_first_runnable ::
  "(audit_job, 'r) queue_server \<Rightarrow> (audit_job \<Rightarrow> bool) \<Rightarrow> time \<Rightarrow> bool \<Rightarrow> int \<Rightarrow> 'r option \<Rightarrow>
   audit_job option \<times> 'r option"
where
  "pop_first_runnable S agent now agent_full window q =
     (if \<not> agent_full then pop_highest S now q
      else pop_matching S now (\<lambda>job. \<not> agent job) window q)"

definition purge_stale :: "(audit_job, 'r) queue_server \<Rightarrow> time \<Rightarrow> 'r option \<Rightarrow> nat \<times> 'r option" where
  "purge_stale S now q =
     (case q of
        None \<Rightarrow> (0, None)
      | Some s \<Rightarrow>
          let ghosts = filter (\<lambda>m. q_get S now (payload_key m) s = None)
                         (List.map fst (take 201 (q_zrange S now s)))
          in (length ghosts, Some (fold (q_zrem S now) ghosts s)))"

section \<open>Runs of the queue\<close>

datatype pq_op = Enqueue enqueue_args | PopHighest | PopRunnable bool int | PurgeStale

fun pq_step ::
  "(audit_job, 'r) queue_server \<Rightarrow> (string \<Rightarrow> int option) \<Rightarrow> (audit_job \<Rightarrow> bool) \<Rightarrow> time \<Rightarrow> pq_op \<Rightarrow>
   'r option \<Rightarrow> 'r option"
where
  "pq_step S jt_int agent now (Enqueue a) q = snd (enqueue S jt_int now a q)"
| "pq_step S jt_int agent now PopHighest q = snd (pop_highest S now q)"
| "pq_step S jt_int agent now (PopRunnable full w) q = snd (pop_first_runnable S agent now full w q)"
| "pq_step S jt_int agent now PurgeStale q = snd (purge_stale S now q)"

definition pq_run ::
  "(audit_job, 'r) queue_server \<Rightarrow> (string \<Rightarrow> int option) \<Rightarrow> (audit_job \<Rightarrow> bool) \<Rightarrow>
   (time \<times> pq_op) list \<Rightarrow> 'r option \<Rightarrow> 'r option"
where
  "pq_run S jt_int agent ops q = fold (\<lambda>(now, op). pq_step S jt_int agent now op) ops q"

text \<open>
  The expiries asked for are of one size: none is more than twice another, up to the minute every
  key has at least.
\<close>

definition ttl_fits :: "time \<Rightarrow> pq_op \<Rightarrow> bool" where
  "ttl_fits D op \<longleftrightarrow>
     (case op of
        Enqueue a \<Rightarrow> of_int (max 60 (ea_ttl a)) \<le> D \<and> D \<le> of_int (max 60 (ea_ttl a * 2))
      | _ \<Rightarrow> True)"

text \<open>
  No enqueue sets the expiry of the set to a time before the end of a payload enqueued earlier; the
  list holds the ends of the payloads so far. Expiries of one size are a case of it.
\<close>

fun expiry_covers :: "time list \<Rightarrow> (time \<times> pq_op) list \<Rightarrow> bool" where
  "expiry_covers ends [] \<longleftrightarrow> True"
| "expiry_covers ends ((t, Enqueue a) # ops) \<longleftrightarrow>
     list_all (\<lambda>e. e \<le> t + of_int (max 60 (ea_ttl a * 2))) ends \<and>
     expiry_covers ((t + of_int (max 60 (ea_ttl a))) # ends) ops"
| "expiry_covers ends ((t, _) # ops) \<longleftrightarrow> expiry_covers ends ops"

lemma fits_covers_from:
  assumes "list_all (\<lambda>e. e \<le> cur + D) ends" and "sorted (cur # List.map fst ops)"
    and "list_all (\<lambda>r. ttl_fits D (snd r)) ops"
  shows "expiry_covers ends ops"
  using assms
proof (induction ops arbitrary: ends cur)
  case (Cons r ops)
  obtain t op where r: "r = (t, op)" by (cases r)
  with Cons.prems have le: "cur \<le> t" by simp
  with Cons.prems(1) have old: "list_all (\<lambda>e. e \<le> t + D) ends" by (force simp: list_all_iff)
  have rest: "sorted (t # List.map fst ops)" "list_all (\<lambda>r. ttl_fits D (snd r)) ops"
    using Cons.prems r by simp_all
  show ?case
  proof (cases op)
    case (Enqueue a)
    with Cons.prems(3) r have "of_int (max 60 (ea_ttl a)) \<le> D" and D: "D \<le> of_int (max 60 (ea_ttl a * 2))"
      by (simp_all add: ttl_fits_def)
    then have "list_all (\<lambda>e. e \<le> t + D) ((t + of_int (max 60 (ea_ttl a))) # ends)" using old by simp
    moreover have "list_all (\<lambda>e. e \<le> t + of_int (max 60 (ea_ttl a * 2))) ends"
      using old D by (force simp: list_all_iff)
    ultimately show ?thesis using Cons.IH [OF _ rest] r Enqueue by simp
  qed (use Cons.IH [OF old rest] r in simp_all)
qed simp

lemma fits_covers:
  assumes "sorted (List.map fst ops)" and "list_all (\<lambda>r. ttl_fits D (snd r)) ops"
  shows "expiry_covers [] ops"
proof (cases ops)
  case (Cons r rs)
  with assms show ?thesis by (intro fits_covers_from [of "fst r" D]) simp_all
qed simp

text \<open>The expiries the configuration has by default for the two tiers that are queued.\<close>

lemma default_expiries_cover:
  assumes "sorted (List.map fst ops)"
    and "list_all (\<lambda>r. case snd r of Enqueue a \<Rightarrow> ea_ttl a \<in> {3600, 1800} | _ \<Rightarrow> True) ops"
  shows "expiry_covers [] ops"
proof (rule fits_covers [OF assms(1), where D = 3600])
  show "list_all (\<lambda>r. ttl_fits 3600 (snd r)) ops"
    using assms(2) by (fastforce simp: list_all_iff ttl_fits_def split: pq_op.splits)
qed

section \<open>What the queue keeps\<close>

definition ordered :: "(string \<times> int) list \<Rightarrow> bool" where
  "ordered es \<longleftrightarrow> sorted (List.map (\<lambda>x. (snd x, fst x)) es) \<and> distinct (List.map fst es)"

lemma ordered_filter: "ordered es \<Longrightarrow> ordered (filter P es)"
  by (simp add: ordered_def sorted_filter distinct_map_filter)

lemma mset_insort_key: "mset (insort_key f x xs) = add_mset x (mset xs)"
  by (induction xs) auto

lemma ordered_place: "ordered es \<Longrightarrow> ordered (place e es)"
proof -
  assume "ordered es"
  then have o: "ordered (filter (\<lambda>x. fst x \<noteq> fst e) es)" by (rule ordered_filter)
  have "mset (List.map fst (place e es)) = add_mset (fst e) (mset (List.map fst (filter (\<lambda>x. fst x \<noteq> fst e) es)))"
    by (simp add: place_def mset_insort_key)
  moreover have "fst e \<notin> set (List.map fst (filter (\<lambda>x. fst x \<noteq> fst e) es))" by auto
  ultimately have "distinct (List.map fst (place e es))"
    using o unfolding ordered_def by (metis distinct.simps(2) mset.simps(2) mset_eq_imp_distinct_iff)
  with o show ?thesis
    by (simp add: ordered_def place_def sorted_insort_key)
qed

lemma set_place: "set (place e es) = insert e {x \<in> set es. fst x \<noteq> fst e}"
  by (auto simp: place_def set_insort_key)

lemma key_eq [simp]: "payload_key m = payload_key m' \<longleftrightarrow> m = m'"
  by (simp add: payload_key_def)

locale queue_store =
  fixes S :: "(audit_job, 'r) queue_server"
    and members :: "'r \<Rightarrow> (string \<times> int) list"
    and deadline :: "'r \<Rightarrow> time option"
  assumes laws: "queue_laws S members deadline"
begin

lemma get_set: "q_get S t' k' (q_set S t k v d s) =
    (if k = k' then (if t \<le> t' \<and> t' < t + d then Some v else None) else q_get S t' k' s)"
  using laws unfolding queue_laws_def by meson

lemma get_delete: "q_get S t k' (q_delete S k s) = (if k = k' then None else q_get S t k' s)"
  using laws unfolding queue_laws_def by meson

lemma get_other: "q_get S t' k (q_zadd S t m x s) = q_get S t' k s"
  "q_get S t' k (q_zrem S t m s) = q_get S t' k s"
  "q_get S t' k (q_expire S t d s) = q_get S t' k s"
  using laws unfolding queue_laws_def by meson+

lemma zrange: "q_zrange S t s = (if alive t (deadline s) then members s else [])"
  using laws unfolding queue_laws_def by meson

lemma set_keeps: "members (q_set S t k v d s) = members s" "deadline (q_set S t k v d s) = deadline s"
  "members (q_delete S k s) = members s" "deadline (q_delete S k s) = deadline s"
  using laws unfolding queue_laws_def by meson+

lemma zadd: "members (q_zadd S t m x s) = place (m, x) (q_zrange S t s)"
  "deadline (q_zadd S t m x s) = (if q_zrange S t s = [] then None else deadline s)"
  using laws unfolding queue_laws_def by meson+

lemma zrem: "members (q_zrem S t m s) = filter (\<lambda>e. fst e \<noteq> m) (q_zrange S t s)"
  "deadline (q_zrem S t m s) = deadline s"
  using laws unfolding queue_laws_def by meson+

lemma expire: "members (q_expire S t d s) = q_zrange S t s"
  "deadline (q_expire S t d s) = (if q_zrange S t s = [] then None else Some (t + d))"
  using laws unfolding queue_laws_def by meson+

text \<open>What an enqueue that succeeds leaves on the server.\<close>

lemma enqueued:
  assumes "enqueue S jt_int now a q = (True, q')"
  obtains s' retry where "q' = Some s'" and "retry_count jt_int (ea_log a) = Some retry"
    and "q_get S now (payload_key (dec_int (ea_event a))) s' = Some (job_of now retry a)"
    and "(dec_int (ea_event a), pq_score (ea_priority a) (floor (now * 1000))) \<in> set (q_zrange S now s')"
proof -
  define E L :: time where "E = of_int (max 60 (ea_ttl a))" and "L = of_int (max 60 (ea_ttl a * 2))"
  define m where "m = dec_int (ea_event a)"
  from assms obtain s retry where "q = Some s" and retry: "retry_count jt_int (ea_log a) = Some retry"
    by (auto simp: enqueue_def Let_def split: option.splits)
  define job x where "job = job_of now retry a" and "x = pq_score (ea_priority a) (floor (now * 1000))"
  define s3 where "s3 = q_expire S now L (q_zadd S now m x (q_set S now (payload_key m) job E s))"
  have ne: "place (m, x) es \<noteq> []" for es using set_place [of "(m, x)" es] by auto
  have z2: "q_zrange S now (q_zadd S now m x s1) = place (m, x) (q_zrange S now s1)" for s1
    by (auto simp: zrange [of now "q_zadd S now m x s1"] zadd) (auto simp: zrange alive_def split: if_splits)
  have "alive now (deadline s3)"
    by (simp add: s3_def expire z2 ne alive_def L_def)
  then have "(m, x) \<in> set (q_zrange S now s3)"
    by (simp add: zrange [of now s3]) (simp add: s3_def expire z2 set_place)
  moreover have "q_get S now (payload_key m) s3 = Some job"
    by (simp add: s3_def get_other get_set E_def)
  moreover have "q' = Some s3"
    using assms \<open>q = Some s\<close> retry by (auto simp: enqueue_def Let_def s3_def E_def L_def m_def x_def job_def job_of_def)
  ultimately show thesis using that retry by (simp add: m_def x_def job_def)
qed

lemmas get_laws = get_set get_delete get_other
lemmas set_laws = set_keeps zadd zrem expire

text \<open>
  From \<open>cur\<close> on: a payload that is readable at some time is so until then, is the one of its
  member, ends with one of the times \<open>D\<close>, and its member is in the set with its score.
\<close>

definition job_ok :: "time list \<Rightarrow> time \<Rightarrow> 'r \<Rightarrow> string \<Rightarrow> time \<Rightarrow> audit_job \<Rightarrow> bool" where
  "job_ok D cur s m t job \<longleftrightarrow>
     m = dec_int (aj_event job) \<and> (\<exists>e \<in> set D. t < e) \<and>
     (\<forall>t'. cur \<le> t' \<and> t' \<le> t \<longrightarrow> q_get S t' (payload_key m) s = Some job) \<and>
     alive t (deadline s) \<and>
     (m, pq_score (aj_priority job) (aj_enqueued_ms job)) \<in> set (members s)"

definition pq_ok :: "time list \<Rightarrow> time \<Rightarrow> 'r \<Rightarrow> bool" where
  "pq_ok D cur s \<longleftrightarrow> ordered (members s) \<and>
     (\<forall>m t job. cur \<le> t \<and> q_get S t (payload_key m) s = Some job \<longrightarrow> job_ok D cur s m t job)"

lemma alive_earlier: "alive t d \<Longrightarrow> t' \<le> t \<Longrightarrow> alive t' d"
  by (auto simp: alive_def split: option.splits)

lemma ok_later:
  assumes "pq_ok D cur s" and "cur \<le> now"
  shows "pq_ok D now s"
proof -
  have "job_ok D now s m t job" if "now \<le> t" "q_get S t (payload_key m) s = Some job" for m t job
  proof -
    have "job_ok D cur s m t job" using assms that by (auto simp: pq_ok_def)
    with assms(2) show ?thesis by (auto simp: job_ok_def)
  qed
  with assms(1) show ?thesis by (simp add: pq_ok_def)
qed

text \<open>A member goes, with its payload or without one.\<close>

lemma ok_without:
  assumes "pq_ok D now s" and "members s' = filter (\<lambda>e. fst e \<noteq> m) (q_zrange S now s)"
    and "deadline s' = deadline s"
    and other: "\<And>t m'. m' \<noteq> m \<Longrightarrow> q_get S t (payload_key m') s' = q_get S t (payload_key m') s"
    and gone: "\<And>t. now \<le> t \<Longrightarrow> q_get S t (payload_key m) s' = None"
  shows "pq_ok D now s'"
proof -
  have "job_ok D now s' m' t job" if "now \<le> t" "q_get S t (payload_key m') s' = Some job" for m' t job
  proof -
    have ne: "m' \<noteq> m" using gone [OF that(1)] that(2) by auto
    then have "job_ok D now s m' t job"
      using assms(1) that other by (auto simp: pq_ok_def)
    then show ?thesis
      using ne other [OF ne] assms(2,3) alive_earlier [OF _ that(1)]
      by (auto simp: job_ok_def zrange)
  qed
  moreover have "ordered (members s')"
    using assms(1,2) by (auto simp: pq_ok_def zrange ordered_filter) (simp add: ordered_def)
  ultimately show ?thesis by (simp add: pq_ok_def)
qed

lemma ok_take: "pq_ok D now s \<Longrightarrow> pq_ok D now (q_delete S (payload_key m) (q_zrem S now m s))"
  by (rule ok_without [where m = m]) (simp_all add: set_laws get_laws)

lemma no_payload_later:
  assumes "pq_ok D now s" and "q_get S now (payload_key m) s = None" and "now \<le> t"
  shows "q_get S t (payload_key m) s = None"
proof (cases "q_get S t (payload_key m) s")
  case (Some job)
  with assms(1,3) have "job_ok D now s m t job" by (simp add: pq_ok_def)
  then have "q_get S now (payload_key m) s = Some job"
    using assms(3) unfolding job_ok_def by blast
  with assms(2) show ?thesis by simp
qed

lemma ok_ghost:
  "pq_ok D now s \<Longrightarrow> q_get S now (payload_key m) s = None \<Longrightarrow> pq_ok D now (q_zrem S now m s)"
  by (rule ok_without [where m = m]) (simp_all add: set_laws get_laws no_payload_later)

lemma ok_ghosts:
  "pq_ok D now s \<Longrightarrow> list_all (\<lambda>m. q_get S now (payload_key m) s = None) ms \<Longrightarrow>
   pq_ok D now (fold (q_zrem S now) ms s)"
  by (induction ms arbitrary: s) (simp_all add: ok_ghost get_other)

lemma ok_enqueue:
  assumes "pq_ok D now s" and "list_all (\<lambda>e. e \<le> now + of_int (max 60 (ttl * 2))) D"
    and "m = dec_int (aj_event job)" and "x = pq_score (aj_priority job) (aj_enqueued_ms job)"
  shows "pq_ok ((now + of_int (max 60 ttl)) # D) now (q_expire S now (of_int (max 60 (ttl * 2)))
    (q_zadd S now m x (q_set S now (payload_key m) job (of_int (max 60 ttl)) s)))"
proof -
  define E L :: time where "E = of_int (max 60 ttl)" and "L = of_int (max 60 (ttl * 2))"
  let ?s1 = "q_set S now (payload_key m) job E s"
  let ?s2 = "q_zadd S now m x ?s1"
  let ?s3 = "q_expire S now L ?s2"
  have z1: "q_zrange S now ?s1 = q_zrange S now s" by (simp add: zrange set_keeps)
  have ne: "place (m, x) es \<noteq> []" for es using set_place [of "(m, x)" es] by auto
  have "alive now (deadline ?s2)"
    by (auto simp: zadd z1 set_keeps zrange alive_def [of now None] split: if_splits)
  then have z2: "q_zrange S now ?s2 = place (m, x) (q_zrange S now s)"
    by (simp add: zrange [of now ?s2] zadd z1)
  have m3: "members ?s3 = place (m, x) (q_zrange S now s)" and d3: "deadline ?s3 = Some (now + L)"
    by (simp_all add: expire z2 ne)
  have g: "q_get S t (payload_key m') ?s3 =
      (if m' = m then (if now \<le> t \<and> t < now + E then Some job else None)
       else q_get S t (payload_key m') s)" for t m'
    by (auto simp: get_other get_set)
  define s3 where "s3 = ?s3"
  note s3 = m3 [folded s3_def] d3 [folded s3_def] g [folded s3_def]
  have EL: "E \<le> L" by (simp add: E_def L_def)
  have live: "alive t (deadline s3)" if "\<exists>e \<in> set ((now + E) # D). t < e" for t
    unfolding s3 using that assms(2) EL by (auto simp: alive_def L_def list_all_iff)
  have "job_ok ((now + E) # D) now s3 m' t j" if t: "now \<le> t" and got: "q_get S t (payload_key m') s3 = Some j" for m' t j
  proof (cases "m' = m")
    case True
    with got have j: "j = job" and lt: "t < now + E" by (auto simp: s3 split: if_splits)
    with live [of t] show ?thesis
      by (simp add: job_ok_def s3 set_place True j assms(3,4) [symmetric])
  next
    case False
    with got have "q_get S t (payload_key m') s = Some j" by (simp add: s3)
    with assms(1) t have old: "job_ok D now s m' t j" by (simp add: pq_ok_def)
    then have "alive t (deadline s)" by (simp add: job_ok_def)
    then have "set (members s) \<subseteq> set (q_zrange S now s)"
      using alive_earlier [OF _ t] by (simp add: zrange)
    with old False live [of t] show ?thesis by (auto simp: job_ok_def s3 set_place)
  qed
  moreover have "ordered (members s3)"
    unfolding s3 by (rule ordered_place) (use assms(1) in \<open>auto simp: pq_ok_def zrange ordered_def\<close>)
  ultimately have "pq_ok ((now + E) # D) now s3" by (simp add: pq_ok_def)
  then show ?thesis by (simp add: s3_def E_def L_def)
qed

lemma ok_scan: "pq_ok D now s \<Longrightarrow> pq_ok D now (snd (scan_members S now fits ms s))"
  by (induction ms) (auto simp: ok_take split: option.split)

lemma ok_pop: "pq_ok D now s \<Longrightarrow> \<exists>s'. snd (pop_highest S now (Some s)) = Some s' \<and> pq_ok D now s'"
  by (auto simp: pop_highest_def Let_def ok_take split: list.split prod.split)

lemma job_ok_more: "job_ok D cur s m t job \<Longrightarrow> job_ok (e # D) cur s m t job"
  unfolding job_ok_def using list.set_intros(2) by metis

lemma ok_more: "pq_ok D now s \<Longrightarrow> pq_ok (e # D) now s"
  unfolding pq_ok_def using job_ok_more by blast

text \<open>A step keeps the jobs, with the end of the payload it may add.\<close>

lemma ok_step:
  assumes "pq_ok D cur s" and "cur \<le> now" and "expiry_covers D ((now, op) # ops)"
  shows "\<exists>s' D'. pq_step S jt_int agent now op (Some s) = Some s' \<and> pq_ok D' now s' \<and> expiry_covers D' ops"
proof -
  note ok = ok_later [OF assms(1,2)]
  show ?thesis
  proof (cases op)
    case (Enqueue a)
    let ?D = "(now + of_int (max 60 (ea_ttl a))) # D"
    from assms(3) Enqueue have l: "list_all (\<lambda>e. e \<le> now + of_int (max 60 (ea_ttl a * 2))) D" and c: "expiry_covers ?D ops"
      by simp_all
    have "\<exists>s'. snd (enqueue S jt_int now a (Some s)) = Some s' \<and> pq_ok ?D now s'"
      using ok_enqueue [OF ok l, of _ "job_of now r a" for r] ok_more [OF ok]
      by (auto simp: enqueue_def Let_def job_of_def split: option.split)
    with c Enqueue show ?thesis by auto
  next
    case PopHighest
    with assms(3) ok_pop [OF ok] show ?thesis by auto
  next
    case (PopRunnable full w)
    with assms(3) ok_pop [OF ok] ok_scan [OF ok] show ?thesis
      by (auto simp: pop_first_runnable_def pop_matching_def case_prod_unfold)
  next
    case PurgeStale
    have "\<exists>s'. snd (purge_stale S now (Some s)) = Some s' \<and> pq_ok D now s'"
      by (auto simp: purge_stale_def Let_def list_all_iff intro!: ok_ghosts ok)
    with assms(3) PurgeStale show ?thesis by auto
  qed
qed

lemma ok_run:
  assumes "pq_ok D cur s" and "sorted (cur # List.map fst ops)" and "expiry_covers D ops"
    and "list_all (\<lambda>r. fst r \<le> now) ops" and "cur \<le> now"
  shows "\<exists>s' D'. pq_run S jt_int agent ops (Some s) = Some s' \<and> pq_ok D' now s'"
  using assms
proof (induction ops arbitrary: D cur s)
  case Nil
  then show ?case by (auto simp: pq_run_def intro: ok_later)
next
  case (Cons r ops)
  obtain t op where r: "r = (t, op)" by (cases r)
  from Cons.prems have le: "cur \<le> t" and "expiry_covers D ((t, op) # ops)" by (simp_all add: r)
  from ok_step [OF Cons.prems(1) this, of jt_int agent]
  obtain s1 D1 where s1: "pq_step S jt_int agent t op (Some s) = Some s1" "pq_ok D1 t s1" "expiry_covers D1 ops"
    by blast
  with Cons.IH [OF s1(2)] Cons.prems show ?case by (simp add: pq_run_def r)
qed

lemma empty_ok: "members s = [] \<Longrightarrow> \<forall>t k. q_get S t k s = None \<Longrightarrow> pq_ok D cur s"
  by (simp add: pq_ok_def ordered_def)

text \<open>The state a run from an empty queue ends in.\<close>

lemma ran_ok:
  assumes "members s0 = []" and "\<forall>t k. q_get S t k s0 = None" and "sorted (List.map fst ops)"
    and "expiry_covers [] ops" and "list_all (\<lambda>r. fst r \<le> now) ops"
    and "pq_run S jt_int agent ops (Some s0) = Some s"
  obtains D where "pq_ok D now s"
proof (cases ops)
  case Nil
  with assms(1,2,6) empty_ok that show ?thesis by (auto simp: pq_run_def)
next
  case (Cons r rs)
  have "pq_ok [] (fst r) s0" by (rule empty_ok [OF assms(1,2)])
  from ok_run [OF this, of ops now jt_int agent] assms that show ?thesis by (auto simp: Cons)
qed

lemma waiting_member:
  assumes "pq_ok D now s" and "q_get S now (payload_key m) s = Some job"
  shows "(m, pq_score (aj_priority job) (aj_enqueued_ms job)) \<in> set (q_zrange S now s)"
proof -
  have "job_ok D now s m now job" using assms by (simp add: pq_ok_def)
  then have "alive now (deadline s)"
    and "(m, pq_score (aj_priority job) (aj_enqueued_ms job)) \<in> set (members s)"
    unfolding job_ok_def by blast+
  then show ?thesis by (simp add: zrange)
qed

lemma popped_first:
  assumes ok: "pq_ok D now s" and pop: "pop_highest S now (Some s) = (Some job, Some s')"
    and waits: "q_get S now (payload_key m) s' = Some other"
  shows "m \<noteq> dec_int (aj_event job) \<and>
    pq_score (aj_priority job) (aj_enqueued_ms job) \<le> pq_score (aj_priority other) (aj_enqueued_ms other)"
proof -
  obtain m0 x0 rest where z: "q_zrange S now s = (m0, x0) # rest"
    using pop by (auto simp: pop_highest_def split: list.splits)
  then have got: "q_get S now (payload_key m0) s = Some job"
    and s': "s' = q_delete S (payload_key m0) (q_zrem S now m0 s)"
    using pop by (auto simp: pop_highest_def Let_def get_laws)
  have ne: "m \<noteq> m0" and other: "q_get S now (payload_key m) s = Some other"
    using waits by (auto simp: s' get_laws split: if_splits)
  have "job_ok D now s m0 now job" using ok got by (simp add: pq_ok_def)
  then have m0: "m0 = dec_int (aj_event job)" by (simp add: job_ok_def)
  have ord: "ordered (q_zrange S now s)"
    using ok by (auto simp: pq_ok_def zrange ordered_def)
  have "x0 = pq_score (aj_priority job) (aj_enqueued_ms job)"
    using waiting_member [OF ok got] ord unfolding z ordered_def by force
  moreover have "x0 \<le> pq_score (aj_priority other) (aj_enqueued_ms other)"
    using waiting_member [OF ok other] ord ne unfolding z ordered_def
    by (auto simp: less_eq_prod_def)
  ultimately show ?thesis using ne m0 by simp
qed

end

section \<open>What the queue promises\<close>

text \<open>
  C28. A job that was enqueued stays in the queue as long as its payload lives, whatever is enqueued,
  popped, skipped and purged meanwhile - provided no enqueue sets the expiry of the set, which every
  enqueue does anew, to a time before the end of a payload enqueued earlier. With the expiries of the
  configuration's defaults (3600 and 1800 seconds) none does: twice the smaller is the larger. Without
  the proviso jobs are lost (\<open>short_expiry_loses_job\<close>).
\<close>

theorem queued_job_not_lost:
  assumes "queue_laws S members deadline" and "members s0 = []" and "\<forall>t k. q_get S t k s0 = None"
    and "sorted (List.map fst ops)" and "expiry_covers [] ops"
    and "list_all (\<lambda>r. fst r \<le> now) ops" and "pq_run S jt_int agent ops (Some s0) = Some s"
    and "q_get S now (payload_key m) s = Some job"
  shows "m \<in> set (List.map fst (q_zrange S now s)) \<and> 0 < depth S now (Some s)"
proof -
  have q: "queue_store S members deadline" by (rule queue_store.intro [OF assms(1)])
  obtain D where "queue_store.pq_ok S members deadline D now s" using queue_store.ran_ok [OF q assms(2-7)] by blast
  from queue_store.waiting_member [OF q this assms(8)] show ?thesis by (force simp: depth_def)
qed


text \<open>
  With all agents' slots taken the scan takes only a job that needs none, and when it finds none the
  queue is as it was.
\<close>

lemma scan_result:
  "scan_members S now fits ms s = (r, s') \<Longrightarrow>
   (r = None \<longrightarrow> s' = s) \<and> (\<forall>job. r = Some job \<longrightarrow> fits job)"
  by (induction ms) (auto split: option.splits if_splits)

lemma full_slots_skip_agents:
  assumes "pop_first_runnable S agent now True window (Some s) = (r, q)"
  shows "(r = None \<longrightarrow> q = Some s) \<and> (\<forall>job. r = Some job \<longrightarrow> \<not> agent job)"
  using assms scan_result [of S now "\<lambda>job. \<not> agent job"]
  by (auto simp: pop_first_runnable_def pop_matching_def case_prod_unfold)
    (metis prod.collapse)+

section \<open>A server that satisfies the laws\<close>

record 'v mem_queue =
  mq_payloads :: "(string \<times> time \<times> time \<times> 'v) list"
  mq_members :: "(string \<times> int) list"
  mq_deadline :: "time option"

definition mem_range :: "time \<Rightarrow> 'v mem_queue \<Rightarrow> (string \<times> int) list" where
  "mem_range t s = (if alive t (mq_deadline s) then mq_members s else [])"

definition mem_queue_server :: "('v, 'v mem_queue) queue_server" where
  "mem_queue_server =
     \<lparr>q_get = (\<lambda>t k s. case map_of (mq_payloads s) k of
          None \<Rightarrow> None | Some (a, b, v) \<Rightarrow> if a \<le> t \<and> t < b then Some v else None),
      q_set = (\<lambda>t k v d s. s\<lparr>mq_payloads := (k, t, t + d, v) # mq_payloads s\<rparr>),
      q_delete = (\<lambda>k s. s\<lparr>mq_payloads := filter (\<lambda>c. fst c \<noteq> k) (mq_payloads s)\<rparr>),
      q_zadd = (\<lambda>t m x s. s\<lparr>mq_members := place (m, x) (mem_range t s),
          mq_deadline := (if mem_range t s = [] then None else mq_deadline s)\<rparr>),
      q_zrem = (\<lambda>t m s. s\<lparr>mq_members := filter (\<lambda>e. fst e \<noteq> m) (mem_range t s)\<rparr>),
      q_expire = (\<lambda>t d s. s\<lparr>mq_members := mem_range t s,
          mq_deadline := (if mem_range t s = [] then None else Some (t + d))\<rparr>),
      q_zrange = mem_range\<rparr>"

definition empty_queue :: "'v mem_queue" where
  "empty_queue = \<lparr>mq_payloads = [], mq_members = [], mq_deadline = None\<rparr>"

lemma map_of_kept: "map_of (filter (\<lambda>c. fst c \<noteq> k') cs) k = (if k = k' then None else map_of cs k)"
  by (induction cs) auto

lemma mem_queue_laws: "queue_laws mem_queue_server mq_members mq_deadline"
  unfolding queue_laws_def mem_queue_server_def
  by (auto simp: mem_range_def map_of_kept split: option.splits)

interpretation mem_queue: queue_store mem_queue_server mq_members mq_deadline
  by unfold_locales (rule mem_queue_laws)

section \<open>A concrete queue\<close>

definition demo_args :: "int \<Rightarrow> int \<Rightarrow> string \<Rightarrow> int \<Rightarrow> enqueue_args" where
  "demo_args e p tier ttl = \<lparr>ea_event = e, ea_session = ''s'', ea_log = JObj [], ea_score = 0,
     ea_reasons = [], ea_rounds = 3, ea_priority = p, ea_tier = tier, ea_ttl = ttl\<rparr>"

text \<open>A job of the top tier, and two of the second with the same priority.\<close>

definition demo_ops :: "(time \<times> pq_op) list" where
  "demo_ops = [(1, Enqueue (demo_args 7 95 ''P0'' 3600)), (2, Enqueue (demo_args 8 60 ''P1'' 1800)),
     (3, Enqueue (demo_args 9 60 ''P1'' 1800)), (4, PopHighest)]"

definition demo_queue :: "audit_job mem_queue" where
  "demo_queue = the (pq_run mem_queue_server (\<lambda>_. None) (\<lambda>_. False) demo_ops (Some empty_queue))"

lemma demo_queue_ran:
  "pq_run mem_queue_server (\<lambda>_. None) (\<lambda>_. False) demo_ops (Some empty_queue) = Some demo_queue"
  "mq_members empty_queue = []" "\<forall>t k. q_get mem_queue_server t k empty_queue = None"
  "sorted (List.map fst demo_ops)" "list_all (\<lambda>r. ttl_fits 3600 (snd r)) demo_ops"
  "list_all (\<lambda>r. fst r \<le> 5) demo_ops"
  by (simp add: demo_queue_def, code_simp)
    (simp_all add: empty_queue_def mem_queue_server_def demo_ops_def ttl_fits_def demo_args_def)

lemma queued_job_not_lost_witness:
  "''8'' \<in> set (List.map fst (q_zrange mem_queue_server 5 demo_queue)) \<and>
   0 < depth mem_queue_server 5 (Some demo_queue)"
proof -
  have "q_get mem_queue_server 5 (payload_key ''8'') demo_queue =
      Some (job_of 2 0 (demo_args 8 60 ''P1'' 1800))"
    by code_simp
  from queued_job_not_lost [OF mem_queue_laws demo_queue_ran(2-4) fits_covers [OF demo_queue_ran(4,5)]
      demo_queue_ran(6,1) this]
  show ?thesis .
qed

text \<open>
  The proviso is needed: the enqueue of a second job with an expiry of 900 seconds ends the set after
  1800, while the payload of the first, of the top tier, lives for 3600. At 2000 it can still be read,
  but no pop and no purge finds it, and the next enqueue begins a new set without it.
\<close>

definition demo_short :: "audit_job mem_queue" where
  "demo_short = the (pq_run mem_queue_server (\<lambda>_. None) (\<lambda>_. False)
     [(0, Enqueue (demo_args 7 95 ''P0'' 3600)), (1, Enqueue (demo_args 8 60 ''P1'' 900))] (Some empty_queue))"

theorem short_expiry_loses_job:
  "q_get mem_queue_server 2000 (payload_key ''7'') demo_short = Some (job_of 0 0 (demo_args 7 95 ''P0'' 3600)) \<and>
   q_zrange mem_queue_server 2000 demo_short = [] \<and>
   fst (pop_highest mem_queue_server 2000 (Some demo_short)) = None \<and>
   map_option (\<lambda>s. List.map fst (q_zrange mem_queue_server 2001 s))
     (snd (enqueue mem_queue_server (\<lambda>_. None) 2001 (demo_args 9 60 ''P1'' 900) (Some demo_short))) = Some [''9'']"
  by (intro conjI; code_simp)


end
