(* ===== verification/AuditWorker.thy ===== *)
theory AuditWorker
  imports AuditQueue
begin

text \<open>
  The pool of workers that run audits (\<open>src/backend/audit_worker.py\<close>): a bounded priority queue in
  memory, and where an audit goes when it is full.  The queue of the pool is Python's
  \<open>asyncio.PriorityQueue\<close>, a list kept in the order of its keys.  Whether the message broker takes
  an audit is a parameter; the audits themselves run elsewhere, and how one ends is an argument of
  the worker's step.  Gauges and log lines are left out.
\<close>

section \<open>Settings, jobs and the state of the pool\<close>

record worker_env =
  we_jt :: json_text
  we_infer :: "string \<Rightarrow> string"
  we_skip_vol :: bool
  we_int :: "string \<Rightarrow> int option"
  we_agent_cap :: int
  we_deep_cap :: int
  we_ttl_p0 :: int
  we_ttl_p1 :: int
  we_ttl_p2 :: int
  we_ttl_other :: int
  we_workers :: int
  we_queue_max :: int
  we_p0_never_drop :: bool
  we_p1_never_drop :: bool

record worker_job =
  wj_session :: string
  wj_event :: int
  wj_log :: json
  wj_score :: rat
  wj_reasons :: "string list"
  wj_tier :: tier
  wj_priority :: int

text \<open>What a worker is doing; a task is the audit's own task, a number.\<close>

datatype worker_state = Absent | Waiting | Running worker_job nat

record worker_pool =
  wp_started :: bool
  wp_heap :: "(int \<times> nat \<times> worker_job) list"
  wp_overflow :: "worker_job list"
  wp_seq :: nat
  wp_streak :: "nat \<Rightarrow> nat"
  wp_inflight :: "(int \<times> nat) list"
  wp_busy :: nat
  wp_workers :: "nat \<Rightarrow> worker_state"
  wp_tasks :: nat
  wp_asked :: "nat list"

definition new_pool :: worker_pool where
  "new_pool = \<lparr>wp_started = False, wp_heap = [], wp_overflow = [], wp_seq = 0,
     wp_streak = (\<lambda>_. 0), wp_inflight = [], wp_busy = 0, wp_workers = (\<lambda>_. Absent),
     wp_tasks = 0, wp_asked = []\<rparr>"

definition P0_OVERFLOW_MAX :: nat where
  "P0_OVERFLOW_MAX = 10000"

definition n_workers :: "worker_env \<Rightarrow> int" where
  "n_workers env = max 1 (if we_workers env \<noteq> 0 then we_workers env else 12)"

definition queue_max :: "worker_env \<Rightarrow> int" where
  "queue_max env = max 1 (if we_queue_max env \<noteq> 0 then we_queue_max env else 2000)"

definition start :: "worker_env \<Rightarrow> worker_pool \<Rightarrow> worker_pool" where
  "start env p =
     (if wp_started p then p
      else p\<lparr>wp_started := True, wp_streak := (\<lambda>_. 0),
             wp_workers := (\<lambda>i. if int i < n_workers env then Waiting else Absent)\<rparr>)"

definition stop :: "worker_pool \<Rightarrow> worker_pool" where
  "stop p = p\<lparr>wp_started := False, wp_workers := (\<lambda>_. Absent), wp_inflight := [], wp_busy := 0\<rparr>"

lemma start_queues [simp]:
  "wp_heap (start env p) = wp_heap p" "wp_overflow (start env p) = wp_overflow p"
  "wp_seq (start env p) = wp_seq p"
  by (simp_all add: start_def)

definition tier_text :: "tier \<Rightarrow> string" where
  "tier_text t = (case t of P0 \<Rightarrow> ''P0'' | P1 \<Rightarrow> ''P1'' | P2 \<Rightarrow> ''P2'' | P3 \<Rightarrow> ''P3'')"

section \<open>Submitting\<close>

text \<open>
  The answer \<open>direct\<close> needs a caller outside a running event loop, which a coroutine never is.
\<close>

datatype submitted = Queued | Shed | Deferred | Overflow

definition job_triage :: "worker_env \<Rightarrow> json \<Rightarrow> rat \<Rightarrow> triage" where
  "job_triage env ld score = score_event (we_jt env) (we_infer env) (we_skip_vol env) ld score False []"

definition enqueue_pq ::
  "worker_env \<Rightarrow> (audit_job, 'r) queue_server \<Rightarrow> time \<Rightarrow> worker_job \<Rightarrow> lane \<Rightarrow> 'r option \<Rightarrow> bool \<times> 'r option"
where
  "enqueue_pq env S now job l q =
     enqueue S (we_int env) now
       \<lparr>ea_event = wj_event job, ea_session = wj_session job, ea_log = wj_log job,
        ea_score = wj_score job, ea_reasons = wj_reasons job,
        ea_rounds = lane_max_rounds (we_agent_cap env) (we_deep_cap env) l 3,
        ea_priority = wj_priority job, ea_tier = tier_text (wj_tier job),
        ea_ttl = pq_ttl_for_tier (we_ttl_p0 env) (we_ttl_p1 env) (we_ttl_p2 env) (we_ttl_other env)
          (wj_tier job)\<rparr> q"

definition never_drop :: "worker_env \<Rightarrow> tier \<Rightarrow> bool" where
  "never_drop env t \<longleftrightarrow> t = P0 \<and> we_p0_never_drop env \<or> t = P1 \<and> we_p1_never_drop env"

text \<open>The oldest go when there are too many.\<close>

definition defer_locally :: "worker_job \<Rightarrow> worker_pool \<Rightarrow> worker_pool" where
  "defer_locally job p = p\<lparr>wp_overflow := keep_last P0_OVERFLOW_MAX (wp_overflow p @ [job])\<rparr>"

definition heap_put :: "int \<times> nat \<times> worker_job \<Rightarrow> (int \<times> nat \<times> worker_job) list \<Rightarrow> (int \<times> nat \<times> worker_job) list" where
  "heap_put e es = insort_key (\<lambda>x. (fst x, fst (snd x))) e es"

definition put_job :: "worker_job \<Rightarrow> worker_pool \<Rightarrow> worker_pool" where
  "put_job job p = p\<lparr>wp_seq := wp_seq p + 1,
     wp_heap := heap_put (- wj_priority job, wp_seq p + 1, job) (wp_heap p)\<rparr>"

definition submit ::
  "worker_env \<Rightarrow> (audit_job, 'r) queue_server \<Rightarrow> time \<Rightarrow> bool \<Rightarrow> bool \<Rightarrow> string \<Rightarrow> int \<Rightarrow> json \<Rightarrow> rat \<Rightarrow>
   string list \<Rightarrow> worker_pool \<Rightarrow> 'r option \<Rightarrow> submitted \<times> worker_pool \<times> 'r option"
where
  "submit env S now broker_takes from_overflow session event ld score reasons p0 q =
     (let p = start env p0;
          tr = job_triage env ld score;
          job = \<lparr>wj_session = session, wj_event = event, wj_log = ld, wj_score = score,
                 wj_reasons = reasons, wj_tier = tg_tier tr, wj_priority = tg_priority tr\<rparr>
      in if int (length (wp_heap p)) \<ge> queue_max env then
           (if never_drop env (tg_tier tr) then
              (case enqueue_pq env S now job (tg_lane tr) q of
                 (True, q1) \<Rightarrow> (Shed, p, q1)
               | (False, q1) \<Rightarrow>
                   if \<not> from_overflow \<and> broker_takes then (Deferred, p, q1)
                   else (Deferred, defer_locally job p, q1))
            else (Overflow, p, q))
         else (Queued, put_job job p, q))"

section \<open>The workers\<close>

text \<open>
  What worker \<open>i\<close> takes next and whether it came from the queue in memory; nothing while the worker
  waits.
\<close>

definition take_job :: "nat \<Rightarrow> worker_pool \<Rightarrow> (bool \<times> worker_job) option \<times> worker_pool" where
  "take_job i p =
     (case wp_overflow p of
        o1 # os \<Rightarrow>
          (case wp_heap p of
             e # es \<Rightarrow>
               if wp_streak p i \<ge> 2
               then (Some (True, snd (snd e)), p\<lparr>wp_heap := es, wp_streak := (wp_streak p)(i := 0)\<rparr>)
               else (Some (False, o1), p\<lparr>wp_overflow := os,
                       wp_streak := (wp_streak p)(i := wp_streak p i + 1)\<rparr>)
           | [] \<Rightarrow> (Some (False, o1), p\<lparr>wp_overflow := os,
                     wp_streak := (wp_streak p)(i := wp_streak p i + 1)\<rparr>))
      | [] \<Rightarrow>
          (case wp_heap p of
             e # es \<Rightarrow> (Some (True, snd (snd e)), p\<lparr>wp_heap := es, wp_streak := (wp_streak p)(i := 0)\<rparr>)
           | [] \<Rightarrow> (None, p\<lparr>wp_streak := (wp_streak p)(i := 0)\<rparr>)))"

text \<open>
  \<open>_run_job\<close> around its task.  A cancelled audit raises \<open>CancelledError\<close> out of the worker's own
  \<open>await\<close>, which the loop raises again: the worker ends with the audit.  Every other outcome takes it
  back to the top of the loop.
\<close>

datatype outcome = Returned | Failed | Cancelled

definition start_job :: "nat \<Rightarrow> worker_job \<Rightarrow> worker_pool \<Rightarrow> worker_pool" where
  "start_job i job p =
     p\<lparr>wp_busy := wp_busy p + 1, wp_tasks := wp_tasks p + 1,
       wp_inflight := AList.update (wj_event job) (wp_tasks p) (wp_inflight p),
       wp_workers := (wp_workers p)(i := Running job (wp_tasks p))\<rparr>"

definition finish_job :: "nat \<Rightarrow> worker_job \<Rightarrow> outcome \<Rightarrow> worker_pool \<Rightarrow> worker_pool" where
  "finish_job i job r p =
     p\<lparr>wp_inflight := AList.delete (wj_event job) (wp_inflight p), wp_busy := wp_busy p - 1,
       wp_workers := (wp_workers p)(i := (if r = Cancelled then Absent else Waiting))\<rparr>"

text \<open>A waiting worker takes the next audit, if there is one, and runs it.\<close>

definition worker_next :: "nat \<Rightarrow> worker_pool \<Rightarrow> worker_pool" where
  "worker_next i p =
     (if wp_workers p i = Waiting then
        (case take_job i p of
           (Some (_, job), p1) \<Rightarrow> start_job i job p1
         | (None, p1) \<Rightarrow> p1)
      else p)"

text \<open>A task is only cancelled when it was asked to stop.\<close>

definition worker_ends :: "nat \<Rightarrow> outcome \<Rightarrow> worker_pool \<Rightarrow> worker_pool" where
  "worker_ends i r p =
     (case wp_workers p i of
        Running job task \<Rightarrow>
          if r = Cancelled \<and> task \<notin> set (wp_asked p) then p else finish_job i job r p
      | _ \<Rightarrow> p)"

definition cancel :: "int \<Rightarrow> worker_pool \<Rightarrow> bool \<times> worker_pool" where
  "cancel event p =
     (case map_of (wp_inflight p) event of
        None \<Rightarrow> (False, p)
      | Some task \<Rightarrow> (True, p\<lparr>wp_asked := task # wp_asked p\<rparr>))"

definition inflight_ids :: "worker_pool \<Rightarrow> int list" where
  "inflight_ids p = List.map fst (wp_inflight p)"

section \<open>Where an audit goes\<close>

definition in_heap :: "worker_job \<Rightarrow> worker_pool \<Rightarrow> bool" where
  "in_heap job p \<longleftrightarrow> job \<in> (\<lambda>e. snd (snd e)) ` set (wp_heap p)"

lemma set_heap_put [simp]: "set (heap_put e es) = insert e (set es)"
  by (simp add: heap_put_def set_insort_key)

text \<open>A payload on the server that carries an audit on, with its member in the set.\<close>

definition on_server ::
  "(audit_job, 'r) queue_server \<Rightarrow> time \<Rightarrow> worker_job \<Rightarrow> 'r option \<Rightarrow> bool"
where
  "on_server S now job q \<longleftrightarrow>
     (case q of None \<Rightarrow> False | Some s \<Rightarrow>
        dec_int (wj_event job) \<in> fst ` set (q_zrange S now s) \<and>
        (case q_get S now (payload_key (dec_int (wj_event job))) s of None \<Rightarrow> False | Some pj \<Rightarrow>
           aj_event pj = wj_event job \<and> aj_session pj = wj_session job \<and> aj_log pj = wj_log job \<and>
           aj_score pj = wj_score job \<and> aj_reasons pj = take 20 (wj_reasons job) \<and>
           aj_priority pj = wj_priority job \<and> aj_tier pj = tier_text (wj_tier job)))"

lemma enqueue_pq_on_server:
  assumes "queue_laws S members deadline" and "enqueue_pq env S now job l q = (True, q')"
  shows "on_server S now job q'"
proof -
  obtain s retry a where "q' = Some s"
    and "q_get S now (payload_key (dec_int (wj_event job))) s = Some (job_of now retry a)"
    and "dec_int (wj_event job) \<in> fst ` set (q_zrange S now s)"
    and "ea_event a = wj_event job" "ea_session a = wj_session job" "ea_log a = wj_log job"
      "ea_score a = wj_score job" "ea_reasons a = wj_reasons job" "ea_priority a = wj_priority job"
      "ea_tier a = tier_text (wj_tier job)"
    by (rule queue_store.enqueued [OF queue_store.intro [OF assms(1)] assms(2) [unfolded enqueue_pq_def]])
      (metis enqueue_args.select_convs fst_conv image_eqI)
  then show ?thesis by (simp add: on_server_def job_of_def)
qed

text \<open>
  C29. An audit of the two upper tiers is never turned away while the settings
  \<open>audit_p0_never_drop\<close> and \<open>audit_p1_never_drop\<close> are on (each for its tier) and the pool's own list
  has room, that is fewer than 10000 deferred audits. The answer tells where it is: \<open>Queued\<close>, in the
  queue in memory; \<open>Shed\<close>, on the server, where its payload can be read and its member is in the
  queue; \<open>Deferred\<close>, with the broker that took it or in the pool's own list. And no audit that was in
  the pool before leaves it.
\<close>

theorem upper_tiers_never_turned_away:
  assumes "queue_laws S members deadline"
    and "submit env S now broker from_overflow session event ld score reasons p q = (st, p', q')"
    and "tg_tier (job_triage env ld score) = P0 \<and> we_p0_never_drop env \<or>
         tg_tier (job_triage env ld score) = P1 \<and> we_p1_never_drop env"
    and "length (wp_overflow p) < 10000"
    and "job = \<lparr>wj_session = session, wj_event = event, wj_log = ld, wj_score = score, wj_reasons = reasons,
           wj_tier = tg_tier (job_triage env ld score), wj_priority = tg_priority (job_triage env ld score)\<rparr>"
  shows "(st = Queued \<and> in_heap job p' \<or>
     st = Shed \<and> on_server S now job q' \<or>
     st = Deferred \<and> (broker \<and> \<not> from_overflow \<or> job \<in> set (wp_overflow p'))) \<and>
    (\<forall>j. in_heap j p \<or> j \<in> set (wp_overflow p) \<longrightarrow> in_heap j p' \<or> j \<in> set (wp_overflow p'))"
proof -
  have keep: "keep_last P0_OVERFLOW_MAX (wp_overflow p @ [j]) = wp_overflow p @ [j]" for j
    using assms(4) by (simp add: keep_last_short P0_OVERFLOW_MAX_def)
  have nd: "never_drop env (tg_tier (job_triage env ld score))" using assms(3) by (simp add: never_drop_def)
  have "st = Queued \<and> in_heap job p' \<or>
     st = Shed \<and> enqueue_pq env S now job (tg_lane (job_triage env ld score)) q = (True, q') \<or>
     st = Deferred \<and> (broker \<and> \<not> from_overflow \<or> job \<in> set (wp_overflow p'))"
    using assms(2) nd unfolding assms(5)
    by (auto simp: submit_def Let_def in_heap_def defer_locally_def put_job_def keep
        split: if_splits prod.splits bool.splits)
  moreover have "in_heap j p \<or> j \<in> set (wp_overflow p) \<longrightarrow> in_heap j p' \<or> j \<in> set (wp_overflow p')" for j
    using assms(2) nd
    by (auto simp: submit_def Let_def in_heap_def defer_locally_def put_job_def keep
        split: if_splits prod.splits bool.splits)
  ultimately show ?thesis using enqueue_pq_on_server [OF assms(1)] by blast
qed

text \<open>
  The list has its own bound: when it is full, the audit that was deferred first is lost, one of an
  upper tier.
\<close>

lemma full_list_drops_oldest:
  assumes "wp_overflow p = first # rest" and "length (wp_overflow p) = P0_OVERFLOW_MAX"
  shows "wp_overflow (defer_locally job p) = rest @ [job]"
  using assms by (simp add: defer_locally_def keep_last_def)

section \<open>What is taken\<close>

text \<open>
  The keys in memory are in order, and those of a later audit are larger where the priorities are
  equal.
\<close>

definition pool_ok :: "worker_pool \<Rightarrow> bool" where
  "pool_ok p \<longleftrightarrow> sorted (List.map (\<lambda>x. (fst x, fst (snd x))) (wp_heap p)) \<and>
     list_all (\<lambda>x. fst x = - wj_priority (snd (snd x)) \<and> fst (snd x) \<le> wp_seq p) (wp_heap p) \<and>
     distinct (List.map (\<lambda>x. fst (snd x)) (wp_heap p))"

datatype pool_op = Submit bool bool string int json rat "string list" | Next nat
  | Ends nat outcome | Cancel int | Start | Stop

fun pool_step ::
  "worker_env \<Rightarrow> (audit_job, 'r) queue_server \<Rightarrow> time \<Rightarrow> pool_op \<Rightarrow> worker_pool \<times> 'r option \<Rightarrow>
   worker_pool \<times> 'r option"
where
  "pool_step env S now (Submit broker from_overflow session event ld score reasons) (p, q) =
     snd (submit env S now broker from_overflow session event ld score reasons p q)"
| "pool_step env S now (Next i) (p, q) = (worker_next i p, q)"
| "pool_step env S now (Ends i r) (p, q) = (worker_ends i r p, q)"
| "pool_step env S now (Cancel event) (p, q) = (snd (cancel event p), q)"
| "pool_step env S now Start (p, q) = (start env p, q)"
| "pool_step env S now Stop (p, q) = (stop p, q)"

definition pool_run ::
  "worker_env \<Rightarrow> (audit_job, 'r) queue_server \<Rightarrow> (time \<times> pool_op) list \<Rightarrow> worker_pool \<times> 'r option \<Rightarrow>
   worker_pool \<times> 'r option"
where
  "pool_run env S ops st = fold (\<lambda>(now, op). pool_step env S now op) ops st"

lemma pool_run_invariant:
  assumes "P (fst st)" and "\<And>now op p q. (now, op) \<in> set ops \<Longrightarrow> P p \<Longrightarrow> P (fst (pool_step env S now op (p, q)))"
  shows "P (fst (pool_run env S ops st))"
  using assms
proof (induction ops arbitrary: st)
  case (Cons r ops)
  have "P (fst (pool_step env S (fst r) (snd r) st))"
    using Cons.prems(2) [of "fst r" "snd r" "fst st" "snd st"] Cons.prems(1) by simp
  with Cons show ?case by (simp add: pool_run_def case_prod_unfold)
qed (simp add: pool_run_def)

text \<open>How a submission changes the pool.\<close>

lemma submit_disj:
  "fst (snd (submit env S now b f session event ld score reasons p q)) = start env p \<or>
   (\<exists>job. fst (snd (submit env S now b f session event ld score reasons p q)) = defer_locally job (start env p)) \<or>
   (\<exists>job. fst (snd (submit env S now b f session event ld score reasons p q)) = put_job job (start env p))"
  by (simp add: submit_def Let_def split: prod.split bool.split) blast

lemma submit_cases:
  obtains "fst (pool_step env S now (Submit b f session event ld score reasons) (p, q)) = start env p"
  | job where "fst (pool_step env S now (Submit b f session event ld score reasons) (p, q)) =
      defer_locally job (start env p)"
  | job where "fst (pool_step env S now (Submit b f session event ld score reasons) (p, q)) =
      put_job job (start env p)"
  using submit_disj [of env S now b f session event ld score reasons p q] by auto

lemma not_stop: "\<lbrakk>Stop \<notin> snd ` set ops; (now, op) \<in> set ops\<rbrakk> \<Longrightarrow> op \<noteq> Stop"
  by force

subsection \<open>The queue in memory stays in order\<close>

lemma pool_ok_cong:
  "\<lbrakk>wp_heap p' = wp_heap p; wp_seq p' = wp_seq p\<rbrakk> \<Longrightarrow> pool_ok p' = pool_ok p"
  by (simp add: pool_ok_def)

lemma mset_heap_put: "mset (heap_put e es) = add_mset e (mset es)"
  by (simp add: heap_put_def)

lemma distinct_heap_put:
  "distinct (List.map f (heap_put e es)) \<longleftrightarrow> f e \<notin> f ` set es \<and> distinct (List.map f es)"
proof -
  have "mset (List.map f (heap_put e es)) = mset (List.map f (e # es))"
    by (simp add: mset_heap_put)
  then have "distinct (List.map f (heap_put e es)) = distinct (List.map f (e # es))"
    by (rule mset_eq_imp_distinct_iff)
  then show ?thesis by simp
qed

lemma pool_ok_put: "pool_ok p \<Longrightarrow> pool_ok (put_job job p)"
  by (auto simp: pool_ok_def put_job_def distinct_heap_put list_all_iff)
    (auto simp: heap_put_def sorted_insort_key)

lemma pool_ok_tail:
  assumes "pool_ok p" and "wp_heap p' = wp_heap p \<or> wp_heap p' = tl (wp_heap p)" and "wp_seq p' = wp_seq p"
  shows "pool_ok p'"
  using assms by (cases "wp_heap p") (auto simp: pool_ok_def)

lemma take_job_heap:
  "wp_heap (snd (take_job i p)) = wp_heap p \<or> wp_heap (snd (take_job i p)) = tl (wp_heap p)"
  by (simp add: take_job_def split: list.split)

lemma take_job_rest [simp]:
  "wp_workers (snd (take_job i p)) = wp_workers p" "wp_started (snd (take_job i p)) = wp_started p"
  "wp_seq (snd (take_job i p)) = wp_seq p"
  by (simp_all add: take_job_def split: list.split)

lemma worker_next_alt:
  "worker_next i p =
     (if wp_workers p i = Waiting then
        (case fst (take_job i p) of
           Some (_, job) \<Rightarrow> start_job i job (snd (take_job i p))
         | None \<Rightarrow> snd (take_job i p))
      else p)"
  by (simp add: worker_next_def split: prod.split option.split)

lemma worker_next_rest:
  "wp_heap (worker_next i p) = wp_heap p \<or> wp_heap (worker_next i p) = tl (wp_heap p)"
  "wp_seq (worker_next i p) = wp_seq p" "wp_started (worker_next i p) = wp_started p"
  "wp_workers p i \<noteq> Waiting \<Longrightarrow> worker_next i p = p"
  "j \<noteq> i \<Longrightarrow> wp_workers (worker_next i p) j = wp_workers p j"
  using take_job_heap [of i p]
  by (auto simp: worker_next_alt start_job_def split: option.split)

lemma pool_ok_step:
  assumes "pool_ok p"
  shows "pool_ok (fst (pool_step env S now op (p, q)))"
proof (cases op)
  case (Submit b f session event ld score reasons)
  have started: "pool_ok (start env p)" using assms by (simp add: pool_ok_def)
  then have deferred: "pool_ok (defer_locally job (start env p))" for job
    by (simp add: pool_ok_def defer_locally_def)
  show ?thesis unfolding Submit
    by (rule submit_cases [of env S now b f session event ld score reasons p q])
      (simp_all only: started deferred pool_ok_put)
next
  case (Next i)
  show ?thesis
    using pool_ok_tail [OF assms worker_next_rest(1) worker_next_rest(2)] by (simp add: Next)
qed (use assms in \<open>auto simp: worker_ends_def finish_job_def cancel_def stop_def pool_ok_def
  split: worker_state.split option.split\<close>)

lemma pool_ok_run: "pool_ok (fst st) \<Longrightarrow> pool_ok (fst (pool_run env S ops st))"
  by (rule pool_run_invariant [where P = pool_ok]) (auto intro: pool_ok_step)

text \<open>
  What a worker takes from memory has the highest priority there, and among equal ones it was
  submitted first: the other way round than the queue on the server.
\<close>

theorem memory_in_order:
  assumes "pool_run env S ops (new_pool, q) = (p, q')"
    and "take_job i p = (Some (True, job), p')"
    and "(k, n, other) \<in> set (wp_heap p')"
  shows "\<exists>n0. (- wj_priority job, n0, job) \<in> set (wp_heap p) \<and>
    (wj_priority other < wj_priority job \<or> wj_priority other = wj_priority job \<and> n0 < n)"
proof -
  have ok: "pool_ok p"
    using pool_ok_run [of "(new_pool, q)" env S ops] assms(1)
    by (simp add: pool_ok_def new_pool_def)
  obtain k0 n0 es where h: "wp_heap p = (k0, n0, job) # es" and h': "wp_heap p' = es"
    using assms(2) by (auto simp: take_job_def split: list.splits if_splits)
  with ok assms(3) show ?thesis
    by (intro exI [of _ n0]) (force simp: pool_ok_def list_all_iff)
qed

text \<open>
  The list of deferred audits does not starve the queue in memory: of any three audits a worker
  takes one after another while the queue in memory holds some, at least one comes from it, whatever
  the other workers and the submissions do meanwhile.
\<close>

theorem memory_not_starved:
  assumes "wp_heap p1 \<noteq> []" and "wp_heap p2 \<noteq> []" and "wp_heap p3 \<noteq> []"
    and "wp_streak p2 i = wp_streak (snd (take_job i p1)) i"
    and "wp_streak p3 i = wp_streak (snd (take_job i p2)) i"
  shows "\<exists>p \<in> {p1, p2, p3}. \<exists>job. fst (take_job i p) = Some (True, job)"
  using assms by (auto simp: take_job_def neq_Nil_conv split: list.splits if_splits)

text \<open>
  An event that runs twice is cancelled wrongly: when the first run ends, its entry goes, which by
  then is the second's, and the second can no longer be cancelled while it runs.
\<close>

lemma second_run_cannot_be_cancelled:
  assumes "wj_event job = wj_event again"
  shows "\<not> fst (cancel (wj_event again) (finish_job i job r (start_job j again (start_job i job p))))"
  using assms by (simp add: cancel_def finish_job_def start_job_def delete_conv')

section \<open>Cancelling\<close>

definition no_workers :: "nat set \<Rightarrow> worker_pool \<Rightarrow> bool" where
  "no_workers ws p \<longleftrightarrow> wp_started p \<and> (\<forall>i \<in> ws. wp_workers p i = Absent)"

lemma no_workers_step:
  assumes "no_workers ws p" and "op \<noteq> Stop"
  shows "no_workers ws (fst (pool_step env S now op (p, q)))"
proof -
  have p: "start env p = p" using assms(1) by (simp add: start_def no_workers_def)
  show ?thesis
  proof (cases op)
    case (Submit b f session event ld score reasons)
    have changed: "no_workers ws (defer_locally job p)" "no_workers ws (put_job job p)" for job
      using assms(1) by (simp_all add: no_workers_def defer_locally_def put_job_def)
    show ?thesis unfolding Submit
      by (rule submit_cases [of env S now b f session event ld score reasons p q])
        (simp_all only: p assms(1) changed)
  next
    case (Next i)
    have "wp_workers (worker_next i p) j = Absent" if "wp_workers p j = Absent" for j
      using that worker_next_rest(4) [of p i] worker_next_rest(5) [of j i p] by (cases "j = i") auto
    with assms(1) show ?thesis by (simp add: Next no_workers_def worker_next_rest(3))
  qed (use assms p in \<open>auto simp: no_workers_def worker_ends_def finish_job_def cancel_def
    split: worker_state.split option.split\<close>)
qed

lemma no_workers_run:
  assumes "no_workers ws (fst st)" and "Stop \<notin> snd ` set ops"
  shows "no_workers ws (fst (pool_run env S ops st))"
proof (rule pool_run_invariant [where P = "no_workers ws"])
  fix now op p q
  assume "(now, op) \<in> set ops" and "no_workers ws p"
  with not_stop [OF assms(2)] no_workers_step show "no_workers ws (fst (pool_step env S now op (p, q)))"
    by metis
qed (rule assms(1))

text \<open>
  C30. Cancelling an audit costs the pool its worker for good: the cancelled audit's worker ends with
  it, and no submission, start or end of another audit brings it back, short of stopping the pool.
\<close>

theorem cancelled_worker_never_returns:
  assumes "wp_started p" and "wp_workers p i = Running job task"
    and "map_of (wp_inflight p) (wj_event job) = Some task"
    and "Stop \<notin> snd ` set ops"
  shows "fst (cancel (wj_event job) p) \<and>
    wp_workers (fst (pool_run env S ((now, Cancel (wj_event job)) # (now', Ends i Cancelled) # ops) (p, q))) i
      = Absent"
proof -
  let ?p = "worker_ends i Cancelled (snd (cancel (wj_event job) p))"
  have "no_workers {i} ?p"
    using assms(1-3) by (simp add: no_workers_def worker_ends_def cancel_def finish_job_def)
  then have "no_workers {i} (fst (pool_run env S ops (?p, q)))"
    using no_workers_run [of "{i}" "(?p, q)" ops] assms(4) by simp
  then show ?thesis using assms(3) by (simp add: no_workers_def pool_run_def cancel_def)
qed

text \<open>
  A pool that has lost every worker this way keeps accepting audits and runs none of them.
\<close>

lemma dead_pool_runs_nothing:
  assumes "no_workers UNIV p" and "Stop \<notin> snd ` set ops"
  shows "set (wp_heap p) \<subseteq> set (wp_heap (fst (pool_run env S ops (p, q))))"
proof -
  let ?P = "\<lambda>p'. no_workers UNIV p' \<and> set (wp_heap p) \<subseteq> set (wp_heap p')"
  have step: "?P (fst (pool_step env S now op (p', q')))" if P: "?P p'" and op: "op \<noteq> Stop" for now op p' q'
  proof -
    have "set (wp_heap p') \<subseteq> set (wp_heap (fst (pool_step env S now op (p', q'))))"
    proof (cases op)
      case (Submit b f session event ld score reasons)
      have changed: "set (wp_heap p') \<subseteq> set (wp_heap (put_job job (start env p')))"
        "wp_heap (defer_locally job (start env p')) = wp_heap p'" for job
        by (auto simp: put_job_def defer_locally_def)
      show ?thesis unfolding Submit
        by (rule submit_cases [of env S now b f session event ld score reasons p' q'])
          (simp_all only: start_queues subset_refl changed)
    next
      case (Next i)
      have "worker_next i p' = p'"
        using P by (intro worker_next_rest(4)) (simp add: no_workers_def)
      then show ?thesis by (simp add: Next)
    qed (use P op in \<open>simp_all add: no_workers_def worker_ends_def cancel_def split: option.split\<close>)
    with P no_workers_step [of UNIV p' op env S now q'] op show ?thesis by blast
  qed
  have "?P (fst (pool_run env S ops (p, q)))"
  proof (rule pool_run_invariant [where P = ?P])
    fix now op p' q'
    assume "(now, op) \<in> set ops" and "?P p'"
    with not_stop [OF assms(2)] show "?P (fst (pool_step env S now op (p', q')))"
      by (metis step)
  qed (simp add: assms(1))
  then show ?thesis by blast
qed

section \<open>A concrete pool\<close>

definition demo_env :: "int \<Rightarrow> worker_env" where
  "demo_env m = \<lparr>we_jt = demo_jt, we_infer = (\<lambda>_. []), we_skip_vol = True, we_int = (\<lambda>_. None),
     we_agent_cap = 3, we_deep_cap = 3, we_ttl_p0 = 3600, we_ttl_p1 = 1800, we_ttl_p2 = 300,
     we_ttl_other = 900, we_workers = 1, we_queue_max = m,
     we_p0_never_drop = True, we_p1_never_drop = True\<rparr>"

definition demo_submit :: "int \<Rightarrow> pool_op" where
  "demo_submit event = Submit False False ''s'' event demo_event (9 / 10) []"

text \<open>
  Three audits of the top tier in a pool of one worker; the queue on the server does not answer.
\<close>

definition demo_pool :: "int \<Rightarrow> worker_pool" where
  "demo_pool m = fst (pool_run (demo_env m) mem_queue_server
     [(1, demo_submit 7), (2, demo_submit 8), (3, demo_submit 9)] (new_pool, None))"

lemma demo_top_tier:
  "tg_tier (job_triage (demo_env m) demo_event (9 / 10)) = P0 \<and> we_p0_never_drop (demo_env m)"
proof -
  have "tg_tier (score_event demo_jt (\<lambda>_. []) True demo_event (9 / 10) False []) = P0" by code_simp
  then show ?thesis by (simp add: job_triage_def demo_env_def)
qed

text \<open>
  With room for one in memory, and two in the list, a fourth goes to the server that takes it; without
  a server it joins the list.
\<close>

lemma upper_tiers_never_turned_away_witness:
  "(\<exists>job. wj_event job = 10 \<and> on_server mem_queue_server 4 job (snd (snd (submit (demo_env 1) mem_queue_server 4 False
      False ''s'' 10 demo_event (9 / 10) [] (demo_pool 1) (Some empty_queue))))) \<and>
   (\<exists>job. wj_event job = 10 \<and> job \<in> set (wp_overflow (fst (snd (submit (demo_env 1) mem_queue_server 4 False
      False ''s'' 10 demo_event (9 / 10) [] (demo_pool 1) None)))))"
proof -
  let ?run = "submit (demo_env 1) mem_queue_server 4 False False ''s'' 10 demo_event (9 / 10) [] (demo_pool 1)"
  have room: "length (wp_overflow (demo_pool 1)) < 10000" by code_simp
  have "fst (?run (Some empty_queue)) = Shed" and "fst (?run None) = Deferred" by code_simp+
  then obtain p1 q1 p2 q2 where s: "?run (Some empty_queue) = (Shed, p1, q1)" and d: "?run None = (Deferred, p2, q2)"
    by (metis prod.collapse)
  note tier = disjI1 [OF demo_top_tier]
  note turned = upper_tiers_never_turned_away [OF mem_queue_laws _ tier room refl]
  have "on_server mem_queue_server 4 \<lparr>wj_session = ''s'', wj_event = 10, wj_log = demo_event, wj_score = 9 / 10,
      wj_reasons = [], wj_tier = tg_tier (job_triage (demo_env 1) demo_event (9 / 10)),
      wj_priority = tg_priority (job_triage (demo_env 1) demo_event (9 / 10))\<rparr> q1"
    using conjunct1 [OF turned [OF s]] by simp
  moreover have "\<lparr>wj_session = ''s'', wj_event = 10, wj_log = demo_event, wj_score = 9 / 10,
      wj_reasons = [], wj_tier = tg_tier (job_triage (demo_env 1) demo_event (9 / 10)),
      wj_priority = tg_priority (job_triage (demo_env 1) demo_event (9 / 10))\<rparr> \<in> set (wp_overflow p2)"
    using conjunct1 [OF turned [OF d]] by simp
  ultimately show ?thesis unfolding s d snd_conv fst_conv by (metis worker_job.select_convs(2))
qed

lemma memory_in_order_witness:
  "\<exists>job other n0 n k. fst (take_job 0 (demo_pool 5)) = Some (True, job) \<and>
     (k, n, other) \<in> set (wp_heap (snd (take_job 0 (demo_pool 5)))) \<and>
     (wj_priority other < wj_priority job \<or> wj_priority other = wj_priority job \<and> n0 < (n :: nat))"
proof -
  let ?p = "demo_pool 5"
  let ?job = "snd (the (fst (take_job 0 ?p)))" and ?e = "hd (wp_heap (snd (take_job 0 ?p)))"
  have "fst (take_job 0 ?p) = Some (True, ?job)" and e: "?e \<in> set (wp_heap (snd (take_job 0 ?p)))"
    by code_simp+
  then have taken: "take_job 0 ?p = (Some (True, ?job), snd (take_job 0 ?p))"
    by (metis prod.collapse)
  have ran: "pool_run (demo_env 5) mem_queue_server
      [(1, demo_submit 7), (2, demo_submit 8), (3, demo_submit 9)] (new_pool, None) = (?p, snd (pool_run
        (demo_env 5) mem_queue_server [(1, demo_submit 7), (2, demo_submit 8), (3, demo_submit 9)] (new_pool, None)))"
    by (simp add: demo_pool_def)
  from e have "(fst ?e, fst (snd ?e), snd (snd ?e)) \<in> set (wp_heap (snd (take_job 0 ?p)))" by simp
  from memory_in_order [OF ran taken this] taken this show ?thesis by (metis fst_conv)
qed

lemma memory_not_starved_witness:
  "\<exists>p \<in> {demo_pool 1, snd (take_job 0 (demo_pool 1)), snd (take_job 0 (snd (take_job 0 (demo_pool 1))))}.
     \<exists>job. fst (take_job 0 p) = Some (True, job)"
proof -
  have "wp_heap (demo_pool 1) \<noteq> []" "wp_heap (snd (take_job 0 (demo_pool 1))) \<noteq> []"
    "wp_heap (snd (take_job 0 (snd (take_job 0 (demo_pool 1))))) \<noteq> []"
    by code_simp+
  from memory_not_starved [OF this refl refl] show ?thesis .
qed

text \<open>The only worker is lost with the audit of event 7; the other two stay where they are.\<close>

lemma cancelled_worker_never_returns_witness:
  "wp_workers (fst (pool_run (demo_env 5) mem_queue_server
      [(5, Cancel 7), (6, Ends 0 Cancelled), (7, Start), (8, demo_submit 11), (9, Next 0)]
      (worker_next 0 (demo_pool 5), None))) 0 = Absent"
proof -
  let ?p = "worker_next 0 (demo_pool 5)"
  let ?job = "snd (the (fst (take_job 0 (demo_pool 5))))"
  have state: "wp_started ?p" "wp_workers ?p 0 = Running ?job 0"
    "map_of (wp_inflight ?p) (wj_event ?job) = Some 0" and event: "wj_event ?job = 7"
    by code_simp+
  have go_on: "Stop \<notin> snd ` set [(7 :: time, Start), (8, demo_submit 11), (9, Next 0)]"
    by (simp add: demo_submit_def)
  from cancelled_worker_never_returns [OF state go_on, where env = "demo_env 5" and
    S = mem_queue_server and now = 5 and now' = 6 and q = None, unfolded event]
  show ?thesis by (rule conjunct2)
qed

end
