(* ===== verification/SourceRegistry.thy ===== *)
theory SourceRegistry
  imports Prelude
begin

text \<open>
  The registry of the sources that may send logs (\<open>src/backend/source_registry.py\<close>, with the table
  \<open>data_sources\<close> of \<open>models.py\<close>).  The objects of the cache are shared between two dicts, by the
  key and by its hash, and are changed in place: they live in a store, a list, and the dicts hold
  their addresses.  The hash, the parsed setting with the configured keys and the clock are
  parameters; the row a flush or a registration writes is written at once, and a setting whose names
  are no texts, which fails half-way, is left out.
\<close>

section \<open>Objects, rows and the state\<close>

record data_source =
  ds_key :: string
  ds_hash :: string
  ds_name :: string
  ds_type :: string
  ds_enabled :: bool
  ds_registered :: time
  ds_last_seen :: time
  ds_total :: int
  ds_rejected :: int
  ds_db_id :: nat

record source_row =
  sw_id :: nat
  sw_hash :: string
  sw_name :: string
  sw_type :: string
  sw_enabled :: bool
  sw_registered :: "time option"
  sw_last_seen :: "time option"
  sw_total :: int
  sw_rejected :: int
  sw_revoked_at :: "time option"
  sw_revoked_by :: string

record rejection =
  rj_prefix :: string
  rj_reason :: string
  rj_at :: time

record source_registry =
  rg_objs :: "data_source list"
  rg_sources :: "(string \<times> nat) list"
  rg_by_hash :: "(string \<times> nat) list option"
  rg_rejections :: "rejection list"
  rg_last_flush :: time

definition new_registry :: source_registry where
  "new_registry = \<lparr>rg_objs = [], rg_sources = [], rg_by_hash = None, rg_rejections = [], rg_last_flush = 0\<rparr>"

definition REJECTION_MAX :: nat where
  "REJECTION_MAX = 500"

definition STAT_INTERVAL :: time where
  "STAT_INTERVAL = 30"

text \<open>The dict by hash, which does not exist before the first load or registration.\<close>

definition by_hash :: "source_registry \<Rightarrow> (string \<times> nat) list" where
  "by_hash g = (case rg_by_hash g of None \<Rightarrow> [] | Some d \<Rightarrow> d)"

definition alloc :: "data_source \<Rightarrow> source_registry \<Rightarrow> nat \<times> source_registry" where
  "alloc d g = (length (rg_objs g), g\<lparr>rg_objs := rg_objs g @ [d]\<rparr>)"

definition change :: "nat \<Rightarrow> (data_source \<Rightarrow> data_source) \<Rightarrow> source_registry \<Rightarrow> source_registry" where
  "change a f g = g\<lparr>rg_objs := (rg_objs g)[a := f (rg_objs g ! a)]\<rparr>"

section \<open>Loading\<close>

definition infer_type :: "string \<Rightarrow> string" where
  "infer_type name =
     (if contains ''syslog'' name then ''syslog'' else if contains ''simulator'' name then ''simulator''
      else if contains ''api'' name then ''api'' else ''generic'')"

definition load_key :: "(string \<Rightarrow> string) \<Rightarrow> time \<Rightarrow> string \<times> string \<Rightarrow> source_registry \<Rightarrow> source_registry" where
  "load_key h now kn g =
     (case alloc \<lparr>ds_key = fst kn, ds_hash = h (fst kn), ds_name = snd kn,
         ds_type = infer_type (snd kn), ds_enabled = True, ds_registered = now, ds_last_seen = 0,
         ds_total = 0, ds_rejected = 0, ds_db_id = 0\<rparr> g of
        (a, g1) \<Rightarrow> g1\<lparr>rg_sources := AList.update (fst kn) a (rg_sources g1)\<rparr>)"

text \<open>A setting that cannot be read leaves the cache as it is.\<close>

definition load_from_config ::
  "(string \<Rightarrow> string) \<Rightarrow> time \<Rightarrow> (string \<times> string) list option \<Rightarrow> source_registry \<Rightarrow> source_registry"
where
  "load_from_config h now keys g =
     (case keys of None \<Rightarrow> g | Some kns \<Rightarrow> fold (load_key h now) kns g)"

definition load_row :: "time \<Rightarrow> source_row \<Rightarrow> source_registry \<Rightarrow> source_registry" where
  "load_row now r g =
     (case alloc \<lparr>ds_key = [], ds_hash = sw_hash r, ds_name = sw_name r, ds_type = sw_type r,
         ds_enabled = sw_enabled r, ds_registered = (case sw_registered r of Some t \<Rightarrow> t | None \<Rightarrow> now),
         ds_last_seen = (case sw_last_seen r of Some t \<Rightarrow> t | None \<Rightarrow> 0), ds_total = sw_total r,
         ds_rejected = sw_rejected r, ds_db_id = sw_id r\<rparr> g of
        (a, g1) \<Rightarrow> g1\<lparr>rg_by_hash := Some (AList.update (sw_hash r) a (by_hash g1))\<rparr>)"

text \<open>A configured key takes the entry of its hash over, with the counters of the row.\<close>

definition merge_key ::
  "(string \<Rightarrow> string) \<Rightarrow> source_row list \<Rightarrow> string \<times> nat \<Rightarrow> source_registry \<Rightarrow> source_registry"
where
  "merge_key h rows ka g =
     (let hk = h (fst ka); a = snd ka;
          g1 = g\<lparr>rg_by_hash := Some (AList.update hk a (by_hash g))\<rparr>
      in case find (\<lambda>r. sw_hash r = hk) (rev rows) of
           Some r \<Rightarrow> change a (\<lambda>d. d\<lparr>ds_db_id := sw_id r, ds_total := sw_total r,
               ds_last_seen := (case sw_last_seen r of Some t \<Rightarrow> t | None \<Rightarrow> 0)\<rparr>) g1
         | None \<Rightarrow> change a (\<lambda>d. d\<lparr>ds_hash := hk\<rparr>) g1)"

text \<open>Only enabled rows are read; a database that fails leaves the cache as it is.\<close>

definition load_from_db ::
  "(string \<Rightarrow> string) \<Rightarrow> time \<Rightarrow> source_row list option \<Rightarrow> source_registry \<Rightarrow> source_registry"
where
  "load_from_db h now db g =
     (case db of
        None \<Rightarrow> g
      | Some all \<Rightarrow>
          let rows = filter sw_enabled all;
              g1 = fold (load_row now) rows (g\<lparr>rg_by_hash := Some []\<rparr>)
          in fold (merge_key h rows) (rg_sources g1) g1)"

definition row_with :: "string \<Rightarrow> source_row list \<Rightarrow> source_row option" where
  "row_with hk rows = find (\<lambda>r. sw_hash r = hk) rows"

definition next_id :: "source_row list \<Rightarrow> nat" where
  "next_id rows = Suc (fold max (List.map sw_id rows) 0)"

definition new_row :: "time \<Rightarrow> string \<Rightarrow> string \<Rightarrow> string \<Rightarrow> bool \<Rightarrow> source_row list \<Rightarrow> source_row" where
  "new_row now hk name stype on rows =
     \<lparr>sw_id = next_id rows, sw_hash = hk, sw_name = name, sw_type = stype, sw_enabled = on,
      sw_registered = Some now, sw_last_seen = None, sw_total = 0, sw_rejected = 0, sw_revoked_at = None,
      sw_revoked_by = []\<rparr>"

definition backfill_one ::
  "(string \<Rightarrow> string) \<Rightarrow> time \<Rightarrow> string \<times> nat \<Rightarrow> source_row list \<times> source_registry \<Rightarrow>
   source_row list \<times> source_registry"
where
  "backfill_one h now ka w =
     (case w of (rows, g0) \<Rightarrow>
        let a = snd ka;
            g = (if ds_hash (rg_objs g0 ! a) = [] then change a (\<lambda>d. d\<lparr>ds_hash := h (fst ka)\<rparr>) g0 else g0);
            d = rg_objs g ! a
        in if ds_db_id d \<noteq> 0 then (rows, g)
           else case row_with (ds_hash d) rows of
                  Some r \<Rightarrow> (rows, change a (\<lambda>d. d\<lparr>ds_db_id := sw_id r\<rparr>) g)
                | None \<Rightarrow>
                    let r = new_row now (ds_hash d) (ds_name d) (ds_type d) (ds_enabled d) rows
                    in (rows @ [r], change a (\<lambda>d. d\<lparr>ds_db_id := sw_id r\<rparr>) g))"

definition backfill_pending ::
  "(string \<Rightarrow> string) \<Rightarrow> time \<Rightarrow> source_row list \<times> source_registry \<Rightarrow> source_row list \<times> source_registry"
where
  "backfill_pending h now w = fold (backfill_one h now) (rg_sources (snd w)) w"

text \<open>The start of the application (\<open>app.py\<close>): a new registry, the setting, the table.\<close>

definition start_registry ::
  "(string \<Rightarrow> string) \<Rightarrow> time \<Rightarrow> (string \<times> string) list option \<Rightarrow> source_row list \<Rightarrow>
   source_row list \<times> source_registry"
where
  "start_registry h now keys rows =
     backfill_pending h now (rows, load_from_db h now (Some rows) (load_from_config h now keys new_registry))"

section \<open>Registering, revoking, authenticating\<close>

definition alter_row :: "string \<Rightarrow> (source_row \<Rightarrow> source_row) \<Rightarrow> source_row list \<Rightarrow> source_row list" where
  "alter_row hk f rows = List.map (\<lambda>r. if sw_hash r = hk then f r else r) rows"

definition register_source ::
  "(string \<Rightarrow> string) \<Rightarrow> time \<Rightarrow> string \<Rightarrow> string \<Rightarrow> string \<Rightarrow> source_row list \<times> source_registry \<Rightarrow>
   source_row list \<times> source_registry"
where
  "register_source h now key name stype w =
     (case w of (rows, g) \<Rightarrow>
        let hk = h key;
            (rows1, db_id) =
              (case row_with hk rows of
                 Some r \<Rightarrow> (alter_row hk (\<lambda>r. r\<lparr>sw_name := name, sw_type := stype, sw_enabled := True,
                               sw_revoked_at := None, sw_revoked_by := []\<rparr>) rows, sw_id r)
               | None \<Rightarrow> (rows @ [new_row now hk name stype True rows], next_id rows));
            (a, g1) = alloc \<lparr>ds_key = key, ds_hash = hk, ds_name = name, ds_type = stype,
               ds_enabled = True, ds_registered = now, ds_last_seen = 0, ds_total = 0, ds_rejected = 0,
               ds_db_id = db_id\<rparr> g
        in (rows1, g1\<lparr>rg_by_hash := Some (AList.update hk a (by_hash g1)),
              rg_sources := AList.update key a (rg_sources g1)\<rparr>))"

definition disable_at :: "nat option \<Rightarrow> source_registry \<Rightarrow> source_registry" where
  "disable_at a g = (case a of None \<Rightarrow> g | Some a \<Rightarrow> change a (\<lambda>d. d\<lparr>ds_enabled := False\<rparr>) g)"

definition revoke_source ::
  "(string \<Rightarrow> string) \<Rightarrow> time \<Rightarrow> string \<Rightarrow> string \<Rightarrow> source_row list \<times> source_registry \<Rightarrow>
   bool \<times> source_row list \<times> source_registry"
where
  "revoke_source h now key who w =
     (case w of (rows, g) \<Rightarrow>
        let hk = h key in
        if row_with hk rows = None then (False, w)
        else (True,
          alter_row hk (\<lambda>r. r\<lparr>sw_enabled := False, sw_revoked_at := Some now, sw_revoked_by := who\<rparr>) rows,
          disable_at (map_of (rg_sources g) key) (disable_at (map_of (by_hash g) hk) g)))"

definition log_rejection :: "time \<Rightarrow> string \<Rightarrow> string \<Rightarrow> source_registry \<Rightarrow> source_registry" where
  "log_rejection now key reason g =
     g\<lparr>rg_rejections := keep_last REJECTION_MAX (rg_rejections g @
        [\<lparr>rj_prefix = (if length key > 8 then take 8 key @ ''...'' else key), rj_reason = reason, rj_at = now\<rparr>])\<rparr>"

definition refresh_stats ::
  "time \<Rightarrow> string \<Rightarrow> data_source \<Rightarrow> source_row list \<times> source_registry \<Rightarrow> source_row list \<times> source_registry"
where
  "refresh_stats now hk d w =
     (case w of (rows, g) \<Rightarrow>
        if now - rg_last_flush g < STAT_INTERVAL then (rows, g)
        else (alter_row hk (\<lambda>r. r\<lparr>sw_last_seen := Some now, sw_total := ds_total d\<rparr>) rows,
              g\<lparr>rg_last_flush := now\<rparr>))"

definition cached :: "(string \<Rightarrow> string) \<Rightarrow> string \<Rightarrow> source_registry \<Rightarrow> nat option" where
  "cached h key g =
     (case map_of (rg_sources g) key of Some a \<Rightarrow> Some a | None \<Rightarrow> map_of (by_hash g) (h key))"

definition authenticate ::
  "(string \<Rightarrow> string) \<Rightarrow> time \<Rightarrow> string \<Rightarrow> source_row list \<times> source_registry \<Rightarrow>
   data_source option \<times> source_row list \<times> source_registry"
where
  "authenticate h now key w =
     (case w of (rows, g) \<Rightarrow>
        case cached h key g of
          None \<Rightarrow> (None, rows, log_rejection now key ''unknown_key'' g)
        | Some a \<Rightarrow>
            if \<not> ds_enabled (rg_objs g ! a) then (None, rows, log_rejection now key ''revoked'' g)
            else let g1 = change a (\<lambda>d. d\<lparr>ds_last_seen := now, ds_total := ds_total d + 1\<rparr>) g
                 in (Some (rg_objs g1 ! a), refresh_stats now (h key) (rg_objs g1 ! a) (rows, g1)))"

section \<open>Queries\<close>

record source_line =
  sl_id :: nat
  sl_prefix :: string
  sl_hash :: string
  sl_name :: string
  sl_type :: string
  sl_enabled :: bool
  sl_total :: int
  sl_last_seen :: time

definition source_line_of :: "string \<Rightarrow> string \<Rightarrow> data_source \<Rightarrow> source_line" where
  "source_line_of prefix hk d =
     \<lparr>sl_id = ds_db_id d, sl_prefix = prefix, sl_hash = take 16 hk @ ''...'', sl_name = ds_name d,
      sl_type = ds_type d, sl_enabled = ds_enabled d, sl_total = ds_total d,
      sl_last_seen = ds_last_seen d\<rparr>"

definition list_sources :: "(string \<Rightarrow> string) \<Rightarrow> source_registry \<Rightarrow> source_line list" where
  "list_sources h g =
     List.map (\<lambda>(hk, a). let d = rg_objs g ! a in
        source_line_of (if ds_key d = [] then ''db-only'' else take 8 (ds_key d) @ ''...'') hk d) (by_hash g) @
     List.map (\<lambda>(k, a). source_line_of (take 8 k @ ''...'') (h k) (rg_objs g ! a))
       (filter (\<lambda>(k, a). h k \<notin> set (List.map fst (by_hash g))) (rg_sources g))"

definition rejection_log :: "nat \<Rightarrow> source_registry \<Rightarrow> rejection list" where
  "rejection_log limit g = (if limit = 0 then rg_rejections g else keep_last limit (rg_rejections g))"

record registry_stats =
  rs_registered :: nat
  rs_enabled :: nat
  rs_total :: int
  rs_rejections :: nat

definition registry_stats_of :: "source_registry \<Rightarrow> registry_stats" where
  "registry_stats_of g =
     \<lparr>rs_registered = length (rg_sources g) + length (by_hash g),
      rs_enabled = length (filter (\<lambda>(k, a). ds_enabled (rg_objs g ! a))
        (if rg_by_hash g \<noteq> None then by_hash g else rg_sources g)),
      rs_total = sum_list (List.map (\<lambda>(k, a). ds_total (rg_objs g ! a)) (rg_sources g)),
      rs_rejections = length (rg_rejections g)\<rparr>"

section \<open>What every operation keeps\<close>

definition valid :: "source_registry \<Rightarrow> bool" where
  "valid g \<longleftrightarrow> (\<forall>k a. map_of (rg_sources g) k = Some a \<longrightarrow> a < length (rg_objs g)) \<and>
     (\<forall>k a. map_of (by_hash g) k = Some a \<longrightarrow> a < length (rg_objs g))"

lemma change_simps [simp]:
  "rg_sources (change a f g) = rg_sources g" "by_hash (change a f g) = by_hash g"
  "rg_by_hash (change a f g) = rg_by_hash g" "length (rg_objs (change a f g)) = length (rg_objs g)"
  "rg_last_flush (change a f g) = rg_last_flush g"
  by (simp_all add: change_def by_hash_def)

lemma change_valid [simp]: "valid (change a f g) = valid g"
  by (simp add: valid_def)

lemma change_enabled:
  "(\<And>d. ds_enabled (f d) = ds_enabled d) \<Longrightarrow> ds_enabled (rg_objs (change a f g) ! b) = ds_enabled (rg_objs g ! b)"
  by (cases "a < length (rg_objs g)") (simp_all add: change_def nth_list_update list_update_beyond)

text \<open>A change that leaves dicts alone and keeps every object enabled or not.\<close>

definition same_access :: "source_registry \<Rightarrow> source_registry \<Rightarrow> bool" where
  "same_access g g' \<longleftrightarrow> rg_sources g' = rg_sources g \<and> by_hash g' = by_hash g \<and>
     length (rg_objs g') = length (rg_objs g) \<and>
     (\<forall>a. ds_enabled (rg_objs g' ! a) = ds_enabled (rg_objs g ! a))"

lemma same_access_refl [simp]: "same_access g g"
  by (simp add: same_access_def)

lemma same_access_trans: "same_access g g' \<Longrightarrow> same_access g' g'' \<Longrightarrow> same_access g g''"
  by (simp add: same_access_def)

lemma same_access_valid: "same_access g g' \<Longrightarrow> valid g' = valid g"
  by (simp add: same_access_def valid_def)

lemma same_access_change: "(\<And>d. ds_enabled (f d) = ds_enabled d) \<Longrightarrow> same_access g (change a f g)"
  by (simp add: same_access_def change_enabled)

lemma same_access_flush: "same_access g (snd (refresh_stats now hk d (rows, g)))"
  by (simp add: refresh_stats_def same_access_def by_hash_def)

lemma same_access_authenticate: "same_access g (snd (snd (authenticate h now key (rows, g))))"
proof -
  have "same_access g (change a (\<lambda>d. d\<lparr>ds_last_seen := now, ds_total := ds_total d + 1\<rparr>) g)" for a
    by (simp add: same_access_change)
  then show ?thesis
    by (auto simp: authenticate_def Let_def log_rejection_def
        intro: same_access_trans [OF _ same_access_flush] split: option.split)
      (auto simp: same_access_def by_hash_def)
qed

lemma same_access_backfill_one: "same_access g (snd (backfill_one h now ka (rows, g)))"
proof -
  define g1 where "g1 = (if ds_hash (rg_objs g ! snd ka) = []
    then change (snd ka) (\<lambda>d. d\<lparr>ds_hash := h (fst ka)\<rparr>) g else g)"
  have "same_access g g1" by (simp add: g1_def same_access_change)
  moreover have "same_access g1 (snd (backfill_one h now ka (rows, g)))"
    unfolding backfill_one_def prod.case Let_def g1_def [symmetric]
    by (auto intro: same_access_change split: option.split)
  ultimately show ?thesis by (rule same_access_trans)
qed

lemma same_access_backfill: "same_access (snd w) (snd (backfill_pending h now w))"
proof -
  have "same_access (snd w) (snd (fold (backfill_one h now) kas w))" for kas
  proof (induction kas arbitrary: w)
    case (Cons ka kas)
    show ?case
      using same_access_trans [OF same_access_backfill_one [of "snd w" h now ka "fst w"] Cons.IH] by simp
  qed simp
  then show ?thesis by (simp add: backfill_pending_def)
qed

section \<open>Who is accepted after a start\<close>

definition accepts :: "(string \<Rightarrow> string) \<Rightarrow> string \<Rightarrow> source_registry \<Rightarrow> bool" where
  "accepts h key g \<longleftrightarrow> (\<exists>a. cached h key g = Some a \<and> ds_enabled (rg_objs g ! a))"

lemma authenticate_iff: "fst (authenticate h now key (rows, g)) \<noteq> None \<longleftrightarrow> accepts h key g"
  by (auto simp: authenticate_def accepts_def Let_def split: option.split)

lemma same_access_accepts: "same_access g g' \<Longrightarrow> accepts h key g' = accepts h key g"
  by (simp add: same_access_def accepts_def cached_def split: option.split)

definition all_on :: "source_registry \<Rightarrow> bool" where
  "all_on g \<longleftrightarrow> valid g \<and> list_all ds_enabled (rg_objs g)"

lemma all_on_accepts:
  assumes "all_on g"
  shows "accepts h key g \<longleftrightarrow> key \<in> dom (map_of (rg_sources g)) \<or> h key \<in> dom (map_of (by_hash g))"
  using assms by (fastforce simp: all_on_def valid_def accepts_def cached_def list_all_length split: option.splits)

lemma all_on_access: "same_access g g' \<Longrightarrow> all_on g' = all_on g"
  by (auto simp: all_on_def same_access_valid) (auto simp: same_access_def list_all_length)

lemma all_on_config:
  "all_on g \<Longrightarrow> all_on (fold (load_key h now) kns g) \<and>
   dom (map_of (rg_sources (fold (load_key h now) kns g))) = dom (map_of (rg_sources g)) \<union> fst ` set kns \<and>
   rg_by_hash (fold (load_key h now) kns g) = rg_by_hash g"
proof (induction kns arbitrary: g)
  case (Cons kn kns)
  have "all_on (load_key h now kn g)"
    using Cons.prems
    by (auto simp: all_on_def load_key_def alloc_def valid_def by_hash_def update_conv' less_Suc_eq split: if_splits)
  moreover have "dom (map_of (rg_sources (load_key h now kn g))) = insert (fst kn) (dom (map_of (rg_sources g)))"
    "rg_by_hash (load_key h now kn g) = rg_by_hash g"
    by (simp_all add: load_key_def alloc_def update_conv')
  ultimately show ?case using Cons.IH [of "load_key h now kn g"] by auto
qed simp

lemma all_on_rows:
  "all_on g \<Longrightarrow> list_all sw_enabled rows \<Longrightarrow> all_on (fold (load_row now) rows g) \<and>
   rg_sources (fold (load_row now) rows g) = rg_sources g \<and>
   dom (map_of (by_hash (fold (load_row now) rows g))) = dom (map_of (by_hash g)) \<union> sw_hash ` set rows"
proof (induction rows arbitrary: g)
  case (Cons r rows)
  have "all_on (load_row now r g)"
    using Cons.prems
    by (auto simp: all_on_def load_row_def alloc_def valid_def by_hash_def update_conv' less_Suc_eq
        split: if_splits option.splits)
  moreover have "dom (map_of (by_hash (load_row now r g))) = insert (sw_hash r) (dom (map_of (by_hash g)))"
    "rg_sources (load_row now r g) = rg_sources g"
    by (simp_all add: load_row_def alloc_def update_conv' by_hash_def)
  ultimately show ?case using Cons.IH [of "load_row now r g"] Cons.prems(2) by auto
qed simp

lemma all_on_merge:
  "all_on g \<Longrightarrow> (\<forall>ka \<in> set kas. snd ka < length (rg_objs g)) \<Longrightarrow>
   all_on (fold (merge_key h rows) kas g) \<and>
   rg_sources (fold (merge_key h rows) kas g) = rg_sources g \<and>
   dom (map_of (by_hash (fold (merge_key h rows) kas g))) = dom (map_of (by_hash g)) \<union> h ` fst ` set kas"
proof (induction kas arbitrary: g)
  case (Cons ka kas)
  let ?g = "merge_key h rows ka g"
  define g1 where "g1 = g\<lparr>rg_by_hash := Some (AList.update (h (fst ka)) (snd ka) (by_hash g))\<rparr>"
  have same: "same_access g1 ?g"
    by (auto simp: merge_key_def Let_def g1_def intro!: same_access_change split: option.split)
  have on: "all_on g1"
    using Cons.prems by (auto simp: all_on_def g1_def valid_def by_hash_def update_conv' split: if_splits option.splits)
  have "by_hash g1 = AList.update (h (fst ka)) (snd ka) (by_hash g)" "rg_sources g1 = rg_sources g"
    "length (rg_objs g1) = length (rg_objs g)"
    by (simp_all add: g1_def by_hash_def)
  with same have "rg_sources ?g = rg_sources g" "length (rg_objs ?g) = length (rg_objs g)"
    "dom (map_of (by_hash ?g)) = insert (h (fst ka)) (dom (map_of (by_hash g)))"
    by (simp_all add: same_access_def update_conv')
  moreover have "all_on ?g" using on all_on_access [OF same] by simp
  ultimately show ?case using Cons.IH [of ?g] Cons.prems(2) by auto
qed simp

lemma start_access:
  assumes "(rows', g) = start_registry h now keys rows"
  shows "all_on g \<and>
    dom (map_of (rg_sources g)) = fst ` set (case keys of None \<Rightarrow> [] | Some ks \<Rightarrow> ks) \<and>
    dom (map_of (by_hash g)) =
      sw_hash ` set (filter sw_enabled rows) \<union> h ` fst ` set (case keys of None \<Rightarrow> [] | Some ks \<Rightarrow> ks)"
proof -
  let ?ks = "case keys of None \<Rightarrow> [] | Some ks \<Rightarrow> ks" and ?on = "filter sw_enabled rows"
  define g0 where "g0 = (fold (load_key h now) ?ks new_registry)\<lparr>rg_by_hash := Some []\<rparr>"
  define g1 where "g1 = fold (load_row now) ?on g0"
  define g2 where "g2 = fold (merge_key h ?on) (rg_sources g1) g1"
  have "all_on new_registry" by (simp add: all_on_def valid_def new_registry_def by_hash_def)
  from all_on_config [OF this, of h now ?ks]
  have g0: "all_on g0" "dom (map_of (rg_sources g0)) = fst ` set ?ks" "by_hash g0 = []"
    by (auto simp: g0_def all_on_def valid_def by_hash_def new_registry_def)
  from all_on_rows [OF g0(1), of ?on now]
  have g1: "all_on g1" "rg_sources g1 = rg_sources g0" "dom (map_of (by_hash g1)) = sw_hash ` set ?on"
    by (simp_all add: g1_def g0(3) list_all_iff)
  have distinct: "distinct (List.map fst (rg_sources g1))"
  proof -
    have "distinct (List.map fst (rg_sources (fold (load_key h now) kns g')))"
      if "distinct (List.map fst (rg_sources g'))" for kns g'
      using that by (induction kns arbitrary: g') (simp_all add: load_key_def alloc_def distinct_update)
    from this [of new_registry ?ks] show ?thesis by (simp add: g1(2) g0_def new_registry_def)
  qed
  have inside: "\<forall>ka \<in> set (rg_sources g1). snd ka < length (rg_objs g1)"
  proof
    fix ka assume "ka \<in> set (rg_sources g1)"
    then have "map_of (rg_sources g1) (fst ka) = Some (snd ka)"
      using distinct by (simp add: map_of_is_SomeI)
    with g1(1) show "snd ka < length (rg_objs g1)" by (simp add: all_on_def valid_def)
  qed
  have keys: "fst ` set (rg_sources g1) = fst ` set ?ks"
    using g0(2) g1(2) by (simp only: dom_map_of_conv_image_fst)
  from all_on_merge [OF g1(1) inside, of h ?on]
  have g2: "all_on g2" "rg_sources g2 = rg_sources g1"
    "dom (map_of (by_hash g2)) = sw_hash ` set ?on \<union> h ` fst ` set ?ks"
    unfolding g2_def g1(3) keys by blast+
  then have "dom (map_of (rg_sources g2)) = fst ` set ?ks" using g0(2) g1(2) by simp
  note g2 = g2(1) this g2(3)
  have "load_from_db h now (Some rows) (load_from_config h now keys new_registry) = g2"
    by (cases keys) (simp_all add: load_from_db_def load_from_config_def g0_def g1_def g2_def Let_def)
  then have "g = snd (backfill_pending h now (rows, g2))"
    using arg_cong [OF assms, of snd] by (simp add: start_registry_def)
  with same_access_backfill [of "(rows, g2)" h now] have same: "same_access g2 g" by simp
  with g2 all_on_access [OF same] show ?thesis by (simp add: same_access_def)
qed

text \<open>
  After a start a key is accepted exactly when its hash is that of an enabled row or of a
  configured key: the configured keys are accepted whatever the table says of them.
\<close>

theorem start_accepts_iff:
  "fst (authenticate h t key (start_registry h now keys rows)) \<noteq> None \<longleftrightarrow>
   h key \<in> sw_hash ` set (filter sw_enabled rows) \<or>
   h key \<in> h ` fst ` set (case keys of None \<Rightarrow> [] | Some ks \<Rightarrow> ks)"
proof -
  obtain rows' g where w: "start_registry h now keys rows = (rows', g)" by (cases "start_registry h now keys rows")
  from start_access [OF w [symmetric]] have a: "all_on g"
    and d: "dom (map_of (rg_sources g)) = fst ` set (case keys of None \<Rightarrow> [] | Some ks \<Rightarrow> ks)"
      "dom (map_of (by_hash g)) = sw_hash ` set (filter sw_enabled rows) \<union>
         h ` fst ` set (case keys of None \<Rightarrow> [] | Some ks \<Rightarrow> ks)" by blast+
  show ?thesis unfolding w authenticate_iff all_on_accepts [OF a] d by blast
qed

section \<open>Revocation\<close>

datatype registry_op = RegisterOp string string string | RevokeOp string string | AuthOp string | BackfillOp

fun registry_step ::
  "(string \<Rightarrow> string) \<Rightarrow> time \<Rightarrow> registry_op \<Rightarrow> source_row list \<times> source_registry \<Rightarrow>
   source_row list \<times> source_registry"
where
  "registry_step h now (RegisterOp key name stype) w = register_source h now key name stype w"
| "registry_step h now (RevokeOp key who) w = snd (revoke_source h now key who w)"
| "registry_step h now (AuthOp key) w = snd (authenticate h now key w)"
| "registry_step h now BackfillOp w = backfill_pending h now w"

definition registry_run ::
  "(string \<Rightarrow> string) \<Rightarrow> (time \<times> registry_op) list \<Rightarrow> source_row list \<times> source_registry \<Rightarrow>
   source_row list \<times> source_registry"
where
  "registry_run h ops w = fold (\<lambda>(now, op). registry_step h now op) ops w"

text \<open>The row of a hash is there and disabled; what the cache finds for a key is disabled.\<close>

definition rows_shut :: "string \<Rightarrow> source_row list \<Rightarrow> bool" where
  "rows_shut hk rows \<longleftrightarrow> hk \<in> sw_hash ` set rows \<and> (\<forall>r \<in> set rows. sw_hash r = hk \<longrightarrow> \<not> sw_enabled r)"

definition cache_shut :: "(string \<Rightarrow> string) \<Rightarrow> string \<Rightarrow> source_registry \<Rightarrow> bool" where
  "cache_shut h key g \<longleftrightarrow> valid g \<and>
     (\<forall>a. map_of (rg_sources g) key = Some a \<longrightarrow> \<not> ds_enabled (rg_objs g ! a)) \<and>
     (\<forall>a. map_of (by_hash g) (h key) = Some a \<longrightarrow> \<not> ds_enabled (rg_objs g ! a))"

lemma cache_shut_access: "same_access g g' \<Longrightarrow> cache_shut h key g' = cache_shut h key g"
  by (auto simp: cache_shut_def same_access_valid) (auto simp: same_access_def)

lemma cache_shut_refuses: "cache_shut h key g \<Longrightarrow> \<not> accepts h key g"
  by (auto simp: cache_shut_def accepts_def cached_def split: option.splits)

lemma row_with_None: "row_with hk rows = None \<longleftrightarrow> hk \<notin> sw_hash ` set rows"
  by (auto simp: row_with_def find_None_iff)

lemma rows_shut_off:
  assumes "hk \<in> sw_hash ` set rows" and "\<And>r. sw_hash (f r) = sw_hash r" and "\<And>r. \<not> sw_enabled (f r)"
  shows "rows_shut hk (alter_row hk f rows)"
proof -
  have "sw_hash (if sw_hash x = hk then f x else x) = sw_hash x" for x using assms(2) by simp
  then have "sw_hash ` set (alter_row hk f rows) = sw_hash ` set rows"
    by (simp only: alter_row_def set_map image_image)
  with assms show ?thesis by (auto simp: rows_shut_def alter_row_def split: if_splits)
qed

lemma rows_shut_alter:
  "(\<And>r. sw_hash (f r) = sw_hash r) \<Longrightarrow> (\<And>r. hk' = hk \<Longrightarrow> sw_enabled (f r) \<Longrightarrow> sw_enabled r) \<Longrightarrow>
   rows_shut hk rows \<Longrightarrow> rows_shut hk (alter_row hk' f rows)"
proof -
  assume f: "\<And>r. sw_hash (f r) = sw_hash r" and e: "\<And>r. hk' = hk \<Longrightarrow> sw_enabled (f r) \<Longrightarrow> sw_enabled r"
    and shut: "rows_shut hk rows"
  have "sw_hash (if sw_hash x = hk' then f x else x) = sw_hash x" for x using f by simp
  then have "sw_hash ` set (alter_row hk' f rows) = sw_hash ` set rows"
    by (simp only: alter_row_def set_map image_image)
  moreover have "\<not> sw_enabled r'" if "r' \<in> set (alter_row hk' f rows)" "sw_hash r' = hk" for r'
  proof -
    from that(1) obtain r where r: "r \<in> set rows" "r' = (if sw_hash r = hk' then f r else r)"
      by (auto simp: alter_row_def)
    with that(2) f have "sw_hash r = hk" by (auto split: if_splits)
    with r shut e [of r] that(2) f show ?thesis by (auto simp: rows_shut_def split: if_splits)
  qed
  ultimately show ?thesis using shut by (simp add: rows_shut_def)
qed

lemma rows_shut_add: "rows_shut hk rows \<Longrightarrow> sw_hash r \<noteq> hk \<Longrightarrow> rows_shut hk (rows @ [r])"
  by (auto simp: rows_shut_def)

lemma new_row_hash [simp]: "sw_hash (new_row now hk name stype on rows) = hk"
  by (simp add: new_row_def)

lemma rows_shut_backfill_one:
  assumes "rows_shut hk rows"
  shows "rows_shut hk (fst (backfill_one h now ka (rows, g)))"
proof -
  have "rows_shut hk (rows @ [new_row now hk' name stype on rows])" if "row_with hk' rows = None"
    for hk' name stype on
    using assms that by (auto simp: row_with_None rows_shut_def new_row_def)
  then show ?thesis using assms by (simp add: backfill_one_def Let_def split: option.split)
qed

lemma rows_shut_backfill: "rows_shut hk (fst w) \<Longrightarrow> rows_shut hk (fst (backfill_pending h now w))"
proof -
  have "rows_shut hk (fst w) \<Longrightarrow> rows_shut hk (fst (fold (backfill_one h now) kas w))" for kas
  proof (induction kas arbitrary: w)
    case (Cons ka kas)
    then show ?case
      using rows_shut_backfill_one [of hk "fst w" h now ka "snd w"] by simp
  qed simp
  then show "rows_shut hk (fst w) \<Longrightarrow> ?thesis" by (simp add: backfill_pending_def)
qed

lemma rows_shut_authenticate:
  "rows_shut hk (fst w) \<Longrightarrow> rows_shut hk (fst (snd (authenticate h now key w)))"
  by (cases w) (auto simp: authenticate_def Let_def refresh_stats_def intro: rows_shut_alter split: option.split)

lemma rows_shut_revoke: "rows_shut hk (fst w) \<Longrightarrow> rows_shut hk (fst (snd (revoke_source h now key who w)))"
  by (cases w) (auto simp: revoke_source_def Let_def intro!: rows_shut_alter)

lemma rows_shut_register:
  "rows_shut hk (fst w) \<Longrightarrow> h key \<noteq> hk \<Longrightarrow> rows_shut hk (fst (register_source h now key name stype w))"
  by (cases w) (auto simp: register_source_def Let_def alloc_def intro!: rows_shut_alter rows_shut_add
      split: option.split)

lemma valid_disable [simp]: "valid (disable_at a g) = valid g"
  by (simp add: disable_at_def split: option.split)

lemma disable_dicts [simp]:
  "rg_sources (disable_at a g) = rg_sources g" "by_hash (disable_at a g) = by_hash g"
  "length (rg_objs (disable_at a g)) = length (rg_objs g)"
  by (simp_all add: disable_at_def split: option.split)

lemma disable_keeps: "ds_enabled (rg_objs (disable_at a g) ! b) \<Longrightarrow> ds_enabled (rg_objs g ! b)"
  by (cases "the a < length (rg_objs g)")
    (auto simp: disable_at_def change_def nth_list_update list_update_beyond split: option.splits if_splits)

lemma disable_disables: "a < length (rg_objs g) \<Longrightarrow> \<not> ds_enabled (rg_objs (disable_at (Some a) g) ! a)"
  by (simp add: disable_at_def change_def)

lemma cache_shut_disable: "cache_shut h key g \<Longrightarrow> cache_shut h key (disable_at a g)"
  using disable_keeps [of a g] by (auto simp: cache_shut_def)

lemma valid_register: "valid (snd w) \<Longrightarrow> valid (snd (register_source h now key name stype w))"
  by (cases w) (auto simp: register_source_def Let_def alloc_def valid_def by_hash_def update_conv' less_Suc_eq
      split: option.splits prod.splits if_splits)

lemma cache_shut_register:
  assumes "cache_shut h key' (snd w)" and "h key \<noteq> h key'"
  shows "cache_shut h key' (snd (register_source h now key name stype w))"
proof -
  have "valid (snd w)" using assms(1) by (simp add: cache_shut_def)
  then have "valid (snd (register_source h now key name stype w))" by (rule valid_register)
  moreover have "key \<noteq> key'" using assms(2) by auto
  ultimately show ?thesis using assms
    by (cases w) (auto simp: cache_shut_def register_source_def Let_def alloc_def valid_def by_hash_def
        update_conv' nth_append split: option.splits prod.splits)
qed

lemma revoke_shuts:
  assumes "revoke_source h now key who (rows, g) = (True, rows', g')" and "valid g"
  shows "rows_shut (h key) rows' \<and> cache_shut h key g'"
proof -
  let ?g1 = "disable_at (map_of (by_hash g) (h key)) g"
  from assms(1) have "row_with (h key) rows \<noteq> None"
    and rows': "rows' = alter_row (h key) (\<lambda>r. r\<lparr>sw_enabled := False, sw_revoked_at := Some now, sw_revoked_by := who\<rparr>) rows"
    and g': "g' = disable_at (map_of (rg_sources g) key) ?g1"
    by (auto simp: revoke_source_def Let_def split: if_splits)
  then have "rows_shut (h key) rows'" by (simp add: rows_shut_off row_with_None)
  moreover have "\<not> ds_enabled (rg_objs g' ! a)" if "map_of (by_hash g) (h key) = Some a" for a
  proof -
    have "\<not> ds_enabled (rg_objs ?g1 ! a)"
      using that assms(2) disable_disables [of a g] by (auto simp: valid_def)
    with disable_keeps [of "map_of (rg_sources g) key" ?g1 a] show ?thesis by (auto simp: g')
  qed
  moreover have "\<not> ds_enabled (rg_objs g' ! a)" if "map_of (rg_sources g) key = Some a" for a
    using that assms(2) disable_disables [of a ?g1] by (auto simp: g' valid_def)
  ultimately show ?thesis using assms(2) by (simp add: cache_shut_def g')
qed

text \<open>Every step keeps the addresses in range; every step but a registration of its hash keeps a key out.\<close>

lemma valid_step: "valid (snd w) \<Longrightarrow> valid (snd (registry_step h now op w))"
proof (cases op)
  case (RegisterOp key name stype)
  then show "valid (snd w) \<Longrightarrow> ?thesis" by (simp add: valid_register)
next
  case (RevokeOp key who)
  then show "valid (snd w) \<Longrightarrow> ?thesis" by (cases w) (simp add: revoke_source_def Let_def)
next
  case (AuthOp key)
  then show "valid (snd w) \<Longrightarrow> ?thesis"
    using same_access_valid [OF same_access_authenticate [of "snd w" h now key "fst w"]] by simp
next
  case BackfillOp
  then show "valid (snd w) \<Longrightarrow> ?thesis" using same_access_valid [OF same_access_backfill [of w h now]] by simp
qed

lemma valid_run: "valid (snd w) \<Longrightarrow> valid (snd (registry_run h ops w))"
proof (induction ops arbitrary: w)
  case (Cons r ops)
  then have "valid (snd (registry_step h (fst r) (snd r) w))" by (simp add: valid_step)
  from Cons.IH [OF this] show ?case by (simp add: registry_run_def case_prod_unfold)
qed (simp add: registry_run_def)

definition keeps_shut :: "(string \<Rightarrow> string) \<Rightarrow> string \<Rightarrow> registry_op \<Rightarrow> bool" where
  "keeps_shut h key op \<longleftrightarrow> (case op of RegisterOp k name stype \<Rightarrow> h k \<noteq> h key | _ \<Rightarrow> True)"

lemma shut_step:
  assumes "rows_shut (h key) (fst w) \<and> cache_shut h key (snd w)" and "keeps_shut h key op"
  shows "rows_shut (h key) (fst (registry_step h now op w)) \<and> cache_shut h key (snd (registry_step h now op w))"
proof (cases op)
  case (RegisterOp k name stype)
  with assms show ?thesis by (simp add: keeps_shut_def rows_shut_register cache_shut_register)
next
  case (RevokeOp k who)
  with assms show ?thesis
    using rows_shut_revoke [of "h key" w h now k who] by (cases w) (simp add: revoke_source_def Let_def cache_shut_disable)
next
  case (AuthOp k)
  with assms show ?thesis
    using rows_shut_authenticate [of "h key" w h now k]
      cache_shut_access [OF same_access_authenticate [of "snd w" h now k "fst w"]] by simp
next
  case BackfillOp
  with assms show ?thesis
    using rows_shut_backfill [of "h key" w h now] cache_shut_access [OF same_access_backfill [of w h now]] by simp
qed

lemma shut_run:
  "rows_shut (h key) (fst w) \<and> cache_shut h key (snd w) \<Longrightarrow> list_all (\<lambda>r. keeps_shut h key (snd r)) ops \<Longrightarrow>
   rows_shut (h key) (fst (registry_run h ops w)) \<and> cache_shut h key (snd (registry_run h ops w))"
proof (induction ops arbitrary: w)
  case (Cons r ops)
  from shut_step [OF Cons.prems(1), of "snd r" "fst r"] Cons.prems(2)
  have "rows_shut (h key) (fst (registry_step h (fst r) (snd r) w)) \<and>
    cache_shut h key (snd (registry_step h (fst r) (snd r) w))" by simp
  from Cons.IH [OF this] Cons.prems(2) show ?case by (simp add: registry_run_def case_prod_unfold)
qed (simp add: registry_run_def)

text \<open>
  C35. Once a source is revoked its key is refused at every later time, whatever keys are registered,
  revoked and presented in between, as long as no key with its hash is registered again. After a
  restart it is still refused, unless a key with that hash stands in the configuration.
\<close>

theorem revoked_source_refused:
  assumes "revoke_source h now key who (registry_run h before (start_registry h t0 keys rows0)) = (True, w)"
    and "list_all (\<lambda>r. keeps_shut h key (snd r)) after"
  shows "fst (authenticate h t key (registry_run h after w)) = None \<and>
    (fst (authenticate h t key (start_registry h t1 keys' (fst (registry_run h after w)))) \<noteq> None \<longleftrightarrow>
       h key \<in> h ` fst ` set (case keys' of None \<Rightarrow> [] | Some ks \<Rightarrow> ks))"
proof -
  let ?w0 = "registry_run h before (start_registry h t0 keys rows0)" and ?w' = "registry_run h after w"
  obtain rs gs where st: "start_registry h t0 keys rows0 = (rs, gs)" by (cases "start_registry h t0 keys rows0")
  have "valid (snd (start_registry h t0 keys rows0))"
    using start_access [OF st [symmetric]] by (simp add: st all_on_def)
  then have "valid (snd ?w0)" by (rule valid_run)
  with revoke_shuts [of h now key who "fst ?w0" "snd ?w0" "fst w" "snd w"] assms(1)
  have "rows_shut (h key) (fst w) \<and> cache_shut h key (snd w)" by simp
  from shut_run [OF this assms(2)] have shut: "rows_shut (h key) (fst ?w')" "cache_shut h key (snd ?w')" by blast+
  have "h key \<notin> sw_hash ` set (filter sw_enabled (fst ?w'))" using shut(1) by (auto simp: rows_shut_def)
  moreover have "fst (authenticate h t key ?w') = None"
    using cache_shut_refuses [OF shut(2)] authenticate_iff [of h t key "fst ?w'" "snd ?w'"] by simp
  ultimately show ?thesis unfolding start_accepts_iff by blast
qed

section \<open>A concrete registry\<close>

text \<open>
  A key of the configuration and one that was registered, both revoked: neither is accepted any more,
  and the restart readmits the first.
\<close>

definition demo_revoking :: "source_row list \<times> source_registry" where
  "demo_revoking = registry_run id
     [(1, RegisterOp ''k-api'' ''gateway'' ''api''), (2, RevokeOp ''k-api'' ''admin'')]
     (start_registry id 0 (Some [(''k-syslog'', ''syslog'')]) [])"

lemma demo_revoked: "fst (revoke_source id 3 ''k-syslog'' ''admin'' demo_revoking)"
  by code_simp

lemma revoked_source_refused_witness:
  "\<exists>w. revoke_source id 3 ''k-syslog'' ''admin'' demo_revoking = (True, w) \<and>
     fst (authenticate id 5 ''k-syslog'' (registry_run id [(4, AuthOp ''k-syslog'')] w)) = None \<and>
     fst (authenticate id 5 ''k-syslog'' (start_registry id 4 None (fst (registry_run id [(4, AuthOp ''k-syslog'')] w)))) = None"
proof -
  obtain w where w: "revoke_source id 3 ''k-syslog'' ''admin'' demo_revoking = (True, w)"
    using demo_revoked by (metis prod.collapse)
  have go_on: "list_all (\<lambda>r. keeps_shut id ''k-syslog'' (snd r)) [(4, AuthOp ''k-syslog'')]"
    by (simp add: keeps_shut_def)
  from revoked_source_refused [OF w [unfolded demo_revoking_def] go_on, of 5 4 None] w show ?thesis by auto
qed

text \<open>
  The table is said to be the authority and a revocation to survive a restart: a revoked key that
  stands in the configuration is accepted again after one.
\<close>

theorem restart_readmits_configured_key:
  assumes "key \<in> fst ` set ks"
  shows "fst (authenticate h t key (start_registry h now (Some ks) rows)) \<noteq> None"
  unfolding start_accepts_iff using assms by auto

lemma restart_readmits_configured_key_witness:
  "fst (authenticate id 5 ''k-syslog'' (start_registry id 4 (Some [(''k-syslog'', ''syslog'')])
     (fst (snd (revoke_source id 3 ''k-syslog'' ''admin'' demo_revoking))))) \<noteq> None"
  by (rule restart_readmits_configured_key) simp

text \<open>A registered source is counted twice, once in each dict.\<close>

lemma sources_counted_twice:
  "rs_registered (registry_stats_of (snd (register_source h now key name stype (rows, new_registry)))) = 2"
  by (simp add: registry_stats_of_def register_source_def Let_def alloc_def new_registry_def by_hash_def
      split: prod.split option.split)

end
