(* ===== verification/Spec2Isabelle.thy ===== *)
theory Spec2Isabelle
  imports McpApproval Iptables ResponseActions ApprovalPolling McpGuard FaithfulnessGate LlmLimiter EventBus FieldCipher CaseRuns SlidingWindow CadSupervisor AuthTokens AuditWorker SourceRegistry
begin

text \<open>
  \<^bold>\<open>A verification development for the security audit and response platform\<close>

  The program receives security events, has language models audit them, and answers confirmed
  threats with actions on hosts.  Its core is a chain of deterministic components that decide
  what the models and the actions may do; this development models that chain.  An event passes

    \<^item> the triage (\<open>backend/audit_triage.py\<close>), which chooses the lane of its audit;
    \<^item> the audit by models, which is outside of the model, and which calls tools only through the
      gateway (\<open>backend/mcp_guard/\<close>): registry, role table, validator, rules and the
      detector of unusual calls;
    \<^item> the veto gates (\<open>backend/veto_gates.py\<close>) and the faithfulness gate
      (\<open>backend/faithfulness_gate.py\<close>), which decide what of the models' answer stands;
    \<^item> the policy engine (\<open>backend/response_engine/response_policies.py\<close>), which chooses
      a response to a confirmed threat;
    \<^item> the orchestrator (\<open>response_orchestrator.py\<close>), which executes a decision or opens a
      ticket for a human (\<open>human_approval.py\<close>), polls the ticket and executes what was
      approved, every execution behind the security guard (\<open>backend/security_guard/\<close>);
    \<^item> the executor (\<open>response_executor.py\<close>), which runs the registered actions
      (\<open>response_registry.py\<close>) and can roll a batch back;
    \<^item> the safe executor (\<open>safe_executor.py\<close>), the command whitelist, the asset
      whitelist, the execution modes, the firewall adapter (\<open>ssh_firewall.py\<close>), the
      post validator and the automatic undoing (\<open>ttl_manager.py\<close>), which end at the host.

  Beside this chain stand the services it uses: the gate of the calls to language models
  (\<open>llm_limiter.py\<close>), the window of recent messages (\<open>sliding_window.py\<close>), the bus to
  the browsers (\<open>event_bus.py\<close>), the cipher of the messages between processes
  (\<open>field_cipher.py\<close>), the cases and work orders of the operators
  (\<open>case_manager.py\<close>, \<open>work_order_service.py\<close>), the supervisor of finished audits
  (\<open>cad.py\<close>, \<open>agents/agent_cad.py\<close>), the workers that run the audits and the queue where
  audits wait for them (\<open>audit_worker.py\<close>, \<open>audit_pq.py\<close>), and, in front of everything,
  the guards of the web API (\<open>http_guards.py\<close>, \<open>app.py\<close>) and its sign-in
  (\<open>auth.py\<close>, \<open>routers/auth.py\<close>, \<open>user_store.py\<close>).

  All file names are below \<open>src/backend/\<close>.
\<close>

subsection \<open>Theories and the code they model\<close>

text \<open>
  Vocabulary:

    \<^item> \<open>Prelude\<close>: clock readings, Python's text operations, scalar values, the events in the
      last seconds; \<open>Actions\<close>: the action dict; \<open>Json\<close>: parsed JSON.
    \<^item> \<open>Regex\<close>: the regular expressions of the whitelists, matched by derivatives, with the
      proof that the matcher decides the language; \<open>IpAddress\<close>: what the code uses of Python's
      \<open>ipaddress\<close>: parsing, printing and membership in a network.

  Security guard (\<open>security_guard/\<close>):

    \<^item> \<open>CheckResult\<close> (the record and the locale \<open>guard_checker\<close> the checkers share),
      \<open>IntentChecker\<close>, \<open>SequenceGuard\<close>, \<open>RateLimiter\<close> (an instance of the
      locale \<open>admission\<close> of \<open>Admission\<close>), \<open>ContextManager\<close>, and
      \<open>SecurityGuard\<close>, which composes them as \<open>inspect\<close> does.

  Response engine (\<open>response_engine/\<close>):

    \<^item> \<open>PolicyEngine\<close> (\<open>response_policies.py\<close>): policies, matching, cooldowns, decision.
    \<^item> \<open>DecisionQueue\<close>: the locale of a queue of tickets; \<open>HumanApproval\<close>
      (\<open>human_approval.py\<close>, \<open>security_crypto.py\<close>) is one of its instances.
    \<^item> \<open>Orchestrator\<close>, \<open>OrchestratorSafety\<close>, \<open>OrchestratorRuns\<close>,
      \<open>ApprovalPolling\<close> (\<open>response_orchestrator.py\<close>): the handlers; what one handler
      guarantees; runs of handlers, polling turns, humans and rollbacks in any order with their
      invariant; the polling loop.
    \<^item> \<open>ResponseExecutor\<close> (\<open>response_executor.py\<close>), \<open>ResponseRegistry\<close> and
      \<open>ResponseActions\<close> (\<open>response_registry.py\<close>, \<open>preview.py\<close>).
    \<^item> \<open>SafeExecutor\<close>, \<open>CommandWhitelist\<close>, \<open>AssetWhitelist\<close>,
      \<open>ExecutionModes\<close>, \<open>PostValidator\<close>: the files of these names.
    \<^item> \<open>SshFirewall\<close>, \<open>FirewallDns\<close> (\<open>ssh_firewall.py\<close>), and \<open>Iptables\<close>,
      the locale \<open>iptables_host\<close> of what the adapter relies on of the remote
      \<open>iptables\<close>.
    \<^item> \<open>RedisService\<close> (the locale \<open>redis_service\<close>) and \<open>TtlManager\<close>
      (\<open>ttl_manager.py\<close>, locale \<open>ttl_store\<close>).

  Tool gateway (\<open>mcp_guard/\<close>):

    \<^item> \<open>McpTools\<close>: the registry, the role table, the argument models, the rules
      (\<open>tool_registry.py\<close>, \<open>permission_manager.py\<close>, \<open>validator.py\<close>,
      \<open>policy_engine.py\<close>); \<open>CallRecord\<close> (\<open>call_record.py\<close>);
      \<open>ToolSignature\<close> (\<open>behavior_signature.py\<close>); \<open>BehaviorDetector\<close>
      (\<open>behavior_detector.py\<close>); \<open>McpApproval\<close> (\<open>approval_queue.py\<close>, the
      second instance of \<open>decision_queue\<close>); \<open>McpGuard\<close> (\<open>guard_server.py\<close>).

  Audit gates: \<open>VetoGates\<close>, \<open>AuditTriage\<close>, \<open>FaithfulnessGate\<close>, and
  \<open>CadSupervisor\<close> (\<open>cad.py\<close>, \<open>agents/agent_cad.py\<close>).

  Audit workers:

    \<^item> \<open>AuditQueue\<close> (\<open>audit_pq.py\<close>): the queue on the server, over the locale
      \<open>queue_store\<close> of a store of values with an expiry and one scored set.
    \<^item> \<open>AuditWorker\<close> (\<open>audit_worker.py\<close>): the pool, its queue in memory, its own list, and
      runs of submissions, workers, ends of audits and cancellations in any order.

  Web API:

    \<^item> \<open>HttpGuards\<close> (\<open>http_guards.py\<close>, the rate limit of \<open>app.py\<close>): which requests
      count, the limiter (bounded by the locale \<open>admission\<close>), the allow list of sources.
    \<^item> \<open>AuthTokens\<close> (\<open>auth.py\<close>, \<open>routers/auth.py\<close>, \<open>user_store.py\<close>, the
      middleware of \<open>app.py\<close>): tokens and their revocation, users, sign-in and registration, and
      runs of them.
    \<^item> \<open>SourceRegistry\<close> (\<open>source_registry.py\<close>, the start in \<open>app.py\<close>): the
      sources that may send logs, cached in two dicts over shared objects, and their table.

  Services and operations:

    \<^item> \<open>LlmLimiter\<close>: the gate and the step relation of the tasks inside and waiting.
    \<^item> \<open>EventBus\<close> (\<open>event_bus.py\<close> and the stream of \<open>routers/chat.py\<close>): history,
      queues, the bridge between processes, the replay after a reconnection.
    \<^item> \<open>FieldCipher\<close>: encryption of the sensitive fields of a message.
    \<^item> \<open>SlidingWindow\<close>: the locale \<open>fifo_store\<close> of a storage of lists and its extension
      \<open>ranged_store\<close>; the program's in-memory storage is an instance of the first only, a
      list server of both.
    \<^item> \<open>Cases\<close> (\<open>case_manager.py\<close>, \<open>work_order_service.py\<close>) and \<open>CaseRuns\<close>:
      the operations over the three tables; runs of operations in any order.

  Classes and dataclasses are records, their fields under the names of the code; methods are
  functions that take and return the record.  Enumerations are datatypes or the strings the code
  compares.
\<close>

subsection \<open>What the theorems show\<close>

text \<open>
    \<^item> What reaches a host: a change of the host has passed every gate of the safe executor in
      live mode; a command whitelisted for Linux is one of six programs and holds no shell syntax
      but white space and quotes; configured assets are protected.
    \<^item> Who decides: nothing a detection executes at once is critical, with one exception on the
      alert-only track (\<open>alert_track_runs_isolation\<close>); tickets recorded as executed at once
      hold no critical action in any reachable state, for policies that name an action by one key; a
      ticket executes only when it is approved, is approved at most once, and holds what was
      submitted; the guard lets an action through exactly when it is proportionate and within every
      bound; the rate limits hold in every window.
    \<^item> Undoing: a rolled-back batch restores the state when each undo, called with the parameters
      the action has by itself, reverses what it did with those filled in from the context; the
      rollback by numbered listings removes exactly the rules of an id, so that block and rollback
      restore the chains; a rule is undone by the scan exactly when it is read in time.
    \<^item> Policies: a chosen policy is enabled, above its thresholds and not cooling down, and the
      uncertain template, whose thresholds nothing compares, answers only what no policy is for; one
      response per address and window; high-impact responses ask for approval.
    \<^item> Gateway: a tool runs only when all checks allow it; the detector only raises a decision;
      its state invariant, its bounds and the exactness of its running statistics; a ticket of the
      gateway is approved at most once.
    \<^item> Audit: merged rounds confirm a threat exactly when one round had the model's report, an
      admitted claim and a detector's signal; severities stay within the limits of the event; every
      claim is admitted or discarded once; the top tier always keeps a model; an unfaithful audit
      is not left confirmed; audits that cite only existing events never trip the supervisor's
      breaker.
    \<^item> Services: the gate keeps its bounds and its reserve in every reachable state; a browser
      that returns in time misses nothing; an encrypted message is read back; no message leaves the
      window unrecorded, and over a list server every call ends with a window that is current.
    \<^item> Operations: the status of a case moves only along the transitions, except by the approval of
      a work order, and exactly such an approval reopens a closed case; an automatically resolved case is resolved and has no open order.
    \<^item> Audit workers: a job that can be read is in the queue until it is popped, unless an enqueue
      with a much shorter expiry ends the set before it (\<open>short_expiry_loses_job\<close>); an audit of
      the upper tiers is in memory, on the server, with the broker or in the pool's list; of any three audits a worker takes, one is from the queue in
      memory if that holds any.
    \<^item> Web API: no bucket of requests exceeds its limit in any window; a revoked token is refused for
      good within the process, and so is the key of a revoked source, but a restart readmits one that
      stands in the configuration (\<open>restart_readmits_configured_key\<close>); only the
      administrator's own password gives the administrator's role.

  Where the code does not do what it means to, the behaviour is a theorem as well, for example
  \<open>approved_ticket_runs_twice\<close>, \<open>approved_containment_never_runs\<close>,
  \<open>sinkhole_injection\<close>, \<open>policy_block_cannot_be_rolled_back\<close>,
  \<open>containment_tools_never_run\<close>,
  \<open>insufficient_rounds_merge_to_false_positive\<close>, \<open>approval_reopens_closed_case\<close>,
  \<open>alert_track_runs_isolation\<close>, \<open>short_expiry_loses_job\<close>,
  \<open>deque_window_never_expires\<close>, \<open>resume_gap_called_complete\<close>,
  \<open>bridged_repeat_lost\<close>, \<open>marked_text_sent_in_clear\<close>, \<open>login_never_locked\<close>,
  \<open>new_keys_never_refused\<close>, \<open>cancelled_worker_never_returns\<close>.
\<close>

subsection \<open>Conventions\<close>

text \<open>
    \<^item> Clock readings and floats are rationals: rounding, infinities and NaN are left out.
    \<^item> Texts are strings of ASCII characters.  Chinese messages are constructors carrying the
      values the message interpolates, or English words where nothing reads them.
    \<^item> Dicts are association lists where the order or a later deletion is seen, maps otherwise.
    \<^item> An exception is the left side of a sum or \<open>None\<close>; early returns are branches.
    \<^item> The clock, random ids, hashes and HMACs, settings, Redis, SSH, the transport, Pydantic's
      conversions and the models' answers are parameters; what is relied on of Redis and of
      \<open>iptables\<close> is a locale, interpreted on an executable instance.
    \<^item> Logging, telemetry, metrics and durations are write-only and left out.
    \<^item> No definition uses fuel.  The loops of the code run over finite lists, except the polling
      of a ticket, modelled on the list of its turns, for which \<open>polling_ends_iff\<close> states
      when it ends, and the eviction by time of the window, a partial function that
      \<open>redis_window_current\<close> shows to end over every storage with the laws of a list server.
    \<^item> A handler is one step; the \<open>await\<close> points that matter (a ticket's polling between
      other handlers) are separate steps of the runs.
\<close>

subsection \<open>Not modelled\<close>

text \<open>
    \<^item> The agents, their prompts and the parsing of the models' answers: their output is an input
      of the veto gates.
    \<^item> Ingestion, Kafka, workflows, the routes of the web API other than sign-in and most database
      tables: they move the values the components here decide about.
    \<^item> The detectors that produce signals (Sigma rules, statistics, correlation, traffic capture,
      phishing, threat intelligence) and the grounding verifier: heuristics over third-party
      libraries, models and keyword tables; their results are inputs.
    \<^item> The knowledge base, the memory tree and context compression, self play and rule learning,
      observability, reports and schedules: no decision modelled here reads their state.
    \<^item> Of the response engine: the threat taxonomy, the policy store, the response log, the
      transport and the adapters to account, endpoint, mail and cloud services.
    \<^item> Of modelled components: the background task around the TTL scan, connection set-up of the
      firewall adapter, the parallel mode of the executor, which nothing calls, the dict forms
      for persistence of call records and fingerprints, of cases the queries of the response log,
      the timeline, the post-mortem draft and the feedback record, and of the supervisor the scan
      of prompts and settings for risky words.
\<close>

end
